(* ===== verification/Go_Prelude.thy ===== *)
theory Go_Prelude
  imports Main "HOL-Library.Multiset" "HOL-Library.Word" "HOL-Library.Char_ord"
    "HOL-Library.List_Lexorder" "HOL-Library.Product_Lexorder"
begin

text \<open>
  What every component of usaged takes from Go itself: byte strings with the operations of
  package \<open>strings\<close> that the sources call, decimal and hexadecimal printing as \<open>fmt\<close> does it,
  and UTF-8 rune counting as \<open>unicode/utf8\<close> does it.

  A Go \<open>string\<close> is a sequence of bytes, and so is a value of type \<open>string\<close> here (a list of
  \<open>char\<close>, one \<open>char\<close> per byte); \<open>length\<close> is Go's \<open>len\<close>.  \<open>int\<close> and \<open>int64\<close> values are
  mathematical integers: every quantity of that type in the modelled code (percentages, unix
  seconds, token counts, cents) stays far below \<open>2 ^ 63\<close>.  Quantities of 8, 16 and 32 bits
  are words of that width.
\<close>

named_theorems go_defs \<open>definitions a component unfolds in its own proofs\<close>
named_theorems go_spec \<open>functional specifications other components rewrite with\<close>

type_synonym byte = "8 word"
type_synonym bytes = "8 word list"

subsection \<open>Results\<close>

text \<open>A Go result \<open>(T, error)\<close> is a value of \<open>'e + 'a\<close>: \<open>Inl\<close> for a non-nil error.\<close>

definition bind_result :: "'e + 'a \<Rightarrow> ('a \<Rightarrow> 'e + 'b) \<Rightarrow> 'e + 'b" where
  "bind_result r f = (case r of Inl e \<Rightarrow> Inl e | Inr x \<Rightarrow> f x)"

lemma bind_result_simps [simp]:
  "bind_result (Inl e) f = Inl e"
  "bind_result (Inr x) f = f x"
  by (simp_all add: bind_result_def)

lemma bind_result_Inr_iff:
  "bind_result r f = Inr y \<longleftrightarrow> (\<exists>x. r = Inr x \<and> f x = Inr y)"
  by (cases r) auto

subsection \<open>Bytes and characters\<close>

definition byte_of :: "char \<Rightarrow> byte" where
  "byte_of c = word_of_nat (of_char c)"

definition char_of_byte :: "byte \<Rightarrow> char" where
  "char_of_byte w = char_of (unat w)"

definition to_bytes :: "string \<Rightarrow> bytes" where
  "to_bytes s = map byte_of s"

definition of_bytes :: "bytes \<Rightarrow> string" where
  "of_bytes bs = map char_of_byte bs"

lemma unat_byte_of [simp]: "unat (byte_of c) = of_char c"
  by (simp add: byte_of_def unat_of_nat take_bit_eq_mod)

lemma char_of_byte_of [simp]: "char_of_byte (byte_of c) = c"
  by (simp add: char_of_byte_def)

lemma byte_of_char_of_byte [simp]: "byte_of (char_of_byte w) = w"
proof -
  have "unat w < 256" using unsigned_less [of w, where 'a = nat] by simp
  then have "(of_char (char_of (unat w) :: char) :: nat) = unat w"
    by (simp add: of_char_of)
  then show ?thesis by (simp add: byte_of_def char_of_byte_def)
qed

lemma of_bytes_to_bytes [simp]: "of_bytes (to_bytes s) = s"
  by (induction s) (simp_all add: of_bytes_def to_bytes_def)

lemma to_bytes_of_bytes [simp]: "to_bytes (of_bytes bs) = bs"
  by (induction bs) (simp_all add: of_bytes_def to_bytes_def)

lemma length_to_bytes [simp]: "length (to_bytes s) = length s"
  by (simp add: to_bytes_def)

lemma length_of_bytes [simp]: "length (of_bytes bs) = length bs"
  by (simp add: of_bytes_def)

lemma to_bytes_append [simp]: "to_bytes (s @ t) = to_bytes s @ to_bytes t"
  by (simp add: to_bytes_def)

lemma to_bytes_Nil [simp]: "to_bytes [] = []"
  by (simp add: to_bytes_def)

lemma to_bytes_eq_Nil_iff [simp]: "to_bytes s = [] \<longleftrightarrow> s = []"
  by (simp add: to_bytes_def)

lemma to_bytes_inject [simp]: "to_bytes s = to_bytes t \<longleftrightarrow> s = t"
  by (metis of_bytes_to_bytes)

subsection \<open>Package strings\<close>

definition has_prefix :: "string \<Rightarrow> string \<Rightarrow> bool" where
  "has_prefix s p \<longleftrightarrow> take (length p) s = p"

definition has_suffix :: "string \<Rightarrow> string \<Rightarrow> bool" where
  "has_suffix s p \<longleftrightarrow> length p \<le> length s \<and> drop (length s - length p) s = p"

definition trim_prefix :: "string \<Rightarrow> string \<Rightarrow> string" where
  "trim_prefix s p = (if has_prefix s p then drop (length p) s else s)"

definition trim_suffix :: "string \<Rightarrow> string \<Rightarrow> string" where
  "trim_suffix s p = (if has_suffix s p then take (length s - length p) s else s)"

fun str_contains :: "string \<Rightarrow> string \<Rightarrow> bool" where
  "str_contains [] p \<longleftrightarrow> p = []"
| "str_contains (c # cs) p \<longleftrightarrow> has_prefix (c # cs) p \<or> str_contains cs p"

text \<open>\<open>strings.Split\<close> with a one-byte separator; the result is never empty.\<close>

fun split_char :: "char \<Rightarrow> string \<Rightarrow> string list" where
  "split_char sep [] = [[]]"
| "split_char sep (c # cs) =
     (if c = sep then [] # split_char sep cs
      else (case split_char sep cs of [] \<Rightarrow> [[c]] | w # ws \<Rightarrow> (c # w) # ws))"

fun join_char :: "char \<Rightarrow> string list \<Rightarrow> string" where
  "join_char sep [] = []"
| "join_char sep [w] = w"
| "join_char sep (w # ws) = w @ sep # join_char sep ws"

lemma split_char_not_Nil [simp]: "split_char sep s \<noteq> []"
  by (induction s) (auto split: list.splits)

lemma join_split_char: "join_char sep (split_char sep s) = s"
proof (induction s)
  case Nil
  then show ?case by simp
next
  case (Cons c s)
  obtain w ws where w: "split_char sep s = w # ws"
    using split_char_not_Nil [of sep s] by (cases "split_char sep s") auto
  show ?case
    using Cons w by (cases ws) auto
qed

lemma split_char_free: "sep \<notin> set s \<Longrightarrow> split_char sep s = [s]"
  by (induction s) auto

lemma split_char_append_sep:
  "sep \<notin> set s \<Longrightarrow> split_char sep (s @ sep # t) = s # split_char sep t"
  by (induction s) auto

lemma split_join_char:
  "ws \<noteq> [] \<Longrightarrow> (\<forall>w \<in> set ws. sep \<notin> set w) \<Longrightarrow> split_char sep (join_char sep ws) = ws"
proof (induction sep ws rule: join_char.induct)
  case (3 sep w v vs)
  then show ?case by (simp add: split_char_append_sep)
qed (simp_all add: split_char_free)

text \<open>ASCII case folding, which is what \<open>strings.ToLower\<close> does to an all-ASCII string.\<close>

definition lower_char :: "char \<Rightarrow> char" where
  "lower_char c = (let n = of_char c :: nat in
     if 65 \<le> n \<and> n \<le> 90 then char_of (n + 32) else c)"

definition upper_char :: "char \<Rightarrow> char" where
  "upper_char c = (let n = of_char c :: nat in
     if 97 \<le> n \<and> n \<le> 122 then char_of (n - 32) else c)"

definition ascii :: "string \<Rightarrow> bool" where
  "ascii s \<longleftrightarrow> (\<forall>c \<in> set s. (of_char c :: nat) < 128)"

subsection \<open>UTF-8\<close>

text \<open>
  \<open>rune_size\<close> is the width \<open>utf8.DecodeRune\<close> reports for the first rune: one byte for ASCII
  and for every invalid sequence, otherwise the width of the well-formed sequence, with the
  accept ranges of the second byte that rule out overlong forms and surrogates.
\<close>

definition cont_byte :: "nat \<Rightarrow> bool" where
  "cont_byte b \<longleftrightarrow> 0x80 \<le> b \<and> b \<le> 0xBF"

definition rune_size_nat :: "nat list \<Rightarrow> nat" where
  "rune_size_nat bs = (case bs of
     [] \<Rightarrow> 0
   | b0 # r \<Rightarrow>
      if 0xC2 \<le> b0 \<and> b0 \<le> 0xDF then
        (case r of b1 # _ \<Rightarrow> if cont_byte b1 then 2 else 1 | _ \<Rightarrow> 1)
      else if 0xE0 \<le> b0 \<and> b0 \<le> 0xEF then
        (case r of b1 # b2 # _ \<Rightarrow>
           if (if b0 = 0xE0 then 0xA0 \<le> b1 \<and> b1 \<le> 0xBF
               else if b0 = 0xED then 0x80 \<le> b1 \<and> b1 \<le> 0x9F else cont_byte b1) \<and> cont_byte b2
           then 3 else 1
         | _ \<Rightarrow> 1)
      else if 0xF0 \<le> b0 \<and> b0 \<le> 0xF4 then
        (case r of b1 # b2 # b3 # _ \<Rightarrow>
           if (if b0 = 0xF0 then 0x90 \<le> b1 \<and> b1 \<le> 0xBF
               else if b0 = 0xF4 then 0x80 \<le> b1 \<and> b1 \<le> 0x8F else cont_byte b1)
              \<and> cont_byte b2 \<and> cont_byte b3
           then 4 else 1
         | _ \<Rightarrow> 1)
      else 1)"

definition rune_size :: "string \<Rightarrow> nat" where
  "rune_size s = rune_size_nat (map of_char (take 4 s))"

lemma rune_size_Nil [simp]: "rune_size [] = 0"
  by (simp add: rune_size_def rune_size_nat_def)

lemma rune_size_pos: "s \<noteq> [] \<Longrightarrow> 0 < rune_size s"
  by (cases s) (auto simp: rune_size_def rune_size_nat_def split: list.splits)

lemma rune_size_ascii: "(of_char c :: nat) < 128 \<Longrightarrow> rune_size (c # cs) = 1"
  by (simp add: rune_size_def rune_size_nat_def)

function rune_count :: "string \<Rightarrow> nat" where
  "rune_count s = (if s = [] then 0 else Suc (rune_count (drop (rune_size s) s)))"
  by pat_completeness auto
termination
  by (relation "measure length") (auto simp: rune_size_pos)

declare rune_count.simps [simp del]

lemma rune_count_Nil [simp]: "rune_count [] = 0"
  by (simp add: rune_count.simps)

lemma rune_count_le_length: "rune_count s \<le> length s"
proof (induction s rule: rune_count.induct)
  case (1 s)
  show ?case
  proof (cases "s = []")
    case True
    then show ?thesis by simp
  next
    case False
    then have "rune_count s = Suc (rune_count (drop (rune_size s) s))"
      by (simp add: rune_count.simps [of s])
    also have "\<dots> \<le> Suc (length (drop (rune_size s) s))"
      using 1 False by simp
    also have "\<dots> \<le> length s"
      using rune_size_pos [OF False] False by (cases s) auto
    finally show ?thesis .
  qed
qed

lemma rune_count_ascii: "ascii s \<Longrightarrow> rune_count s = length s"
proof (induction s)
  case (Cons c s)
  then show ?case
    by (simp add: rune_count.simps [of "c # s"] rune_size_ascii ascii_def)
qed simp

text \<open>\<open>strings.ToUpper\<close>: ASCII letter by letter, anything else by the parameter.\<close>

definition to_upper :: "(string \<Rightarrow> string) \<Rightarrow> string \<Rightarrow> string" where
  "to_upper upper s = (if ascii s then map upper_char s else upper s)"

text \<open>\<open>strings.ReplaceAll\<close> of a non-empty string.\<close>

function replace_all :: "string \<Rightarrow> string \<Rightarrow> string \<Rightarrow> string" where
  "replace_all a b [] = []"
| "replace_all a b (c # cs) =
     (if a \<noteq> [] \<and> has_prefix (c # cs) a then b @ replace_all a b (drop (length a) (c # cs))
      else c # replace_all a b cs)"
  by pat_completeness auto

termination
proof (relation "measure (\<lambda>(a, b, s). length s)", goal_cases)
  case (2 a b c cs)
  then show ?case by (cases a) auto
qed auto

declare replace_all.simps(2) [simp del]

lemma replace_all_none: "\<not> str_contains s a \<Longrightarrow> replace_all a b s = s"
  by (induction s) (auto simp: replace_all.simps(2))

text \<open>
  \<open>strings.TrimSpace\<close> removes leading and trailing Unicode white space; the byte length of a
  white-space rune at the front of a string is \<open>space_len\<close> (0 for none).
\<close>

definition space_seqs :: "nat list list" where
  "space_seqs =
     [[9], [10], [11], [12], [13], [32], [0xC2, 0x85], [0xC2, 0xA0], [0xE1, 0x9A, 0x80]] @
     map (\<lambda>i. [0xE2, 0x80, i]) ([0x80..<0x8B] @ [0xA8, 0xA9, 0xAF]) @
     [[0xE2, 0x81, 0x9F], [0xE3, 0x80, 0x80]]"

definition space_len :: "nat list list \<Rightarrow> string \<Rightarrow> nat" where
  "space_len seqs s =
     (case filter (\<lambda>q. take (length q) (map of_char s) = q) seqs of [] \<Rightarrow> 0 | q # _ \<Rightarrow> length q)"

function trim_left_by :: "nat list list \<Rightarrow> string \<Rightarrow> string" where
  "trim_left_by seqs s =
     (if s = [] \<or> space_len seqs s = 0 then s else trim_left_by seqs (drop (space_len seqs s) s))"
  by pat_completeness auto
termination
  by (relation "measure (\<lambda>(q, s). length s)") auto

declare trim_left_by.simps [simp del]

definition trim_space :: "string \<Rightarrow> string" where
  "trim_space s =
     rev (trim_left_by (map rev space_seqs) (rev (trim_left_by space_seqs s)))"

lemma space_len_none:
  "(\<forall>q \<in> set seqs. q \<noteq> [] \<and> hd q \<noteq> of_char c) \<Longrightarrow> space_len seqs (c # s) = 0"
proof -
  assume a: "\<forall>q \<in> set seqs. q \<noteq> [] \<and> hd q \<noteq> (of_char c :: nat)"
  have "take (length q) (map of_char (c # s)) \<noteq> q" if "q \<in> set seqs" for q
    using a that by (cases q) auto
  then show ?thesis by (simp add: space_len_def filter_False)
qed

text \<open>A string that starts and ends with a graphic ASCII character has no space to trim.\<close>

definition graphic :: "char \<Rightarrow> bool" where
  "graphic c \<longleftrightarrow> (33 :: nat) \<le> of_char c \<and> of_char c \<le> (126 :: nat)"

lemma trim_left_graphic:
  assumes "s = [] \<or> graphic (hd s)"
  shows "trim_left_by space_seqs s = s" "trim_left_by (map rev space_seqs) s = s"
proof -
  have "\<forall>q \<in> set space_seqs. q \<noteq> [] \<and> hd q \<notin> {33..126} \<and> last q \<notin> {33..126}"
    by (simp add: space_seqs_def upt_conv_Cons)
  then have none: "graphic c \<Longrightarrow> space_len space_seqs (c # t) = 0"
    "graphic c \<Longrightarrow> space_len (map rev space_seqs) (c # t) = 0" for c t
    by (force simp: graphic_def hd_rev intro!: space_len_none)+
  show "trim_left_by space_seqs s = s" "trim_left_by (map rev space_seqs) s = s"
    using assms none by (cases s; subst trim_left_by.simps; simp)+
qed

lemma trim_left_space: "trim_left_by space_seqs (CHR '' '' # s) = trim_left_by space_seqs s"
proof -
  have "filter (\<lambda>q. take (length q) (map of_char (CHR '' '' # s)) = q) space_seqs = [[32]]"
    by (simp add: space_seqs_def upt_conv_Cons)
  then show ?thesis by (subst trim_left_by.simps) (simp add: space_len_def)
qed

lemma trim_space_graphic:
  assumes "s = [] \<or> graphic (hd s) \<and> graphic (last s)"
  shows "trim_space s = s" "trim_space (CHR '' '' # s) = s"
proof -
  have "rev s = [] \<or> graphic (hd (rev s))" using assms by (auto simp: hd_rev)
  then show "trim_space s = s" "trim_space (CHR '' '' # s) = s"
    using assms by (auto simp: trim_space_def trim_left_space trim_left_graphic)
qed

fun trim_left_char :: "char \<Rightarrow> string \<Rightarrow> string" where
  "trim_left_char c s = dropWhile (\<lambda>d. d = c) s"

definition trim_right_char :: "char \<Rightarrow> string \<Rightarrow> string" where
  "trim_right_char c s = rev (dropWhile (\<lambda>d. d = c) (rev s))"

subsection \<open>Printing numbers\<close>

definition digit_char :: "nat \<Rightarrow> char" where
  "digit_char d = char_of (48 + d)"

definition hex_char :: "nat \<Rightarrow> char" where
  "hex_char d = (if d < 10 then char_of (48 + d) else char_of (87 + d))"

text \<open>\<open>%d\<close> on a natural number and on an integer.\<close>

fun show_nat :: "nat \<Rightarrow> string" where
  "show_nat n = (if n < 10 then [digit_char n] else show_nat (n div 10) @ [digit_char (n mod 10)])"

declare show_nat.simps [simp del]

definition show_int :: "int \<Rightarrow> string" where
  "show_int i = (if i < 0 then CHR ''-'' # show_nat (nat (- i)) else show_nat (nat i))"

text \<open>\<open>%02d\<close> on a non-negative number below 100.\<close>

definition show_nat2 :: "nat \<Rightarrow> string" where
  "show_nat2 n = (if n < 10 then CHR ''0'' # show_nat n else show_nat n)"

text \<open>\<open>%02x\<close> on a byte.\<close>

definition hex_byte :: "byte \<Rightarrow> string" where
  "hex_byte w = [hex_char (unat w div 16), hex_char (unat w mod 16)]"

lemma show_nat_not_Nil [simp]: "show_nat n \<noteq> []"
  by (subst show_nat.simps) simp

lemma digit_char_eq_iff: "a < 10 \<Longrightarrow> b < 10 \<Longrightarrow> digit_char a = digit_char b \<longleftrightarrow> a = b"
proof -
  assume "a < 10" "b < 10"
  then have "(of_char (digit_char a) :: nat) = 48 + a" "(of_char (digit_char b) :: nat) = 48 + b"
    by (simp_all add: digit_char_def of_char_of)
  then show ?thesis by (metis add_left_cancel)
qed

text \<open>Reading a decimal number back, as \<open>strconv.Atoi\<close> does on a string of digits.\<close>

definition digit_val :: "char \<Rightarrow> nat option" where
  "digit_val c = (let n = of_char c :: nat in if 48 \<le> n \<and> n \<le> 57 then Some (n - 48) else None)"

fun read_digits :: "nat \<Rightarrow> string \<Rightarrow> nat option" where
  "read_digits acc [] = Some acc"
| "read_digits acc (c # cs) =
     (case digit_val c of None \<Rightarrow> None | Some d \<Rightarrow> read_digits (10 * acc + d) cs)"

definition read_nat :: "string \<Rightarrow> nat option" where
  "read_nat s = (if s = [] then None else read_digits 0 s)"

lemma digit_val_digit_char [simp]: "d < 10 \<Longrightarrow> digit_val (digit_char d) = Some d"
  by (simp add: digit_val_def digit_char_def of_char_of)

lemma read_digits_append:
  "read_digits acc (s @ t) = Option.bind (read_digits acc s) (\<lambda>a. read_digits a t)"
  by (induction acc s rule: read_digits.induct) (auto split: option.splits)

lemma read_digits_show_nat: "read_digits 0 (show_nat n) = Some n"
proof (induction n rule: show_nat.induct)
  case (1 n)
  show ?case
  proof (cases "n < 10")
    case True
    then show ?thesis by (simp add: show_nat.simps [of n])
  next
    case False
    then have "show_nat n = show_nat (n div 10) @ [digit_char (n mod 10)]"
      by (simp add: show_nat.simps [of n])
    with 1 False show ?thesis by (simp add: read_digits_append)
  qed
qed

lemma read_nat_show_nat [simp]: "read_nat (show_nat n) = Some n"
  by (simp add: read_nat_def read_digits_show_nat)

end
