(* ===== verification/Go_Sort.thy ===== *)
theory Go_Sort
  imports Go_Prelude
begin

text \<open>
  \<open>sort.SliceStable\<close> of the Go library, which advise, sched, snapshot and the provisioning
  code call with a comparison closure.  The library leaves the result of a comparison that is
  not a strict weak order unspecified; the locale \<open>strict_weak_order\<close> is that contract, and
  under it the result is the unique stable sorted permutation.  \<open>keyed_order\<close> extends it for a
  comparison that compares a key.
\<close>

fun stable_insert :: "('a \<Rightarrow> 'a \<Rightarrow> bool) \<Rightarrow> 'a \<Rightarrow> 'a list \<Rightarrow> 'a list" where
  "stable_insert lt x [] = [x]"
| "stable_insert lt x (y # ys) =
     (if lt y x then y # stable_insert lt x ys else x # y # ys)"

definition slice_stable :: "('a \<Rightarrow> 'a \<Rightarrow> bool) \<Rightarrow> 'a list \<Rightarrow> 'a list" where
  "slice_stable lt xs = foldr (stable_insert lt) xs []"

lemma slice_stable_simps [simp]:
  "slice_stable lt [] = []"
  "slice_stable lt (x # xs) = stable_insert lt x (slice_stable lt xs)"
  by (simp_all add: slice_stable_def)

lemma mset_stable_insert [simp]: "mset (stable_insert lt x ys) = add_mset x (mset ys)"
  by (induction ys) auto

lemma mset_slice_stable [simp]: "mset (slice_stable lt xs) = mset xs"
  by (induction xs) auto

lemma set_stable_insert [simp]: "set (stable_insert lt x ys) = insert x (set ys)"
  by (induction ys) auto

lemma set_slice_stable [simp]: "set (slice_stable lt xs) = set xs"
  by (metis mset_slice_stable set_mset_mset)

lemma length_slice_stable [simp]: "length (slice_stable lt xs) = length xs"
  by (metis mset_slice_stable size_mset)

lemma distinct_slice_stable [simp]: "distinct (slice_stable lt xs) = distinct xs"
  by (metis mset_slice_stable mset_eq_imp_distinct_iff)

lemma stable_insert_map:
  "(\<And>y. y \<in> set ys \<Longrightarrow> lt' (f y) (f x) = lt y x) \<Longrightarrow>
   stable_insert lt' (f x) (map f ys) = map f (stable_insert lt x ys)"
  by (induction ys) auto

lemma slice_stable_map:
  "(\<And>x y. x \<in> set xs \<Longrightarrow> y \<in> set xs \<Longrightarrow> lt' (f x) (f y) = lt x y) \<Longrightarrow>
   slice_stable lt' (map f xs) = map f (slice_stable lt xs)"
proof (induction xs)
  case (Cons a xs)
  then have "slice_stable lt' (map f xs) = map f (slice_stable lt xs)" by simp
  then show ?case
    using stable_insert_map [of "slice_stable lt xs" lt' f a lt] Cons.prems by simp
qed simp

lemma slice_stable_cong:
  "(\<And>x y. x \<in> set xs \<Longrightarrow> y \<in> set xs \<Longrightarrow> lt x y = lt' x y) \<Longrightarrow>
   slice_stable lt xs = slice_stable lt' xs"
  using slice_stable_map [of xs lt' "\<lambda>x. x" lt] by simp

lemma distinct_map_mset_eq:
  "mset xs = mset ys \<Longrightarrow> distinct (map f xs) \<Longrightarrow> distinct (map f ys)"
  by (metis mset_eq_imp_distinct_iff mset_map)

text \<open>Sorting by a bounded key puts the elements into buckets.\<close>

definition buckets :: "('a \<Rightarrow> nat) \<Rightarrow> nat \<Rightarrow> 'a list \<Rightarrow> 'a list" where
  "buckets key n xs = concat (map (\<lambda>i. filter (\<lambda>x. key x = i) xs) [0..<n])"

lemma buckets_Suc: "buckets key (Suc n) xs = buckets key n xs @ filter (\<lambda>x. key x = n) xs"
  by (simp add: buckets_def)

lemma mset_buckets: "mset (buckets key n xs) = mset (filter (\<lambda>x. key x < n) xs)"
proof (induction n)
  case (Suc n)
  have "mset (filter (\<lambda>x. key x < Suc n) xs) =
        mset (filter (\<lambda>x. key x < n) xs) + mset (filter (\<lambda>x. key x = n) xs)"
    by (induction xs) auto
  with Suc show ?case by (simp add: buckets_Suc)
qed (simp add: buckets_def)

lemma set_buckets: "set (buckets key n xs) = {x \<in> set xs. key x < n}"
  using mset_buckets [of key n xs] by (metis set_filter set_mset_mset)

lemma sorted_buckets: "sorted (map key (buckets key n xs))"
proof (induction n)
  case (Suc n)
  have "sorted (map key (filter (\<lambda>x. key x = n) xs))"
    by (induction xs) auto
  with Suc show ?case by (auto simp: buckets_Suc sorted_append set_buckets)
qed (simp add: buckets_def)

lemma filter_buckets:
  "filter (\<lambda>x. key x = k) (buckets key n xs) = (if k < n then filter (\<lambda>x. key x = k) xs else [])"
proof (induction n)
  case (Suc n)
  have "filter (\<lambda>x. key x = k) (filter (\<lambda>x. key x = n) xs) =
        (if k = n then filter (\<lambda>x. key x = k) xs else [])"
    by (auto intro: filter_cong)
  with Suc show ?case by (auto simp: buckets_Suc)
qed (simp add: buckets_def)

lemma sort_key_buckets:
  assumes "\<forall>x \<in> set xs. key x < n"
  shows "sort_key key xs = buckets key n xs"
proof (rule properties_for_sort_key)
  have "filter (\<lambda>x. key x < n) xs = xs"
    using assms by simp
  then show "mset (buckets key n xs) = mset xs"
    by (simp add: mset_buckets)
  show "sorted (map key (buckets key n xs))"
    by (rule sorted_buckets)
  fix k
  assume "k \<in> set (buckets key n xs)"
  then have "key k < n" by (simp add: set_buckets)
  then show "filter (\<lambda>x. key k = key x) (buckets key n xs) = filter (\<lambda>x. key k = key x) xs"
    using filter_buckets [of key "key k" n xs] by (simp add: eq_commute)
qed

locale strict_weak_order =
  fixes lt :: "'a \<Rightarrow> 'a \<Rightarrow> bool"
  assumes irrefl: "\<not> lt x x"
    and trans: "lt x y \<Longrightarrow> lt y z \<Longrightarrow> lt x z"
    and neg_trans: "\<not> lt x y \<Longrightarrow> \<not> lt y z \<Longrightarrow> \<not> lt x z"
begin

definition in_order :: "'a list \<Rightarrow> bool" where
  "in_order xs \<longleftrightarrow> sorted_wrt (\<lambda>a b. \<not> lt b a) xs"

definition tie :: "'a \<Rightarrow> 'a \<Rightarrow> bool" where
  "tie a b \<longleftrightarrow> \<not> lt a b \<and> \<not> lt b a"

lemma asym: "lt x y \<Longrightarrow> \<not> lt y x"
  using irrefl trans by blast

lemma in_order_insert: "in_order ys \<Longrightarrow> in_order (stable_insert lt x ys)"
proof (induction ys)
  case Nil
  then show ?case by (simp add: in_order_def)
next
  case (Cons y ys)
  then have IH: "in_order (stable_insert lt x ys)" and y: "\<forall>z \<in> set ys. \<not> lt z y"
    and ys: "in_order ys"
    by (simp_all add: in_order_def)
  show ?case
  proof (cases "lt y x")
    case True
    then show ?thesis using IH y asym [OF True] by (auto simp: in_order_def)
  next
    case False
    then have "\<forall>z \<in> set ys. \<not> lt z x" using y neg_trans by blast
    with False y ys show ?thesis by (simp add: in_order_def)
  qed
qed

lemma in_order_slice_stable: "in_order (slice_stable lt xs)"
  by (induction xs) (simp_all add: in_order_insert, simp add: in_order_def)

lemma filter_insert_tie:
  "tie a x \<Longrightarrow> filter (tie a) (stable_insert lt x ys) = x # filter (tie a) ys"
proof (induction ys)
  case (Cons y ys)
  have "lt y x \<Longrightarrow> \<not> tie a y"
    using Cons.prems neg_trans unfolding tie_def by blast
  with Cons show ?case by auto
qed simp

lemma filter_insert_no_tie:
  "\<not> tie a x \<Longrightarrow> filter (tie a) (stable_insert lt x ys) = filter (tie a) ys"
  by (induction ys) auto

text \<open>Stability: elements that compare equal keep the order they had.\<close>

lemma stable: "filter (tie a) (slice_stable lt xs) = filter (tie a) xs"
  by (induction xs) (auto simp: filter_insert_tie filter_insert_no_tie)

text \<open>The stable sorted arrangement is unique.\<close>

lemma head_unique:
  assumes "in_order (x # xs)" "in_order (y # ys)" "mset (x # xs) = mset (y # ys)"
    and st: "filter (tie x) (x # xs) = filter (tie x) (y # ys)"
  shows "x = y"
proof -
  have "y \<in> set (x # xs)" "x \<in> set (y # ys)"
    using assms(3) by (metis list.set_intros(1) set_mset_mset)+
  then have "\<not> lt y x" "\<not> lt x y"
    using assms(1,2) irrefl by (auto simp: in_order_def)
  then have "tie x y" "tie x x"
    using irrefl by (auto simp: tie_def)
  with st show ?thesis by simp
qed

lemma unique_arrangement:
  assumes "in_order xs" "in_order ys" "mset xs = mset ys"
    and "\<And>a. filter (tie a) xs = filter (tie a) ys"
  shows "xs = ys"
  using assms
proof (induction xs arbitrary: ys)
  case (Cons x xs)
  from Cons.prems(3) obtain y ys' where ys: "ys = y # ys'"
    by (cases ys) auto
  have "x = y"
    using head_unique [of x xs y ys'] Cons.prems ys by simp
  moreover have "xs = ys'"
  proof (rule Cons.IH)
    show "in_order xs" "in_order ys'"
      using Cons.prems ys by (simp_all add: in_order_def)
    show "mset xs = mset ys'"
      using Cons.prems(3) ys \<open>x = y\<close> by simp
    show "filter (tie a) xs = filter (tie a) ys'" for a
      using Cons.prems(4) [of a] ys \<open>x = y\<close> by (cases "tie a y") auto
  qed
  ultimately show ?case using ys by simp
qed simp

lemma slice_stable_unique:
  assumes "in_order ys" "mset ys = mset xs" "\<And>a. filter (tie a) ys = filter (tie a) xs"
  shows "ys = slice_stable lt xs"
  by (rule unique_arrangement) (simp_all add: assms in_order_slice_stable stable)

lemma slice_stable_id: "in_order xs \<Longrightarrow> slice_stable lt xs = xs"
  by (rule slice_stable_unique [symmetric]) simp_all

end

locale keyed_order =
  fixes lt :: "'a \<Rightarrow> 'a \<Rightarrow> bool" and key :: "'a \<Rightarrow> 'k :: linorder"
  assumes lt_key: "lt x y \<longleftrightarrow> key x < key y"

sublocale keyed_order \<subseteq> strict_weak_order lt
  by unfold_locales (auto simp: lt_key)

context keyed_order
begin

lemma stable_insert_is_insort_key: "stable_insert lt x ys = insort_key key x ys"
  by (induction ys) (auto simp: lt_key not_less)

lemma slice_stable_is_sort_key: "slice_stable lt xs = sort_key key xs"
  by (induction xs) (simp_all add: stable_insert_is_insort_key)

lemma sorted_keys: "sorted (map key (slice_stable lt xs))"
  by (simp add: slice_stable_is_sort_key)

text \<open>With distinct keys the result does not depend on the order of the input.\<close>

lemma input_order_irrelevant:
  assumes "mset xs = mset ys" "distinct (map key xs)"
  shows "slice_stable lt xs = slice_stable lt ys"
proof -
  have "inj_on key (set xs)"
    using assms(2) by (simp add: distinct_map)
  with assms(1) show ?thesis
    by (metis slice_stable_is_sort_key sort_key_inj_key_eq mset_sort sorted_sort_key)
qed

lemma tie_iff: "tie x y \<longleftrightarrow> key x = key y"
  by (auto simp: tie_def lt_key)

lemma stable_key: "filter (\<lambda>y. key y = k) (slice_stable lt xs) = filter (\<lambda>y. key y = k) xs"
  by (simp add: slice_stable_is_sort_key sort_key_stable)

end

end
