(* ===== verification/Go_Sha256.thy ===== *)
theory Go_Sha256
  imports Go_Prelude
begin

text \<open>
  \<open>crypto/sha256.Sum256\<close> of the Go library (FIPS 180-4), on which \<open>snapshot.Rev\<close> and the
  hashing of device tokens rest.  It is computed, not assumed: the state is the list of the
  eight 32-bit chaining words.
\<close>

unbundle bit_operations_syntax

type_synonym word32 = "32 word"

definition rotr32 :: "nat \<Rightarrow> word32 \<Rightarrow> word32" where
  "rotr32 n w = (drop_bit n w) OR (push_bit (32 - n) w)"

text \<open>The round constants and the initial chaining value, in decimal.\<close>

definition sha_k :: "word32 list" where
  "sha_k = [
    1116352408, 1899447441, 3049323471, 3921009573, 961987163, 1508970993, 2453635748, 2870763221,
    3624381080, 310598401, 607225278, 1426881987, 1925078388, 2162078206, 2614888103, 3248222580,
    3835390401, 4022224774, 264347078, 604807628, 770255983, 1249150122, 1555081692, 1996064986,
    2554220882, 2821834349, 2952996808, 3210313671, 3336571891, 3584528711, 113926993, 338241895,
    666307205, 773529912, 1294757372, 1396182291, 1695183700, 1986661051, 2177026350, 2456956037,
    2730485921, 2820302411, 3259730800, 3345764771, 3516065817, 3600352804, 4094571909, 275423344,
    430227734, 506948616, 659060556, 883997877, 958139571, 1322822218, 1537002063, 1747873779,
    1955562222, 2024104815, 2227730452, 2361852424, 2428436474, 2756734187, 3204031479, 3329325298]"

definition sha_h0 :: "word32 list" where
  "sha_h0 = [1779033703, 3144134277, 1013904242, 2773480762,
             1359893119, 2600822924, 528734635, 1541459225]"

text \<open>Padding: a one bit, zeros, and the bit length as a 64-bit big-endian number.\<close>

definition be64 :: "nat \<Rightarrow> bytes" where
  "be64 n = map (\<lambda>i. word_of_nat (n div 256 ^ (7 - i))) [0..<8]"

definition sha_pad :: "bytes \<Rightarrow> bytes" where
  "sha_pad m = m @ 0x80 # replicate ((119 - length m mod 64) mod 64) 0 @ be64 (8 * length m)"

fun sha_words :: "bytes \<Rightarrow> word32 list" where
  "sha_words (a # b # c # d # r) =
     ((push_bit 24 (ucast a)) OR (push_bit 16 (ucast b)) OR (push_bit 8 (ucast c)) OR ucast d)
       # sha_words r"
| "sha_words _ = []"

definition sha_next :: "word32 list \<Rightarrow> word32" where
  "sha_next ws = (let n = length ws; w15 = ws ! (n - 15); w2 = ws ! (n - 2);
      s0 = (rotr32 7 w15) XOR (rotr32 18 w15) XOR (drop_bit 3 w15);
      s1 = (rotr32 17 w2) XOR (rotr32 19 w2) XOR (drop_bit 10 w2)
    in ws ! (n - 16) + s0 + ws ! (n - 7) + s1)"

definition sha_schedule :: "word32 list \<Rightarrow> word32 list" where
  "sha_schedule ws = ((\<lambda>v. v @ [sha_next v]) ^^ 48) ws"

fun sha_round :: "word32 list \<Rightarrow> word32 \<times> word32 \<Rightarrow> word32 list" where
  "sha_round [a, b, c, d, e, f, g, h] (k, w) =
     (let s1 = (rotr32 6 e) XOR (rotr32 11 e) XOR (rotr32 25 e);
          ch = (e AND f) XOR ((NOT e) AND g);
          t1 = h + s1 + ch + k + w;
          s0 = (rotr32 2 a) XOR (rotr32 13 a) XOR (rotr32 22 a);
          maj = (a AND b) XOR (a AND c) XOR (b AND c)
      in [t1 + (s0 + maj), a, b, c, d + t1, e, f, g])"
| "sha_round st _ = st"

definition sha_block :: "word32 list \<Rightarrow> bytes \<Rightarrow> word32 list" where
  "sha_block st blk =
     map2 (+) st (foldl sha_round st (zip sha_k (sha_schedule (sha_words blk))))"

function sha_blocks :: "word32 list \<Rightarrow> bytes \<Rightarrow> word32 list" where
  "sha_blocks st m = (if length m < 64 then st else sha_blocks (sha_block st (take 64 m)) (drop 64 m))"
  by pat_completeness auto
termination
  by (relation "measure (\<lambda>(st, m). length m)") auto

declare sha_blocks.simps [simp del]

definition be32 :: "word32 \<Rightarrow> bytes" where
  "be32 w = [ucast (drop_bit 24 w), ucast (drop_bit 16 w), ucast (drop_bit 8 w), ucast w]"

definition sum256 :: "bytes \<Rightarrow> bytes" where
  "sum256 m = concat (map be32 (sha_blocks sha_h0 (sha_pad m)))"

text \<open>\<open>hex.EncodeToString\<close>, and \<open>%x\<close> on a byte slice.\<close>

definition hex_bytes :: "bytes \<Rightarrow> string" where
  "hex_bytes bs = concat (map hex_byte bs)"

lemma length_hex_bytes [simp]: "length (hex_bytes bs) = 2 * length bs"
  by (induction bs) (simp_all add: hex_bytes_def hex_byte_def)

lemma length_sha_round [simp]: "length (sha_round st p) = length st"
  by (induction st p rule: sha_round.induct) (simp_all add: Let_def)

lemma length_foldl_sha_round: "length (foldl sha_round st ps) = length st"
  by (induction ps arbitrary: st) simp_all

lemma length_sha_block [simp]: "length (sha_block st blk) = length st"
  by (simp add: sha_block_def length_foldl_sha_round)

lemma length_sha_blocks [simp]: "length (sha_blocks st m) = length st"
proof (induction st m rule: sha_blocks.induct)
  case (1 st m)
  then show ?case by (simp add: sha_blocks.simps [of st m])
qed

lemma length_sum256 [simp]: "length (sum256 m) = 32"
proof -
  have "length (concat (map be32 ws)) = 4 * length ws" for ws
    by (induction ws) (simp_all add: be32_def)
  then show ?thesis by (simp add: sum256_def sha_h0_def)
qed

end
