(* ===== verification/Go_Files.thy ===== *)
theory Go_Files
  imports Go_Prelude
begin

text \<open>
  Files written as state.go, index.go and pairing.go write them: the new contents go to
  \<open>path + ".tmp"\<close>, which is then renamed over \<open>path\<close>.  A file holds a whole document or is
  torn (a write that was cut off).  Each system call is given its outcome: it succeeds, returns
  an error, or the process dies in it; the last two say what they leave of the temporary file.
\<close>

datatype 'c contents = Whole 'c | Torn

type_synonym 'c fs = "string \<Rightarrow> 'c contents option"

datatype 'c outcome = Done | Failed "'c contents option" | Crash "'c contents option"

datatype save_error = CreateDir | WriteTmp | RenameTmp

datatype save_result = Saved | SaveErr save_error | Crashed

definition tmp_path :: "string \<Rightarrow> string" where
  "tmp_path path = path @ ''.tmp''"

definition rename_file :: "string \<Rightarrow> string \<Rightarrow> 'c fs \<Rightarrow> 'c fs" where
  "rename_file a b fs = (fs(b := fs a))(a := None)"

text \<open>
  \<open>late\<close> says whether a process that dies in \<open>rename\<close> dies before or after the kernel has
  replaced the file.
\<close>

definition atomic_save ::
  "'c outcome \<times> 'c outcome \<times> 'c outcome \<times> bool \<Rightarrow> string \<Rightarrow> 'c \<Rightarrow> 'c fs \<Rightarrow> 'c fs \<times> save_result" where
  "atomic_save oc path c fs = (case oc of (mk, wr, rn, late) \<Rightarrow>
     (case mk of
        Failed _ \<Rightarrow> (fs, SaveErr CreateDir)
      | Crash _ \<Rightarrow> (fs, Crashed)
      | Done \<Rightarrow>
     (case wr of
        Failed left_over \<Rightarrow> (fs(tmp_path path := left_over), SaveErr WriteTmp)
      | Crash left_over \<Rightarrow> (fs(tmp_path path := left_over), Crashed)
      | Done \<Rightarrow> (let fs1 = fs(tmp_path path \<mapsto> Whole c) in
     (case rn of
        Failed _ \<Rightarrow> (fs1(tmp_path path := None), SaveErr RenameTmp)
      | Crash _ \<Rightarrow> ((if late then rename_file (tmp_path path) path fs1 else fs1), Crashed)
      | Done \<Rightarrow> (rename_file (tmp_path path) path fs1, Saved))))))"

datatype load_error = Corrupt

definition load_file :: "'c \<Rightarrow> string \<Rightarrow> 'c fs \<Rightarrow> load_error + 'c" where
  "load_file dflt path fs = (case fs path of
     None \<Rightarrow> Inr dflt | Some Torn \<Rightarrow> Inl Corrupt | Some (Whole c) \<Rightarrow> Inr c)"

lemma tmp_path_neq [simp]: "tmp_path path \<noteq> path" "path \<noteq> tmp_path path"
  by (simp_all add: tmp_path_def)

text \<open>The contract of a store that survives crashes, and what a history of saves leaves in it.\<close>

locale durable_store =
  fixes save :: "'o \<Rightarrow> 'c \<Rightarrow> 's \<Rightarrow> 's \<times> save_result"
    and load :: "'s \<Rightarrow> 'r"
    and whole :: "'c \<Rightarrow> 'r"
  assumes saved: "snd (save oc c s) = Saved \<Longrightarrow> load (fst (save oc c s)) = whole c"
    and failed: "snd (save oc c s) = SaveErr e \<Longrightarrow> load (fst (save oc c s)) = load s"
    and crashed: "snd (save oc c s) = Crashed \<Longrightarrow>
                  load (fst (save oc c s)) = load s \<or> load (fst (save oc c s)) = whole c"
begin

fun saves :: "('o \<times> 'c) list \<Rightarrow> 's \<Rightarrow> 's" where
  "saves [] s = s"
| "saves ((oc, c) # r) s = saves r (fst (save oc c s))"

lemma saves_append: "saves (h @ k) s = saves k (saves h s)"
  by (induction h s rule: saves.induct) simp_all

lemma save_old_or_new:
  "load (fst (save oc c s)) = load s \<or> load (fst (save oc c s)) = whole c"
  using saved failed crashed by (cases "snd (save oc c s)") blast+

text \<open>No history of saves, failures and crashes reads as anything but a whole saved document.\<close>

lemma saves_cases: "load (saves h s) = load s \<or> (\<exists>c \<in> set (map snd h). load (saves h s) = whole c)"
proof (induction h arbitrary: s)
  case (Cons p h)
  obtain oc c where p: "p = (oc, c)" by (cases p)
  show ?case
    using Cons.IH [of "fst (save oc c s)"] save_old_or_new [of oc c s] p by auto
qed simp

text \<open>After a save that reported success, nothing older is read again.\<close>

lemma saves_after_success:
  assumes "snd (save oc c (saves h s)) = Saved"
  shows "load (saves (h @ (oc, c) # k) s) \<in> whole ` (insert c (set (map snd k)))"
  using saves_cases [of k "fst (save oc c (saves h s))"] saved [OF assms]
  by (auto simp: saves_append)

end

lemma atomic_save_laws:
  "snd (atomic_save oc path c fs) = Saved \<Longrightarrow>
     load_file e path (fst (atomic_save oc path c fs)) = Inr c"
  "snd (atomic_save oc path c fs) = SaveErr err \<Longrightarrow>
     load_file e path (fst (atomic_save oc path c fs)) = load_file e path fs"
  "snd (atomic_save oc path c fs) = Crashed \<Longrightarrow>
     load_file e path (fst (atomic_save oc path c fs)) = load_file e path fs \<or>
     load_file e path (fst (atomic_save oc path c fs)) = Inr c"
  by (auto simp: atomic_save_def load_file_def rename_file_def Let_def
        split: prod.splits outcome.splits)

lemma atomic_save_frame:
  "q \<noteq> path \<Longrightarrow> q \<noteq> tmp_path path \<Longrightarrow> fst (atomic_save oc path c fs) q = fs q"
  by (auto simp: atomic_save_def rename_file_def Let_def split: prod.splits outcome.splits)

interpretation atomic_file: durable_store
  "\<lambda>oc c fs. atomic_save oc path c fs" "\<lambda>fs. load_file e path fs" Inr
  for path :: string and e :: 'c
  by unfold_locales (auto dest: atomic_save_laws)

end
