(* ===== verification/Snapshot.thy ===== *)
theory Snapshot
  imports Go_Sort Go_Sha256 Go_Files
begin

text \<open>
  internal/snapshot: the v1 contract every client reads.  types.go is \<open>Validate\<close> and \<open>Order\<close>,
  hash.go is \<open>Rev\<close> and \<open>Apply\<close>, state.go is \<open>Load\<close> and \<open>Save\<close>.
\<close>

subsection \<open>types.go: the data\<close>

definition canonicalProviderOrder :: "string list" where
  "canonicalProviderOrder =
     [''claude'', ''codex'', ''openrouter:main'', ''openrouter:fallback'', ''groq'', ''opencode:go'']"

definition validStatuses :: "string list" where
  "validStatuses = [''ok'', ''stale'', ''auth'', ''error'', ''off'']"

definition validTiers :: "string list" where
  "validTiers = [''ok'', ''warn'', ''crit'', ''off'']"

definition validKinds :: "string list" where
  "validKinds = [''plan'', ''credit'', ''free'']"

definition validSeverities :: "string list" where
  "validSeverities = [''ok'', ''warn'', ''crit'']"

text \<open>A nil \<open>*int\<close> or \<open>*int64\<close> is \<open>None\<close>.\<close>

record row =
  row_K :: string
  row_Label :: string
  row_Pct :: "int option"
  row_Txt :: string
  row_Tier :: string
  row_ResetAt :: "int option"

record provider =
  prov_ID :: string
  prov_Label :: string
  prov_Plan :: string
  prov_Kind :: string
  prov_Severity :: string
  prov_Status :: string
  prov_Msg :: string
  prov_FetchedAt :: int
  prov_Rows :: "row list"

record snapshot =
  snap_V :: int
  snap_Seq :: int
  snap_Rev :: string
  snap_GeneratedAt :: int
  snap_CheckedAt :: int
  snap_NextSec :: int
  snap_Providers :: "provider list"

text \<open>The zero values of the three structs.\<close>

definition empty_row :: row where
  "empty_row = \<lparr>row_K = [], row_Label = [], row_Pct = None, row_Txt = [], row_Tier = [],
                row_ResetAt = None\<rparr>"

definition empty_provider :: provider where
  "empty_provider = \<lparr>prov_ID = [], prov_Label = [], prov_Plan = [], prov_Kind = [],
     prov_Severity = [], prov_Status = [], prov_Msg = [], prov_FetchedAt = 0, prov_Rows = []\<rparr>"

definition empty_snapshot :: snapshot where
  "empty_snapshot = \<lparr>snap_V = 0, snap_Seq = 0, snap_Rev = [], snap_GeneratedAt = 0,
     snap_CheckedAt = 0, snap_NextSec = 0, snap_Providers = []\<rparr>"

subsection \<open>types.go: Validate\<close>

datatype validate_error =
    BadVersion int
  | DuplicateId string
  | UnknownId string
  | InvalidStatus string string
  | InvalidKind string string
  | InvalidSeverity string string
  | MsgTooLong string nat
  | LabelTooLong string string
  | TxtTooLong string string
  | InvalidTier string string

fun validate_rows :: "string \<Rightarrow> row list \<Rightarrow> validate_error + unit" where
  "validate_rows pid [] = Inr ()"
| "validate_rows pid (r # rs) =
     (if rune_count (row_Label r) > 10 then Inl (LabelTooLong (row_Label r) pid)
      else if rune_count (row_Txt r) > 11 then Inl (TxtTooLong (row_Txt r) pid)
      else if row_Tier r \<notin> set validTiers then Inl (InvalidTier (row_Tier r) pid)
      else validate_rows pid rs)"

fun validate_providers :: "string list \<Rightarrow> provider list \<Rightarrow> validate_error + unit" where
  "validate_providers seen [] = Inr ()"
| "validate_providers seen (p # ps) =
     (if prov_ID p \<in> set seen then Inl (DuplicateId (prov_ID p))
      else if prov_ID p \<notin> set canonicalProviderOrder then Inl (UnknownId (prov_ID p))
      else if prov_Status p \<notin> set validStatuses then Inl (InvalidStatus (prov_Status p) (prov_ID p))
      else if prov_Kind p \<notin> set validKinds then Inl (InvalidKind (prov_Kind p) (prov_ID p))
      else if prov_Severity p \<notin> set validSeverities
        then Inl (InvalidSeverity (prov_Severity p) (prov_ID p))
      else if rune_count (prov_Msg p) > 24 then Inl (MsgTooLong (prov_ID p) (rune_count (prov_Msg p)))
      else bind_result (validate_rows (prov_ID p) (prov_Rows p))
             (\<lambda>_. validate_providers (prov_ID p # seen) ps))"

definition Validate :: "snapshot \<Rightarrow> validate_error + unit" where
  "Validate s = (if snap_V s \<noteq> 1 then Inl (BadVersion (snap_V s))
                 else validate_providers [] (snap_Providers s))"

text \<open>The v1 contract, without an order of checks.\<close>

definition row_ok :: "row \<Rightarrow> bool" where
  "row_ok r \<longleftrightarrow> rune_count (row_Label r) \<le> 10 \<and> rune_count (row_Txt r) \<le> 11 \<and>
     row_Tier r \<in> set validTiers"

definition provider_ok :: "provider \<Rightarrow> bool" where
  "provider_ok p \<longleftrightarrow> prov_ID p \<in> set canonicalProviderOrder \<and>
     prov_Status p \<in> set validStatuses \<and> prov_Kind p \<in> set validKinds \<and>
     prov_Severity p \<in> set validSeverities \<and> rune_count (prov_Msg p) \<le> 24 \<and>
     (\<forall>r \<in> set (prov_Rows p). row_ok r)"

definition snapshot_ok :: "snapshot \<Rightarrow> bool" where
  "snapshot_ok s \<longleftrightarrow> snap_V s = 1 \<and> distinct (map prov_ID (snap_Providers s)) \<and>
     (\<forall>p \<in> set (snap_Providers s). provider_ok p)"

lemma validate_rows_iff: "validate_rows pid rs = Inr () \<longleftrightarrow> (\<forall>r \<in> set rs. row_ok r)"
  by (induction rs) (auto simp: row_ok_def)

lemma validate_providers_Cons:
  "validate_providers seen (p # ps) = Inr () \<longleftrightarrow>
     prov_ID p \<notin> set seen \<and> provider_ok p \<and> validate_providers (prov_ID p # seen) ps = Inr ()"
  by (simp add: provider_ok_def bind_result_Inr_iff validate_rows_iff not_less)

lemma validate_providers_iff:
  "validate_providers seen ps = Inr () \<longleftrightarrow>
     distinct (map prov_ID ps) \<and> set seen \<inter> prov_ID ` set ps = {} \<and> (\<forall>p \<in> set ps. provider_ok p)"
  by (induction ps arbitrary: seen) (auto simp: validate_providers_Cons simp del: validate_providers.simps(2))

lemma Validate_iff [go_spec]: "Validate s = Inr () \<longleftrightarrow> snapshot_ok s"
  by (simp add: Validate_def snapshot_ok_def validate_providers_iff)

subsection \<open>types.go: Order\<close>

definition order_ref :: "string list \<Rightarrow> string list" where
  "order_ref order = (if order = [] then canonicalProviderOrder else order)"

text \<open>The loop \<open>for i, id := range ref { pos[id] = i }\<close>, from index \<open>i\<close> on.\<close>

fun order_pos_from :: "nat \<Rightarrow> string list \<Rightarrow> (string \<rightharpoonup> nat) \<Rightarrow> (string \<rightharpoonup> nat)" where
  "order_pos_from i [] m = m"
| "order_pos_from i (x # xs) m = order_pos_from (Suc i) xs (m(x \<mapsto> i))"

definition order_pos :: "string list \<Rightarrow> string \<Rightarrow> nat" where
  "order_pos ref x = (case order_pos_from 0 ref Map.empty x of None \<Rightarrow> length ref | Some i \<Rightarrow> i)"

definition Order :: "string list \<Rightarrow> string list \<Rightarrow> string list" where
  "Order ids order = (let ref = order_ref order in
     slice_stable (\<lambda>a b. order_pos ref a < order_pos ref b) ids)"

lemma order_pos_from_other: "x \<notin> set xs \<Longrightarrow> order_pos_from i xs m x = m x"
  by (induction i xs m rule: order_pos_from.induct) auto

lemma order_pos_from_nth:
  "distinct xs \<Longrightarrow> k < length xs \<Longrightarrow> order_pos_from i xs m (xs ! k) = Some (i + k)"
  by (induction i xs m arbitrary: k rule: order_pos_from.induct)
     (auto simp: nth_Cons order_pos_from_other split: nat.splits)

lemma order_pos_nth: "distinct ref \<Longrightarrow> k < length ref \<Longrightarrow> order_pos ref (ref ! k) = k"
  by (simp add: order_pos_def order_pos_from_nth)

lemma order_pos_unknown: "x \<notin> set ref \<Longrightarrow> order_pos ref x = length ref"
  by (simp add: order_pos_def order_pos_from_other)

lemma order_pos_from_bound:
  "order_pos_from i xs m x = Some k \<Longrightarrow> m x = Some k \<or> k < i + length xs"
  by (induction i xs m rule: order_pos_from.induct) (fastforce split: if_splits)+

lemma order_pos_le: "order_pos ref x \<le> length ref"
  by (auto simp: order_pos_def dest: order_pos_from_bound split: option.split)

interpretation order_by_pos: keyed_order
  "\<lambda>a b. order_pos ref a < order_pos ref b" "order_pos ref" for ref :: "string list"
  by unfold_locales simp

lemma order_pos_filter:
  assumes "distinct ref" "i < length ref"
  shows "filter (\<lambda>x. order_pos ref x = i) ids = filter (\<lambda>x. x = ref ! i) ids"
proof (rule filter_cong [OF refl])
  fix x
  show "order_pos ref x = i \<longleftrightarrow> x = ref ! i"
  proof
    assume "order_pos ref x = i"
    with assms have "x \<in> set ref" using order_pos_unknown by (metis less_irrefl)
    with assms \<open>order_pos ref x = i\<close> show "x = ref ! i"
      by (metis in_set_conv_nth order_pos_nth)
  qed (simp add: assms order_pos_nth)
qed

lemma order_pos_filter_unknown:
  assumes "distinct ref"
  shows "filter (\<lambda>x. order_pos ref x = length ref) ids = filter (\<lambda>x. x \<notin> set ref) ids"
  by (rule filter_cong [OF refl])
     (metis assms in_set_conv_nth order_pos_nth order_pos_unknown less_irrefl)

lemma Order_buckets:
  assumes "distinct (order_ref order)"
  shows "Order ids order =
     concat (map (\<lambda>r. filter (\<lambda>x. x = r) ids) (order_ref order)) @
     filter (\<lambda>x. x \<notin> set (order_ref order)) ids"
proof -
  let ?ref = "order_ref order" and ?n = "length (order_ref order)"
  have "Order ids order = buckets (order_pos ?ref) (Suc ?n) ids"
    unfolding Order_def Let_def order_by_pos.slice_stable_is_sort_key
    by (rule sort_key_buckets) (simp add: le_imp_less_Suc order_pos_le)
  also have "\<dots> = concat (map (\<lambda>i. filter (\<lambda>x. order_pos ?ref x = i) ids) [0..<?n]) @
                  filter (\<lambda>x. order_pos ?ref x = ?n) ids"
    by (simp add: buckets_Suc) (simp add: buckets_def)
  also have "\<dots> = concat (map (\<lambda>i. filter (\<lambda>x. x = ?ref ! i) ids) [0..<?n]) @
                  filter (\<lambda>x. x \<notin> set ?ref) ids"
    unfolding order_pos_filter_unknown [OF assms]
    by (intro arg_cong2 [where f = append] arg_cong [where f = concat] map_cong refl
          order_pos_filter [OF assms]) simp
  also have "map (\<lambda>i. filter (\<lambda>x. x = ?ref ! i) ids) [0..<?n] =
             map (\<lambda>r. filter (\<lambda>x. x = r) ids) ?ref"
    by (rule nth_equalityI) simp_all
  finally show ?thesis .
qed

subsection \<open>hash.go: the JSON text that is hashed\<close>

text \<open>
  \<open>json.Marshal\<close> of a string: quotes, backslashes, control characters and the HTML characters
  are escaped, U+2028 and U+2029 too, and a byte that is not part of valid UTF-8 becomes the
  replacement character; every other rune is copied.
\<close>

definition json_esc :: "char \<Rightarrow> string" where
  "json_esc c = (let n = of_char c :: nat in
     if n = 34 then [CHR 0x5C, CHR 0x22]
     else if n = 92 then [CHR 0x5C, CHR 0x5C]
     else if n = 8 then CHR 0x5C # ''b''
     else if n = 12 then CHR 0x5C # ''f''
     else if n = 10 then CHR 0x5C # ''n''
     else if n = 13 then CHR 0x5C # ''r''
     else if n = 9 then CHR 0x5C # ''t''
     else if n < 32 \<or> n = 60 \<or> n = 62 \<or> n = 38
       then CHR 0x5C # ''u00'' @ [hex_char (n div 16), hex_char (n mod 16)]
     else [c])"

definition json_rune :: "string \<Rightarrow> string" where
  "json_rune r = (case r of
     [c] \<Rightarrow> if (of_char c :: nat) < 128 then json_esc c else CHR 0x5C # ''ufffd''
   | _ \<Rightarrow> if map of_char r = [0xE2, 0x80, 0xA8 :: nat] then CHR 0x5C # ''u2028''
          else if map of_char r = [0xE2, 0x80, 0xA9 :: nat] then CHR 0x5C # ''u2029'' else r)"

function json_chars :: "string \<Rightarrow> string" where
  "json_chars s = (if s = [] then []
     else json_rune (take (rune_size s) s) @ json_chars (drop (rune_size s) s))"
  by pat_completeness auto
termination
  by (relation "measure length") (auto simp: rune_size_pos)

declare json_chars.simps [simp del]

definition json_string :: "string \<Rightarrow> string" where
  "json_string s = CHR 0x22 # json_chars s @ [CHR 0x22]"

definition json_array :: "string list \<Rightarrow> string" where
  "json_array xs = ''['' @ join_char (CHR 0x2C) xs @ '']''"

definition json_pct :: "int option \<Rightarrow> string" where
  "json_pct p = (case p of None \<Rightarrow> ''null'' | Some i \<Rightarrow> show_int i)"

text \<open>The arrays \<open>Rev\<close> builds.\<close>

definition json_row :: "row \<Rightarrow> string" where
  "json_row r = json_array
     [json_string (row_K r), json_pct (row_Pct r), json_string (row_Txt r), json_string (row_Tier r)]"

definition json_provider :: "provider \<Rightarrow> string" where
  "json_provider p = json_array
     [json_string (prov_ID p), json_string (prov_Status p), json_string (prov_Plan p),
      json_string (prov_Kind p), json_string (prov_Severity p),
      json_array (map json_row (prov_Rows p))]"

definition rev_document :: "provider list \<Rightarrow> string" where
  "rev_document ps = json_array (map json_provider ps)"

definition Rev :: "provider list \<Rightarrow> string" where
  "Rev ps = hex_bytes (take 4 (sum256 (to_bytes (rev_document ps))))"

text \<open>What of a provider block takes part in the hash.\<close>

definition row_view :: "row \<Rightarrow> string \<times> int option \<times> string \<times> string" where
  "row_view r = (row_K r, row_Pct r, row_Txt r, row_Tier r)"

definition prov_view ::
  "provider \<Rightarrow> string \<times> string \<times> string \<times> string \<times> string \<times> (string \<times> int option \<times> string \<times> string) list"
where
  "prov_view p = (prov_ID p, prov_Status p, prov_Plan p, prov_Kind p, prov_Severity p,
                  map row_view (prov_Rows p))"

lemma length_Rev: "length (Rev ps) = 8"
  by (simp add: Rev_def)

definition json_row_of :: "string \<times> int option \<times> string \<times> string \<Rightarrow> string" where
  "json_row_of v = (case v of (k, pct, txt, tier) \<Rightarrow>
     json_array [json_string k, json_pct pct, json_string txt, json_string tier])"

definition json_provider_of ::
  "string \<times> string \<times> string \<times> string \<times> string \<times> (string \<times> int option \<times> string \<times> string) list \<Rightarrow> string"
where
  "json_provider_of v = (case v of (i, status, plan, kind, sev, rows) \<Rightarrow>
     json_array [json_string i, json_string status, json_string plan, json_string kind,
                 json_string sev, json_array (map json_row_of rows)])"

lemma json_row_view: "json_row = json_row_of \<circ> row_view"
  by (rule ext) (simp add: json_row_def json_row_of_def row_view_def)

lemma json_provider_view: "json_provider = json_provider_of \<circ> prov_view"
  by (rule ext)
     (simp add: json_provider_def json_provider_of_def prov_view_def json_row_view)

lemma rev_document_view: "rev_document ps = json_array (map json_provider_of (map prov_view ps))"
  by (simp add: rev_document_def json_provider_view)

subsection \<open>The hashed text determines what is hashed\<close>

text \<open>
  \<open>uniq enc A\<close>: an encoding of an element of \<open>A\<close> can be cut off the front of a text in one
  way only.
\<close>

definition uniq :: "('a \<Rightarrow> string) \<Rightarrow> ('a \<Rightarrow> bool) \<Rightarrow> bool" where
  "uniq enc A \<longleftrightarrow> (\<forall>x y t u. A x \<longrightarrow> A y \<longrightarrow> enc x @ t = enc y @ u \<longrightarrow> x = y \<and> t = u)"

lemma uniqD: "uniq enc A \<Longrightarrow> A x \<Longrightarrow> A y \<Longrightarrow> enc x @ t = enc y @ u \<Longrightarrow> x = y \<and> t = u"
  unfolding uniq_def by blast

lemma uniqI: "(\<And>x y t u. A x \<Longrightarrow> A y \<Longrightarrow> enc x @ t = enc y @ u \<Longrightarrow> x = y \<and> t = u) \<Longrightarrow> uniq enc A"
  unfolding uniq_def by blast

lemma json_chars_ascii: "ascii s \<Longrightarrow> json_chars s = concat (map json_esc s)"
proof (induction s)
  case (Cons c s)
  then have "(of_char c :: nat) < 128" "ascii s" by (auto simp: ascii_def)
  with Cons show ?case
    by (simp add: json_chars.simps [of "c # s"] rune_size_ascii json_rune_def)
qed (subst json_chars.simps, simp)

definition hex_val :: "char \<Rightarrow> nat" where
  "hex_val c = (let n = of_char c in if n < 58 then n - 48 else n - 87)"

lemma hex_val_hex_char: "k < 16 \<Longrightarrow> hex_val (hex_char k) = k"
  by (simp add: hex_val_def hex_char_def of_char_of)

definition json_unesc :: "string \<Rightarrow> (char \<times> string) option" where
  "json_unesc s = (case s of [] \<Rightarrow> None | c # r \<Rightarrow>
     if c \<noteq> CHR 0x5C then Some (c, r)
     else (case r of [] \<Rightarrow> None | e # q \<Rightarrow>
       if e = CHR ''u'' then Some (char_of (16 * hex_val (q ! 2) + hex_val (q ! 3)), drop 4 q)
       else Some (if e = CHR ''b'' then char_of (8 :: nat) else if e = CHR ''f'' then char_of (12 :: nat)
                  else if e = CHR ''n'' then char_of (10 :: nat) else if e = CHR ''r'' then char_of (13 :: nat)
                  else if e = CHR ''t'' then char_of (9 :: nat) else e, q)))"

lemma char_eq_char_of: "(of_char c :: nat) = n \<Longrightarrow> c = char_of n"
  by (metis char_of_char)

lemma json_unesc_esc: "json_unesc (json_esc c @ t) = Some (c, t)"
proof -
  let ?n = "of_char c :: nat"
  consider "?n = 34 \<or> ?n = 92" | "?n = 8 \<or> ?n = 12 \<or> ?n = 10 \<or> ?n = 13 \<or> ?n = 9"
    | "?n \<notin> {34, 92, 8, 12, 10, 13, 9}" "?n < 32 \<or> ?n = 60 \<or> ?n = 62 \<or> ?n = 38"
    | "?n \<notin> {34, 92, 8, 12, 10, 13, 9}" "\<not> (?n < 32 \<or> ?n = 60 \<or> ?n = 62 \<or> ?n = 38)"
    by auto
  then show ?thesis
  proof cases
    case 1
    have "char_of (34 :: nat) = CHR 0x22" "char_of (92 :: nat) = CHR 0x5C"
      by code_simp+
    with 1 have "c = CHR 0x22 \<or> c = CHR 0x5C"
      using char_eq_char_of by metis
    then show ?thesis
      by (auto simp: json_esc_def json_unesc_def)
  next
    case 2
    then show ?thesis
      by (auto simp: json_esc_def json_unesc_def Let_def dest: char_eq_char_of)
  next
    case 3
    then have "json_esc c = CHR 0x5C # ''u00'' @ [hex_char (?n div 16), hex_char (?n mod 16)]"
      by (simp add: json_esc_def Let_def)
    moreover have "?n div 16 < 16" "?n mod 16 < 16"
      using less_mult_imp_div_less [of ?n 16 16] nat_of_char_less_256 [of c] by auto
    ultimately show ?thesis
      by (simp add: json_unesc_def hex_val_hex_char)
  next
    case 4
    then have "json_esc c = [c]" "c \<noteq> CHR 0x5C"
      by (auto simp: json_esc_def Let_def)
    then show ?thesis by (simp add: json_unesc_def)
  qed
qed

lemma json_esc_uniq: "json_esc c @ t = json_esc d @ u \<Longrightarrow> c = d \<and> t = u"
  by (metis json_unesc_esc option.inject prod.inject)

lemma json_esc_no_quote: "json_esc c @ t \<noteq> CHR 0x22 # u"
proof
  assume "json_esc c @ t = CHR 0x22 # u"
  moreover have "json_unesc (CHR 0x22 # u) = Some (CHR 0x22, u)"
    by (simp add: json_unesc_def)
  ultimately have "c = CHR 0x22" "t = u" by (metis json_unesc_esc option.inject prod.inject)+
  with \<open>json_esc c @ t = _\<close> show False by (simp add: json_esc_def)
qed

lemma json_esc_seq_uniq:
  "concat (map json_esc s) @ CHR 0x22 # t = concat (map json_esc s') @ CHR 0x22 # u \<Longrightarrow>
   s = s' \<and> t = u"
proof (induction s arbitrary: s')
  case Nil
  then show ?case by (cases s') (auto simp: json_esc_no_quote [symmetric])
next
  case (Cons c s)
  note eq = Cons.prems
  show ?case
  proof (cases s')
    case Nil
    with eq show ?thesis by (simp add: json_esc_no_quote)
  next
    case (Cons d r)
    with eq have "c = d" "concat (map json_esc s) @ CHR 0x22 # t = concat (map json_esc r) @ CHR 0x22 # u"
      by (auto dest: json_esc_uniq)
    with Cons Cons.IH show ?thesis by simp
  qed
qed

lemma uniq_json_string: "uniq json_string ascii"
  by (rule uniqI) (auto simp: json_string_def json_chars_ascii dest: json_esc_seq_uniq)

text \<open>A number or \<open>null\<close> ends at the comma that follows it.\<close>

lemma digit_val_comma: "digit_val (CHR 0x2C) = None"
  by (simp add: digit_val_def)

lemma show_nat_digits: "c \<in> set (show_nat n) \<Longrightarrow> digit_val c \<noteq> None"
proof (induction n rule: show_nat.induct)
  case (1 n)
  then show ?case
    by (cases "n < 10") (auto simp: show_nat.simps [of n])
qed

lemma comma_split:
  "CHR 0x2C \<notin> set a \<Longrightarrow> CHR 0x2C \<notin> set b \<Longrightarrow> a @ CHR 0x2C # t = b @ CHR 0x2C # u \<Longrightarrow> a = b \<and> t = u"
proof (induction a arbitrary: b)
  case Nil
  then show ?case by (cases b) auto
next
  case (Cons x a)
  then show ?case by (cases b) auto
qed

lemma digit_val_minus: "digit_val (CHR ''-'') = None"
  by (simp add: digit_val_def)

lemma show_nat_inject: "show_nat m = show_nat n \<longleftrightarrow> m = n"
  by (metis option.inject read_nat_show_nat)

lemma show_nat_hd: "show_nat n \<noteq> CHR ''-'' # r"
  using show_nat_digits [of "CHR ''-''" n] digit_val_minus by auto

lemma show_int_inject: "show_int i = show_int j \<longleftrightarrow> i = j"
  by (auto simp: show_int_def show_nat_inject show_nat_hd show_nat_hd [symmetric])

lemma digit_val_n: "digit_val (CHR ''n'') = None"
  by (simp add: digit_val_def)

lemma show_int_null: "show_int i \<noteq> CHR ''n'' # r"
proof
  assume "show_int i = CHR ''n'' # r"
  then have "CHR ''n'' \<in> set (show_nat (nat i)) \<or> CHR ''n'' = CHR ''-''"
    by (auto simp: show_int_def split: if_splits)
  then have "CHR ''n'' \<in> set (show_nat (nat i))" by simp
  from show_nat_digits [OF this] digit_val_n show False by simp
qed

lemma json_pct_inject: "json_pct p = json_pct q \<longleftrightarrow> p = q"
  by (auto simp: json_pct_def show_int_inject show_int_null show_int_null [symmetric]
        split: option.splits)

lemma json_pct_no_comma: "CHR 0x2C \<notin> set (json_pct p)"
  using show_nat_digits [of "CHR 0x2C"] digit_val_comma
  by (auto simp: json_pct_def show_int_def split: option.split)

lemma uniq_json_pct: "json_pct p @ CHR 0x2C # t = json_pct q @ CHR 0x2C # u \<Longrightarrow> p = q \<and> t = u"
  by (metis comma_split json_pct_inject json_pct_no_comma)

text \<open>An array of elements that are themselves unique, none of which starts with a bracket that closes.\<close>

lemma uniq_json_array:
  assumes u: "uniq enc A" and b: "\<And>x r. enc x \<noteq> CHR 0x5D # r" "\<And>x. enc x \<noteq> []"
  shows "uniq (\<lambda>xs. json_array (map enc xs)) (\<lambda>xs. \<forall>x \<in> set xs. A x)"
proof -
  have hd: "\<And>x t r. enc x @ t \<noteq> CHR 0x5D # r"
    using b by (metis append_eq_Cons_conv)
  have tl: "join_char (CHR 0x2C) (map enc xs) @ CHR 0x5D # t = join_char (CHR 0x2C) (map enc ys) @ CHR 0x5D # v
       \<Longrightarrow> xs = ys \<and> t = v"
    if "\<forall>x \<in> set xs. A x" "\<forall>y \<in> set ys. A y" for xs ys t v
    using that
  proof (induction xs arbitrary: ys)
    case Nil
    then show ?case
      using hd [symmetric] by (cases ys; cases "tl ys") auto
  next
    case (Cons x xs)
    note p = Cons.prems and IH = Cons.IH
    show ?case
    proof (cases ys)
      case Nil
      with p show ?thesis using hd by (cases xs) auto
    next
      case (Cons y ys')
      have J: "join_char (CHR 0x2C) (map enc (z # zs)) =
               enc z @ (if zs = [] then [] else CHR 0x2C # join_char (CHR 0x2C) (map enc zs))" for z zs
        by (cases zs) auto
      have *: "enc x @ (if xs = [] then [] else CHR 0x2C # join_char (CHR 0x2C) (map enc xs)) @ CHR 0x5D # t =
            enc y @ (if ys' = [] then [] else CHR 0x2C # join_char (CHR 0x2C) (map enc ys')) @ CHR 0x5D # v"
        using p(1) unfolding Cons J by simp
      have "x = y"
        and r: "(if xs = [] then [] else CHR 0x2C # join_char (CHR 0x2C) (map enc xs)) @ CHR 0x5D # t =
            (if ys' = [] then [] else CHR 0x2C # join_char (CHR 0x2C) (map enc ys')) @ CHR 0x5D # v"
        using uniqD [OF u _ _ *] p(2,3) Cons by auto
      show ?thesis
      proof (cases "xs = [] \<or> ys' = []")
        case True
        with r Cons \<open>x = y\<close> show ?thesis by (auto split: if_splits)
      next
        case False
        with r IH [of ys'] p(2,3) Cons \<open>x = y\<close> show ?thesis by auto
      qed
    qed
  qed
  show ?thesis
  proof (rule uniqI)
    fix xs ys t v
    assume "\<forall>x \<in> set xs. A x" "\<forall>y \<in> set ys. A y"
      and "json_array (map enc xs) @ t = json_array (map enc ys) @ v"
    then show "xs = ys \<and> t = v" using tl [of xs ys t v] by (simp add: json_array_def)
  qed
qed

definition ascii_row :: "string \<times> int option \<times> string \<times> string \<Rightarrow> bool" where
  "ascii_row v \<longleftrightarrow> (case v of (k, pct, txt, tier) \<Rightarrow> ascii k \<and> ascii txt \<and> ascii tier)"

definition ascii_provider ::
  "string \<times> string \<times> string \<times> string \<times> string \<times> (string \<times> int option \<times> string \<times> string) list \<Rightarrow> bool"
where
  "ascii_provider v \<longleftrightarrow> (case v of (i, status, plan, kind, sev, rows) \<Rightarrow>
     ascii i \<and> ascii status \<and> ascii plan \<and> ascii kind \<and> ascii sev \<and> (\<forall>r \<in> set rows. ascii_row r))"

text \<open>\<open>uniq\<close> as a rewrite rule, for each encoding in turn.\<close>

lemma uniq_cut: "uniq enc A \<Longrightarrow> A x \<Longrightarrow> A y \<Longrightarrow> enc x @ t = enc y @ u \<longleftrightarrow> x = y \<and> t = u"
  using uniqD [of enc A x y t u] by blast

lemma json_pct_cut: "json_pct p @ CHR 0x2C # t = json_pct q @ CHR 0x2C # u \<longleftrightarrow> p = q \<and> t = u"
  using uniq_json_pct by blast

lemmas json_cut = uniq_cut [OF uniq_json_string] json_pct_cut

lemma uniq_json_row: "uniq json_row_of ascii_row"
proof (rule uniqI)
  fix v w t u
  assume a: "ascii_row v" "ascii_row w" and e: "json_row_of v @ t = json_row_of w @ u"
  obtain k p x g where v: "v = (k, p, x, g)" by (cases v)
  obtain k' p' x' g' where w: "w = (k', p', x', g')" by (cases w)
  show "v = w \<and> t = u"
    using a e unfolding v w by (simp add: json_row_of_def json_array_def ascii_row_def json_cut)
qed

lemma json_row_of_start: "json_row_of v \<noteq> CHR 0x5D # r" "json_row_of v \<noteq> []"
  by (auto simp: json_row_of_def json_array_def split: prod.splits)

lemma json_provider_of_start: "json_provider_of v \<noteq> CHR 0x5D # r" "json_provider_of v \<noteq> []"
  by (auto simp: json_provider_of_def json_array_def split: prod.splits)

lemmas json_rows_cut = uniqD [OF uniq_json_array [OF uniq_json_row json_row_of_start]]

lemma uniq_json_provider: "uniq json_provider_of ascii_provider"
proof (rule uniqI)
  fix v w t u
  assume a: "ascii_provider v" "ascii_provider w"
    and e: "json_provider_of v @ t = json_provider_of w @ u"
  obtain i st pl k sv rs where v: "v = (i, st, pl, k, sv, rs)" by (cases v)
  obtain i' st' pl' k' sv' rs' where w: "w = (i', st', pl', k', sv', rs')" by (cases w)
  have heads: "i = i' \<and> st = st' \<and> pl = pl' \<and> k = k' \<and> sv = sv' \<and>
     json_array (map json_row_of rs) @ CHR 0x5D # t = json_array (map json_row_of rs') @ CHR 0x5D # u"
    using a e unfolding v w
    by (simp add: json_provider_of_def json_array_def [of "_ # _"] ascii_provider_def json_cut)
  moreover have "rs = rs' \<and> CHR 0x5D # t = CHR 0x5D # u"
    by (rule json_rows_cut) (use a heads in \<open>auto simp: v w ascii_provider_def\<close>)
  ultimately show "v = w \<and> t = u" using v w by simp
qed

lemma rev_document_inject:
  assumes "\<forall>p \<in> set ps. ascii_provider (prov_view p)" "\<forall>q \<in> set qs. ascii_provider (prov_view q)"
  shows "rev_document ps = rev_document qs \<longleftrightarrow> map prov_view ps = map prov_view qs"
proof
  assume "rev_document ps = rev_document qs"
  then have "json_array (map json_provider_of (map prov_view ps)) @ [] =
             json_array (map json_provider_of (map prov_view qs)) @ []"
    by (simp add: rev_document_view)
  then show "map prov_view ps = map prov_view qs"
    using uniqD [OF uniq_json_array [OF uniq_json_provider json_provider_of_start],
        of "map prov_view ps" "map prov_view qs" "[]" "[]"] assms
    by simp
qed (simp add: rev_document_view)

subsection \<open>hash.go: Apply\<close>

definition Apply :: "provider list \<Rightarrow> int \<Rightarrow> snapshot \<Rightarrow> snapshot" where
  "Apply ps now s = (let r = Rev ps;
      s1 = (if r \<noteq> snap_Rev s
            then s\<lparr>snap_Seq := snap_Seq s + 1, snap_Rev := r, snap_GeneratedAt := now\<rparr> else s)
    in s1\<lparr>snap_CheckedAt := now, snap_Providers := ps, snap_V := 1\<rparr>)"

definition apply_all :: "(provider list \<times> int) list \<Rightarrow> snapshot \<Rightarrow> snapshot" where
  "apply_all h s = foldl (\<lambda>s (ps, now). Apply ps now s) s h"

text \<open>How often the values of a list differ from the one before, starting from \<open>a\<close>.\<close>

fun changes :: "'a \<Rightarrow> 'a list \<Rightarrow> nat" where
  "changes a [] = 0"
| "changes a (b # bs) = (if a = b then 0 else 1) + changes b bs"

text \<open>The time of the last change.\<close>

fun last_change :: "int \<Rightarrow> 'a \<Rightarrow> ('a \<times> int) list \<Rightarrow> int" where
  "last_change g a [] = g"
| "last_change g a ((b, t) # bs) = last_change (if a = b then g else t) b bs"

lemma apply_all_simps [simp]:
  "apply_all [] s = s"
  "apply_all ((ps, now) # h) s = apply_all h (Apply ps now s)"
  by (simp_all add: apply_all_def)

lemma Apply_fields [simp]:
  "snap_V (Apply ps now s) = 1"
  "snap_Rev (Apply ps now s) = Rev ps"
  "snap_CheckedAt (Apply ps now s) = now"
  "snap_Providers (Apply ps now s) = ps"
  "snap_NextSec (Apply ps now s) = snap_NextSec s"
  "snap_Seq (Apply ps now s) = snap_Seq s + (if Rev ps = snap_Rev s then 0 else 1)"
  "snap_GeneratedAt (Apply ps now s) = (if Rev ps = snap_Rev s then snap_GeneratedAt s else now)"
  by (auto simp: Apply_def Let_def)

lemma apply_all_seq:
  "snap_Seq (apply_all h s) = snap_Seq s + int (changes (snap_Rev s) (map (Rev \<circ> fst) h))"
  by (induction h arbitrary: s) (auto simp: split_paired_all)

lemma apply_all_generated:
  "snap_GeneratedAt (apply_all h s) =
     last_change (snap_GeneratedAt s) (snap_Rev s) (map (\<lambda>(ps, t). (Rev ps, t)) h)"
  by (induction h arbitrary: s) (auto simp: split_paired_all)

lemma apply_all_last:
  "h \<noteq> [] \<Longrightarrow> snap_Rev (apply_all h s) = Rev (fst (last h)) \<and> snap_V (apply_all h s) = 1 \<and>
     snap_CheckedAt (apply_all h s) = snd (last h) \<and> snap_Providers (apply_all h s) = fst (last h)"
proof (induction h arbitrary: s)
  case (Cons p h)
  then show ?case by (cases p; cases h) auto
qed simp

lemma apply_all_next_sec: "snap_NextSec (apply_all h s) = snap_NextSec s"
  by (induction h arbitrary: s) (auto simp: split_paired_all)

subsection \<open>state.go\<close>

record state =
  st_Snapshot :: snapshot
  st_Cooldowns :: "string \<rightharpoonup> int"
  st_LastGood :: "string \<rightharpoonup> provider"

definition empty_state :: state where
  "empty_state = \<lparr>st_Snapshot = empty_snapshot, st_Cooldowns = Map.empty, st_LastGood = Map.empty\<rparr>"

text \<open>
  \<open>Load\<close> and \<open>Save\<close> on the file system of \<open>Go_Files\<close>: a whole document unmarshals to the state
  it was marshalled from, a torn one does not parse.
\<close>

definition Load :: "string \<Rightarrow> state fs \<Rightarrow> load_error + state" where
  "Load path fs = load_file empty_state path fs"

definition Save ::
  "state outcome \<times> state outcome \<times> state outcome \<times> bool \<Rightarrow> string \<Rightarrow> state \<Rightarrow> state fs \<Rightarrow> state fs \<times> save_result"
where
  "Save oc path st fs = atomic_save oc path st fs"

fun save_all ::
  "string \<Rightarrow> ((state outcome \<times> state outcome \<times> state outcome \<times> bool) \<times> state) list \<Rightarrow> state fs \<Rightarrow> state fs"
where
  "save_all path [] fs = fs"
| "save_all path ((oc, st) # h) fs = save_all path h (fst (Save oc path st fs))"

lemma save_all_is_saves: "save_all path h fs = atomic_file.saves path h fs"
  by (induction path h fs rule: save_all.induct) (simp_all add: Save_def)

subsection \<open>What the component promises\<close>

text \<open>
  \<open>Validate\<close> accepts a snapshot exactly when the v1 contract holds: version 1, no provider
  id twice, every provider id, status, kind and severity from its fixed set, every message at
  most 24 runes, every row label at most 10 runes, every row text at most 11 and every tier
  known.  The order of the checks only decides which error is reported.
\<close>

theorem Validate_contract:
  "Validate s = Inr () \<longleftrightarrow> snapshot_ok s"
  by (rule Validate_iff)

text \<open>
  The revision is 8 hexadecimal digits that depend on nothing but the ordered list of
  \<open>[id, status, plan, kind, severity, [k, pct, txt, tier]*]\<close>: rewriting every label, message,
  fetch time and reset time leaves it alone.  And for ASCII blocks the text that is hashed
  determines that list, so two different lists are only confused by a collision of the hash.
\<close>

theorem Rev_scope:
  "length (Rev ps) = 8 \<and>
   Rev (map (\<lambda>p. p\<lparr>prov_Label := l p, prov_Msg := m p, prov_FetchedAt := f p,
               prov_Rows := map (\<lambda>r. r\<lparr>row_Label := rl r, row_ResetAt := rr r\<rparr>) (prov_Rows p)\<rparr>) ps)
     = Rev ps \<and>
   ((\<forall>p \<in> set (ps @ qs). ascii_provider (prov_view p)) \<longrightarrow>
     (rev_document ps = rev_document qs \<longleftrightarrow> map prov_view ps = map prov_view qs))"
proof -
  have "row_view \<circ> (\<lambda>r. r\<lparr>row_Label := rl r, row_ResetAt := rr r\<rparr>) = row_view"
    by (rule ext) (simp add: row_view_def)
  then have "rev_document (map (\<lambda>p. p\<lparr>prov_Label := l p, prov_Msg := m p, prov_FetchedAt := f p,
      prov_Rows := map (\<lambda>r. r\<lparr>row_Label := rl r, row_ResetAt := rr r\<rparr>) (prov_Rows p)\<rparr>) ps)
      = rev_document ps"
    by (simp add: rev_document_view prov_view_def comp_def)
  then show ?thesis
    using rev_document_inject [of ps qs] by (auto simp: Rev_def [of "map _ _"] Rev_def [of ps] length_Rev)
qed

lemma Rev_scope_witness:
  "rev_document [empty_provider\<lparr>prov_ID := ''groq''\<rparr>] \<noteq> rev_document [empty_provider]"
  using Rev_scope [of "[empty_provider\<lparr>prov_ID := ''groq''\<rparr>]" _ _ _ _ _ "[empty_provider]"]
  by (simp add: prov_view_def empty_provider_def ascii_provider_def ascii_def)

text \<open>
  Over any sequence of polls, \<open>Apply\<close> raises \<open>seq\<close> by exactly the number of polls whose
  revision differs from the one before, and \<open>generated_at\<close> is the time of the last of them;
  \<open>next_sec\<close> is never touched, and after at least one poll the version is 1, \<open>checked_at\<close> is the
  time of the last poll, and the revision is that of the blocks the snapshot holds.
\<close>

theorem Apply_history:
  "snap_Seq (apply_all h s) = snap_Seq s + int (changes (snap_Rev s) (map (Rev \<circ> fst) h)) \<and>
   snap_GeneratedAt (apply_all h s) =
     last_change (snap_GeneratedAt s) (snap_Rev s) (map (\<lambda>(ps, t). (Rev ps, t)) h) \<and>
   snap_NextSec (apply_all h s) = snap_NextSec s \<and>
   (h = [] \<or> snap_Rev (apply_all h s) = Rev (snap_Providers (apply_all h s)) \<and>
     snap_V (apply_all h s) = 1 \<and> snap_CheckedAt (apply_all h s) = snd (last h) \<and>
     snap_Providers (apply_all h s) = fst (last h))"
  using apply_all_last [of h s] apply_all_seq [of h s] apply_all_generated [of h s]
    apply_all_next_sec [of h s]
  by auto

text \<open>
  With an order list that names no id twice (or with the canonical one, when it is empty),
  \<open>Order\<close> puts the ids named by the list first, in the list's order, and then every other id;
  ids that share a place keep the order they came in, and none is lost or invented.
\<close>

theorem Order_result:
  assumes "distinct (order_ref order)"
  shows "Order ids order =
     concat (map (\<lambda>r. filter (\<lambda>x. x = r) ids) (order_ref order)) @
     filter (\<lambda>x. x \<notin> set (order_ref order)) ids \<and>
   mset (Order ids order) = mset ids"
  by (simp only: Order_buckets [OF assms, symmetric]) (simp add: Order_def Let_def)

lemma Order_result_witness:
  "Order [''groq'', ''zed'', ''claude'', ''groq''] [] = [''claude'', ''groq'', ''groq'', ''zed'']"
proof -
  have "distinct (order_ref [])"
    by (simp add: order_ref_def canonicalProviderOrder_def)
  from conjunct1 [OF Order_result [OF this, of "[''groq'', ''zed'', ''claude'', ''groq'']"]]
  show ?thesis by (simp add: order_ref_def canonicalProviderOrder_def)
qed

text \<open>
  The state file survives failures.  After a \<open>Save\<close> that reported success, whatever later
  saves do (succeed, fail at any system call, die in the middle of one), \<open>Load\<close> finds a whole
  state: the one that was saved or one of the later ones.  A \<open>Save\<close> that returns an error leaves
  the state file as it was, and no \<open>Save\<close> touches any file but its own two.
\<close>

theorem Save_durable:
  "(snd (Save oc path st fs) = Saved \<longrightarrow>
     Load path (save_all path ((oc, st) # k) fs) \<in> Inr ` insert st (set (map snd k))) \<and>
   (\<forall>e. snd (Save oc path st fs) = SaveErr e \<longrightarrow> Load path (fst (Save oc path st fs)) = Load path fs) \<and>
   (q = path \<or> q = tmp_path path \<or> fst (Save oc path st fs) q = fs q)"
  using atomic_file.saves_after_success [of oc path st "[]" fs empty_state k]
    atomic_save_laws(2) [of oc path st fs] atomic_save_frame [of q path oc st fs]
  by (auto simp: Load_def Save_def save_all_is_saves)

lemma Save_durable_witness:
  "Load ''s'' (save_all ''s'' [((Done, Done, Done, False), empty_state),
       ((Done, Crash (Some Torn), Done, False), empty_state)] Map.empty) = Inr empty_state \<and>
   Load ''s'' (fst (Save (Done, Failed (Some Torn), Done, False) ''s'' empty_state
       [''s'' \<mapsto> Torn])) = Inl Corrupt"
proof -
  have "snd (Save (Done, Done, Done, False) ''s'' empty_state Map.empty) = Saved"
    "snd (Save (Done, Failed (Some Torn), Done, False) ''s'' empty_state [''s'' \<mapsto> Torn]) = SaveErr WriteTmp"
    "Load ''s'' [''s'' \<mapsto> Torn] = Inl Corrupt"
    by (simp_all add: Save_def atomic_save_def Load_def load_file_def Let_def)
  then show ?thesis
    using Save_durable [of "(Done, Done, Done, False)" "''s''" empty_state Map.empty
        "[((Done, Crash (Some Torn), Done, False), empty_state)]" "''s''"]
      Save_durable [of "(Done, Failed (Some Torn), Done, False)" "''s''" empty_state
        "[''s'' \<mapsto> Torn]" "[]" "''s''"]
    by simp
qed

end
