(* ===== verification/Go_Float.thy ===== *)
theory Go_Float
  imports Go_Prelude "HOL-Library.Log_Nat"
begin

text \<open>
  Go's \<open>float64\<close>.  A value is the rational number it denotes, and each operation is the exact
  rational operation followed by \<open>fl\<close>, rounding to the nearest number with a 53-bit significand,
  ties to even: IEEE 754 double arithmetic on the range where neither overflow nor underflow
  occurs, which is where the percentages, paces, waits and prices of the modelled code lie
  (magnitudes between \<open>2 ^ -60\<close> and \<open>2 ^ 60\<close>).  NaN, infinities and signed zeros do not arise
  there, and no fused multiply-add is used.
\<close>

definition round_even :: "rat \<Rightarrow> int" where
  "round_even x = (let f = \<lfloor>x\<rfloor>; r = x - of_int f in
     if r < 1 / 2 then f else if r > 1 / 2 then f + 1 else if even f then f else f + 1)"

lemma round_even_error: "\<bar>of_int (round_even x) - x\<bar> \<le> 1 / 2"
proof -
  have "of_int \<lfloor>x\<rfloor> \<le> x" "x < of_int \<lfloor>x\<rfloor> + 1" by linarith+
  then show ?thesis
    by (simp add: round_even_def Let_def abs_if) linarith
qed

lemma round_even_of_int [simp]: "round_even (of_int n) = n"
  by (simp add: round_even_def)

lemma round_even_mono: "x \<le> y \<Longrightarrow> round_even x \<le> round_even y"
proof -
  assume xy: "x \<le> y"
  then have f: "\<lfloor>x\<rfloor> \<le> \<lfloor>y\<rfloor>" by (rule floor_mono)
  show ?thesis
  proof (cases "\<lfloor>x\<rfloor> = \<lfloor>y\<rfloor>")
    case True
    with xy show ?thesis by (auto simp: round_even_def Let_def)
  next
    case False
    with f have "\<lfloor>x\<rfloor> + 1 \<le> \<lfloor>y\<rfloor>" by simp
    then show ?thesis by (auto simp: round_even_def Let_def)
  qed
qed

lemma round_even_le: "x \<le> of_int n \<Longrightarrow> round_even x \<le> n"
  using round_even_mono [of x "of_int n"] by simp

lemma round_even_ge: "of_int n \<le> x \<Longrightarrow> n \<le> round_even x"
  using round_even_mono [of "of_int n" x] by simp

lemma round_even_minus: "round_even (- x) = - round_even x"
proof -
  have f: "x = of_int \<lfloor>x\<rfloor> + frac x" "0 \<le> frac x" "frac x < 1"
    by (simp_all add: frac_def) linarith+
  show ?thesis
  proof (cases "frac x = 0")
    case True
    then have "x = of_int \<lfloor>x\<rfloor>" using f(1) by simp
    then show ?thesis by (metis of_int_minus round_even_of_int)
  next
    case False
    then have "\<lfloor>- x\<rfloor> = - \<lfloor>x\<rfloor> - 1"
      using f by linarith
    moreover have "x - of_int \<lfloor>x\<rfloor> = frac x" "- x - of_int (- \<lfloor>x\<rfloor> - 1) = 1 - frac x"
      by (simp_all add: frac_def)
    ultimately show ?thesis
      by (auto simp: round_even_def Let_def)
  qed
qed

text \<open>The binary exponent of a positive number.\<close>

definition ilog2 :: "rat \<Rightarrow> int" where
  "ilog2 x = (case quotient_of x of (n, d) \<Rightarrow>
     let e = bitlen n - bitlen d in if 2 powi e \<le> x then e else e - 1)"

lemma ilog2_bounds:
  assumes "0 < x"
  shows "2 powi ilog2 x \<le> x" "x < 2 powi (ilog2 x + 1)"
proof -
  obtain n d where q: "quotient_of x = (n, d)" by (cases "quotient_of x")
  then have d: "0 < d" and x: "x = of_int n / of_int d"
    using quotient_of_denom_pos quotient_of_div by blast+
  have n: "0 < n" using assms d x by (simp add: zero_less_divide_iff)
  let ?bn = "bitlen n" and ?bd = "bitlen d"
  have bn: "2 powi (?bn - 1) \<le> (of_int n :: rat)" "(of_int n :: rat) < 2 powi ?bn"
    and bd: "2 powi (?bd - 1) \<le> (of_int d :: rat)" "(of_int d :: rat) < 2 powi ?bd"
  proof -
    have pos: "0 < bitlen k" if "0 < k" for k :: int
      using bitlen_nonneg [of k] bitlen_eq_zero_iff [of k] that by linarith
    have *: "2 powi (bitlen k - 1) \<le> (of_int k :: rat) \<and> (of_int k :: rat) < 2 powi (bitlen k)"
      if "0 < k" for k :: int
    proof -
      have "2 ^ nat (bitlen k - 1) \<le> k" "k < 2 ^ nat (bitlen k)"
        using bitlen_bounds [OF that] by auto
      then have "(of_int (2 ^ nat (bitlen k - 1)) :: rat) \<le> of_int k"
        "(of_int k :: rat) < of_int (2 ^ nat (bitlen k))"
        using of_int_le_iff of_int_less_iff by blast+
      with pos [OF that] show ?thesis by (simp add: power_int_def)
    qed
    show "2 powi (?bn - 1) \<le> (of_int n :: rat)" "(of_int n :: rat) < 2 powi ?bn"
      "2 powi (?bd - 1) \<le> (of_int d :: rat)" "(of_int d :: rat) < 2 powi ?bd"
      using * [OF n] * [OF d] by auto
  qed
  let ?e = "?bn - ?bd"
  have lo: "2 powi (?e - 1) < x"
  proof -
    have "2 powi (?e - 1) * of_int d < (2 powi (?e - 1) * 2 powi ?bd :: rat)"
      using bd(2) by simp
    also have "\<dots> = 2 powi (?bn - 1)" by (simp flip: power_int_add)
    also have "\<dots> \<le> of_int n" by (rule bn(1))
    finally show ?thesis using d x by (simp add: pos_less_divide_eq)
  qed
  have hi: "x < 2 powi (?e + 1)"
  proof -
    have "of_int n < (2 powi ?bn :: rat)" by (rule bn(2))
    also have "\<dots> = 2 powi (?e + 1) * 2 powi (?bd - 1)" by (simp flip: power_int_add)
    also have "\<dots> \<le> 2 powi (?e + 1) * of_int d" using bd(1) by simp
    finally show ?thesis using d x by (simp add: pos_divide_less_eq)
  qed
  show "2 powi ilog2 x \<le> x" "x < 2 powi (ilog2 x + 1)"
    using lo hi by (auto simp: ilog2_def q Let_def)
qed

text \<open>Rounding to 53 bits.\<close>

definition ulp :: "rat \<Rightarrow> rat" where
  "ulp x = 2 powi (ilog2 \<bar>x\<bar> - 52)"

definition fl :: "rat \<Rightarrow> rat" where
  "fl x = (if x = 0 then 0 else of_int (round_even (x / ulp x)) * ulp x)"

lemma ulp_pos [simp]: "0 < ulp x" "ulp x \<noteq> 0"
  by (simp_all add: ulp_def)

lemma ulp_minus [simp]: "ulp (- x) = ulp x"
  by (simp add: ulp_def)

lemma fl_0 [simp]: "fl 0 = 0"
  by (simp add: fl_def)

lemma fl_minus: "fl (- x) = - fl x"
  by (simp add: fl_def round_even_minus)

lemma ulp_bounds:
  assumes "0 < x"
  shows "2 ^ 52 * ulp x \<le> x" "x < 2 ^ 53 * ulp x"
proof -
  have "2 powi ilog2 x = 2 ^ 52 * ulp x" "2 powi (ilog2 x + 1) = 2 ^ 53 * ulp x"
    using assms by (simp_all add: ulp_def power_int_diff power_int_add)
  then show "2 ^ 52 * ulp x \<le> x" "x < 2 ^ 53 * ulp x"
    using ilog2_bounds [OF assms] by simp_all
qed

lemma fl_error: "\<bar>fl x - x\<bar> \<le> \<bar>x\<bar> / 2 ^ 53"
proof (cases "x = 0")
  case False
  have u: "2 ^ 52 * ulp x \<le> \<bar>x\<bar>"
    using ulp_bounds(1) [of "\<bar>x\<bar>"] False by (simp add: ulp_def)
  have "fl x - x = (of_int (round_even (x / ulp x)) - x / ulp x) * ulp x"
    using False by (simp add: fl_def left_diff_distrib)
  then have "\<bar>fl x - x\<bar> = \<bar>of_int (round_even (x / ulp x)) - x / ulp x\<bar> * ulp x"
    by (simp add: abs_mult less_imp_le)
  also have "\<dots> \<le> 1 / 2 * ulp x"
    by (rule mult_right_mono [OF round_even_error]) (simp add: less_imp_le)
  also have "\<dots> \<le> \<bar>x\<bar> / 2 ^ 53" using u by simp
  finally show ?thesis .
qed simp

lemma fl_pos_range:
  assumes "0 < x"
  shows "2 ^ 52 * ulp x \<le> fl x" "fl x \<le> 2 ^ 53 * ulp x"
proof -
  have "2 ^ 52 \<le> x / ulp x" "x / ulp x \<le> 2 ^ 53"
    using ulp_bounds [OF assms] by (simp_all add: pos_le_divide_eq pos_divide_le_eq)
  then have "2 ^ 52 \<le> round_even (x / ulp x)" "round_even (x / ulp x) \<le> 2 ^ 53"
    by (auto intro!: round_even_ge round_even_le)
  then have "(2 ^ 52 :: rat) \<le> of_int (round_even (x / ulp x))"
    "of_int (round_even (x / ulp x)) \<le> (2 ^ 53 :: rat)"
    by (metis of_int_le_iff of_int_numeral of_int_power)+
  then show "2 ^ 52 * ulp x \<le> fl x" "fl x \<le> 2 ^ 53 * ulp x"
    using assms by (simp_all add: fl_def)
qed

lemma fl_nonneg: "0 \<le> x \<Longrightarrow> 0 \<le> fl x"
proof (cases "x = 0")
  case False
  assume "0 \<le> x"
  with False have "2 ^ 52 * ulp x \<le> fl x" by (intro fl_pos_range(1)) simp
  moreover have "0 < 2 ^ 52 * ulp x" by simp
  ultimately show ?thesis by linarith
qed simp

lemma ilog2_mono:
  assumes "0 < x" "x \<le> y"
  shows "ilog2 x \<le> ilog2 y"
proof (rule ccontr)
  assume "\<not> ilog2 x \<le> ilog2 y"
  then have "ilog2 y + 1 \<le> ilog2 x" by simp
  then have "(2 :: rat) powi (ilog2 y + 1) \<le> 2 powi ilog2 x"
    by (rule power_int_increasing) simp_all
  with ilog2_bounds [of x] ilog2_bounds [of y] assms show False by linarith
qed

lemma fl_mono_pos:
  assumes "0 < x" "x \<le> y"
  shows "fl x \<le> fl y"
proof (cases "ilog2 x = ilog2 y")
  case True
  with assms have "ulp x = ulp y" by (simp add: ulp_def)
  moreover have "round_even (x / ulp y) \<le> round_even (y / ulp y)"
    by (rule round_even_mono) (simp add: assms divide_right_mono less_imp_le)
  ultimately show ?thesis using assms by (simp add: fl_def)
next
  case False
  with ilog2_mono [OF assms] have "ilog2 x + 1 \<le> ilog2 y" by simp
  then have "(2 :: rat) powi (ilog2 x + 1) \<le> 2 powi ilog2 y"
    by (rule power_int_increasing) simp_all
  then have "2 ^ 53 * ulp x \<le> 2 ^ 52 * ulp y"
    using assms by (simp add: ulp_def power_int_diff power_int_add)
  with fl_pos_range(2) [of x] fl_pos_range(1) [of y] assms show ?thesis by linarith
qed

lemma fl_mono: "x \<le> y \<Longrightarrow> fl x \<le> fl y"
proof -
  assume xy: "x \<le> y"
  consider "0 < x" | "x \<le> 0" "0 \<le> y" | "y < 0" by linarith
  then show ?thesis
  proof cases
    case 1
    then show ?thesis using xy by (rule fl_mono_pos)
  next
    case 2
    then have "0 \<le> fl (- x)" "0 \<le> fl y" by (simp_all add: fl_nonneg)
    then show ?thesis by (simp add: fl_minus)
  next
    case 3
    then have "fl (- y) \<le> fl (- x)" using xy by (intro fl_mono_pos) simp_all
    then show ?thesis by (simp add: fl_minus)
  qed
qed

text \<open>Integers of at most 53 bits are exact.\<close>

lemma fl_of_int:
  assumes "\<bar>n\<bar> < 2 ^ 53"
  shows "fl (of_int n) = of_int n"
proof (cases "n = 0")
  case False
  let ?x = "of_int n :: rat"
  have x: "0 < \<bar>?x\<bar>" using False by simp
  have "\<bar>?x\<bar> < 2 powi 53"
    using assms by (metis of_int_abs of_int_less_iff of_int_numeral of_int_power power_int_numeral)
  with ilog2_bounds(1) [OF x] have "(2 :: rat) powi ilog2 \<bar>?x\<bar> < 2 powi 53" by linarith
  then have "ilog2 \<bar>?x\<bar> \<le> 52"
    using power_int_increasing [of 53 "ilog2 \<bar>?x\<bar>" "2 :: rat"] by (cases "ilog2 \<bar>?x\<bar> \<le> 52") auto
  then have "?x / ulp ?x = of_int (n * 2 ^ nat (52 - ilog2 \<bar>?x\<bar>))"
    by (simp add: ulp_def power_int_def power_int_diff divide_simps flip: power_int_minus)
  then have "fl ?x = of_int (n * 2 ^ nat (52 - ilog2 \<bar>?x\<bar>)) * ulp ?x"
    using False unfolding fl_def by (metis of_int_eq_0_iff round_even_of_int)
  also have "\<dots> = ?x"
    using \<open>?x / ulp ?x = _\<close> by (metis nonzero_divide_eq_eq ulp_pos(2))
  finally show ?thesis .
qed simp

lemma fl_numeral: "numeral k < (2 ^ 53 :: int) \<Longrightarrow> fl (numeral k) = numeral k"
  using fl_of_int [of "numeral k"] by simp

lemma fl_1 [simp]: "fl 1 = 1"
  using fl_of_int [of 1] by simp

lemma fl_100 [simp]: "fl 100 = 100"
  by (rule fl_numeral) simp

lemma fl_le_1: "x \<le> 1 \<Longrightarrow> fl x \<le> 1"
  using fl_mono [of x 1] by simp

lemma fl_ge_1: "1 \<le> x \<Longrightarrow> 1 \<le> fl x"
  using fl_mono [of 1 x] by simp

lemma fl_ge_minus_1: "- 1 \<le> x \<Longrightarrow> - 1 \<le> fl x"
  using fl_mono [of "- 1" x] by (simp add: fl_minus [of 1])

text \<open>\<open>math.Round\<close> (half away from zero), and the conversion \<open>int(x)\<close>, which truncates.\<close>

definition math_round :: "rat \<Rightarrow> int" where
  "math_round x = (if 0 \<le> x then \<lfloor>x + 1 / 2\<rfloor> else - \<lfloor>1 / 2 - x\<rfloor>)"

definition trunc :: "rat \<Rightarrow> int" where
  "trunc x = (if 0 \<le> x then \<lfloor>x\<rfloor> else - \<lfloor>- x\<rfloor>)"

lemma math_round_of_int [simp]: "math_round (of_int n) = n"
proof -
  have "\<lfloor>of_int n + 1 / 2 :: rat\<rfloor> = n" "\<lfloor>1 / 2 - of_int n :: rat\<rfloor> = - n" by linarith+
  then show ?thesis by (simp add: math_round_def)
qed

lemma math_round_le: "0 \<le> x \<Longrightarrow> x < of_int n + 1 / 2 \<Longrightarrow> math_round x \<le> n"
  unfolding math_round_def by (simp add: floor_le_iff)

lemma math_round_ge: "0 \<le> x \<Longrightarrow> of_int n - 1 / 2 \<le> x \<Longrightarrow> n \<le> math_round x"
  unfolding math_round_def by (simp add: le_floor_iff)

text \<open>Go's integer division truncates toward zero.\<close>

definition quot :: "int \<Rightarrow> int \<Rightarrow> int" where
  "quot a b = sgn a * sgn b * (\<bar>a\<bar> div \<bar>b\<bar>)"

definition remn :: "int \<Rightarrow> int \<Rightarrow> int" where
  "remn a b = a - b * quot a b"

lemma quot_nonneg: "0 \<le> a \<Longrightarrow> 0 < b \<Longrightarrow> quot a b = a div b"
  by (simp add: quot_def sgn_if)

lemma remn_nonneg: "0 \<le> a \<Longrightarrow> 0 < b \<Longrightarrow> remn a b = a mod b"
  by (simp add: remn_def quot_nonneg minus_mult_div_eq_mod)

text \<open>\<open>%.kf\<close>: the decimal nearest to the exact value, ties to even.\<close>

fun pad_zeros :: "nat \<Rightarrow> string \<Rightarrow> string" where
  "pad_zeros n s = replicate (n - length s) (CHR ''0'') @ s"

definition show_fixed :: "nat \<Rightarrow> rat \<Rightarrow> string" where
  "show_fixed k x = (let m = round_even (\<bar>x\<bar> * 10 ^ k);
      whole = nat (m div 10 ^ k); frc = nat (m mod 10 ^ k)
    in (if x < 0 then ''-'' else []) @ show_nat whole @
       (if k = 0 then [] else CHR ''.'' # pad_zeros k (show_nat frc)))"

end
