(* ===== verification/Go_Time.thy ===== *)
theory Go_Time
  imports Go_Float
begin

text \<open>
  Package \<open>time\<close> as far as the sources use it.  An instant is the number of nanoseconds since
  the Unix epoch, a \<open>Duration\<close> a number of nanoseconds.  \<open>Time.Sub\<close> saturates at the ends of
  \<open>int64\<close>; the zero \<open>Time\<close> is midnight of January 1 of the year 1.
\<close>

definition Nanosecond :: int where "Nanosecond = 1"
definition Millisecond :: int where "Millisecond = 1000000"
definition Second :: int where "Second = 1000000000"
definition Minute :: int where "Minute = 60 * Second"
definition Hour :: int where "Hour = 60 * Minute"

lemmas duration_units = Nanosecond_def Millisecond_def Second_def Minute_def Hour_def

definition zero_time :: int where
  "zero_time = - 62135596800 * Second"

definition is_zero :: "int \<Rightarrow> bool" where
  "is_zero t \<longleftrightarrow> t = zero_time"

definition max_duration :: int where "max_duration = 2 ^ 63 - 1"
definition min_duration :: int where "min_duration = - (2 ^ 63)"

definition time_sub :: "int \<Rightarrow> int \<Rightarrow> int" where
  "time_sub t u = max min_duration (min max_duration (t - u))"

lemma time_sub_exact: "\<bar>t - u\<bar> < 2 ^ 63 \<Longrightarrow> time_sub t u = t - u"
  by (simp add: time_sub_def max_duration_def min_duration_def)

lemma time_sub_pos_iff: "0 < time_sub t u \<longleftrightarrow> u < t"
  by (auto simp: time_sub_def max_duration_def min_duration_def max_def min_def)

lemma time_sub_le_iff: "0 \<le> d \<Longrightarrow> d < max_duration \<Longrightarrow> time_sub t u \<le> d \<longleftrightarrow> t - u \<le> d"
  by (auto simp: time_sub_def max_duration_def min_duration_def max_def min_def)

text \<open>\<open>time.Unix(sec, 0)\<close>, and \<open>t.Unix()\<close>, which rounds toward the past.\<close>

definition of_unix :: "int \<Rightarrow> int" where
  "of_unix sec = sec * Second"

definition to_unix :: "int \<Rightarrow> int" where
  "to_unix t = t div Second"

lemma to_unix_of_unix [simp]: "to_unix (of_unix s) = s"
  by (simp add: to_unix_def of_unix_def Second_def)

text \<open>\<open>Duration.Seconds\<close>: whole seconds and the fraction are converted separately.\<close>

definition duration_seconds :: "int \<Rightarrow> rat" where
  "duration_seconds d =
     fl (fl (of_int (quot d Second)) + fl (fl (of_int (remn d Second)) / of_int Second))"

text \<open>
  A \<open>*time.Location\<close> is the offset from UTC, in seconds, at each unix second.  \<open>Format("15:04")\<close>
  and \<open>Format("Mon")\<close> print the wall clock and the weekday there.
\<close>

type_synonym location = "int \<Rightarrow> int"

definition local_seconds :: "location \<Rightarrow> int \<Rightarrow> int" where
  "local_seconds loc t = to_unix t + loc (to_unix t)"

definition format_hhmm :: "location \<Rightarrow> int \<Rightarrow> string" where
  "format_hhmm loc t = (let s = local_seconds loc t mod 86400 in
     show_nat2 (nat (s div 3600)) @ '':'' @ show_nat2 (nat (s mod 3600 div 60)))"

definition weekday_names :: "string list" where
  "weekday_names = [''Sun'', ''Mon'', ''Tue'', ''Wed'', ''Thu'', ''Fri'', ''Sat'']"

definition format_weekday :: "location \<Rightarrow> int \<Rightarrow> string" where
  "format_weekday loc t = weekday_names ! nat ((local_seconds loc t div 86400 + 4) mod 7)"

lemma length_show_nat2: "n < 100 \<Longrightarrow> length (show_nat2 n) = 2"
  by (cases "n < 10") (simp_all add: show_nat2_def show_nat.simps [of n] show_nat.simps [of "n div 10"])

lemma length_format_hhmm [simp]: "length (format_hhmm loc t) = 5"
proof -
  let ?s = "local_seconds loc t mod 86400"
  have "nat (?s div 3600) < 100" "nat (?s mod 3600 div 60) < 100"
    by (simp_all add: nat_less_iff)
  then show ?thesis by (simp add: format_hhmm_def Let_def length_show_nat2)
qed

lemma length_format_weekday [simp]: "length (format_weekday loc t) = 3"
proof -
  have "nat ((local_seconds loc t div 86400 + 4) mod 7) \<in> {0..<7}" by (simp add: nat_less_iff)
  moreover have "\<forall>i \<in> {0..<7}. length (weekday_names ! i) = 3"
    by (simp add: weekday_names_def atLeastLessThan_nat_numeral)
  ultimately show ?thesis unfolding format_weekday_def by blast
qed

end
