(* ===== verification/Advise.thy ===== *)
theory Advise
  imports Snapshot Go_Time
begin

text \<open>
  internal/advise: which plan to use for the next four hours.  \<open>Rank\<close> is written out with the
  code's helpers; the scores and paces are the \<open>float64\<close> values of \<open>Go_Float\<close>.
\<close>

subsection \<open>Constants and data\<close>

definition DefaultHorizon :: int where
  "DefaultHorizon = 4 * Hour"

definition scorePaceThreshold :: rat where
  "scorePaceThreshold = 1"

definition paceCap :: rat where
  "paceCap = fl (999 / 10)"

definition paceConfidenceFloor :: rat where
  "paceConfidenceFloor = fl (1 / 10)"

definition minElapsedFraction :: rat where
  "minElapsedFraction = fl (1 / 100)"

record recommendation =
  rec_ID :: string
  rec_Label :: string
  rec_Score :: rat
  rec_PaceRatio :: rat
  rec_Headroom :: int
  rec_Reason :: string
  rec_Blocked :: bool
  rec_BlockedForSec :: int

record outcome =
  out_Winner :: "string option"
  out_Recommendations :: "recommendation list"

definition windowDurations :: "string \<Rightarrow> int option" where
  "windowDurations k =
     (if k = ''5h'' then Some (5 * Hour)
      else if k = ''7d'' then Some (7 * 24 * Hour)
      else if k = ''30d'' then Some (30 * 24 * Hour)
      else None)"

record window =
  win_key :: string
  win_pct :: int
  win_resetAt :: int
  win_windowLen :: int
  win_headroom :: int
  win_pace :: rat
  win_stale :: bool
  win_blocked :: bool

subsection \<open>computePace and computeWindows\<close>

definition computePace :: "int \<Rightarrow> int \<Rightarrow> int \<Rightarrow> rat" where
  "computePace pct windowLen untilReset =
     (let timeElapsed = windowLen - untilReset;
          ef0 = fl (fl (of_int timeElapsed) / fl (of_int windowLen));
          ef1 = (if ef0 < minElapsedFraction then minElapsedFraction else ef0);
          elapsedFraction = (if ef1 > 1 then 1 else ef1);
          usedFraction = fl (fl (of_int pct) / 100);
          raw = fl (usedFraction / elapsedFraction);
          paceRaw = (if raw > paceCap then paceCap else raw);
          confidence = min 1 (fl (elapsedFraction / paceConfidenceFloor))
      in fl (scorePaceThreshold + fl (fl (paceRaw - scorePaceThreshold) * confidence)))"

definition horizon_headroom :: "int \<Rightarrow> int \<Rightarrow> int \<Rightarrow> int" where
  "horizon_headroom pct untilReset horizon =
     (let waitFrac = fl (fl (of_int untilReset) / fl (of_int horizon))
      in trunc (of_int (math_round
           (fl (fl (fl (of_int (100 - pct)) * waitFrac) + fl (100 * fl (1 - waitFrac)))))))"

definition compute_window :: "int \<Rightarrow> int \<Rightarrow> row \<Rightarrow> window option" where
  "compute_window now horizon r =
     (case (windowDurations (row_K r), row_Pct r, row_ResetAt r) of
        (Some windowLen, Some pct, Some reset) \<Rightarrow>
          (let resetAt = of_unix reset; untilReset = time_sub resetAt now;
               (headroom, pace, stale) =
                 (if untilReset \<le> 0 then (100 - pct, scorePaceThreshold, True)
                  else if untilReset \<le> horizon
                    then (horizon_headroom pct untilReset horizon, scorePaceThreshold, False)
                  else (100 - pct, computePace pct windowLen untilReset, False))
           in Some \<lparr>win_key = row_K r, win_pct = pct, win_resetAt = resetAt,
                    win_windowLen = windowLen, win_headroom = headroom, win_pace = pace,
                    win_stale = stale, win_blocked = (pct = 100)\<rparr>)
      | _ \<Rightarrow> None)"

definition computeWindows :: "provider \<Rightarrow> int \<Rightarrow> int \<Rightarrow> window list" where
  "computeWindows p now horizon = List.map_filter (compute_window now horizon) (prov_Rows p)"

subsection \<open>aggregate, computeBlocked and the reason\<close>

fun aggregate_from :: "window \<Rightarrow> window list \<Rightarrow> window" where
  "aggregate_from binding [] = binding"
| "aggregate_from binding (w # ws) =
     aggregate_from
       (if win_headroom w < win_headroom binding \<or>
           win_headroom w = win_headroom binding \<and> win_windowLen w > win_windowLen binding
        then w else binding) ws"

text \<open>\<open>windows[0]\<close>; the caller passes a non-empty slice.\<close>

definition aggregate :: "window list \<Rightarrow> int \<times> window" where
  "aggregate windows =
     (let binding = aggregate_from (hd windows) (tl windows) in (win_headroom binding, binding))"

fun computeBlocked_from :: "string \<Rightarrow> int \<Rightarrow> window list \<Rightarrow> int \<Rightarrow> string \<times> int" where
  "computeBlocked_from key secs0 [] now = (key, secs0)"
| "computeBlocked_from key secs0 (w # ws) now =
     (if win_pct w \<noteq> 100 then computeBlocked_from key secs0 ws now
      else (let secs = trunc (duration_seconds (time_sub (win_resetAt w) now)) in
        if secs > 0 then
          (if key = [] \<or> secs < secs0 then computeBlocked_from (win_key w) secs ws now
           else computeBlocked_from key secs0 ws now)
        else if key = [] then computeBlocked_from (win_key w) secs0 ws now
        else computeBlocked_from key secs0 ws now))"

definition computeBlocked :: "window list \<Rightarrow> int \<Rightarrow> bool \<times> string \<times> int" where
  "computeBlocked windows now =
     (case computeBlocked_from [] 0 windows now of (key, secs) \<Rightarrow> (key \<noteq> [], key, secs))"

definition formatShortDuration :: "int \<Rightarrow> string" where
  "formatShortDuration sec =
     (if sec \<le> 0 then ''unknown''
      else (let h = quot sec 3600; m = quot (remn sec 3600) 60 in
        if h > 0 then show_int h @ ''h'' @ show_int m @ ''m'' else show_int m @ ''m''))"

text \<open>An em dash between spaces, in UTF-8.\<close>

definition emdash :: string where
  "emdash = '' '' @ [CHR 0xE2, CHR 0x80, CHR 0x94] @ '' ''"

definition reason :: "int \<Rightarrow> window \<Rightarrow> string \<Rightarrow> string \<Rightarrow> int \<Rightarrow> string" where
  "reason headroom binding status blockedKey blockedForSec =
     (let paceStr = show_fixed 2 (win_pace binding);
          staleTag = (if status = ''stale'' \<or> win_stale binding then '' (stale)'' else []);
          base = (if headroom \<le> 0
                  then ''all windows exhausted'' @ staleTag @ '' (pace '' @ paceStr @ ''x)''
                  else ''headroom '' @ show_int headroom @ ''%, binding '' @ win_key binding
                       @ staleTag @ '' (pace '' @ paceStr @ ''x)'')
      in if blockedKey \<noteq> []
         then base @ emdash @ ''BLOCKED: '' @ blockedKey @ '' at 100%, frees in ''
              @ formatShortDuration blockedForSec
         else base)"

subsection \<open>Rank\<close>

definition eligible :: "provider \<Rightarrow> bool" where
  "eligible p \<longleftrightarrow> prov_Kind p = ''plan'' \<and> (prov_Status p = ''ok'' \<or> prov_Status p = ''stale'')"

definition recommend :: "int \<Rightarrow> int \<Rightarrow> provider \<Rightarrow> recommendation option" where
  "recommend now horizon p =
     (if \<not> eligible p then None
      else (let windows = computeWindows p now horizon in
        if windows = [] then None
        else (case aggregate windows of (headroom, binding) \<Rightarrow>
          (case computeBlocked windows now of (provBlocked, blockedKey, blockedForSec) \<Rightarrow>
            Some \<lparr>rec_ID = prov_ID p, rec_Label = prov_Label p, rec_Score = fl (of_int headroom),
                  rec_PaceRatio = win_pace binding, rec_Headroom = headroom,
                  rec_Reason = reason headroom binding (prov_Status p) blockedKey blockedForSec,
                  rec_Blocked = provBlocked, rec_BlockedForSec = blockedForSec\<rparr>))))"

definition rank_less :: "recommendation \<Rightarrow> recommendation \<Rightarrow> bool" where
  "rank_less a b =
     (if rec_Score a \<noteq> rec_Score b then rec_Score a > rec_Score b
      else if rec_PaceRatio a \<noteq> rec_PaceRatio b then rec_PaceRatio a < rec_PaceRatio b
      else rec_ID a < rec_ID b)"

definition ranked :: "provider list \<Rightarrow> int \<Rightarrow> int \<Rightarrow> recommendation list" where
  "ranked ps now horizon = slice_stable rank_less (List.map_filter (recommend now horizon) ps)"

text \<open>The loop that looks for the blocked plan that frees soonest keeps the first of equals.\<close>

fun soonest :: "recommendation option \<Rightarrow> recommendation list \<Rightarrow> recommendation option" where
  "soonest best [] = best"
| "soonest best (r # rs) =
     soonest (if rec_Blocked r \<and> rec_Headroom r > 0 \<and> rec_BlockedForSec r > 0 \<and>
                 (case best of None \<Rightarrow> True | Some b \<Rightarrow> rec_BlockedForSec r < rec_BlockedForSec b)
              then Some r else best) rs"

definition usable :: "recommendation \<Rightarrow> bool" where
  "usable r \<longleftrightarrow> \<not> rec_Blocked r \<and> rec_Headroom r > 0"

definition pick :: "recommendation list \<Rightarrow> recommendation option" where
  "pick rs = (case find usable rs of Some r \<Rightarrow> Some r | None \<Rightarrow> soonest None rs)"

text \<open>Append to the reason of the first recommendation that satisfies \<open>P\<close>.\<close>

fun amend_first :: "(recommendation \<Rightarrow> bool) \<Rightarrow> string \<Rightarrow> recommendation list \<Rightarrow> recommendation list" where
  "amend_first P suffix [] = []"
| "amend_first P suffix (r # rs) =
     (if P r then r\<lparr>rec_Reason := rec_Reason r @ suffix\<rparr> # rs else r # amend_first P suffix rs)"

definition Rank :: "provider list \<Rightarrow> int \<Rightarrow> int \<Rightarrow> outcome" where
  "Rank ps now horizon = (let rs = ranked ps now horizon in
     case pick rs of
       None \<Rightarrow> \<lparr>out_Winner = None, out_Recommendations = rs\<rparr>
     | Some w \<Rightarrow> (let winnerID = rec_ID w; top = hd rs;
         rs1 = (if rec_Blocked top \<and> rec_ID top \<noteq> winnerID
                then amend_first (\<lambda>r. rec_ID r = winnerID)
                       (emdash @ rec_Label top @ '' is out for ''
                        @ formatShortDuration (rec_BlockedForSec top)
                        @ '', then it is the stronger pick'') rs
                else rs);
         rs2 = amend_first (\<lambda>r. rec_ID r = winnerID \<and> rec_Blocked r)
                 (emdash @ ''soonest to free'') rs1
         in \<lparr>out_Winner = Some winnerID, out_Recommendations = rs2\<rparr>))"

subsection \<open>The order of the table\<close>

definition rank_key :: "recommendation \<Rightarrow> rat \<times> rat \<times> string" where
  "rank_key r = (- rec_Score r, rec_PaceRatio r, rec_ID r)"

lemma rank_less_key: "rank_less a b \<longleftrightarrow> rank_key a < rank_key b"
  by (auto simp: rank_less_def rank_key_def less_prod_def' )

interpretation rank_order: keyed_order rank_less rank_key
  by unfold_locales (rule rank_less_key)

lemma rank_key_amend [simp]: "map rank_key (amend_first P suffix rs) = map rank_key rs"
  by (induction rs) (auto simp: rank_key_def)

definition strip :: "recommendation \<Rightarrow> recommendation" where
  "strip r = r\<lparr>rec_Reason := []\<rparr>"

lemma strip_amend [simp]: "map strip (amend_first P suffix rs) = map strip rs"
  by (induction rs) (auto simp: strip_def)

lemma strip_fields [simp]:
  "rec_ID (strip r) = rec_ID r" "rec_Blocked (strip r) = rec_Blocked r"
  "rec_Headroom (strip r) = rec_Headroom r" "rec_BlockedForSec (strip r) = rec_BlockedForSec r"
  "rec_PaceRatio (strip r) = rec_PaceRatio r" "rec_Score (strip r) = rec_Score r"
  "usable (strip r) = usable r" "rank_key (strip r) = rank_key r"
  by (simp_all add: strip_def usable_def rank_key_def)

lemma Rank_strip:
  "map strip (out_Recommendations (Rank ps now horizon)) = map strip (ranked ps now horizon)"
  by (auto simp: Rank_def Let_def split: option.splits)

lemma Rank_set_strip:
  "strip ` set (out_Recommendations (Rank ps now horizon)) = strip ` set (ranked ps now horizon)"
  by (metis Rank_strip list.set_map)

lemma Rank_keys: "map rank_key (out_Recommendations (Rank ps now horizon)) = map rank_key (ranked ps now horizon)"
  by (auto simp: Rank_def Let_def split: option.splits)

lemma ranked_sorted: "sorted (map rank_key (ranked ps now horizon))"
  by (simp add: ranked_def rank_order.sorted_keys)

lemma recommend_ID: "recommend now horizon p = Some r \<Longrightarrow> rec_ID r = prov_ID p"
  by (auto simp: recommend_def Let_def split: if_splits prod.splits)

lemma mset_map_filter: "mset xs = mset ys \<Longrightarrow> mset (List.map_filter f xs) = mset (List.map_filter f ys)"
  by (simp add: List.map_filter_def)

lemma map_filter_ids:
  "distinct (map prov_ID ps) \<Longrightarrow> distinct (map rec_ID (List.map_filter (recommend now horizon) ps))"
proof (induction ps)
  case (Cons p ps)
  have "rec_ID ` set (List.map_filter (recommend now horizon) ps) \<subseteq> prov_ID ` set ps"
    by (auto simp: List.map_filter_def) (metis imageI recommend_ID)
  with Cons show ?case
    by (auto simp: List.map_filter_simps recommend_ID split: option.split)
qed (simp add: List.map_filter_simps)

lemma distinct_rank_keys: "distinct (map rec_ID rs) \<Longrightarrow> distinct (map rank_key rs)"
  by (induction rs) (auto simp: rank_key_def)

lemma ranked_input_order:
  assumes "distinct (map prov_ID ps)" "mset ps = mset qs"
  shows "ranked ps now horizon = ranked qs now horizon"
  unfolding ranked_def
  by (rule rank_order.input_order_irrelevant)
     (simp_all add: mset_map_filter [OF assms(2)] distinct_rank_keys map_filter_ids assms(1))

subsection \<open>The winner\<close>

definition waits :: "recommendation \<Rightarrow> bool" where
  "waits r \<longleftrightarrow> rec_Blocked r \<and> rec_Headroom r > 0 \<and> rec_BlockedForSec r > 0"

lemma waits_strip [simp]: "waits (strip r) = waits r"
  by (simp add: waits_def)

definition better :: "recommendation option \<Rightarrow> recommendation \<Rightarrow> recommendation option" where
  "better best r =
     (if waits r \<and> (case best of None \<Rightarrow> True | Some b \<Rightarrow> rec_BlockedForSec r < rec_BlockedForSec b)
      then Some r else best)"

lemma soonest_better: "soonest best (r # rs) = soonest (better best r) rs"
  by (simp add: better_def waits_def)

lemma better_None: "better best r = None \<longleftrightarrow> best = None \<and> \<not> waits r"
  by (auto simp: better_def split: option.splits)

lemma better_Some:
  "better best r = Some w \<Longrightarrow>
   (best = Some w \<or> w = r \<and> waits r) \<and>
   (\<forall>b. best = Some b \<longrightarrow> rec_BlockedForSec w \<le> rec_BlockedForSec b) \<and>
   (waits r \<longrightarrow> rec_BlockedForSec w \<le> rec_BlockedForSec r)"
  by (auto simp: better_def split: option.splits if_splits)

lemma soonest_None: "soonest best rs = None \<longleftrightarrow> best = None \<and> (\<forall>r \<in> set rs. \<not> waits r)"
  by (induction rs arbitrary: best) (auto simp: soonest_better better_None simp del: soonest.simps(2))

lemma soonest_Some:
  "soonest best rs = Some w \<Longrightarrow>
   (best = Some w \<or> w \<in> set rs \<and> waits w) \<and>
   (\<forall>b. best = Some b \<longrightarrow> rec_BlockedForSec w \<le> rec_BlockedForSec b) \<and>
   (\<forall>r \<in> set rs. waits r \<longrightarrow> rec_BlockedForSec w \<le> rec_BlockedForSec r)"
proof (induction rs arbitrary: best)
  case (Cons r rs)
  have IH: "(better best r = Some w \<or> w \<in> set rs \<and> waits w) \<and>
    (\<forall>b. better best r = Some b \<longrightarrow> rec_BlockedForSec w \<le> rec_BlockedForSec b) \<and>
    (\<forall>r \<in> set rs. waits r \<longrightarrow> rec_BlockedForSec w \<le> rec_BlockedForSec r)"
    by (rule Cons.IH) (use Cons.prems in \<open>simp only: soonest_better\<close>)
  show ?case
  proof (cases "better best r")
    case None
    with IH better_None [of best r] show ?thesis by auto
  next
    case (Some b)
    then have "rec_BlockedForSec w \<le> rec_BlockedForSec b" using IH by simp
    with better_Some [OF Some] IH Some show ?thesis by fastforce
  qed
qed simp

definition best_of :: "recommendation list \<Rightarrow> recommendation \<Rightarrow> bool" where
  "best_of rs w \<longleftrightarrow> w \<in> set rs \<and>
     (if \<exists>r \<in> set rs. usable r
      then usable w \<and> (\<forall>r \<in> set rs. usable r \<longrightarrow> rank_key w \<le> rank_key r)
      else waits w \<and> (\<forall>r \<in> set rs. waits r \<longrightarrow> rec_BlockedForSec w \<le> rec_BlockedForSec r))"

lemma find_first_sorted:
  "sorted (map rank_key rs) \<Longrightarrow> find P rs = Some w \<Longrightarrow>
   w \<in> set rs \<and> P w \<and> (\<forall>r \<in> set rs. P r \<longrightarrow> rank_key w \<le> rank_key r)"
  by (induction rs) (auto split: if_splits)

lemma pick_spec:
  assumes "sorted (map rank_key rs)"
  shows "(case pick rs of None \<Rightarrow> \<forall>r \<in> set rs. \<not> usable r \<and> \<not> waits r | Some w \<Rightarrow> best_of rs w)"
proof (cases "find usable rs")
  case None
  then have "\<forall>r \<in> set rs. \<not> usable r" by (simp add: find_None_iff)
  with soonest_None [of None rs] soonest_Some [of None rs] show ?thesis
    by (auto simp: pick_def None best_of_def split: option.split)
next
  case (Some w)
  with find_first_sorted [OF assms Some] show ?thesis
    by (auto simp: pick_def best_of_def)
qed

lemma best_of_strip: "strip ` set rs = strip ` set rs' \<Longrightarrow> best_of rs w \<Longrightarrow>
   \<exists>w' \<in> set rs'. strip w' = strip w \<and> best_of rs' w'"
proof -
  assume eq: "strip ` set rs = strip ` set rs'" and b: "best_of rs w"
  then obtain w' where w': "w' \<in> set rs'" "strip w' = strip w"
    by (metis best_of_def imageE imageI)
  have fields: "usable w' = usable w" "waits w' = waits w" "rank_key w' = rank_key w"
    "rec_BlockedForSec w' = rec_BlockedForSec w"
    using w'(2) by (metis strip_fields waits_strip)+
  have up: "\<exists>r' \<in> set rs. strip r' = strip r" if "r \<in> set rs'" for r
    using eq that by (metis imageE imageI)
  have down: "\<exists>r' \<in> set rs'. strip r' = strip r" if "r \<in> set rs" for r
    using eq that by (metis imageE imageI)
  have u: "(\<exists>r \<in> set rs. usable r) = (\<exists>r \<in> set rs'. usable r)"
    using up down by (metis strip_fields(7))
  have "best_of rs' w'"
    unfolding best_of_def u [symmetric] fields using w'(1) b up
    unfolding best_of_def by (metis strip_fields(4,7,8) waits_strip)
  with w' show ?thesis by blast
qed

subsection \<open>Bounds\<close>

lemma fl_abs_error: "\<bar>x\<bar> \<le> 256 \<Longrightarrow> \<bar>fl x - x\<bar> \<le> 1 / 1000"
proof -
  assume "\<bar>x\<bar> \<le> 256"
  then have "\<bar>x\<bar> / 2 ^ 53 \<le> 1 / 1000" by simp
  with fl_error [of x] show ?thesis by linarith
qed

lemma wait_fraction:
  assumes "0 < u" "u \<le> h"
  shows "0 \<le> fl (fl (of_int u) / fl (of_int h)) \<and> fl (fl (of_int u) / fl (of_int h)) \<le> 1"
proof -
  have u: "0 \<le> fl (of_int u)" using assms by (simp add: fl_nonneg)
  have h: "1 \<le> fl (of_int h)" using assms by (intro fl_ge_1) simp
  have "fl (of_int u) \<le> fl (of_int h)" using assms by (intro fl_mono) simp
  with h have "fl (of_int u) / fl (of_int h) \<le> 1" by (simp add: divide_le_eq)
  with u h show ?thesis by (auto intro: fl_nonneg fl_le_1)
qed

lemma credit_bounds:
  assumes a: "0 \<le> a" "a \<le> 100" and w: "0 \<le> w" "w \<le> (1 :: rat)"
  shows "a \<le> math_round (fl (fl (fl (of_int a) * w) + fl (100 * fl (1 - w))))"
    and "math_round (fl (fl (fl (of_int a) * w) + fl (100 * fl (1 - w)))) \<le> 100"
proof -
  let ?a = "of_int a :: rat"
  have fa: "fl ?a = ?a" using a by (intro fl_of_int) simp
  have a': "0 \<le> ?a" "?a \<le> 100" using a by simp_all
  have aw: "0 \<le> ?a * w" "?a * w \<le> 100 * w"
    using a' w by (auto intro: mult_right_mono)
  have awlo: "?a \<le> ?a * w + 100 * (1 - w)"
  proof -
    have "?a * (1 - w) \<le> 100 * (1 - w)" using a' w by (intro mult_right_mono) simp_all
    then show ?thesis by (simp add: algebra_simps)
  qed
  let ?A = "fl (?a * w)" and ?v = "fl (1 - w)"
  have A: "\<bar>?A - ?a * w\<bar> \<le> 1 / 1000" "0 \<le> ?A"
    using fl_abs_error [of "?a * w"] aw w by (simp_all add: fl_nonneg)
  have v: "\<bar>?v - (1 - w)\<bar> \<le> 1 / 1000" "0 \<le> ?v" "?v \<le> 1"
    using fl_abs_error [of "1 - w"] w by (simp_all add: fl_nonneg fl_le_1)
  let ?B = "fl (100 * ?v)"
  have B: "\<bar>?B - 100 * ?v\<bar> \<le> 1 / 1000" "0 \<le> ?B"
    using fl_abs_error [of "100 * ?v"] v by (simp_all add: fl_nonneg)
  let ?S = "fl (?A + ?B)"
  have "\<bar>?A + ?B\<bar> \<le> 256"
    using A B v aw w by (intro abs_leI) linarith+
  then have S: "\<bar>?S - (?A + ?B)\<bar> \<le> 1 / 1000" "0 \<le> ?S"
    using fl_abs_error [of "?A + ?B"] A B by (simp_all add: fl_nonneg)
  have near: "\<bar>?S - (?a * w + 100 * (1 - w))\<bar> \<le> 1 / 5"
    using abs_le_D1 [OF A(1)] abs_le_D2 [OF A(1)] abs_le_D1 [OF v(1)] abs_le_D2 [OF v(1)]
      abs_le_D1 [OF B(1)] abs_le_D2 [OF B(1)] abs_le_D1 [OF S(1)] abs_le_D2 [OF S(1)]
    by (intro abs_leI) (simp_all add: algebra_simps)
  show "a \<le> math_round (fl (fl (fl ?a * w) + ?B))"
    unfolding fa by (rule math_round_ge [OF S(2)]) (use near awlo in linarith)
  show "math_round (fl (fl (fl ?a * w) + ?B)) \<le> 100"
    unfolding fa by (rule math_round_le [OF S(2)]) (use abs_le_D1 [OF near] aw in \<open>simp add: algebra_simps\<close>)
qed

lemma trunc_of_int [simp]: "trunc (of_int n) = n"
  by (simp add: trunc_def flip: of_int_minus)

lemma horizon_headroom_bounds:
  assumes "0 \<le> pct" "pct \<le> 100" "0 < u" "u \<le> h"
  shows "100 - pct \<le> horizon_headroom pct u h \<and> horizon_headroom pct u h \<le> 100"
  using credit_bounds [of "100 - pct" "fl (fl (of_int u) / fl (of_int h))"] wait_fraction [OF assms(3,4)] assms
  by (simp add: horizon_headroom_def Let_def)

lemma pace_constants:
  "0 < minElapsedFraction" "minElapsedFraction \<le> 1" "0 < paceConfidenceFloor" "1 \<le> paceCap"
  "fl (1 + fl (fl (paceCap - 1))) = paceCap"
  by code_simp+

lemma computePace_bounds:
  assumes "0 \<le> pct"
  shows "0 \<le> computePace pct wl u \<and> computePace pct wl u \<le> paceCap"
proof -
  define ef where "ef = fl (fl (of_int (wl - u)) / fl (of_int wl))"
  define e where "e = (let e1 = if ef < minElapsedFraction then minElapsedFraction else ef
                       in if e1 > 1 then 1 else e1)"
  have e: "0 < e" "e \<le> 1" using pace_constants by (auto simp: e_def Let_def)
  define raw where "raw = fl (fl (fl (of_int pct) / 100) / e)"
  have raw: "0 \<le> raw" unfolding raw_def using assms e by (intro fl_nonneg divide_nonneg_pos) simp_all
  define pr where "pr = (if raw > paceCap then paceCap else raw)"
  have pr: "0 \<le> pr" "pr \<le> paceCap" using raw pace_constants by (auto simp: pr_def)
  define c where "c = min 1 (fl (e / paceConfidenceFloor))"
  have c: "0 \<le> c" "c \<le> 1" using e pace_constants by (auto simp: c_def intro!: fl_nonneg)
  have eq: "computePace pct wl u = fl (1 + fl (fl (pr - 1) * c))"
    unfolding computePace_def scorePaceThreshold_def Let_def c_def pr_def raw_def e_def ef_def ..
  let ?d = "fl (pr - 1)"
  have d: "- 1 \<le> ?d" using pr by (intro fl_ge_minus_1) simp
  have "- 1 \<le> ?d * c"
  proof (cases "0 \<le> ?d")
    case True
    then have "0 \<le> ?d * c" using c by simp
    then show ?thesis by linarith
  next
    case False
    then have "(- ?d) * c \<le> 1 * 1" using c d by (intro mult_mono) simp_all
    then show ?thesis by simp
  qed
  then have lo: "0 \<le> computePace pct wl u"
    unfolding eq by (intro fl_nonneg) (use fl_ge_minus_1 in force)
  have top: "0 \<le> fl (paceCap - 1)" using pace_constants by (simp add: fl_nonneg)
  have "?d * c \<le> fl (paceCap - 1)"
  proof (cases "0 \<le> ?d")
    case True
    then have "?d * c \<le> ?d * 1" using c by (intro mult_left_mono) simp_all
    also have "\<dots> \<le> fl (paceCap - 1)" using pr by (auto intro: fl_mono)
    finally show ?thesis .
  next
    case False
    then have "?d * c \<le> 0" using c by (simp add: mult_nonpos_nonneg)
    with top show ?thesis by linarith
  qed
  then have "computePace pct wl u \<le> fl (1 + fl (fl (paceCap - 1)))"
    unfolding eq by (intro fl_mono add_left_mono)
  with lo pace_constants(5) show ?thesis by simp
qed

definition window_ok :: "window \<Rightarrow> bool" where
  "window_ok w \<longleftrightarrow> 100 - win_pct w \<le> win_headroom w \<and> win_headroom w \<le> 100 \<and>
     0 \<le> win_headroom w \<and> 0 \<le> win_pace w \<and> win_pace w \<le> paceCap"

definition pct_ok :: "row \<Rightarrow> bool" where
  "pct_ok r \<longleftrightarrow> (case row_Pct r of None \<Rightarrow> True | Some pct \<Rightarrow> 0 \<le> pct \<and> pct \<le> 100)"

lemma compute_window_ok:
  "compute_window now horizon r = Some w \<Longrightarrow> pct_ok r \<Longrightarrow> window_ok w"
proof -
  assume c: "compute_window now horizon r = Some w" and ok: "pct_ok r"
  obtain wl pct reset where r: "windowDurations (row_K r) = Some wl" "row_Pct r = Some pct"
      "row_ResetAt r = Some reset"
    using c by (auto simp: compute_window_def split: option.splits)
  have pct: "0 \<le> pct" "pct \<le> 100" using ok r by (simp_all add: pct_ok_def)
  let ?u = "time_sub (of_unix reset) now"
  consider "?u \<le> 0" | "0 < ?u" "?u \<le> horizon" | "0 < ?u" "horizon < ?u" by linarith
  then show "window_ok w"
  proof cases
    case 1
    then show ?thesis using c r pct pace_constants(4)
      by (auto simp: compute_window_def window_ok_def scorePaceThreshold_def Let_def)
  next
    case 2
    with horizon_headroom_bounds [OF pct 2] show ?thesis using c r pct pace_constants(4)
      by (auto simp: compute_window_def window_ok_def scorePaceThreshold_def Let_def)
  next
    case 3
    with computePace_bounds [OF pct(1)] show ?thesis using c r pct
      by (auto simp: compute_window_def window_ok_def Let_def)
  qed
qed

lemma aggregate_from_in: "aggregate_from b ws \<in> insert b (set ws)"
proof (induction ws arbitrary: b)
  case (Cons w ws)
  show ?case
    using Cons.IH [of "if win_headroom w < win_headroom b \<or>
           win_headroom w = win_headroom b \<and> win_windowLen w > win_windowLen b then w else b"]
    by (auto split: if_splits)
qed simp

lemma aggregate_from_min:
  "\<forall>w \<in> insert b (set ws). win_headroom (aggregate_from b ws) \<le> win_headroom w"
proof (induction ws arbitrary: b)
  case (Cons w ws)
  show ?case
    using Cons.IH [of "if win_headroom w < win_headroom b \<or>
           win_headroom w = win_headroom b \<and> win_windowLen w > win_windowLen b then w else b"]
    by (auto split: if_splits)
qed simp

lemma aggregate_binding:
  assumes "ws \<noteq> []" "aggregate ws = (h, b)"
  shows "b \<in> set ws \<and> h = win_headroom b \<and> (\<forall>w \<in> set ws. h \<le> win_headroom w)"
  using assms aggregate_from_in [of "hd ws" "tl ws"] aggregate_from_min [of "hd ws" "tl ws"]
  by (cases ws) (auto simp: aggregate_def Let_def)

lemma blocked_from:
  "(\<forall>w \<in> set ws. win_key w \<noteq> []) \<Longrightarrow>
   (fst (computeBlocked_from k s ws now) = [] \<longleftrightarrow> k = [] \<and> (\<forall>w \<in> set ws. win_pct w \<noteq> 100)) \<and>
   (0 \<le> s \<longrightarrow> 0 \<le> snd (computeBlocked_from k s ws now))"
proof (induction k s ws now rule: computeBlocked_from.induct)
  case (2 k s w ws now)
  then show ?case by (auto simp: Let_def)
qed simp

lemma computeWindows_in: "w \<in> set (computeWindows p now horizon) \<Longrightarrow>
   \<exists>r \<in> set (prov_Rows p). compute_window now horizon r = Some w"
  by (auto simp: computeWindows_def List.map_filter_def)

lemma compute_window_key: "compute_window now horizon r = Some w \<Longrightarrow> win_key w \<noteq> []"
  by (auto simp: compute_window_def windowDurations_def Let_def split: option.splits if_splits)

lemma recommend_bounds:
  assumes r: "recommend now horizon p = Some r" and ok: "\<forall>x \<in> set (prov_Rows p). pct_ok x"
  shows "0 \<le> rec_Headroom r \<and> rec_Headroom r \<le> 100 \<and> rec_Score r = of_int (rec_Headroom r) \<and>
    0 \<le> rec_PaceRatio r \<and> rec_PaceRatio r \<le> paceCap \<and> 0 \<le> rec_BlockedForSec r \<and>
    (rec_Blocked r \<longleftrightarrow> (\<exists>w \<in> set (computeWindows p now horizon). win_pct w = 100)) \<and>
    (\<forall>w \<in> set (computeWindows p now horizon). rec_Headroom r \<le> win_headroom w)"
proof -
  let ?ws = "computeWindows p now horizon"
  obtain h b where ag: "aggregate ?ws = (h, b)" by (cases "aggregate ?ws")
  have ne: "?ws \<noteq> []" using r by (auto simp: recommend_def Let_def split: if_splits)
  note bind = aggregate_binding [OF ne ag]
  have "\<forall>w \<in> set ?ws. window_ok w \<and> win_key w \<noteq> []"
    using computeWindows_in compute_window_ok compute_window_key ok by metis
  then have wok: "window_ok b" and keys: "\<forall>w \<in> set ?ws. win_key w \<noteq> []" using bind by auto
  have sc: "fl (of_int h) = of_int h"
    using wok bind by (intro fl_of_int) (simp add: window_ok_def)
  obtain k s where bl: "computeBlocked_from [] 0 ?ws now = (k, s)"
    by (cases "computeBlocked_from [] 0 ?ws now")
  have rr: "rec_Headroom r = h" "rec_Score r = of_int h" "rec_PaceRatio r = win_pace b"
     "rec_BlockedForSec r = s" "rec_Blocked r = (k \<noteq> [])"
    using r ne ag bl sc by (auto simp: recommend_def Let_def computeBlocked_def split: if_splits)
  show ?thesis
    unfolding rr using wok bind blocked_from [OF keys, of "[]" 0 now] bl by (auto simp: window_ok_def)
qed

lemma ranked_member:
  "r \<in> set (ranked ps now horizon) \<Longrightarrow> \<exists>p \<in> set ps. recommend now horizon p = Some r"
  by (auto simp: ranked_def List.map_filter_def)

lemma Rank_member:
  "r \<in> set (out_Recommendations (Rank ps now horizon)) \<Longrightarrow>
   \<exists>p \<in> set ps. \<exists>q. recommend now horizon p = Some q \<and> strip q = strip r"
  using Rank_set_strip [of ps now horizon] ranked_member [of _ ps now horizon]
  by (metis (no_types, lifting) imageE imageI)

lemma strip_eq_fields:
  "strip q = strip r \<Longrightarrow>
   rec_ID q = rec_ID r \<and> rec_Score q = rec_Score r \<and> rec_PaceRatio q = rec_PaceRatio r \<and>
   rec_Headroom q = rec_Headroom r \<and> rec_Blocked q = rec_Blocked r \<and>
   rec_BlockedForSec q = rec_BlockedForSec r"
  by (metis strip_fields)

definition example_plan :: "string \<Rightarrow> int \<Rightarrow> int \<Rightarrow> provider" where
  "example_plan pid pct reset = empty_provider\<lparr>prov_ID := pid, prov_Kind := ''plan'', prov_Status := ''ok'',
     prov_Rows := [empty_row\<lparr>row_K := ''5h'', row_Pct := Some pct, row_ResetAt := Some reset\<rparr>]\<rparr>"

subsection \<open>What the component promises\<close>

text \<open>
  The ranked table holds exactly one entry for each plan that is \<open>ok\<close> or \<open>stale\<close> and has a
  usable window, with the values \<open>recommend\<close> computes for it, ordered by score from high to low,
  then pace from low to high, then id.  Naming a winner changes nothing but a reason text.
\<close>

theorem Rank_table:
  "sorted (map rank_key (out_Recommendations (Rank ps now horizon))) \<and>
   mset (map strip (out_Recommendations (Rank ps now horizon))) =
     mset (map strip (List.map_filter (recommend now horizon) ps))"
  by (simp add: Rank_keys Rank_strip ranked_sorted) (simp add: ranked_def)

text \<open>
  With distinct provider ids the whole outcome, winner and texts included, does not depend
  on the order in which the snapshot lists the providers.
\<close>

theorem Rank_input_order:
  assumes "distinct (map prov_ID ps)" "mset ps = mset qs"
  shows "Rank ps now horizon = Rank qs now horizon"
  by (simp add: Rank_def ranked_input_order [OF assms])

lemma Rank_input_order_witness:
  "Rank [example_plan ''claude'' 40 9000, example_plan ''codex'' 40 9000] 0 DefaultHorizon =
   Rank [example_plan ''codex'' 40 9000, example_plan ''claude'' 40 9000] 0 DefaultHorizon"
  by (rule Rank_input_order) (simp_all add: example_plan_def)

text \<open>
  C5: the winner is a recommendation of the table.  If some plan is not blocked and has headroom,
  the winner is such a plan and none of them ranks before it; otherwise it is a blocked plan with
  headroom and a known wait, and none of those frees sooner.  No winner is named only when there
  is neither.
\<close>

theorem Rank_winner:
  "case out_Winner (Rank ps now horizon) of
     None \<Rightarrow> \<forall>r \<in> set (out_Recommendations (Rank ps now horizon)). \<not> usable r \<and> \<not> waits r
   | Some i \<Rightarrow> \<exists>w. rec_ID w = i \<and> best_of (out_Recommendations (Rank ps now horizon)) w"
proof (cases "pick (ranked ps now horizon)")
  case None
  then show ?thesis
    using pick_spec [OF ranked_sorted [of ps now horizon]] by (simp add: Rank_def)
next
  case (Some w)
  then have "best_of (ranked ps now horizon) w"
    using pick_spec [OF ranked_sorted [of ps now horizon]] by simp
  from best_of_strip [OF Rank_set_strip [symmetric] this] obtain w' where
    "strip w' = strip w" "best_of (out_Recommendations (Rank ps now horizon)) w'" by blast
  moreover have "out_Winner (Rank ps now horizon) = Some (rec_ID w)"
    using Some by (simp add: Rank_def Let_def)
  ultimately show ?thesis
    using strip_eq_fields [of w' w] by auto
qed

lemma Rank_winner_witness:
  "\<exists>w. rec_ID w = ''codex'' \<and> best_of (out_Recommendations
     (Rank [example_plan ''claude'' 40 (- 1), example_plan ''codex'' 20 (- 1)] 0 DefaultHorizon)) w"
proof -
  have "out_Winner (Rank [example_plan ''claude'' 40 (- 1), example_plan ''codex'' 20 (- 1)] 0 DefaultHorizon)
     = Some ''codex''"
    by code_simp
  with Rank_winner [of "[example_plan ''claude'' 40 (- 1), example_plan ''codex'' 20 (- 1)]" 0 DefaultHorizon]
  show ?thesis by simp
qed



end
