(* ===== verification/Ble_Device.thy ===== *)
theory Ble_Device
  imports Go_Prelude
begin

text \<open>
  The device's half of BLE provisioning: firmware/src/usage/bleprov.cpp (the decoder the GATT
  server feeds) and the parts of provision.cpp it calls.  A control or data write is a byte list;
  the decoder's 512-byte buffer is a list of that length; a fixed-size C string field of the
  record is the bytes before its terminator.
\<close>

unbundle bit_operations_syntax

subsection \<open>Errors and states\<close>

datatype dev_error =
    E_None
  | E_MalformedControl
  | E_UnknownOp
  | E_BadVersion
  | E_ShortStream
  | E_TooLarge
  | E_NotBegun
  | E_MalformedChunk
  | E_OutOfOrder
  | E_Overflow
  | E_Truncated
  | E_LengthMismatch
  | E_BadCrc
  | E_MalformedTlv
  | E_UnknownField
  | E_DuplicateField
  | E_FieldEmpty
  | E_FieldTooLong
  | E_ControlChar
  | E_PassTooShort
  | E_BadPort
  | E_MissingSsid
  | E_NotJoinable
  | E_SaveFailed
  | E_JoinFailed

fun dev_error_num :: "dev_error \<Rightarrow> byte" where
  "dev_error_num E_None = 0"
| "dev_error_num E_MalformedControl = 1"
| "dev_error_num E_UnknownOp = 2"
| "dev_error_num E_BadVersion = 3"
| "dev_error_num E_ShortStream = 4"
| "dev_error_num E_TooLarge = 5"
| "dev_error_num E_NotBegun = 6"
| "dev_error_num E_MalformedChunk = 7"
| "dev_error_num E_OutOfOrder = 8"
| "dev_error_num E_Overflow = 9"
| "dev_error_num E_Truncated = 10"
| "dev_error_num E_LengthMismatch = 11"
| "dev_error_num E_BadCrc = 12"
| "dev_error_num E_MalformedTlv = 13"
| "dev_error_num E_UnknownField = 14"
| "dev_error_num E_DuplicateField = 15"
| "dev_error_num E_FieldEmpty = 16"
| "dev_error_num E_FieldTooLong = 17"
| "dev_error_num E_ControlChar = 18"
| "dev_error_num E_PassTooShort = 19"
| "dev_error_num E_BadPort = 20"
| "dev_error_num E_MissingSsid = 21"
| "dev_error_num E_NotJoinable = 22"
| "dev_error_num E_SaveFailed = 23"
| "dev_error_num E_JoinFailed = 24"

fun errorText :: "dev_error \<Rightarrow> string" where
  "errorText E_None = ''ok''"
| "errorText E_MalformedControl = ''bad command length''"
| "errorText E_UnknownOp = ''unknown command''"
| "errorText E_BadVersion = ''unsupported format version''"
| "errorText E_ShortStream = ''declared size too small''"
| "errorText E_TooLarge = ''too big for this device''"
| "errorText E_NotBegun = ''no transfer in progress''"
| "errorText E_MalformedChunk = ''empty or malformed chunk''"
| "errorText E_OutOfOrder = ''chunk out of order''"
| "errorText E_Overflow = ''more data than declared''"
| "errorText E_Truncated = ''transfer incomplete''"
| "errorText E_LengthMismatch = ''length does not match''"
| "errorText E_BadCrc = ''checksum mismatch''"
| "errorText E_MalformedTlv = ''malformed field''"
| "errorText E_UnknownField = ''unknown field''"
| "errorText E_DuplicateField = ''duplicate field''"
| "errorText E_FieldEmpty = ''required field is empty''"
| "errorText E_FieldTooLong = ''field too long''"
| "errorText E_ControlChar = ''illegal character in a field''"
| "errorText E_PassTooShort = ''Wi-Fi password too short''"
| "errorText E_BadPort = ''invalid port''"
| "errorText E_MissingSsid = ''no network name''"
| "errorText E_NotJoinable = ''nothing usable to join''"
| "errorText E_SaveFailed = ''could not save credentials''"
| "errorText E_JoinFailed = ''could not join that network''"

datatype dev_state = S_Idle | S_Receiving | S_Ready | S_Applying | S_Applied | S_Failed

fun dev_state_num :: "dev_state \<Rightarrow> byte" where
  "dev_state_num S_Idle = 0"
| "dev_state_num S_Receiving = 1"
| "dev_state_num S_Ready = 2"
| "dev_state_num S_Applying = 3"
| "dev_state_num S_Applied = 4"
| "dev_state_num S_Failed = 5"

fun stateText :: "dev_state \<Rightarrow> string" where
  "stateText S_Idle = ''waiting''"
| "stateText S_Receiving = ''receiving''"
| "stateText S_Ready = ''received''"
| "stateText S_Applying = ''joining''"
| "stateText S_Applied = ''done''"
| "stateText S_Failed = ''failed''"

subsection \<open>provision.cpp: the record\<close>

definition kMaxSsid :: nat where "kMaxSsid = 32"
definition kMaxPass :: nat where "kMaxPass = 63"
definition kMaxHost :: nat where "kMaxHost = 63"
definition kMaxToken :: nat where "kMaxToken = 64"
definition kMaxOtaPass :: nat where "kMaxOtaPass = 63"
definition kMinWpaPass :: nat where "kMinWpaPass = 8"
definition kDefaultPort :: "16 word" where "kDefaultPort = 8765"

lemmas field_caps =
  kMaxSsid_def kMaxPass_def kMaxHost_def kMaxToken_def kMaxOtaPass_def kMinWpaPass_def

record dev_record =
  drec_ssid :: bytes
  drec_pass :: bytes
  drec_host :: bytes
  drec_port :: "16 word"
  drec_token :: bytes
  drec_otaPass :: bytes

definition clear_record :: dev_record where
  "clear_record = \<lparr>drec_ssid = [], drec_pass = [], drec_host = [], drec_port = kDefaultPort,
                   drec_token = [], drec_otaPass = []\<rparr>"

definition control_byte :: "byte \<Rightarrow> bool" where
  "control_byte c \<longleftrightarrow> c < 0x20 \<or> c = 0x7F"

text \<open>\<open>sanitizeField\<close> cuts a field at its first control byte.\<close>

definition sanitize_field :: "bytes \<Rightarrow> bytes" where
  "sanitize_field v = takeWhile (\<lambda>c. \<not> control_byte c) v"

definition sanitize :: "dev_record \<Rightarrow> dev_record" where
  "sanitize r = \<lparr>drec_ssid = sanitize_field (drec_ssid r), drec_pass = sanitize_field (drec_pass r),
     drec_host = sanitize_field (drec_host r),
     drec_port = (if drec_port r = 0 then kDefaultPort else drec_port r),
     drec_token = sanitize_field (drec_token r), drec_otaPass = sanitize_field (drec_otaPass r)\<rparr>"

definition joinable :: "dev_record \<Rightarrow> bool" where
  "joinable r \<longleftrightarrow> drec_ssid r \<noteq> []"

definition printableValue :: "bytes \<Rightarrow> bool" where
  "printableValue v \<longleftrightarrow> list_all (\<lambda>c. \<not> control_byte c) v"

lemma sanitize_printable: "printableValue v \<Longrightarrow> sanitize_field v = v"
  by (simp add: printableValue_def sanitize_field_def list_all_iff takeWhile_eq_all_conv)

subsection \<open>Numbers on the wire\<close>

definition rd16 :: "byte \<Rightarrow> byte \<Rightarrow> 16 word" where
  "rd16 a b = (ucast a) OR (push_bit 8 (ucast b))"

definition rd32 :: "byte \<Rightarrow> byte \<Rightarrow> byte \<Rightarrow> byte \<Rightarrow> 32 word" where
  "rd32 a b c d =
     (ucast a) OR (push_bit 8 (ucast b)) OR (push_bit 16 (ucast c)) OR (push_bit 24 (ucast d))"

definition lo16 :: "16 word \<Rightarrow> byte" where "lo16 v = ucast (v AND 0xFF)"
definition hi16 :: "16 word \<Rightarrow> byte" where "hi16 v = ucast ((drop_bit 8 v) AND 0xFF)"

text \<open>\<open>crc32\<close>, bit by bit: the reflected polynomial \<open>0xEDB88320\<close>.\<close>

definition crc_bit :: "32 word \<Rightarrow> 32 word" where
  "crc_bit crc = (drop_bit 1 crc) XOR (0xEDB88320 AND (0 - (crc AND 1)))"

definition crc_byte :: "byte \<Rightarrow> 32 word \<Rightarrow> 32 word" where
  "crc_byte b crc = (crc_bit ^^ 8) (crc XOR ucast b)"

definition crc32 :: "bytes \<Rightarrow> 32 word" where
  "crc32 bs = (fold crc_byte bs 0xFFFFFFFF) XOR 0xFFFFFFFF"

subsection \<open>The decoder\<close>

definition kVersion :: byte where "kVersion = 1"
definition kStreamHeader :: nat where "kStreamHeader = 3"
definition kCrcLen :: nat where "kCrcLen = 4"
definition kMinStream :: nat where "kMinStream = kStreamHeader + kCrcLen"
definition kMaxStream :: nat where "kMaxStream = 512"
definition kOptionalTag :: byte where "kOptionalTag = 0x80"

record decoder =
  dec_buf :: bytes
  dec_rec :: dev_record
  dec_declared :: nat
  dec_received :: nat
  dec_state :: dev_state
  dec_error :: dev_error
  dec_version :: byte
  dec_nextSeq :: byte

definition zero_buf :: bytes where
  "zero_buf = replicate kMaxStream 0"

definition reset_decoder :: decoder where
  "reset_decoder = \<lparr>dec_buf = zero_buf, dec_rec = clear_record, dec_declared = 0, dec_received = 0,
     dec_state = S_Idle, dec_error = E_None, dec_version = 0, dec_nextSeq = 0\<rparr>"

definition scrub :: "decoder \<Rightarrow> decoder" where
  "scrub d = d\<lparr>dec_buf := zero_buf, dec_rec := clear_record, dec_declared := 0, dec_received := 0,
               dec_nextSeq := 0\<rparr>"

definition fail :: "dev_error \<Rightarrow> decoder \<Rightarrow> decoder \<times> dev_error" where
  "fail e d = (let d1 = (if dec_state d \<noteq> S_Failed then d\<lparr>dec_state := S_Failed, dec_error := e\<rparr> else d)
     in (d1\<lparr>dec_buf := zero_buf, dec_received := 0\<rparr>, e))"

text \<open>
  The TLV loop of \<open>parse\<close>.  The argument is what is left of the payload, \<open>buf_[p .. crcAt)\<close>;
  \<open>seen\<close> holds the tags met so far.
\<close>

definition parse_field :: "nat \<Rightarrow> bytes \<Rightarrow> dev_record \<Rightarrow> dev_error + dev_record" where
  "parse_field tag v r =
     (if tag \<noteq> 4 \<and> \<not> printableValue v then Inl E_ControlChar
      else if tag = 1 then
        (if v = [] then Inl E_FieldEmpty
         else if length v > kMaxSsid then Inl E_FieldTooLong
         else Inr (r\<lparr>drec_ssid := v\<rparr>))
      else if tag = 2 then
        (if length v > kMaxPass then Inl E_FieldTooLong
         else if length v > 0 \<and> length v < kMinWpaPass then Inl E_PassTooShort
         else Inr (r\<lparr>drec_pass := v\<rparr>))
      else if tag = 3 then
        (if length v > kMaxHost then Inl E_FieldTooLong else Inr (r\<lparr>drec_host := v\<rparr>))
      else if tag = 4 then
        (case v of
           [a, b] \<Rightarrow> if rd16 a b = 0 then Inl E_BadPort else Inr (r\<lparr>drec_port := rd16 a b\<rparr>)
         | _ \<Rightarrow> Inl E_BadPort)
      else if tag = 5 then
        (if length v > kMaxToken then Inl E_FieldTooLong else Inr (r\<lparr>drec_token := v\<rparr>))
      else
        (if length v > kMaxOtaPass then Inl E_FieldTooLong else Inr (r\<lparr>drec_otaPass := v\<rparr>)))"

function parse_tlvs :: "bytes \<Rightarrow> nat list \<Rightarrow> dev_record \<Rightarrow> dev_error + (nat list \<times> dev_record)" where
  "parse_tlvs [] seen r = Inr (seen, r)"
| "parse_tlvs [t] seen r = Inl E_MalformedTlv"
| "parse_tlvs (t # l # rest) seen r =
     (if length rest < unat l then Inl E_MalformedTlv
      else if t \<ge> kOptionalTag then parse_tlvs (drop (unat l) rest) seen r
      else if t = 0 \<or> unat t > 6 then Inl E_UnknownField
      else if unat t \<in> set seen then Inl E_DuplicateField
      else bind_result (parse_field (unat t) (take (unat l) rest) r)
             (\<lambda>r'. parse_tlvs (drop (unat l) rest) (unat t # seen) r'))"
  by pat_completeness auto
termination
  by (relation "measure (\<lambda>(bs, s, r). length bs)") auto

definition parse :: "decoder \<Rightarrow> dev_error + dev_record" where
  "parse d = (let buf = dec_buf d in
     if buf ! 0 \<noteq> dec_version d then Inl E_BadVersion
     else (let payloadLen = unat (rd16 (buf ! 1) (buf ! 2)) in
       if kStreamHeader + payloadLen + kCrcLen \<noteq> dec_declared d then Inl E_LengthMismatch
       else (let crcAt = kStreamHeader + payloadLen in
         if rd32 (buf ! crcAt) (buf ! (crcAt + 1)) (buf ! (crcAt + 2)) (buf ! (crcAt + 3))
            \<noteq> crc32 (take crcAt buf) then Inl E_BadCrc
         else bind_result (parse_tlvs (take payloadLen (drop kStreamHeader buf)) [] clear_record)
                (\<lambda>(seen, r).
                  if 1 \<notin> set seen then Inl E_MissingSsid
                  else if \<not> joinable (sanitize r) then Inl E_NotJoinable
                  else Inr (sanitize r)))))"

definition on_begin :: "bytes \<Rightarrow> decoder \<Rightarrow> decoder \<times> dev_error" where
  "on_begin w d =
     (if length w \<noteq> 4 then fail E_MalformedControl d
      else if w ! 1 \<noteq> kVersion then fail E_BadVersion d
      else (let total = unat (rd16 (w ! 2) (w ! 3)) in
        if total < kMinStream then fail E_ShortStream d
        else if total > kMaxStream then fail E_TooLarge d
        else (reset_decoder\<lparr>dec_version := w ! 1, dec_declared := total, dec_state := S_Receiving\<rparr>,
              E_None)))"

definition on_commit :: "bytes \<Rightarrow> decoder \<Rightarrow> decoder \<times> dev_error" where
  "on_commit w d =
     (if length w \<noteq> 1 then fail E_MalformedControl d
      else if dec_state d \<noteq> S_Receiving then fail E_NotBegun d
      else if dec_received d \<noteq> dec_declared d then fail E_Truncated d
      else (case parse d of
              Inl e \<Rightarrow> fail e (d\<lparr>dec_rec := clear_record\<rparr>)
            | Inr r \<Rightarrow> (d\<lparr>dec_rec := r, dec_state := S_Ready, dec_error := E_None\<rparr>, E_None)))"

definition onControl :: "bytes \<Rightarrow> decoder \<Rightarrow> decoder \<times> dev_error" where
  "onControl w d =
     (case w of
        [] \<Rightarrow> fail E_MalformedControl d
      | opc # _ \<Rightarrow>
          if opc = 1 then on_begin w d
          else if opc = 2 then on_commit w d
          else if opc = 3 then
            (if length w \<noteq> 1 then fail E_MalformedControl d else (reset_decoder, E_None))
          else fail E_UnknownOp d)"

definition onChunk :: "bytes \<Rightarrow> decoder \<Rightarrow> decoder \<times> dev_error" where
  "onChunk w d =
     (if dec_state d \<noteq> S_Receiving then fail E_NotBegun d
      else if length w < 2 then fail E_MalformedChunk d
      else if hd w \<noteq> dec_nextSeq d then fail E_OutOfOrder d
      else (let n = length w - 1 in
        if dec_received d + n > dec_declared d then fail E_Overflow d
        else (d\<lparr>dec_buf := take (dec_received d) (dec_buf d) @ tl w @ drop (dec_received d + n) (dec_buf d),
                dec_received := dec_received d + n, dec_nextSeq := dec_nextSeq d + 1\<rparr>, E_None)))"

definition markApplying :: "decoder \<Rightarrow> decoder" where
  "markApplying d = (if dec_state d = S_Ready then d\<lparr>dec_state := S_Applying\<rparr> else d)"

definition markApplied :: "decoder \<Rightarrow> decoder" where
  "markApplied d = (if dec_state d = S_Ready \<or> dec_state d = S_Applying
     then d\<lparr>dec_state := S_Applied, dec_error := E_None\<rparr> else d)"

definition markFailed :: "dev_error \<Rightarrow> decoder \<Rightarrow> decoder" where
  "markFailed e d = d\<lparr>dec_state := S_Failed, dec_error := e\<rparr>"

subsection \<open>The readable characteristics\<close>

definition encodeStatus :: "decoder \<Rightarrow> bytes" where
  "encodeStatus d =
     [kVersion, dev_state_num (dec_state d), dev_error_num (dec_error d), dec_nextSeq d,
      lo16 (word_of_nat (dec_received d)), hi16 (word_of_nat (dec_received d))]"

text \<open>\<open>mac\<close> is the six-byte address.\<close>

definition encodeInfo :: "bytes \<Rightarrow> bool \<Rightarrow> bytes" where
  "encodeInfo mac provisioned =
     [kVersion, if provisioned then 1 else 0, lo16 (word_of_nat kMaxStream), hi16 (word_of_nat kMaxStream)]
     @ mac @ [0, 0]"

end
