(* ===== verification/Ble_Wire.thy ===== *)
theory Ble_Wire
  imports Ble_Device
begin

text \<open>
  internal/bleprov/wire.go: the Mac's half of the provisioning wire format, the rules a record
  must satisfy, the chunking, and the decoding of the device's two readable characteristics.
  It is related to \<open>Ble_Device\<close>: the locale \<open>chunk_receiver\<close> is what the sender relies on, the
  device's decoder interprets it, and \<open>Encode\<close> followed by the decoder gives the record back.
\<close>

subsection \<open>Constants\<close>

definition Version :: byte where "Version = 1"
definition StreamHeader :: nat where "StreamHeader = 3"
definition CRCLen :: nat where "CRCLen = 4"
definition MinStream :: nat where "MinStream = StreamHeader + CRCLen"
definition MaxStream :: nat where "MaxStream = 512"
definition SafeChunkData :: int where "SafeChunkData = 19"
definition MaxChunkData :: int where "MaxChunkData = 244 - 3 - 1"
definition MaxSSID :: nat where "MaxSSID = 32"
definition MaxPass :: nat where "MaxPass = 63"
definition MaxHost :: nat where "MaxHost = 63"
definition MaxToken :: nat where "MaxToken = 64"
definition MaxOtaPass :: nat where "MaxOtaPass = 63"
definition MinWPAPass :: nat where "MinWPAPass = 8"
definition DefaultPort :: "16 word" where "DefaultPort = 8765"
definition opBegin :: byte where "opBegin = 1"
definition opCommit :: byte where "opCommit = 2"
definition opAbort :: byte where "opAbort = 3"
definition tagSSID :: byte where "tagSSID = 1"
definition tagPass :: byte where "tagPass = 2"
definition tagHost :: byte where "tagHost = 3"
definition tagPort :: byte where "tagPort = 4"
definition tagToken :: byte where "tagToken = 5"
definition tagOtaPass :: byte where "tagOtaPass = 6"

definition ErrNone :: byte where "ErrNone = 0"
definition ErrMalformedControl :: byte where "ErrMalformedControl = 1"
definition ErrUnknownOp :: byte where "ErrUnknownOp = 2"
definition ErrBadVersion :: byte where "ErrBadVersion = 3"
definition ErrShortStream :: byte where "ErrShortStream = 4"
definition ErrTooLarge :: byte where "ErrTooLarge = 5"
definition ErrNotBegun :: byte where "ErrNotBegun = 6"
definition ErrMalformedChunk :: byte where "ErrMalformedChunk = 7"
definition ErrOutOfOrder :: byte where "ErrOutOfOrder = 8"
definition ErrOverflow :: byte where "ErrOverflow = 9"
definition ErrTruncated :: byte where "ErrTruncated = 10"
definition ErrLengthMismatch :: byte where "ErrLengthMismatch = 11"
definition ErrBadCRC :: byte where "ErrBadCRC = 12"
definition ErrMalformedTLV :: byte where "ErrMalformedTLV = 13"
definition ErrUnknownField :: byte where "ErrUnknownField = 14"
definition ErrDuplicateField :: byte where "ErrDuplicateField = 15"
definition ErrFieldEmpty :: byte where "ErrFieldEmpty = 16"
definition ErrFieldTooLong :: byte where "ErrFieldTooLong = 17"
definition ErrControlChar :: byte where "ErrControlChar = 18"
definition ErrPassTooShort :: byte where "ErrPassTooShort = 19"
definition ErrBadPort :: byte where "ErrBadPort = 20"
definition ErrMissingSSID :: byte where "ErrMissingSSID = 21"
definition ErrNotJoinable :: byte where "ErrNotJoinable = 22"
definition ErrSaveFailed :: byte where "ErrSaveFailed = 23"
definition ErrJoinFailed :: byte where "ErrJoinFailed = 24"

lemmas wire_consts =
  Version_def StreamHeader_def CRCLen_def MinStream_def MaxStream_def MaxSSID_def MaxPass_def
  MaxHost_def MaxToken_def MaxOtaPass_def MinWPAPass_def opBegin_def opCommit_def opAbort_def
  tagSSID_def tagPass_def tagHost_def tagPort_def tagToken_def tagOtaPass_def

lemmas err_consts =
  ErrNone_def ErrMalformedControl_def ErrUnknownOp_def ErrBadVersion_def ErrShortStream_def ErrTooLarge_def
  ErrNotBegun_def ErrMalformedChunk_def ErrOutOfOrder_def ErrOverflow_def ErrTruncated_def ErrLengthMismatch_def
  ErrBadCRC_def ErrMalformedTLV_def ErrUnknownField_def ErrDuplicateField_def ErrFieldEmpty_def ErrFieldTooLong_def
  ErrControlChar_def ErrPassTooShort_def ErrBadPort_def ErrMissingSSID_def ErrNotJoinable_def ErrSaveFailed_def
  ErrJoinFailed_def

subsection \<open>The record and its rules\<close>

record Record =
  R_SSID :: string
  R_Password :: string
  R_Host :: string
  R_Port :: "16 word"
  R_Token :: string
  R_OTAPass :: string

definition Wipe :: "Record \<Rightarrow> Record" where
  "Wipe r = r\<lparr>R_SSID := [], R_Password := [], R_Host := [], R_Token := [], R_OTAPass := [], R_Port := 0\<rparr>"

datatype wire_error =
    FieldError string byte
  | ErrRecordTooLarge
  | BelowMinimum nat
  | EmptyStream
  | ChunkTooSmall int
  | ShortValue nat nat

definition hasControlChar :: "string \<Rightarrow> bool" where
  "hasControlChar s \<longleftrightarrow> (\<exists>c \<in> set s. (of_char c :: nat) < 0x20 \<or> (of_char c :: nat) = 0x7F)"

definition validate_record :: "Record \<Rightarrow> wire_error + unit" where
  "validate_record r =
     (if R_SSID r = [] then Inl (FieldError ''ssid'' ErrMissingSSID)
      else if length (R_SSID r) > MaxSSID then Inl (FieldError ''ssid'' ErrFieldTooLong)
      else if hasControlChar (R_SSID r) then Inl (FieldError ''ssid'' ErrControlChar)
      else if length (R_Password r) > MaxPass then Inl (FieldError ''password'' ErrFieldTooLong)
      else if hasControlChar (R_Password r) then Inl (FieldError ''password'' ErrControlChar)
      else if length (R_Password r) > 0 \<and> length (R_Password r) < MinWPAPass
        then Inl (FieldError ''password'' ErrPassTooShort)
      else if length (R_Host r) > MaxHost then Inl (FieldError ''host'' ErrFieldTooLong)
      else if hasControlChar (R_Host r) then Inl (FieldError ''host'' ErrControlChar)
      else if length (R_Token r) > MaxToken then Inl (FieldError ''token'' ErrFieldTooLong)
      else if hasControlChar (R_Token r) then Inl (FieldError ''token'' ErrControlChar)
      else if length (R_OTAPass r) > MaxOtaPass then Inl (FieldError ''ota_password'' ErrFieldTooLong)
      else if hasControlChar (R_OTAPass r) then Inl (FieldError ''ota_password'' ErrControlChar)
      else Inr ())"

subsection \<open>Encoding\<close>

text \<open>\<open>byte(v)\<close> and \<open>byte(v >> 8)\<close> of a length or of the port.\<close>

definition le16 :: "16 word \<Rightarrow> bytes" where
  "le16 v = [ucast v, ucast (drop_bit 8 v)]"

definition le32 :: "32 word \<Rightarrow> bytes" where
  "le32 v = [ucast v, ucast (drop_bit 8 v), ucast (drop_bit 16 v), ucast (drop_bit 24 v)]"

definition appendString :: "bytes \<Rightarrow> byte \<Rightarrow> string \<Rightarrow> bytes" where
  "appendString dst tag v =
     (if v = [] then dst else dst @ tag # word_of_nat (length v) # to_bytes v)"

definition encode_payload :: "Record \<Rightarrow> bytes" where
  "encode_payload r =
     (let p = appendString [] tagSSID (R_SSID r);
          p = appendString p tagPass (R_Password r);
          p = appendString p tagHost (R_Host r);
          p = (if R_Port r \<noteq> 0 then p @ tagPort # 2 # le16 (R_Port r) else p);
          p = appendString p tagToken (R_Token r)
      in appendString p tagOtaPass (R_OTAPass r))"

definition Encode :: "Record \<Rightarrow> wire_error + bytes" where
  "Encode r = bind_result (validate_record r) (\<lambda>_.
     let payload = encode_payload r; tot = StreamHeader + length payload + CRCLen in
     if tot > MaxStream then Inl ErrRecordTooLarge
     else (let stream = Version # le16 (word_of_nat (length payload)) @ payload
           in Inr (stream @ le32 (crc32 stream))))"

definition BeginCommand :: "nat \<Rightarrow> wire_error + bytes" where
  "BeginCommand tot =
     (if tot < MinStream then Inl (BelowMinimum tot)
      else if tot > MaxStream then Inl ErrRecordTooLarge
      else Inr (opBegin # Version # le16 (word_of_nat tot)))"

definition CommitCommand :: bytes where "CommitCommand = [opCommit]"
definition AbortCommand :: bytes where "AbortCommand = [opAbort]"

definition ChunkSize :: "int \<Rightarrow> int" where
  "ChunkSize maxWriteValue =
     (let n = maxWriteValue - 1;
          n = (if n > MaxChunkData then MaxChunkData else n)
      in if n < SafeChunkData then SafeChunkData else n)"

function chunk_loop :: "nat \<Rightarrow> byte \<Rightarrow> bytes \<Rightarrow> bytes list" where
  "chunk_loop n sq bs =
     (if bs = [] \<or> n = 0 then [] else (sq # take n bs) # chunk_loop n (sq + 1) (drop n bs))"
  by pat_completeness auto
termination
  by (relation "measure (\<lambda>(n, q, bs). length bs)") auto

declare chunk_loop.simps [simp del]

lemma chunk_loop_Nil [simp]: "chunk_loop n q [] = []"
  by (subst chunk_loop.simps) simp

definition Chunks :: "bytes \<Rightarrow> int \<Rightarrow> wire_error + bytes list" where
  "Chunks stream chunkData =
     (if stream = [] then Inl EmptyStream
      else if chunkData < 1 then Inl (ChunkTooSmall chunkData)
      else Inr (chunk_loop (nat chunkData) 0 stream))"

subsection \<open>Status, info and error texts\<close>

record Status =
  Stat_Version :: byte
  Stat_State :: byte
  Stat_Error :: byte
  Stat_NextSeq :: byte
  Stat_Received :: "16 word"

record Info =
  Info_Version :: byte
  Info_Provisioned :: bool
  Info_Capacity :: "16 word"
  Info_MAC :: bytes

definition StatusLen :: nat where "StatusLen = 6"
definition InfoLen :: nat where "InfoLen = 12"

definition ParseStatus :: "bytes \<Rightarrow> wire_error + Status" where
  "ParseStatus b =
     (if length b < StatusLen then Inl (ShortValue (length b) StatusLen)
      else Inr \<lparr>Stat_Version = b ! 0, Stat_State = b ! 1, Stat_Error = b ! 2, Stat_NextSeq = b ! 3,
                Stat_Received = rd16 (b ! 4) (b ! 5)\<rparr>)"

definition ParseInfo :: "bytes \<Rightarrow> wire_error + Info" where
  "ParseInfo b =
     (if length b < InfoLen then Inl (ShortValue (length b) InfoLen)
      else Inr \<lparr>Info_Version = b ! 0, Info_Provisioned = ((b ! 1) AND 1 \<noteq> 0),
                Info_Capacity = rd16 (b ! 2) (b ! 3), Info_MAC = take 6 (drop 4 b)\<rparr>)"

definition MACString :: "Info \<Rightarrow> string" where
  "MACString i = join_char (CHR '':'') (map hex_byte (Info_MAC i))"

definition state_string :: "byte \<Rightarrow> string" where
  "state_string s =
     (if s = 0 then ''waiting'' else if s = 1 then ''receiving'' else if s = 2 then ''received''
      else if s = 3 then ''joining'' else if s = 4 then ''done'' else if s = 5 then ''failed''
      else ''unknown'')"

definition Terminal :: "byte \<Rightarrow> bool" where
  "Terminal s \<longleftrightarrow> s = 4 \<or> s = 5"

definition err_texts :: "(byte \<times> string) list" where
  "err_texts =
    [(ErrNone, ''ok''),
     (ErrMalformedControl, ''bad command length''),
     (ErrUnknownOp, ''unknown command''),
     (ErrBadVersion, ''unsupported format version''),
     (ErrShortStream, ''declared size too small''),
     (ErrTooLarge, ''too big for this device''),
     (ErrNotBegun, ''no transfer in progress''),
     (ErrMalformedChunk, ''empty or malformed chunk''),
     (ErrOutOfOrder, ''chunk out of order''),
     (ErrOverflow, ''more data than declared''),
     (ErrTruncated, ''transfer incomplete''),
     (ErrLengthMismatch, ''length does not match''),
     (ErrBadCRC, ''checksum mismatch''),
     (ErrMalformedTLV, ''malformed field''),
     (ErrUnknownField, ''unknown field''),
     (ErrDuplicateField, ''duplicate field''),
     (ErrFieldEmpty, ''required field is empty''),
     (ErrFieldTooLong, ''field too long''),
     (ErrControlChar, ''illegal character in a field''),
     (ErrPassTooShort, ''Wi-Fi password too short''),
     (ErrBadPort, ''invalid port''),
     (ErrMissingSSID, ''no network name''),
     (ErrNotJoinable, ''nothing usable to join''),
     (ErrSaveFailed, ''could not save credentials''),
     (ErrJoinFailed, ''could not join that network'')]"

definition err_string :: "byte \<Rightarrow> string" where
  "err_string e = (case map_of err_texts e of Some t \<Rightarrow> t | None \<Rightarrow> ''unknown error'')"

definition dash :: string where
  "dash = [CHR 0xE2, CHR 0x80, CHR 0x94]"

definition Advice :: "byte \<Rightarrow> string" where
  "Advice e =
     (if e \<in> {ErrNone} then []
      else if e \<in> {ErrBadVersion, ErrUnknownField} then ''This device's firmware is older than this agent '' @ dash @ '' update the firmware.''
      else if e \<in> {ErrTooLarge} then ''The settings are too large for this device to store.''
      else if e \<in> {ErrNotBegun, ErrOutOfOrder, ErrTruncated, ErrBadCRC} then ''The transfer was interrupted '' @ dash @ '' try setting the device up again.''
      else if e \<in> {ErrFieldEmpty, ErrMissingSSID, ErrNotJoinable} then ''This Mac could not work out which Wi-Fi network it is on '' @ dash @ '' join a network and try again.''
      else if e \<in> {ErrFieldTooLong} then ''One of the values is too long for this device to store.''
      else if e \<in> {ErrControlChar} then ''A value contains a character the device cannot store.''
      else if e \<in> {ErrPassTooShort} then ''The Wi-Fi password is shorter than the 8 characters the radio requires.''
      else if e \<in> {ErrSaveFailed} then ''The device could not save the credentials '' @ dash @ '' try again, and report it if it repeats.''
      else if e \<in> {ErrJoinFailed} then ''The device could not join that Wi-Fi network. The password may be wrong, or the device may be out of range of the router.''
      else ''This is a bug in the agent, not something you did '' @ dash @ '' please report it.'')"

subsection \<open>Little-endian numbers read back\<close>

lemma rd16_le16 [simp]: "rd16 (ucast v) (ucast (drop_bit 8 v)) = v"
  unfolding rd16_def by (rule bit_word_eqI) (auto simp: bit_simps)

lemma rd32_le32 [simp]:
  "rd32 (ucast v) (ucast (drop_bit 8 v)) (ucast (drop_bit 16 v)) (ucast (drop_bit 24 v)) = v"
  unfolding rd32_def
proof (rule bit_word_eqI)
  fix n assume "n < LENGTH(32)"
  then consider "n < 8" | "8 \<le> n" "n < 16" | "16 \<le> n" "n < 24" | "24 \<le> n" "n < 32"
    by fastforce
  then show "bit (ucast (ucast v :: byte) OR push_bit 8 (ucast (ucast (drop_bit 8 v) :: byte)) OR
      push_bit 16 (ucast (ucast (drop_bit 16 v) :: byte)) OR
      push_bit 24 (ucast (ucast (drop_bit 24 v) :: byte)) :: 32 word) n = bit v n"
    by cases (auto simp: bit_simps)
qed

lemma rd16_lo_hi [simp]: "rd16 (lo16 v) (hi16 v) = v"
proof -
  have "(0xFF :: 16 word) = mask 8" by (simp add: mask_eq_exp_minus_1)
  then have "lo16 v = ucast v" "hi16 v = ucast (drop_bit 8 v)"
    unfolding lo16_def hi16_def \<open>0xFF = mask 8\<close> by (auto intro!: bit_word_eqI simp: bit_simps)
  then show ?thesis by simp
qed

lemma unat_16: "n < 65536 \<Longrightarrow> unat (word_of_nat n :: 16 word) = n"
  by (simp add: unat_of_nat take_bit_eq_mod)

lemma unat_8: "n < 256 \<Longrightarrow> unat (word_of_nat n :: byte) = n"
  by (simp add: unat_of_nat take_bit_eq_mod)

lemma length_le16 [simp]: "length (le16 v) = 2" by (simp add: le16_def)
lemma length_le32 [simp]: "length (le32 v) = 4" by (simp add: le32_def)

subsection \<open>The payload, field by field\<close>

definition text_tlv :: "byte \<Rightarrow> string \<Rightarrow> bytes" where
  "text_tlv tag v = (if v = [] then [] else tag # word_of_nat (length v) # to_bytes v)"

definition port_tlv :: "16 word \<Rightarrow> bytes" where
  "port_tlv v = (if v = 0 then [] else 4 # 2 # le16 v)"

lemma encode_payload_fields:
  "encode_payload r = text_tlv 1 (R_SSID r) @ text_tlv 2 (R_Password r) @ text_tlv 3 (R_Host r) @
     port_tlv (R_Port r) @ text_tlv 5 (R_Token r) @ text_tlv 6 (R_OTAPass r)"
  by (simp add: encode_payload_def appendString_def text_tlv_def port_tlv_def wire_consts)

lemma length_text_tlv: "length (text_tlv t v) = (if v = [] then 0 else 2 + length v)"
  by (simp add: text_tlv_def)

lemma parse_text_tlv:
  assumes "length v < 256" "t \<in> {1, 2, 3, 5, 6}" "unat t \<notin> set seen"
  shows "parse_tlvs (text_tlv t v @ rest) seen r =
    (if v = [] then parse_tlvs rest seen r
     else bind_result (parse_field (unat t) (to_bytes v) r) (parse_tlvs rest (unat t # seen)))"
proof -
  have "\<not> kOptionalTag \<le> t" "t \<noteq> 0" "\<not> 6 < unat t"
    using assms(2) by (auto simp: kOptionalTag_def word_le_nat_alt)
  then show ?thesis
    using assms by (simp add: text_tlv_def unat_8)
qed

lemma le16_zero: "rd16 a b = 0 \<Longrightarrow> le16 v = [a, b] \<Longrightarrow> v = 0"
  by (auto simp: le16_def)

lemma parse_port_tlv:
  assumes "4 \<notin> set seen"
  shows "parse_tlvs (port_tlv v @ rest) seen r =
    (if v = 0 then parse_tlvs rest seen r else parse_tlvs rest (4 # seen) (r\<lparr>drec_port := v\<rparr>))"
  using assms by (simp add: port_tlv_def le16_def kOptionalTag_def parse_field_def)

lemma control_byte_of: "control_byte (byte_of c) \<longleftrightarrow> (of_char c :: nat) < 0x20 \<or> (of_char c :: nat) = 0x7F"
proof -
  have "byte_of c < 0x20 \<longleftrightarrow> (of_char c :: nat) < 32" "byte_of c = 0x7F \<longleftrightarrow> (of_char c :: nat) = 127"
    by (simp_all add: word_less_nat_alt word_unat_eq_iff)
  then show ?thesis by (simp add: control_byte_def)
qed

lemma printable_to_bytes: "printableValue (to_bytes s) \<longleftrightarrow> \<not> hasControlChar s"
  by (auto simp: printableValue_def hasControlChar_def to_bytes_def list_all_iff control_byte_of)

text \<open>The rules of one text field, on the device.\<close>

definition field_ok :: "nat \<Rightarrow> string \<Rightarrow> bool" where
  "field_ok cap v \<longleftrightarrow> \<not> hasControlChar v \<and> length v \<le> cap"

lemma parse_field_ok:
  "v \<noteq> [] \<Longrightarrow> parse_field 1 (to_bytes v) r =
     (if hasControlChar v then Inl E_ControlChar else if length v > 32 then Inl E_FieldTooLong
      else Inr (r\<lparr>drec_ssid := to_bytes v\<rparr>))"
  "parse_field 2 (to_bytes v) r =
     (if hasControlChar v then Inl E_ControlChar else if length v > 63 then Inl E_FieldTooLong
      else if 0 < length v \<and> length v < 8 then Inl E_PassTooShort
      else Inr (r\<lparr>drec_pass := to_bytes v\<rparr>))"
  "parse_field 3 (to_bytes v) r =
     (if hasControlChar v then Inl E_ControlChar else if length v > 63 then Inl E_FieldTooLong
      else Inr (r\<lparr>drec_host := to_bytes v\<rparr>))"
  "parse_field 5 (to_bytes v) r =
     (if hasControlChar v then Inl E_ControlChar else if length v > 64 then Inl E_FieldTooLong
      else Inr (r\<lparr>drec_token := to_bytes v\<rparr>))"
  "parse_field 6 (to_bytes v) r =
     (if hasControlChar v then Inl E_ControlChar else if length v > 63 then Inl E_FieldTooLong
      else Inr (r\<lparr>drec_otaPass := to_bytes v\<rparr>))"
  by (simp_all add: parse_field_def printable_to_bytes field_caps)

definition record_ok :: "Record \<Rightarrow> bool" where
  "record_ok r \<longleftrightarrow> R_SSID r \<noteq> [] \<and> field_ok 32 (R_SSID r) \<and> field_ok 63 (R_Password r) \<and>
     (R_Password r = [] \<or> 8 \<le> length (R_Password r)) \<and> field_ok 63 (R_Host r) \<and>
     field_ok 64 (R_Token r) \<and> field_ok 63 (R_OTAPass r)"

lemma validate_record_iff: "validate_record r = Inr () \<longleftrightarrow> record_ok r"
  by (simp add: validate_record_def record_ok_def field_ok_def wire_consts not_less)

definition dev_view :: "Record \<Rightarrow> dev_record" where
  "dev_view r = \<lparr>drec_ssid = to_bytes (R_SSID r), drec_pass = to_bytes (R_Password r),
     drec_host = to_bytes (R_Host r),
     drec_port = (if R_Port r = 0 then kDefaultPort else R_Port r),
     drec_token = to_bytes (R_Token r), drec_otaPass = to_bytes (R_OTAPass r)\<rparr>"

definition short_fields :: "Record \<Rightarrow> bool" where
  "short_fields r \<longleftrightarrow> length (R_SSID r) < 256 \<and> length (R_Password r) < 256 \<and>
     length (R_Host r) < 256 \<and> length (R_Token r) < 256 \<and> length (R_OTAPass r) < 256"

lemma record_ok_short: "record_ok r \<Longrightarrow> short_fields r"
  by (auto simp: record_ok_def short_fields_def field_ok_def)

text \<open>One text field: the device's verdict and the record it then holds.\<close>

definition text_rule :: "nat \<Rightarrow> string \<Rightarrow> bool" where
  "text_rule t v \<longleftrightarrow> field_ok (if t = 1 then 32 else if t = 5 then 64 else 63) v \<and>
     (t = 2 \<longrightarrow> v = [] \<or> 8 \<le> length v)"

definition text_get :: "nat \<Rightarrow> dev_record \<Rightarrow> bytes" where
  "text_get t r = (if t = 1 then drec_ssid r else if t = 2 then drec_pass r
     else if t = 3 then drec_host r else if t = 5 then drec_token r else drec_otaPass r)"

definition text_put :: "nat \<Rightarrow> string \<Rightarrow> dev_record \<Rightarrow> dev_record" where
  "text_put t v r = (let b = to_bytes v in
     if t = 1 then r\<lparr>drec_ssid := b\<rparr> else if t = 2 then r\<lparr>drec_pass := b\<rparr>
     else if t = 3 then r\<lparr>drec_host := b\<rparr> else if t = 5 then r\<lparr>drec_token := b\<rparr>
     else r\<lparr>drec_otaPass := b\<rparr>)"

definition seen_put :: "nat \<Rightarrow> string \<Rightarrow> nat list \<Rightarrow> nat list" where
  "seen_put t v seen = (if v = [] then seen else t # seen)"

lemma text_put_Nil: "text_get t r = [] \<Longrightarrow> text_put t [] r = r"
  by (cases r) (auto simp: text_get_def text_put_def split: if_splits)

lemma parse_field_rule:
  assumes "v \<noteq> []" "t \<in> {1, 2, 3, 5, 6}"
  shows "(text_rule t v \<longrightarrow> parse_field t (to_bytes v) r = Inr (text_put t v r)) \<and>
    (\<not> text_rule t v \<longrightarrow> (\<exists>e. parse_field t (to_bytes v) r = Inl e))"
  using assms
  by (auto simp: parse_field_ok text_rule_def text_put_def field_ok_def simp del: One_nat_def)

lemma text_step:
  assumes "length v < 256" "t \<in> {1, 2, 3, 5, 6}" "unat t \<notin> set seen" "text_get (unat t) r = []"
  shows "(text_rule (unat t) v \<longrightarrow> parse_tlvs (text_tlv t v @ rest) seen r =
             parse_tlvs rest (seen_put (unat t) v seen) (text_put (unat t) v r)) \<and>
    (\<not> text_rule (unat t) v \<longrightarrow> (\<exists>e. parse_tlvs (text_tlv t v @ rest) seen r = Inl e))"
proof (cases "v = []")
  case True
  moreover have "text_rule (unat t) []"
    by (simp add: text_rule_def field_ok_def hasControlChar_def)
  ultimately show ?thesis
    using assms by (simp add: text_tlv_def text_put_Nil seen_put_def)
next
  case False
  have "unat t \<in> {1, 2, 3, 5, 6}" using assms(2) by auto
  from parse_field_rule [OF False this, of r] show ?thesis
    using parse_text_tlv [OF assms(1-3), of rest r] False by (auto simp: seen_put_def)
qed

definition tlv_seen :: "Record \<Rightarrow> nat list" where
  "tlv_seen r = seen_put 6 (R_OTAPass r) (seen_put 5 (R_Token r)
     ((if R_Port r = 0 then id else (#) 4) (seen_put 3 (R_Host r) (seen_put 2 (R_Password r)
       (seen_put 1 (R_SSID r) [])))))"

lemma record_ok_rules:
  "record_ok r \<longleftrightarrow> R_SSID r \<noteq> [] \<and> text_rule 1 (R_SSID r) \<and> text_rule 2 (R_Password r) \<and>
     text_rule 3 (R_Host r) \<and> text_rule 5 (R_Token r) \<and> text_rule 6 (R_OTAPass r)"
  by (auto simp: record_ok_def text_rule_def)

text \<open>A step followed by a step: both rules are asked, and the first that fails ends the parse.\<close>

lemma step_then:
  assumes "(P \<longrightarrow> f = g) \<and> (\<not> P \<longrightarrow> (\<exists>e. f = Inl e))" "(Q \<longrightarrow> g = h) \<and> (\<not> Q \<longrightarrow> (\<exists>e. g = Inl e))"
  shows "(P \<and> Q \<longrightarrow> f = h) \<and> (\<not> (P \<and> Q) \<longrightarrow> (\<exists>e. f = Inl e))"
  using assms by auto

lemma parse_payload:
  assumes "short_fields r" "R_SSID r \<noteq> []"
  shows "(record_ok r \<longrightarrow> parse_tlvs (encode_payload r) [] clear_record = Inr (tlv_seen r, dev_view r)) \<and>
    (\<not> record_ok r \<longrightarrow> (\<exists>e. parse_tlvs (encode_payload r) [] clear_record = Inl e))"
proof -
  have len: "length (R_SSID r) < 256" "length (R_Password r) < 256" "length (R_Host r) < 256"
    "length (R_Token r) < 256" "length (R_OTAPass r) < 256"
    using assms(1) by (simp_all add: short_fields_def)
  let ?s1 = "seen_put 1 (R_SSID r) []" and ?r1 = "text_put 1 (R_SSID r) clear_record"
  let ?s2 = "seen_put 2 (R_Password r) ?s1" and ?r2 = "text_put 2 (R_Password r) ?r1"
  let ?s3 = "seen_put 3 (R_Host r) ?s2" and ?r3 = "text_put 3 (R_Host r) ?r2"
  let ?s4 = "(if R_Port r = 0 then id else (#) 4) ?s3"
  let ?r4 = "if R_Port r = 0 then ?r3 else ?r3\<lparr>drec_port := R_Port r\<rparr>"
  let ?s5 = "seen_put 5 (R_Token r) ?s4" and ?r5 = "text_put 5 (R_Token r) ?r4"
  have sub: "set ?s1 \<subseteq> {1}" "set ?s2 \<subseteq> {1, 2}" "set ?s3 \<subseteq> {1, 2, 3}" "set ?s4 \<subseteq> {1, 2, 3, 4}"
    "set ?s5 \<subseteq> {1, 2, 3, 4, 5}"
    by (auto simp: seen_put_def)
  have U: "unat (1 :: byte) = 1" "unat (2 :: byte) = 2" "unat (3 :: byte) = 3" "unat (5 :: byte) = 5"
    "unat (6 :: byte) = 6"
    by simp_all
  have M: "(1 :: byte) \<in> {1, 2, 3, 5, 6}" "(2 :: byte) \<in> {1, 2, 3, 5, 6}" "(3 :: byte) \<in> {1, 2, 3, 5, 6}"
    "(5 :: byte) \<in> {1, 2, 3, 5, 6}" "(6 :: byte) \<in> {1, 2, 3, 5, 6}"
    by simp_all
  have A: "unat (1 :: byte) \<notin> set []" "unat (2 :: byte) \<notin> set ?s1" "unat (3 :: byte) \<notin> set ?s2"
    "unat (5 :: byte) \<notin> set ?s4" "unat (6 :: byte) \<notin> set ?s5" "4 \<notin> set ?s3"
    using sub by auto
  have B: "text_get (unat (1 :: byte)) clear_record = []" "text_get (unat (2 :: byte)) ?r1 = []"
    "text_get (unat (3 :: byte)) ?r2 = []" "text_get (unat (5 :: byte)) ?r4 = []"
    "text_get (unat (6 :: byte)) ?r5 = []"
    by (simp_all add: text_get_def text_put_def clear_record_def)
  note S1 = text_step [OF len(1) M(1) A(1) B(1), unfolded U]
    and S2 = text_step [OF len(2) M(2) A(2) B(2), unfolded U]
    and S3 = text_step [OF len(3) M(3) A(3) B(3), unfolded U]
    and S5 = text_step [OF len(4) M(4) A(4) B(4), unfolded U]
    and S6 = text_step [OF len(5) M(5) A(5) B(5), of "[]", unfolded U append_Nil2]
  have S4: "parse_tlvs (port_tlv (R_Port r) @ rest) ?s3 ?r3 = parse_tlvs rest ?s4 ?r4" for rest
    unfolding parse_port_tlv [OF A(6)] by simp
  have last: "parse_tlvs [] (seen_put 6 (R_OTAPass r) ?s5) (text_put 6 (R_OTAPass r) ?r5) =
      Inr (tlv_seen r, dev_view r)"
    by (simp add: tlv_seen_def text_put_def dev_view_def clear_record_def)
  note S456 = step_then [OF S5 S6, unfolded last, folded S4]
  from step_then [OF S1 step_then [OF S2 step_then [OF S3 S456]]] show ?thesis
    using assms(2) unfolding record_ok_rules encode_payload_fields by simp
qed

subsection \<open>The whole stream\<close>

definition stream_of :: "Record \<Rightarrow> bytes" where
  "stream_of r = (let p = encode_payload r; h = 1 # le16 (word_of_nat (length p)) @ p
     in h @ le32 (crc32 h))"

lemma length_payload: "record_ok r \<Longrightarrow> length (encode_payload r) \<le> 299"
  by (simp add: encode_payload_fields length_text_tlv port_tlv_def record_ok_def field_ok_def)

lemma length_stream_of: "length (stream_of r) = 7 + length (encode_payload r)"
  by (simp add: stream_of_def Let_def)

lemma Encode_iff: "Encode r = Inr bs \<longleftrightarrow> record_ok r \<and> bs = stream_of r"
proof (cases "record_ok r")
  case True
  then have "Encode r = Inr (stream_of r)"
    using length_payload [OF True] validate_record_iff [of r]
    by (simp add: Encode_def Let_def stream_of_def wire_consts)
  with True show ?thesis by auto
next
  case False
  then have "validate_record r \<noteq> Inr ()" by (simp add: validate_record_iff)
  then obtain e where "validate_record r = Inl e" by (cases "validate_record r") auto
  with False show ?thesis by (simp add: Encode_def)
qed

lemma seen_ssid: "R_SSID r \<noteq> [] \<Longrightarrow> 1 \<in> set (tlv_seen r)"
  by (auto simp: tlv_seen_def seen_put_def)

lemma sanitize_dev_view: "record_ok r \<Longrightarrow> sanitize (dev_view r) = dev_view r"
proof -
  assume "record_ok r"
  then have "printableValue (to_bytes (R_SSID r))" "printableValue (to_bytes (R_Password r))"
    "printableValue (to_bytes (R_Host r))" "printableValue (to_bytes (R_Token r))"
    "printableValue (to_bytes (R_OTAPass r))"
    by (simp_all add: printable_to_bytes record_ok_def field_ok_def)
  then show ?thesis
    by (simp add: sanitize_def dev_view_def sanitize_printable kDefaultPort_def)
qed

lemma nth_le32: "le32 v ! 0 = ucast v" "le32 v ! Suc 0 = ucast (drop_bit 8 v)"
  "le32 v ! 2 = ucast (drop_bit 16 v)" "le32 v ! 3 = ucast (drop_bit 24 v)"
  by (simp_all add: le32_def)

lemma parse_stream:
  assumes ok: "record_ok r" and buf: "dec_buf d = stream_of r @ zs"
    and decl: "dec_declared d = length (stream_of r)" and ver: "dec_version d = 1"
  shows "parse d = Inr (dev_view r)"
proof -
  let ?p = "encode_payload r" and ?n = "length (encode_payload r)"
  let ?h = "1 # le16 (word_of_nat ?n) @ ?p"
  have n: "?n < 65536" using length_payload [OF ok] by simp
  have str: "stream_of r = ?h @ le32 (crc32 ?h)" by (simp add: stream_of_def Let_def)
  have b: "dec_buf d = 1 # le16 (word_of_nat ?n) @ ?p @ le32 (crc32 ?h) @ zs"
    by (simp add: buf str)
  have len: "rd16 (dec_buf d ! 1) (dec_buf d ! 2) = word_of_nat ?n"
    by (simp add: b le16_def)
  have pay: "take ?n (drop 3 (dec_buf d)) = ?p" and pre: "take (3 + ?n) (dec_buf d) = ?h"
    by (simp_all add: b le16_def numeral_3_eq_3)
  have "dec_buf d ! (3 + ?n + i) = le32 (crc32 ?h) ! i" if "i < 4" for i
  proof -
    have "dec_buf d = ?h @ (le32 (crc32 ?h) @ zs)" by (simp add: b)
    moreover have "length ?h = 3 + ?n" by simp
    ultimately show ?thesis using that by (metis length_le32 nth_append nth_append_length_plus)
  qed
  from this [of 0] this [of 1] this [of 2] this [of 3]
  have crc: "rd32 (dec_buf d ! (3 + ?n)) (dec_buf d ! (3 + ?n + 1)) (dec_buf d ! (3 + ?n + 2))
      (dec_buf d ! (3 + ?n + 3)) = crc32 ?h"
    by (simp add: nth_le32)
  have "parse_tlvs ?p [] clear_record = Inr (tlv_seen r, dev_view r)"
    using parse_payload [OF record_ok_short [OF ok]] ok by (simp add: record_ok_def)
  moreover have "joinable (sanitize (dev_view r))"
    using ok by (simp add: sanitize_dev_view joinable_def) (simp add: dev_view_def record_ok_def)
  moreover have "dec_buf d ! 0 = 1" by (simp add: b)
  moreover have "1 \<in> set (tlv_seen r)" using ok by (intro seen_ssid) (simp add: record_ok_def)
  ultimately show ?thesis
    unfolding parse_def Let_def kStreamHeader_def kCrcLen_def len unat_16 [OF n] crc pay pre decl
    by (simp add: ver length_stream_of sanitize_dev_view [OF ok])
qed

subsection \<open>Sending: what the Mac relies on in the receiver\<close>

text \<open>Writes to one characteristic, in order, with the answers.\<close>

fun writes :: "(bytes \<Rightarrow> 's \<Rightarrow> 's \<times> 'e) \<Rightarrow> bytes list \<Rightarrow> 's \<Rightarrow> 's \<times> 'e list" where
  "writes f [] s = (s, [])"
| "writes f (w # ws) s = (case f w s of (s1, e) \<Rightarrow> (case writes f ws s1 of (s2, es) \<Rightarrow> (s2, e # es)))"

locale chunk_receiver =
  fixes control :: "bytes \<Rightarrow> 's \<Rightarrow> 's \<times> 'e" and chunk :: "bytes \<Rightarrow> 's \<Rightarrow> 's \<times> 'e"
    and accepted :: 'e and progress :: "'s \<Rightarrow> (nat \<times> bytes \<times> byte) option"
  assumes begins: "7 \<le> n \<Longrightarrow> n \<le> 512 \<Longrightarrow>
      \<exists>s'. control (1 # 1 # le16 (word_of_nat n)) s = (s', accepted) \<and> progress s' = Some (n, [], 0)"
    and takes: "progress s = Some (n, bs, q) \<Longrightarrow> data \<noteq> [] \<Longrightarrow> length bs + length data \<le> n \<Longrightarrow>
      \<exists>s'. chunk (q # data) s = (s', accepted) \<and> progress s' = Some (n, bs @ data, q + 1)"
begin

lemma delivers:
  assumes "progress s = Some (n, bs, q)" "length bs + length data \<le> n" "0 < k"
  shows "\<exists>s' q'. writes chunk (chunk_loop k q data) s =
           (s', replicate (length (chunk_loop k q data)) accepted) \<and> progress s' = Some (n, bs @ data, q')"
  using assms
proof (induction k q data arbitrary: s bs rule: chunk_loop.induct)
  case (1 k q data)
  show ?case
  proof (cases "data = []")
    case True
    then show ?thesis using 1 by simp
  next
    case False
    have "take k data \<noteq> []" "length bs + length (take k data) \<le> n" using False 1 by auto
    from takes [OF 1(2) this] obtain s1 where
      s1: "chunk (q # take k data) s = (s1, accepted)" "progress s1 = Some (n, bs @ take k data, q + 1)"
      by blast
    have "length (bs @ take k data) + length (drop k data) \<le> n" using 1 by simp
    from "1.IH" [OF _ s1(2) this] obtain s' q' where
      "writes chunk (chunk_loop k (q + 1) (drop k data)) s1 =
         (s', replicate (length (chunk_loop k (q + 1) (drop k data))) accepted)"
      "progress s' = Some (n, (bs @ take k data) @ drop k data, q')"
      using False 1 by auto
    then show ?thesis
      using False 1(4) s1(1) by (simp add: chunk_loop.simps [of k q data])
  qed
qed

end

subsection \<open>The device's decoder is such a receiver\<close>

definition transfer :: "decoder \<Rightarrow> (nat \<times> bytes \<times> byte) option" where
  "transfer d = (if dec_state d = S_Receiving \<and> dec_version d = 1 \<and> dec_declared d \<le> 512 \<and>
        length (dec_buf d) = 512 \<and> dec_received d \<le> dec_declared d
     then Some (dec_declared d, take (dec_received d) (dec_buf d), dec_nextSeq d) else None)"

lemma transferD: "transfer d = Some (n, bs, q) \<Longrightarrow>
  dec_state d = S_Receiving \<and> dec_version d = 1 \<and> dec_declared d = n \<and> n \<le> 512 \<and>
  length (dec_buf d) = 512 \<and> dec_received d = length bs \<and> length bs \<le> n \<and>
  dec_buf d = bs @ drop (length bs) (dec_buf d) \<and> dec_nextSeq d = q"
  by (auto simp: transfer_def min_def split: if_splits)

lemma device_begins:
  assumes "7 \<le> n" "n \<le> 512"
  shows "\<exists>d'. onControl (1 # 1 # le16 (word_of_nat n)) d = (d', E_None) \<and> transfer d' = Some (n, [], 0)"
proof -
  have "unat (word_of_nat n :: 16 word) = n" using assms by (intro unat_16) simp
  then show ?thesis
    using assms
    by (simp add: onControl_def on_begin_def le16_def kVersion_def Let_def kMinStream_def
          kMaxStream_def kStreamHeader_def kCrcLen_def transfer_def reset_decoder_def zero_buf_def)
qed

lemma device_takes:
  assumes "transfer d = Some (n, bs, q)" "data \<noteq> []" "length bs + length data \<le> n"
  shows "\<exists>d'. onChunk (q # data) d = (d', E_None) \<and> transfer d' = Some (n, bs @ data, q + 1)"
proof -
  note d = transferD [OF assms(1)]
  have "take (length bs) (dec_buf d) = bs" using d by (metis append_eq_conv_conj)
  moreover have "\<not> length data + 1 < 2" using assms(2) by (cases data) auto
  ultimately show ?thesis
    using d assms(3) by (simp add: onChunk_def Let_def transfer_def)
qed

interpretation device: chunk_receiver onControl onChunk E_None transfer
  by unfold_locales (simp_all add: device_begins device_takes)

lemma device_commits:
  assumes "record_ok r" "transfer d = Some (length (stream_of r), stream_of r, q)"
  shows "\<exists>d'. onControl [2] d = (d', E_None) \<and> dec_state d' = S_Ready \<and> dec_error d' = E_None \<and>
              dec_rec d' = dev_view r"
proof -
  note d = transferD [OF assms(2)]
  have "parse d = Inr (dev_view r)"
    by (rule parse_stream [OF assms(1), of _ "drop (length (stream_of r)) (dec_buf d)"]) (use d in auto)
  with d show ?thesis by (simp add: onControl_def on_commit_def)
qed

text \<open>One provisioning attempt: BEGIN, the chunks, COMMIT.\<close>

definition provision_writes :: "Record \<Rightarrow> int \<Rightarrow> decoder \<Rightarrow> wire_error + (decoder \<times> dev_error list)" where
  "provision_writes r csize d =
     bind_result (Encode r) (\<lambda>stream.
     bind_result (BeginCommand (length stream)) (\<lambda>bg.
     bind_result (Chunks stream csize) (\<lambda>cs.
       (case onControl bg d of (d1, e1) \<Rightarrow>
       (case writes onChunk cs d1 of (d2, es) \<Rightarrow>
       (case onControl CommitCommand d2 of (d3, e3) \<Rightarrow> Inr (d3, e1 # es @ [e3])))))))"

lemma provision_delivers:
  assumes ok: "record_ok r" and k: "1 \<le> csize"
  shows "\<exists>d' es. provision_writes r csize d = Inr (d', es) \<and> set es = {E_None} \<and>
           dec_state d' = S_Ready \<and> dec_rec d' = dev_view r"
proof -
  let ?s = "stream_of r" and ?cs = "chunk_loop (nat csize) 0 (stream_of r)"
  have len: "7 \<le> length ?s" "length ?s \<le> 306"
    using length_payload [OF ok] by (simp_all add: length_stream_of)
  have enc: "Encode r = Inr ?s" using ok by (simp add: Encode_iff)
  have bg: "BeginCommand (length ?s) = Inr (1 # 1 # le16 (word_of_nat (length ?s)))"
    using len by (simp add: BeginCommand_def wire_consts)
  have cs: "Chunks ?s csize = Inr ?cs" using len k by (auto simp: Chunks_def)
  obtain d1 where d1: "onControl (1 # 1 # le16 (word_of_nat (length ?s))) d = (d1, E_None)"
      "transfer d1 = Some (length ?s, [], 0)"
    using device.begins [of "length ?s" d] len by auto
  obtain d2 q where d2: "writes onChunk ?cs d1 = (d2, replicate (length ?cs) E_None)"
      "transfer d2 = Some (length ?s, ?s, q)"
    using device.delivers [OF d1(2), of ?s "nat csize"] k by auto
  obtain d3 where "onControl [2] d2 = (d3, E_None)" "dec_state d3 = S_Ready" "dec_rec d3 = dev_view r"
    using device_commits [OF ok d2(2)] by auto
  with d1 d2 show ?thesis
    by (simp add: provision_writes_def enc bg cs CommitCommand_def opCommit_def set_replicate_conv_if)
qed

subsection \<open>No sequence of writes breaks the decoder\<close>

datatype dev_event = Control bytes | Chunk bytes | Applying | Applied | Fail dev_error | Scrub

fun dev_step :: "dev_event \<Rightarrow> decoder \<Rightarrow> decoder" where
  "dev_step (Control w) d = fst (onControl w d)"
| "dev_step (Chunk w) d = fst (onChunk w d)"
| "dev_step Applying d = markApplying d"
| "dev_step Applied d = markApplied d"
| "dev_step (Fail e) d = markFailed e d"
| "dev_step Scrub d = scrub d"

definition drec_ok :: "dev_record \<Rightarrow> bool" where
  "drec_ok r \<longleftrightarrow> length (drec_ssid r) \<le> kMaxSsid \<and> length (drec_pass r) \<le> kMaxPass \<and>
     length (drec_host r) \<le> kMaxHost \<and> length (drec_token r) \<le> kMaxToken \<and>
     length (drec_otaPass r) \<le> kMaxOtaPass"

text \<open>
  The buffer keeps its size, what was received fits what was declared, which fits the buffer,
  the record's fields fit theirs, and a decoder that says \<open>Ready\<close> holds a joinable record unless
  it was scrubbed since.
\<close>

definition dec_ok :: "decoder \<Rightarrow> bool" where
  "dec_ok d \<longleftrightarrow> length (dec_buf d) = kMaxStream \<and> dec_received d \<le> dec_declared d \<and>
     dec_declared d \<le> kMaxStream \<and> drec_ok (dec_rec d)"

lemma parse_field_drec_ok: "drec_ok r \<Longrightarrow> parse_field t v r = Inr r' \<Longrightarrow> drec_ok r'"
  by (auto simp: parse_field_def drec_ok_def split: if_splits list.splits)

lemma parse_tlvs_drec_ok: "drec_ok r \<Longrightarrow> parse_tlvs bs seen r = Inr (s, r') \<Longrightarrow> drec_ok r'"
  by (induction bs seen r rule: parse_tlvs.induct)
     (auto simp: bind_result_Inr_iff split: if_splits dest: parse_field_drec_ok)

lemma sanitize_drec_ok: "drec_ok r \<Longrightarrow> drec_ok (sanitize r)"
  unfolding drec_ok_def sanitize_def sanitize_field_def
  by (auto intro: order_trans [OF length_takeWhile_le])

lemma clear_drec_ok: "drec_ok clear_record"
  by (simp add: drec_ok_def clear_record_def)

lemma parse_drec_ok: "parse d = Inr r \<Longrightarrow> drec_ok r \<and> joinable r"
  by (auto simp: parse_def Let_def bind_result_Inr_iff split: if_splits prod.splits
        intro: sanitize_drec_ok dest!: parse_tlvs_drec_ok [OF clear_drec_ok])

lemma dec_ok_simps [simp]: "length zero_buf = kMaxStream"
  by (simp add: zero_buf_def)

lemma fail_ok: "dec_ok d \<Longrightarrow> dec_ok (fst (fail e d))"
  by (auto simp: fail_def dec_ok_def Let_def)

lemma reset_ok: "dec_ok reset_decoder"
  by (simp add: dec_ok_def reset_decoder_def clear_drec_ok)

lemma onControl_ok: "dec_ok d \<Longrightarrow> dec_ok (fst (onControl w d))"
proof -
  assume d: "dec_ok d"
  have "dec_ok (fst (on_begin w d))"
    using fail_ok [OF d] by (auto simp: on_begin_def Let_def dec_ok_def reset_decoder_def clear_drec_ok)
  moreover have "dec_ok (fst (on_commit w d))"
  proof -
    have "dec_ok (d\<lparr>dec_rec := clear_record\<rparr>)" using d by (simp add: dec_ok_def clear_drec_ok)
    from fail_ok [OF this] fail_ok [OF d] d show ?thesis
      by (auto simp: on_commit_def dec_ok_def dest: parse_drec_ok split: sum.split)
  qed
  ultimately show ?thesis
    using fail_ok [OF d] reset_ok by (auto simp: onControl_def split: list.split)
qed

lemma onChunk_ok: "dec_ok d \<Longrightarrow> dec_ok (fst (onChunk w d))"
  using fail_ok [of d] by (auto simp: onChunk_def Let_def dec_ok_def)

lemma dev_step_ok: "dec_ok d \<Longrightarrow> dec_ok (dev_step ev d)"
proof (cases ev)
  case (Control w)
  then show "dec_ok d \<Longrightarrow> dec_ok (dev_step ev d)" by (simp add: onControl_ok)
next
  case (Chunk w)
  then show "dec_ok d \<Longrightarrow> dec_ok (dev_step ev d)" by (simp add: onChunk_ok)
qed (simp_all add: markApplying_def markApplied_def markFailed_def scrub_def clear_drec_ok dec_ok_def)

lemma dev_run_ok: "dec_ok (fold dev_step evs reset_decoder)"
proof -
  have "dec_ok d \<Longrightarrow> dec_ok (fold dev_step evs d)" for d
    by (induction evs arbitrary: d) (simp_all add: dev_step_ok)
  then show ?thesis using reset_ok by simp
qed

subsection \<open>What the two halves promise each other\<close>

definition example_record :: Record where
  "example_record = \<lparr>R_SSID = ''home'', R_Password = ''12345678'', R_Host = [], R_Port = 8765,
                     R_Token = ''t'', R_OTAPass = []\<rparr>"

lemma example_record_ok: "record_ok example_record"
  by (simp add: example_record_def record_ok_def field_ok_def hasControlChar_def)

text \<open>
  C1: provisioning delivers.  For every record the Mac accepts, every chunk size and whatever the
  device was doing before, writing BEGIN, the chunks and COMMIT is answered without error at every
  write, and the device ends in \<open>Ready\<close> holding exactly the fields of the record, with its default
  port where the record has none.
\<close>

theorem provision_roundtrip:
  assumes "validate_record r = Inr ()" "1 \<le> csize"
  shows "\<exists>d' es. provision_writes r csize d = Inr (d', es) \<and> set es = {E_None} \<and>
           dec_state d' = S_Ready \<and> dec_rec d' = dev_view r"
  using provision_delivers assms by (simp add: validate_record_iff)

lemma provision_roundtrip_witness:
  "\<exists>d' es. provision_writes example_record 19 reset_decoder = Inr (d', es) \<and> set es = {E_None} \<and>
     dec_state d' = S_Ready \<and> dec_rec d' = dev_view example_record"
  by (rule provision_roundtrip) (simp_all add: example_record_ok validate_record_iff)

text \<open>
  \<open>Encode\<close> succeeds exactly on the records \<open>Validate\<close> accepts, and then gives at most 306
  bytes, so \<open>BeginCommand\<close> accepts its length and \<open>ErrRecordTooLarge\<close> is never returned.
\<close>

theorem Encode_total:
  "(case Encode r of
      Inr bs \<Rightarrow> validate_record r = Inr () \<and> 7 \<le> length bs \<and> length bs \<le> 306 \<and>
                (\<exists>w. BeginCommand (length bs) = Inr w)
    | Inl e \<Rightarrow> validate_record r = Inl e \<and> e \<noteq> ErrRecordTooLarge)"
proof (cases "record_ok r")
  case True
  then have e: "Encode r = Inr (stream_of r)" by (simp add: Encode_iff)
  have "7 \<le> length (stream_of r)" "length (stream_of r) \<le> 306"
    using length_payload [OF True] by (simp_all add: length_stream_of)
  then show ?thesis
    using True by (simp add: e validate_record_iff BeginCommand_def wire_consts)
next
  case False
  then have "validate_record r \<noteq> Inr ()" by (simp add: validate_record_iff)
  then obtain e where e: "validate_record r = Inl e" by (cases "validate_record r") auto
  moreover have "e \<noteq> ErrRecordTooLarge"
    using e by (auto simp: validate_record_def split: if_splits)
  ultimately show ?thesis by (simp add: Encode_def)
qed



text \<open>
  The comment on \<open>Validate\<close> says it applies the decoder's rules in the same order; it does not.
  For an over-long password with a control character the device answers \<open>ControlChar\<close> where
  \<open>Validate\<close> answers \<open>FieldTooLong\<close>.
\<close>

theorem Validate_order_differs:
  "let r = example_record\<lparr>R_Password := replicate 64 (CHR 0x07)\<rparr> in
   validate_record r = Inl (FieldError ''password'' (dev_error_num E_FieldTooLong)) \<and>
   parse_tlvs (encode_payload r) [] clear_record = Inl E_ControlChar"
proof -
  have main: "validate_record (example_record\<lparr>R_Password := v\<rparr>) = Inl (FieldError ''password'' 17) \<and>
      parse_tlvs (encode_payload (example_record\<lparr>R_Password := v\<rparr>)) [] clear_record = Inl E_ControlChar"
    if v: "hasControlChar v" "length v = 64" for v
  proof
    have home: "\<not> hasControlChar ''home''" by (simp add: hasControlChar_def)
    have U: "unat (1 :: byte) = 1" "unat (2 :: byte) = 2" by simp_all
    have f: "parse_field 1 (to_bytes ''home'') clear_record =
        Inr (clear_record\<lparr>drec_ssid := to_bytes ''home''\<rparr>)"
      using home by (subst parse_field_ok(1)) simp_all
    have 1: "parse_tlvs (text_tlv 1 ''home'' @ rest) [] clear_record =
        parse_tlvs rest [1] (clear_record\<lparr>drec_ssid := to_bytes ''home''\<rparr>)" for rest
      by (subst parse_text_tlv) (simp_all add: U f del: One_nat_def)
    have 2: "parse_tlvs (text_tlv 2 v @ rest) [1] r = Inl E_ControlChar" for rest r
      using v by (subst parse_text_tlv) (auto simp: U parse_field_ok(2))
    show "parse_tlvs (encode_payload (example_record\<lparr>R_Password := v\<rparr>)) [] clear_record = Inl E_ControlChar"
      by (simp add: encode_payload_fields example_record_def 1 2 del: One_nat_def)
    show "validate_record (example_record\<lparr>R_Password := v\<rparr>) = Inl (FieldError ''password'' 17)"
      using home v
      by (simp add: validate_record_def example_record_def wire_consts ErrFieldTooLong_def)
  qed
  have "hasControlChar (replicate 64 (CHR 0x07))" by (simp add: hasControlChar_def)
  from main [OF this] show ?thesis by (simp add: Let_def)
qed

text \<open>
  C27: whatever is written to the device, in any order and of any length, and whatever the radio
  code reports, the decoder's buffer keeps its 512 bytes, it never counts more bytes than were
  declared, never declares more than the buffer holds, and no field of the record outgrows its
  array.
\<close>

theorem decoder_memory_safe:
  "dec_ok (fold dev_step evs reset_decoder)"
  by (rule dev_run_ok)

text \<open>
  The Mac reads back what the device publishes: its state, error, expected sequence number and
  byte count, and from the open characteristic whether it is provisioned, its buffer size and its
  address.  For every error and state the two sides print the same sentence.
\<close>

theorem status_info_roundtrip:
  "ParseStatus (encodeStatus d) =
     Inr \<lparr>Stat_Version = 1, Stat_State = dev_state_num (dec_state d),
          Stat_Error = dev_error_num (dec_error d), Stat_NextSeq = dec_nextSeq d,
          Stat_Received = word_of_nat (dec_received d)\<rparr> \<and>
   (length mac \<noteq> 6 \<or> ParseInfo (encodeInfo mac prov) =
     Inr \<lparr>Info_Version = 1, Info_Provisioned = prov, Info_Capacity = 512, Info_MAC = mac\<rparr>) \<and>
   err_string (dev_error_num e) = errorText e \<and>
   state_string (dev_state_num s) = stateText s"
proof -
  have "ParseStatus (encodeStatus d) =
     Inr \<lparr>Stat_Version = 1, Stat_State = dev_state_num (dec_state d),
          Stat_Error = dev_error_num (dec_error d), Stat_NextSeq = dec_nextSeq d,
          Stat_Received = word_of_nat (dec_received d)\<rparr>"
    by (simp add: ParseStatus_def encodeStatus_def StatusLen_def kVersion_def)
  moreover have "ParseInfo (encodeInfo mac prov) =
     Inr \<lparr>Info_Version = 1, Info_Provisioned = prov, Info_Capacity = 512, Info_MAC = mac\<rparr>"
    if "length mac = 6"
    using that by (simp add: ParseInfo_def encodeInfo_def InfoLen_def kVersion_def kMaxStream_def)
  moreover have "err_string (dev_error_num e) = errorText e"
    by (cases e) (simp_all add: err_string_def err_texts_def err_consts)
  moreover have "state_string (dev_state_num s) = stateText s"
    by (cases s) (simp_all add: state_string_def)
  ultimately show ?thesis by blast
qed

lemma status_info_roundtrip_witness:
  "ParseInfo (encodeInfo [1, 2, 3, 4, 5, 6] True) =
     Inr \<lparr>Info_Version = 1, Info_Provisioned = True, Info_Capacity = 512, Info_MAC = [1, 2, 3, 4, 5, 6]\<rparr>"
  using status_info_roundtrip [of reset_decoder "[1, 2, 3, 4, 5, 6]" True E_None S_Idle] by simp

end
