(* ===== verification/Go_Net.thy ===== *)
theory Go_Net
  imports Go_Prelude
begin

text \<open>
  The address functions of package \<open>net\<close> that decide who counts as this machine:
  \<open>SplitHostPort\<close>, \<open>ParseIP\<close> (with the address grammar of \<open>net/netip\<close>) and \<open>IP.IsLoopback\<close>.
  An address is its sixteen bytes as numbers, IPv4 addresses in the mapped form.
\<close>

definition last_index :: "char \<Rightarrow> string \<Rightarrow> nat option" where
  "last_index c s = (case filter (\<lambda>i. s ! i = c) [0..<length s] of [] \<Rightarrow> None | is \<Rightarrow> Some (last is))"

definition first_index :: "char \<Rightarrow> string \<Rightarrow> nat option" where
  "first_index c s = (case filter (\<lambda>i. s ! i = c) [0..<length s] of [] \<Rightarrow> None | i # _ \<Rightarrow> Some i)"

definition SplitHostPort :: "string \<Rightarrow> (string \<times> string) option" where
  "SplitHostPort hp =
     (case last_index (CHR '':'') hp of
        None \<Rightarrow> None
      | Some i \<Rightarrow>
          if hp ! 0 = CHR ''['' then
            (case first_index (CHR '']'') hp of
               None \<Rightarrow> None
             | Some e \<Rightarrow>
                 if e + 1 \<noteq> i then None
                 else if CHR ''['' \<in> set (drop 1 hp) \<or> CHR '']'' \<in> set (drop (e + 1) hp) then None
                 else Some (take (e - 1) (drop 1 hp), drop (i + 1) hp))
          else if CHR '':'' \<in> set (take i hp) then None
          else if CHR ''['' \<in> set hp \<or> CHR '']'' \<in> set hp then None
          else Some (take i hp, drop (i + 1) hp))"

text \<open>Four decimal fields without leading zeros.\<close>

definition ipv4_field :: "string \<Rightarrow> nat option" where
  "ipv4_field f =
     (if f = [] \<or> length f > 3 \<or> (length f > 1 \<and> hd f = CHR ''0'') then None
      else (case read_nat f of None \<Rightarrow> None | Some n \<Rightarrow> if n > 255 then None else Some n))"

definition parse_ipv4 :: "string \<Rightarrow> nat list option" where
  "parse_ipv4 s = (let fs = map ipv4_field (split_char (CHR ''.'') s) in
     if length fs = 4 \<and> list_all (\<lambda>f. f \<noteq> None) fs then Some (map the fs) else None)"

definition hex_digit_val :: "char \<Rightarrow> nat option" where
  "hex_digit_val c = (let n = of_char c :: nat in
     if 48 \<le> n \<and> n \<le> 57 then Some (n - 48)
     else if 97 \<le> n \<and> n \<le> 102 then Some (n - 87)
     else if 65 \<le> n \<and> n \<le> 70 then Some (n - 55) else None)"

text \<open>The two bytes of a group of one to four hexadecimal digits.\<close>

definition hex_group :: "string \<Rightarrow> nat list" where
  "hex_group ds = (let v = replicate (4 - length ds) 0 @ map (\<lambda>c. the (hex_digit_val c)) ds
     in [16 * (v ! 0) + v ! 1, 16 * (v ! 2) + v ! 3])"

text \<open>
  The loop of \<open>parseIPv6\<close>: \<open>acc\<close> holds the bytes so far, \<open>ell\<close> where the ellipsis stood.  The
  result is the bytes, the ellipsis and whether the text was used up.
\<close>

fun ipv6_groups ::
  "nat \<Rightarrow> nat list \<Rightarrow> nat option \<Rightarrow> string \<Rightarrow> (nat list \<times> nat option) option"
where
  "ipv6_groups 0 acc ell s = (if s = [] then Some (acc, ell) else None)"
| "ipv6_groups (Suc fuel) acc ell s =
     (let ds = takeWhile (\<lambda>c. hex_digit_val c \<noteq> None) s; r = drop (length ds) s in
      if ds = [] \<or> length ds > 4 then None
      else (case r of
         [] \<Rightarrow> Some (acc @ hex_group ds, ell)
       | c # r1 \<Rightarrow>
           if c = CHR ''.'' then
             (if (ell = None \<and> length acc \<noteq> 12) \<or> length acc + 4 > 16 then None
              else (case parse_ipv4 s of None \<Rightarrow> None | Some b \<Rightarrow> Some (acc @ b, ell)))
           else if c \<noteq> CHR '':'' \<or> r1 = [] then None
           else (let acc1 = acc @ hex_group ds in
             if hd r1 = CHR '':'' then
               (if ell \<noteq> None then None
                else if tl r1 = [] then Some (acc1, Some (length acc1))
                else ipv6_groups fuel acc1 (Some (length acc1)) (tl r1))
             else ipv6_groups fuel acc1 ell r1)))"

definition parse_ipv6 :: "string \<Rightarrow> nat list option" where
  "parse_ipv6 s =
     (let (ell, s1) = (if take 2 s = ''::'' then (Some 0, drop 2 s) else (None, s)) in
      if ell \<noteq> None \<and> s1 = [] then Some (replicate 16 0)
      else (case ipv6_groups 8 [] ell s1 of
         None \<Rightarrow> None
       | Some (bs, e) \<Rightarrow>
           if length bs < 16 then
             (case e of None \<Rightarrow> None
              | Some i \<Rightarrow> Some (take i bs @ replicate (16 - length bs) 0 @ drop i bs))
           else if length bs > 16 \<or> e \<noteq> None then None
           else Some bs))"

text \<open>The first of \<open>.\<close>, \<open>:\<close> and \<open>%\<close> decides the family; an address with a zone is refused.\<close>

definition ParseIP :: "string \<Rightarrow> nat list option" where
  "ParseIP s =
     (case filter (\<lambda>c. c \<in> set ''.:%'') s of
        [] \<Rightarrow> None
      | c # _ \<Rightarrow>
          if c = CHR ''.'' then map_option (\<lambda>b. replicate 10 0 @ [255, 255] @ b) (parse_ipv4 s)
          else if c = CHR '':'' then (if CHR ''%'' \<in> set s then None else parse_ipv6 s)
          else None)"

definition mapped_v4 :: "nat list \<Rightarrow> bool" where
  "mapped_v4 ip \<longleftrightarrow> take 12 ip = replicate 10 0 @ [255, 255]"

definition IsLoopback :: "nat list \<Rightarrow> bool" where
  "IsLoopback ip \<longleftrightarrow> (if mapped_v4 ip then ip ! 12 = 127 else ip = replicate 15 0 @ [1])"

text \<open>Some addresses, evaluated.\<close>

lemma ParseIP_examples:
  "map_option IsLoopback (ParseIP ''127.0.0.1'') = Some True"
  "map_option IsLoopback (ParseIP ''192.168.1.20'') = Some False"
  "map_option IsLoopback (ParseIP ''::1'') = Some True"
  "map_option IsLoopback (ParseIP ''::ffff:127.8.0.1'') = Some True"
  "map_option IsLoopback (ParseIP ''fe80::1'') = Some False"
  "ParseIP ''127.0.0.01'' = None" "ParseIP ''1::2::3'' = None" "ParseIP ''localhost'' = None"
  "SplitHostPort ''[::1]:8765'' = Some (''::1'', ''8765'')"
  "SplitHostPort ''10.0.0.7:80'' = Some (''10.0.0.7'', ''80'')"
  "SplitHostPort ''::1:80'' = None"
  by code_simp+

end
