(* ===== verification/Api_Auth.thy ===== *)
theory Api_Auth
  imports Go_Net Go_Time Go_Files Go_Sha256 "HOL-Library.AList"
begin

text \<open>
  internal/api/auth.go, pairing.go, and the rate limiter and key routes of server.go: who may
  call what.  A request is the parts of it the middleware reads.  The paired-device store is
  the map the code keeps in memory together with the file it persists it to, through
  \<open>atomic_save\<close> of \<open>Go_Files\<close>.
\<close>

subsection \<open>auth.go\<close>

record request =
  req_Method :: string
  req_Path :: string
  req_RemoteAddr :: string
  req_ContentLength :: int
  req_ContentType :: string
  req_HeaderToken :: string
  req_QueryToken :: string

datatype verdict = Serve | Refuse nat

definition requiresToken :: "string \<Rightarrow> bool" where
  "requiresToken path = has_prefix path ''/v1/''"

definition isLoopbackAddr :: "string \<Rightarrow> bool" where
  "isLoopbackAddr addr =
     (case SplitHostPort addr of None \<Rightarrow> False
      | Some (host, _) \<Rightarrow> (case ParseIP host of None \<Rightarrow> False | Some ip \<Rightarrow> IsLoopback ip))"

definition isLoopbackListen :: "string \<Rightarrow> bool" where
  "isLoopbackListen addr =
     (let host = (case SplitHostPort addr of None \<Rightarrow> addr | Some (h, _) \<Rightarrow> h)
      in case ParseIP host of None \<Rightarrow> False | Some ip \<Rightarrow> IsLoopback ip)"

definition isJSONContentType :: "string \<Rightarrow> bool" where
  "isJSONContentType ct =
     (if ct = [] then False
      else trim_space (hd (split_char (CHR '';'') ct)) = ''application/json'')"

text \<open>\<open>subtle.ConstantTimeCompare\<close> on slices of equal length: the OR of all byte differences.\<close>

definition ct_compare :: "string \<Rightarrow> string \<Rightarrow> bool" where
  "ct_compare a b \<longleftrightarrow> length a = length b \<and>
     fold (\<lambda>(x, y) v. or v (xor x y)) (zip (to_bytes a) (to_bytes b)) (0 :: byte) = 0"

definition validToken :: "string \<Rightarrow> string \<Rightarrow> bool" where
  "validToken got want =
     (if want = [] then False else if length got \<noteq> length want then False else ct_compare got want)"

record pairedDevice =
  pd_ID :: string
  pd_Name :: string
  pd_Token :: string
  pd_IssuedAt :: int
  pd_Peer :: string

type_synonym devices = "(string \<times> pairedDevice) list"

text \<open>\<open>matchToken\<close>: every device is compared, whatever the earlier ones gave.\<close>

definition matchToken :: "devices \<Rightarrow> string \<Rightarrow> bool" where
  "matchToken devs tok =
     (if tok = [] then False
      else fold (\<lambda>(_, d) m. if length (pd_Token d) \<noteq> length tok then m
                            else m \<or> ct_compare (pd_Token d) tok) devs False)"

definition validAnyToken :: "string \<Rightarrow> devices option \<Rightarrow> string \<Rightarrow> bool" where
  "validAnyToken configured paired got =
     (let ok = validToken got configured
      in case paired of None \<Rightarrow> ok | Some devs \<Rightarrow> if matchToken devs got then True else ok)"

definition is_mutating :: "string \<Rightarrow> bool" where
  "is_mutating m \<longleftrightarrow> m = ''POST'' \<or> m = ''PUT'' \<or> m = ''DELETE''"

definition middleware :: "string \<Rightarrow> devices option \<Rightarrow> request \<Rightarrow> verdict" where
  "middleware configured paired r =
     (let badType = req_ContentLength r > 0 \<and> \<not> isJSONContentType (req_ContentType r) in
      if \<not> requiresToken (req_Path r) then Serve
      else if req_Method r = ''POST'' \<and> req_Path r = ''/v1/refresh'' \<and> isLoopbackAddr (req_RemoteAddr r)
        then (if badType then Refuse 415 else Serve)
      else if isLoopbackAddr (req_RemoteAddr r)
        then (if badType then Refuse 415 else Serve)
      else (let isMutating = is_mutating (req_Method r) in
        if \<not> isMutating \<and> isLoopbackAddr (req_RemoteAddr r) then Serve
        else (let token = (if req_HeaderToken r = [] then req_QueryToken r else req_HeaderToken r) in
          if \<not> validAnyToken configured paired token then Refuse 401
          else if isMutating \<and> badType then Refuse 415
          else Serve)))"

text \<open>\<open>New\<close> refuses to listen beyond this machine without a real token.\<close>

definition PlaceholderDeviceToken :: string where
  "PlaceholderDeviceToken = ''change-me-32-chars''"

definition refuses_start :: "string \<Rightarrow> string \<Rightarrow> bool" where
  "refuses_start listen token \<longleftrightarrow>
     \<not> isLoopbackListen listen \<and> (token = [] \<or> token = PlaceholderDeviceToken)"

subsection \<open>The comparison compares\<close>

lemma xor_zero: "xor x y = 0 \<longleftrightarrow> x = (y :: byte)"
proof
  assume "xor x y = 0"
  then have "xor (xor x y) y = y" by simp
  then show "x = y" by (simp add: xor.assoc)
qed simp

lemma fold_or_zero:
  "fold (\<lambda>(x, y) v. or v (xor x y)) ps w = (0 :: byte) \<longleftrightarrow> w = 0 \<and> (\<forall>(x, y) \<in> set ps. x = y)"
proof (induction ps arbitrary: w)
  case (Cons p ps)
  obtain x y where p: "p = (x, y)" by (cases p)
  have "or w (xor x y) = 0 \<longleftrightarrow> w = 0 \<and> x = y"
    by (simp add: or_eq_0_iff xor_zero)
  with Cons p show ?case by auto
qed simp

lemma zip_all_eq: "length a = length b \<Longrightarrow> (\<forall>(x, y) \<in> set (zip a b). x = y) \<longleftrightarrow> a = b"
  by (induction a b rule: list_induct2) auto

lemma ct_compare_eq [simp]: "ct_compare a b \<longleftrightarrow> a = b"
proof
  assume "ct_compare a b"
  then have l: "length (to_bytes a) = length (to_bytes b)"
    and "\<forall>(x, y) \<in> set (zip (to_bytes a) (to_bytes b)). x = y"
    by (simp_all add: ct_compare_def fold_or_zero)
  then have "to_bytes a = to_bytes b" using zip_all_eq [OF l] by blast
  then show "a = b" by simp
next
  assume "a = b"
  then show "ct_compare a b"
    using zip_all_eq [of "to_bytes a" "to_bytes a"] by (simp add: ct_compare_def fold_or_zero)
qed

lemma validToken_iff: "validToken got want \<longleftrightarrow> want \<noteq> [] \<and> got = want"
  by (auto simp: validToken_def)

lemma matchToken_fold:
  "fold (\<lambda>(_, d) m. if length (pd_Token d) \<noteq> length tok then m
                     else m \<or> ct_compare (pd_Token d) tok) devs m \<longleftrightarrow>
   m \<or> (\<exists>d \<in> snd ` set devs. pd_Token d = tok)"
  by (induction devs arbitrary: m) (auto split: prod.splits)

lemma matchToken_iff: "matchToken devs tok \<longleftrightarrow> tok \<noteq> [] \<and> (\<exists>d \<in> snd ` set devs. pd_Token d = tok)"
  unfolding matchToken_def matchToken_fold by auto

lemma validAnyToken_iff:
  "validAnyToken configured paired got \<longleftrightarrow> got \<noteq> [] \<and>
     (got = configured \<or> (\<exists>devs. paired = Some devs \<and> (\<exists>d \<in> snd ` set devs. pd_Token d = got)))"
  by (auto simp: validAnyToken_def Let_def validToken_iff matchToken_iff split: option.splits)

subsection \<open>pairing.go\<close>

record pairing =
  pair_devices :: devices
  pair_path :: string

type_synonym device_fs = "devices fs"

definition persistLocked ::
  "devices outcome \<times> devices outcome \<times> devices outcome \<times> bool \<Rightarrow> pairing \<Rightarrow> device_fs \<Rightarrow> device_fs \<times> save_result"
where
  "persistLocked oc p fs =
     (if pair_path p = [] then (fs, Saved) else atomic_save oc (pair_path p) (pair_devices p) fs)"

definition loadPairedDevices :: "string \<Rightarrow> device_fs \<Rightarrow> load_error + devices" where
  "loadPairedDevices path fs = load_file [] path fs"

definition newPairing :: "string \<Rightarrow> device_fs \<Rightarrow> pairing" where
  "newPairing path fs =
     (if path = [] then \<lparr>pair_devices = [], pair_path = path\<rparr>
      else (case loadPairedDevices path fs of
              Inl _ \<Rightarrow> \<lparr>pair_devices = [], pair_path = path\<rparr>
            | Inr devs \<Rightarrow> \<lparr>pair_devices = devs, pair_path = path\<rparr>))"

definition pairTokenBytes :: nat where "pairTokenBytes = 16"
definition pairMaxIDLen :: nat where "pairMaxIDLen = 64"

text \<open>The random bytes are an argument; \<open>None\<close> is a failing random source.\<close>

definition newDeviceToken :: "bytes option \<Rightarrow> string option" where
  "newDeviceToken rnd = map_option hex_bytes rnd"

definition pair_id_char :: "char \<Rightarrow> bool" where
  "pair_id_char c = (let n = of_char c :: nat in
     (97 \<le> n \<and> n \<le> 122) \<or> (65 \<le> n \<and> n \<le> 90) \<or> (48 \<le> n \<and> n \<le> 57) \<or>
     c = CHR ''.'' \<or> c = CHR '':'' \<or> c = CHR ''-'' \<or> c = CHR ''_'')"

definition sanitizePairID :: "string \<Rightarrow> string" where
  "sanitizePairID s = (let t = trim_space s in
     if t = [] \<or> length t > pairMaxIDLen then [] else if list_all pair_id_char t then t else [])"

datatype issue_error = NoDeviceID | NoRandom | PersistFailed

datatype 'a issue_result = Issued 'a | IssueErr issue_error | IssueCrashed

definition issueDeviceToken ::
  "bytes option \<Rightarrow> devices outcome \<times> devices outcome \<times> devices outcome \<times> bool \<Rightarrow> int \<Rightarrow> string \<Rightarrow> string \<Rightarrow>
   pairing \<Rightarrow> device_fs \<Rightarrow> (pairing \<times> device_fs) \<times> string issue_result"
where
  "issueDeviceToken rnd oc now deviceID name p fs =
     (if deviceID = [] then ((p, fs), IssueErr NoDeviceID)
      else (case newDeviceToken rnd of
        None \<Rightarrow> ((p, fs), IssueErr NoRandom)
      | Some token \<Rightarrow>
          (let entry = \<lparr>pd_ID = deviceID, pd_Name = name, pd_Token = token, pd_IssuedAt = to_unix now,
                        pd_Peer = ''ble''\<rparr>;
               prev = map_of (pair_devices p) deviceID;
               p1 = p\<lparr>pair_devices := AList.update deviceID entry (pair_devices p)\<rparr>
           in case persistLocked oc p1 fs of
                (fs1, Saved) \<Rightarrow> ((p1, fs1), Issued token)
              | (fs1, SaveErr _) \<Rightarrow>
                  ((p1\<lparr>pair_devices := (case prev of
                         Some d \<Rightarrow> AList.update deviceID d (pair_devices p1)
                       | None \<Rightarrow> AList.delete deviceID (pair_devices p1))\<rparr>, fs1),
                   IssueErr PersistFailed)
              | (fs1, Crashed) \<Rightarrow> ((p1, fs1), IssueCrashed))))"

lemma middleware_Serve:
  "middleware configured paired r = Serve \<longleftrightarrow>
     \<not> requiresToken (req_Path r) \<or>
     (if isLoopbackAddr (req_RemoteAddr r)
      then req_ContentLength r \<le> 0 \<or> isJSONContentType (req_ContentType r)
      else validAnyToken configured paired
             (if req_HeaderToken r = [] then req_QueryToken r else req_HeaderToken r) \<and>
           (\<not> is_mutating (req_Method r) \<or> req_ContentLength r \<le> 0 \<or>
            isJSONContentType (req_ContentType r)))"
  by (auto simp: middleware_def Let_def)

lemma middleware_codes:
  "middleware configured paired r \<in> {Serve, Refuse 401, Refuse 415}"
  by (simp add: middleware_def Let_def)

subsection \<open>Issued tokens\<close>

lemma snd_set_ran: "distinct (map fst al) \<Longrightarrow> snd ` set al = ran (map_of al)"
  by (simp add: ran_distinct)

lemma match_cong:
  "distinct (map fst a) \<Longrightarrow> distinct (map fst b) \<Longrightarrow> map_of a = map_of b \<Longrightarrow>
   matchToken a tok = matchToken b tok"
  by (simp add: matchToken_iff snd_set_ran)

lemma persist_laws:
  "pair_path p \<noteq> [] \<Longrightarrow> persistLocked oc p fs = (fs1, Saved) \<Longrightarrow>
     loadPairedDevices (pair_path p) fs1 = Inr (pair_devices p)"
  "persistLocked oc p fs = (fs1, SaveErr e) \<Longrightarrow> loadPairedDevices (pair_path p) fs1 = loadPairedDevices (pair_path p) fs"
  using atomic_file.saved [of oc "pair_path p" "pair_devices p" fs "[]"]
    atomic_file.failed [of oc "pair_path p" "pair_devices p" fs e "[]"]
  by (auto simp: persistLocked_def loadPairedDevices_def split: if_splits)

definition pairing_ok :: "pairing \<Rightarrow> bool" where
  "pairing_ok p \<longleftrightarrow> distinct (map fst (pair_devices p))"

lemma issue_cases:
  assumes "issueDeviceToken rnd oc now i nm p fs = ((p', fs'), res)"
  shows "(\<exists>e. res = IssueErr e \<and> p' = p \<and> fs' = fs) \<or>
    (\<exists>token d. i \<noteq> [] \<and> newDeviceToken rnd = Some token \<and> pd_Token d = token \<and> pd_ID d = i \<and>
      (let p1 = p\<lparr>pair_devices := AList.update i d (pair_devices p)\<rparr> in
       (res = Issued token \<and> p' = p1 \<and> persistLocked oc p1 fs = (fs', Saved)) \<or>
       (res = IssueCrashed \<and> p' = p1 \<and> persistLocked oc p1 fs = (fs', Crashed)) \<or>
       (\<exists>e. res = IssueErr PersistFailed \<and> persistLocked oc p1 fs = (fs', SaveErr e) \<and>
         p' = p1\<lparr>pair_devices := (case map_of (pair_devices p) i of
                 Some d0 \<Rightarrow> AList.update i d0 (pair_devices p1)
               | None \<Rightarrow> AList.delete i (pair_devices p1))\<rparr>)))"
proof (cases "i = [] \<or> newDeviceToken rnd = None")
  case True
  then show ?thesis
    using assms by (intro disjI1) (auto simp: issueDeviceToken_def split: if_splits)
next
  case False
  then obtain token where t: "newDeviceToken rnd = Some token" "i \<noteq> []" by auto
  let ?d = "\<lparr>pd_ID = i, pd_Name = nm, pd_Token = token, pd_IssuedAt = to_unix now, pd_Peer = ''ble''\<rparr>"
  let ?p1 = "p\<lparr>pair_devices := AList.update i ?d (pair_devices p)\<rparr>"
  have "pd_Token ?d = token" "pd_ID ?d = i" by simp_all
  moreover obtain fs1 sr where pl: "persistLocked oc ?p1 fs = (fs1, sr)"
    by (cases "persistLocked oc ?p1 fs")
  ultimately show ?thesis
    using assms t
    by (intro disjI2 exI [of _ token] exI [of _ ?d])
       (cases sr; auto simp: issueDeviceToken_def Let_def split: option.splits)
qed

lemma issue_failed_restores:
  assumes "distinct (map fst al)"
  shows "map_of (case map_of al i of Some d0 \<Rightarrow> AList.update i d0 (AList.update i d al)
                 | None \<Rightarrow> AList.delete i (AList.update i d al)) = map_of al"
    and "distinct (map fst (case map_of al i of Some d0 \<Rightarrow> AList.update i d0 (AList.update i d al)
                 | None \<Rightarrow> AList.delete i (AList.update i d al)))"
  using assms
  by (auto simp: update_conv delete_conv fun_eq_iff distinct_update distinct_delete split: option.split)

lemma issue_outcomes:
  assumes "issueDeviceToken rnd oc now i nm p fs = ((p', fs'), res)"
  obtains (err) e where "res = IssueErr e" "p' = p" "fs' = fs"
  | (issued) d where "newDeviceToken rnd = Some (pd_Token d)" "res = Issued (pd_Token d)"
      "p' = p\<lparr>pair_devices := AList.update i d (pair_devices p)\<rparr>"
      "persistLocked oc (p\<lparr>pair_devices := AList.update i d (pair_devices p)\<rparr>) fs = (fs', Saved)"
  | (crashed) d where "res = IssueCrashed" "p' = p\<lparr>pair_devices := AList.update i d (pair_devices p)\<rparr>"
  | (failed) d e where "res = IssueErr PersistFailed"
      "persistLocked oc (p\<lparr>pair_devices := AList.update i d (pair_devices p)\<rparr>) fs = (fs', SaveErr e)"
      "p' = p\<lparr>pair_devices := (case map_of (pair_devices p) i of
          Some d0 \<Rightarrow> AList.update i d0 (AList.update i d (pair_devices p))
        | None \<Rightarrow> AList.delete i (AList.update i d (pair_devices p)))\<rparr>"
  using issue_cases [OF assms] by (auto simp: Let_def cong: option.case_cong)

lemma newDeviceToken_Some:
  "newDeviceToken rnd = Some token \<Longrightarrow> length (the rnd) = pairTokenBytes \<Longrightarrow> token = hex_bytes (the rnd) \<and> token \<noteq> []"
  by (auto simp: newDeviceToken_def pairTokenBytes_def hex_bytes_def hex_byte_def)

lemma match_updated:
  assumes "distinct (map fst al)"
  shows "matchToken (AList.update i d al) tok \<longleftrightarrow>
    tok \<noteq> [] \<and> (tok = pd_Token d \<or> (\<exists>(j, d') \<in> set al. j \<noteq> i \<and> pd_Token d' = tok))"
proof -
  have "(j, d') \<in> set (AList.update i d al) \<longleftrightarrow> (j = i \<and> d = d' \<or> j \<noteq> i \<and> (j, d') \<in> set al)" for j d'
    using map_of_eq_Some_iff [OF assms, of j d'] map_of_eq_Some_iff [of "AList.update i d al" j d'] assms
    by (simp add: distinct_update update_conv' split: if_splits)
  then have "set (AList.update i d al) = insert (i, d) {x \<in> set al. fst x \<noteq> i}" by auto
  then show ?thesis unfolding matchToken_iff by auto
qed

subsection \<open>The rate limiter of server.go\<close>

record rateLimiter =
  rl_max :: nat
  rl_window :: int
  rl_count :: nat
  rl_start :: int

definition newRateLimiter :: "nat \<Rightarrow> int \<Rightarrow> rateLimiter" where
  "newRateLimiter mx window = \<lparr>rl_max = mx, rl_window = window, rl_count = 0, rl_start = zero_time\<rparr>"

definition allow :: "int \<Rightarrow> rateLimiter \<Rightarrow> rateLimiter \<times> bool" where
  "allow now r =
     (if is_zero (rl_start r) \<or> time_sub now (rl_start r) > rl_window r
      then (r\<lparr>rl_start := now, rl_count := 1\<rparr>, True)
      else if rl_count r \<ge> rl_max r then (r, False)
      else (r\<lparr>rl_count := rl_count r + 1\<rparr>, True))"

text \<open>The times at which a sequence of calls was let through.\<close>

fun admitted :: "rateLimiter \<Rightarrow> int list \<Rightarrow> int list" where
  "admitted r [] = []"
| "admitted r (t # ts) =
     (case allow t r of (r', ok) \<Rightarrow> if ok then t # admitted r' ts else admitted r' ts)"

definition in_span :: "int \<Rightarrow> int \<Rightarrow> int list \<Rightarrow> nat" where
  "in_span a w ts = length (filter (\<lambda>t. a \<le> t \<and> t \<le> a + w) ts)"

lemma in_span_simps [simp]:
  "in_span a w [] = 0"
  "in_span a w (t # ts) = (if a \<le> t \<and> t \<le> a + w then 1 else 0) + in_span a w ts"
  by (simp_all add: in_span_def)

definition running :: "rateLimiter \<Rightarrow> bool" where
  "running r \<longleftrightarrow> \<not> is_zero (rl_start r) \<and> 0 \<le> rl_window r \<and> rl_window r < max_duration \<and> 1 \<le> rl_count r \<and>
     rl_count r \<le> rl_max r"

lemma allow_running:
  assumes "running r" "t \<noteq> zero_time"
  shows "allow t r = (if rl_start r + rl_window r < t then (r\<lparr>rl_start := t, rl_count := 1\<rparr>, True)
     else if rl_count r = rl_max r then (r, False) else (r\<lparr>rl_count := rl_count r + 1\<rparr>, True))"
    and "running (fst (allow t r))"
proof -
  have "time_sub t (rl_start r) > rl_window r \<longleftrightarrow> rl_start r + rl_window r < t"
    using time_sub_le_iff [of "rl_window r" t "rl_start r"] assms by (auto simp: running_def not_le [symmetric])
  then show *: "allow t r = (if rl_start r + rl_window r < t then (r\<lparr>rl_start := t, rl_count := 1\<rparr>, True)
     else if rl_count r = rl_max r then (r, False) else (r\<lparr>rl_count := rl_count r + 1\<rparr>, True))"
    using assms by (auto simp: allow_def running_def)
  show "running (fst (allow t r))"
    using assms by (auto simp: * running_def is_zero_def)
qed

lemma admitted_late: "\<forall>t \<in> set ts. a + w < t \<Longrightarrow> in_span a w (admitted r ts) = 0"
  by (induction ts arbitrary: r) (auto split: prod.split)

lemma admitted_one_window:
  assumes "running r" "sorted ts" "\<forall>t \<in> set ts. t \<noteq> zero_time" "a \<le> rl_start r"
  shows "in_span a (rl_window r) (admitted r ts) \<le> rl_max r - rl_count r"
  using assms
proof (induction ts arbitrary: r)
  case (Cons t ts)
  let ?r = "fst (allow t r)"
  have t: "t \<noteq> zero_time" "sorted ts" "\<forall>u \<in> set ts. u \<noteq> zero_time" "\<forall>u \<in> set ts. t \<le> u"
    using Cons.prems by auto
  note al = allow_running [OF Cons.prems(1) t(1)]
  consider "rl_start r + rl_window r < t" | "t \<le> rl_start r + rl_window r" "rl_count r = rl_max r"
    | "t \<le> rl_start r + rl_window r" "rl_count r < rl_max r"
    using Cons.prems(1) by (force simp: running_def)
  then show ?case
  proof cases
    case 1
    then have "in_span a (rl_window r) (admitted ?r ts) = 0"
      using t(4) Cons.prems(4) by (intro admitted_late) auto
    with 1 Cons.prems(4) show ?thesis by (simp add: al(1))
  next
    case 2
    then have "in_span a (rl_window r) (admitted r ts) = 0"
      using Cons.IH [of r] Cons.prems t by simp
    with 2 show ?thesis by (simp add: al(1))
  next
    case 3
    have "in_span a (rl_window r) (admitted (r\<lparr>rl_count := rl_count r + 1\<rparr>) ts) \<le> rl_max r - (rl_count r + 1)"
      using Cons.IH [of "r\<lparr>rl_count := rl_count r + 1\<rparr>"] al(2) 3 Cons.prems t by (simp add: al(1))
    with 3 show ?thesis by (auto simp: al(1))
  qed
qed simp

lemma admitted_two_windows:
  assumes "running r" "sorted ts" "\<forall>t \<in> set ts. t \<noteq> zero_time"
  shows "in_span a (rl_window r) (admitted r ts) \<le>
    (if a \<le> rl_start r + rl_window r then rl_max r - rl_count r + rl_max r else 2 * rl_max r)"
  using assms
proof (induction ts arbitrary: r)
  case (Cons t ts)
  have t: "t \<noteq> zero_time" "sorted ts" "\<forall>u \<in> set ts. u \<noteq> zero_time" "\<forall>u \<in> set ts. t \<le> u"
    using Cons.prems by auto
  note al = allow_running [OF Cons.prems(1) t(1)]
  have mx: "1 \<le> rl_max r" "rl_count r \<le> rl_max r" using Cons.prems(1) by (auto simp: running_def)
  consider "rl_start r + rl_window r < t" "a \<le> t" | "rl_start r + rl_window r < t" "t < a"
    | "t \<le> rl_start r + rl_window r" "rl_count r = rl_max r"
    | "t \<le> rl_start r + rl_window r" "rl_count r < rl_max r"
    using Cons.prems(1) by (force simp: running_def)
  then show ?case
  proof cases
    case 1
    then have "in_span a (rl_window r) (admitted (r\<lparr>rl_start := t, rl_count := 1\<rparr>) ts) \<le> rl_max r - 1"
      using admitted_one_window [of "r\<lparr>rl_start := t, rl_count := 1\<rparr>" ts a] al t by simp
    with 1 mx show ?thesis by (auto simp: al(1))
  next
    case 2
    then have "in_span a (rl_window r) (admitted (r\<lparr>rl_start := t, rl_count := 1\<rparr>) ts) \<le> 2 * rl_max r"
      using Cons.IH [of "r\<lparr>rl_start := t, rl_count := 1\<rparr>"] al t mx by (simp split: if_splits)
    with 2 show ?thesis by (simp add: al(1))
  next
    case 3
    then show ?thesis using Cons.IH [of r] Cons.prems(1) t by (simp add: al(1))
  next
    case 4
    then have "in_span a (rl_window r) (admitted (r\<lparr>rl_count := rl_count r + 1\<rparr>) ts) \<le>
      (if a \<le> rl_start r + rl_window r then rl_max r - (rl_count r + 1) + rl_max r else 2 * rl_max r)"
      using Cons.IH [of "r\<lparr>rl_count := rl_count r + 1\<rparr>"] al t by (auto split: if_splits)
    with 4 show ?thesis by (auto simp: al(1) split: if_splits)
  qed
qed simp

lemma admitted_fresh:
  assumes "1 \<le> mx" "0 \<le> w" "w < max_duration" "sorted ts" "\<forall>t \<in> set ts. t \<noteq> zero_time"
  shows "in_span a w (admitted (newRateLimiter mx w) ts) \<le> 2 * mx"
proof (cases ts)
  case (Cons t us)
  let ?r = "\<lparr>rl_max = mx, rl_window = w, rl_count = 1, rl_start = t\<rparr>"
  have al: "allow t (newRateLimiter mx w) = (?r, True)"
    by (simp add: allow_def newRateLimiter_def is_zero_def)
  have run: "running ?r" using assms Cons by (simp add: running_def is_zero_def)
  have us: "sorted us" "\<forall>u \<in> set us. u \<noteq> zero_time" using assms Cons by auto
  show ?thesis
  proof (cases "a \<le> t")
    case True
    then have "in_span a w (admitted ?r us) \<le> mx - 1"
      using admitted_one_window [OF run us, of a] by simp
    then show ?thesis using Cons al assms(1) by auto
  next
    case False
    then show ?thesis using Cons al admitted_two_windows [OF run us, of a] by (simp split: if_splits)
  qed
qed simp

subsection \<open>The key routes of server.go\<close>

definition validKeyProviderIDs :: "string list" where
  "validKeyProviderIDs =
     [''claude'', ''codex'', ''openrouter:main'', ''openrouter:fallback'', ''groq'', ''opencode:go'']"

text \<open>
  \<open>creds.KeyStore\<close> is the interface the handlers call; a \<open>Set\<close> or \<open>Delete\<close> that fails is
  \<open>None\<close>.  A body that is not JSON is \<open>None\<close>, otherwise its two strings.  The result is the new
  limiter and store, the status code, and whether the fetchers are rebuilt.
\<close>

definition handleSetKey ::
  "('s \<Rightarrow> string \<Rightarrow> string \<Rightarrow> 's option) \<Rightarrow> int \<Rightarrow> string \<Rightarrow> (string \<times> string) option \<Rightarrow>
   rateLimiter \<Rightarrow> 's \<Rightarrow> rateLimiter \<times> 's \<times> nat \<times> bool"
where
  "handleSetKey set_key now addr body rl ks =
     (if \<not> isLoopbackAddr addr then (rl, ks, 403, False)
      else (case allow now rl of (rl1, ok) \<Rightarrow>
        if \<not> ok then (rl1, ks, 429, False)
        else (case body of
          None \<Rightarrow> (rl1, ks, 400, False)
        | Some (i, v) \<Rightarrow>
            if i \<notin> set validKeyProviderIDs then (rl1, ks, 400, False)
            else if trim_space v = [] then (rl1, ks, 400, False)
            else (case set_key ks i v of
                    None \<Rightarrow> (rl1, ks, 500, False)
                  | Some ks1 \<Rightarrow> (rl1, ks1, 200, True)))))"

definition handleDeleteKey ::
  "('s \<Rightarrow> string \<Rightarrow> 's option) \<Rightarrow> int \<Rightarrow> string \<Rightarrow> string \<Rightarrow> rateLimiter \<Rightarrow> 's \<Rightarrow> rateLimiter \<times> 's \<times> nat \<times> bool"
where
  "handleDeleteKey del_key now addr i rl ks =
     (if \<not> isLoopbackAddr addr then (rl, ks, 403, False)
      else (case allow now rl of (rl1, ok) \<Rightarrow>
        if \<not> ok then (rl1, ks, 429, False)
        else if i \<notin> set validKeyProviderIDs then (rl1, ks, 400, False)
        else (case del_key ks i of
                None \<Rightarrow> (rl1, ks, 500, False)
              | Some ks1 \<Rightarrow> (rl1, ks1, 200, True))))"

text \<open>What the handlers need of a key store; what it gives back of a key \<open>v\<close> is \<open>stored v\<close>.\<close>

locale key_store =
  fixes stored :: "string \<Rightarrow> string"
    and get_key :: "'s \<Rightarrow> string \<Rightarrow> string option"
    and set_key :: "'s \<Rightarrow> string \<Rightarrow> string \<Rightarrow> 's option"
    and del_key :: "'s \<Rightarrow> string \<Rightarrow> 's option"
  assumes get_set: "set_key s i v = Some s' \<Longrightarrow> get_key s' j = (if j = i then Some (stored v) else get_key s j)"
    and get_del: "del_key s i = Some s' \<Longrightarrow> get_key s' j = (if j = i then None else get_key s j)"
begin

lemma set_key_effect:
  assumes "handleSetKey set_key now addr body rl s = (rl', s', code, rb)"
  shows "(code = 200 \<longrightarrow> isLoopbackAddr addr \<and> rb \<and> (\<exists>i v. body = Some (i, v) \<and>
            i \<in> set validKeyProviderIDs \<and> trim_space v \<noteq> [] \<and>
            (\<forall>j. get_key s' j = (if j = i then Some (stored v) else get_key s j)))) \<and>
         (code \<noteq> 200 \<longrightarrow> s' = s \<and> \<not> rb)"
  using assms get_set
  by (auto simp: handleSetKey_def split: if_splits prod.splits option.splits)

lemma delete_key_effect:
  assumes "handleDeleteKey del_key now addr i rl s = (rl', s', code, rb)"
  shows "(code = 200 \<longrightarrow> isLoopbackAddr addr \<and> rb \<and> i \<in> set validKeyProviderIDs \<and>
            (\<forall>j. get_key s' j = (if j = i then None else get_key s j))) \<and>
         (code \<noteq> 200 \<longrightarrow> s' = s \<and> \<not> rb)"
  using assms get_del
  by (auto simp: handleDeleteKey_def split: if_splits prod.splits option.splits)

end

text \<open>\<open>FakeKeyStore\<close> of creds/keystore.go, a Go map, is such a store.\<close>

type_synonym FakeKeyStore = "(string \<times> string) list"

definition fake_get :: "FakeKeyStore \<Rightarrow> string \<Rightarrow> string option" where
  "fake_get ks i = map_of ks i"

definition fake_set :: "FakeKeyStore \<Rightarrow> string \<Rightarrow> string \<Rightarrow> FakeKeyStore option" where
  "fake_set ks i v = Some (AList.update i v ks)"

definition fake_delete :: "FakeKeyStore \<Rightarrow> string \<Rightarrow> FakeKeyStore option" where
  "fake_delete ks i = Some (AList.delete i ks)"

interpretation fake: key_store "\<lambda>v. v" fake_get fake_set fake_delete
  by unfold_locales (auto simp: fake_get_def fake_set_def fake_delete_def update_conv' delete_conv')

subsection \<open>What the component promises\<close>

text \<open>
  C7: the middleware, in full.  A public path is always served.  From this machine a \<open>/v1/\<close>
  request is served unless it declares a body that is not JSON.  From anywhere else it is served
  exactly when it carries a non-empty token that is the configured one or one issued to a paired
  device, and, if it changes something, its declared body is JSON.  Otherwise the answer is 401
  or 415.
\<close>

theorem middleware_decides:
  "(middleware configured paired r = Serve \<longleftrightarrow>
     \<not> requiresToken (req_Path r) \<or>
     (isLoopbackAddr (req_RemoteAddr r) \<and>
       (req_ContentLength r \<le> 0 \<or> isJSONContentType (req_ContentType r))) \<or>
     (\<exists>tok. tok = (if req_HeaderToken r = [] then req_QueryToken r else req_HeaderToken r) \<and>
       \<not> isLoopbackAddr (req_RemoteAddr r) \<and> tok \<noteq> [] \<and>
       (tok = configured \<or> (\<exists>devs d. paired = Some devs \<and> d \<in> snd ` set devs \<and> pd_Token d = tok)) \<and>
       (req_Method r \<notin> {''POST'', ''PUT'', ''DELETE''} \<or> req_ContentLength r \<le> 0 \<or>
        isJSONContentType (req_ContentType r)))) \<and>
   middleware configured paired r \<in> {Serve, Refuse 401, Refuse 415}"
  unfolding middleware_Serve validAnyToken_iff is_mutating_def
  using middleware_codes [of configured paired r] by auto

definition lan_request :: request where
  "lan_request = \<lparr>req_Method = ''GET'', req_Path = ''/v1/usage'', req_RemoteAddr = ''192.168.0.9:50000'',
     req_ContentLength = 0, req_ContentType = [], req_HeaderToken = ''s3cret'', req_QueryToken = []\<rparr>"

lemma middleware_decides_witness:
  "middleware ''s3cret'' None lan_request = Serve \<and> middleware ''other'' None lan_request \<noteq> Serve"
proof -
  have "\<not> isLoopbackAddr (req_RemoteAddr lan_request)" "requiresToken (req_Path lan_request)" by code_simp+
  then show ?thesis
    using middleware_decides [of "''s3cret''" None lan_request] middleware_decides [of "''other''" None lan_request]
    by (simp add: lan_request_def)
qed

text \<open>
  The JSON requirement looks at the declared length, so a request whose body has no declared
  length (\<open>ContentLength = -1\<close>, a chunked body) passes with any content type.
\<close>

theorem chunked_body_skips_content_type:
  "middleware configured paired
     \<lparr>req_Method = ''POST'', req_Path = ''/v1/keys'', req_RemoteAddr = ''127.0.0.1:50000'',
      req_ContentLength = -1, req_ContentType = ''text/plain'', req_HeaderToken = [], req_QueryToken = []\<rparr>
     = Serve \<and>
   middleware configured paired
     \<lparr>req_Method = ''POST'', req_Path = ''/v1/keys'', req_RemoteAddr = ''127.0.0.1:50000'',
      req_ContentLength = 2, req_ContentType = ''text/plain'', req_HeaderToken = [], req_QueryToken = []\<rparr>
     = Refuse 415"
proof -
  have "isLoopbackAddr ''127.0.0.1:50000''" "requiresToken ''/v1/keys''"
    "\<not> isJSONContentType ''text/plain''"
    by code_simp+
  then show ?thesis by (simp add: middleware_def)
qed

text \<open>
  C23: a token is recorded if and only if it is handed out.  When \<open>issueDeviceToken\<close> returns a
  token, that token authenticates from then on, also after a restart that reads the store's file,
  and no token but it and those of other devices does.  When it returns an error, exactly the
  tokens that authenticated before still do, and the file is as it was.
\<close>

theorem issueDeviceToken_records:
  assumes "issueDeviceToken rnd oc now i nm p fs = ((p', fs'), res)"
    and "distinct (map fst (pair_devices p))" "length (the rnd) = pairTokenBytes"
  shows "(\<forall>token. res = Issued token \<longrightarrow>
       token = hex_bytes (the rnd) \<and> matchToken (pair_devices p') token \<and>
       (pair_path p = [] \<or> pair_devices (newPairing (pair_path p) fs') = pair_devices p') \<and>
       (\<forall>tok. matchToken (pair_devices p') tok \<longrightarrow>
          tok = token \<or> (\<exists>(j, d) \<in> set (pair_devices p). j \<noteq> i \<and> pd_Token d = tok))) \<and>
     (\<forall>e. res = IssueErr e \<longrightarrow>
       (\<forall>tok. matchToken (pair_devices p') tok = matchToken (pair_devices p) tok) \<and>
       loadPairedDevices (pair_path p) fs' = loadPairedDevices (pair_path p) fs) \<and>
     distinct (map fst (pair_devices p'))"
proof -
  note dis = assms(2)
  from assms(1) show ?thesis
  proof (cases rule: issue_outcomes)
    case (err e)
    then show ?thesis using dis by simp
  next
    case (crashed d)
    then show ?thesis using dis by (simp add: distinct_update)
  next
    case (failed d e)
    from issue_failed_restores [OF dis, of i d] failed
    have "map_of (pair_devices p') = map_of (pair_devices p)" "distinct (map fst (pair_devices p'))"
      by simp_all
    with failed match_cong [OF this(2) dis this(1)] persist_laws(2) [OF failed(2)] show ?thesis by simp
  next
    case (issued d)
    let ?al = "AList.update i d (pair_devices p)"
    have "pair_path p = [] \<or> pair_devices (newPairing (pair_path p) fs') = ?al"
      using persist_laws(1) [OF _ issued(4)] by (auto simp: newPairing_def)
    moreover note newDeviceToken_Some [OF issued(1) assms(3)]
    ultimately show ?thesis
      using issued(2,3) dis by (auto simp: match_updated [OF dis] distinct_update)
  qed
qed

lemma issueDeviceToken_records_witness:
  "matchToken (pair_devices (fst (fst (issueDeviceToken (Some (replicate 16 0xAB)) (Done, Done, Done, False) 0
     ''dev'' [] \<lparr>pair_devices = [], pair_path = ''d''\<rparr> Map.empty)))) (hex_bytes (replicate 16 0xAB))"
proof -
  let ?r = "issueDeviceToken (Some (replicate 16 0xAB)) (Done, Done, Done, False) 0
     ''dev'' [] \<lparr>pair_devices = [], pair_path = ''d''\<rparr> Map.empty"
  have "snd ?r = Issued (hex_bytes (replicate 16 0xAB))"
    by (simp add: issueDeviceToken_def newDeviceToken_def persistLocked_def atomic_save_def Let_def)
  then have "?r = ((fst (fst ?r), snd (fst ?r)), Issued (hex_bytes (replicate 16 0xAB)))"
    by (metis prod.collapse)
  from issueDeviceToken_records [OF this] show ?thesis by (simp add: pairTokenBytes_def)
qed

text \<open>
  C36: the key routes are rate-limited.  Of any sequence of calls, however many and however they
  are spaced, at most twice the limit are let through in any span of one window's length.
\<close>

theorem rate_limit:
  assumes "1 \<le> mx" "0 \<le> w" "w < max_duration" "sorted ts" "\<forall>t \<in> set ts. t \<noteq> zero_time"
  shows "length (filter (\<lambda>t. a \<le> t \<and> t \<le> a + w) (admitted (newRateLimiter mx w) ts)) \<le> 2 * mx"
  using admitted_fresh [OF assms] by (simp add: in_span_def)

lemma rate_limit_witness:
  "length (filter (\<lambda>t. 0 \<le> t \<and> t \<le> 0 + 60) (admitted (newRateLimiter 1 60) [0, 1, 59, 61, 62])) \<le> 2 * 1"
  by (rule rate_limit) (simp_all add: max_duration_def zero_time_def Second_def)

text \<open>
  A key changes only by a 200 answer to a request from this machine for a known provider with
  a value that is not blank (for storing); then exactly that provider's key is the one given, or
  gone, and the fetchers are rebuilt.  On every other answer the store is untouched.
\<close>

theorem key_routes:
  "(case handleSetKey fake_set now addr body rl ks of (rl', ks', code, rb) \<Rightarrow>
      (code = 200 \<longrightarrow> isLoopbackAddr addr \<and> rb \<and> (\<exists>i v. body = Some (i, v) \<and>
         i \<in> set validKeyProviderIDs \<and> trim_space v \<noteq> [] \<and>
         (\<forall>j. fake_get ks' j = (if j = i then Some v else fake_get ks j)))) \<and>
      (code \<noteq> 200 \<longrightarrow> ks' = ks \<and> \<not> rb)) \<and>
   (case handleDeleteKey fake_delete now addr i rl ks of (rl', ks', code, rb) \<Rightarrow>
      (code = 200 \<longrightarrow> isLoopbackAddr addr \<and> rb \<and> i \<in> set validKeyProviderIDs \<and>
         (\<forall>j. fake_get ks' j = (if j = i then None else fake_get ks j))) \<and>
      (code \<noteq> 200 \<longrightarrow> ks' = ks \<and> \<not> rb))"
proof (intro conjI, goal_cases)
  case 1
  obtain rl' ks' code rb where r: "handleSetKey fake_set now addr body rl ks = (rl', ks', code, rb)"
    by (cases "handleSetKey fake_set now addr body rl ks")
  from fake.set_key_effect [OF r] show ?case unfolding r prod.case .
next
  case 2
  obtain rl' ks' code rb where r: "handleDeleteKey fake_delete now addr i rl ks = (rl', ks', code, rb)"
    by (cases "handleDeleteKey fake_delete now addr i rl ks")
  from fake.delete_key_effect [OF r] show ?case unfolding r prod.case .
qed

lemma key_routes_witness:
  "fake_get (fst (snd (handleSetKey fake_set 0 ''127.0.0.1:1'' (Some (''groq'', ''k'')) (newRateLimiter 5 Minute) [])))
     ''groq'' = Some ''k''"
proof -
  have "handleSetKey fake_set 0 ''127.0.0.1:1'' (Some (''groq'', ''k'')) (newRateLimiter 5 Minute) [] =
      (\<lparr>rl_max = 5, rl_window = Minute, rl_count = 1, rl_start = 0\<rparr>, [(''groq'', ''k'')], 200, True)"
    by code_simp
  with key_routes [where now = 0 and addr = "''127.0.0.1:1''" and body = "Some (''groq'', ''k'')"
      and rl = "newRateLimiter 5 Minute" and ks = "[]"]
  show ?thesis by auto
qed

end
