(* ===== verification/Api_Tracker.thy ===== *)
theory Api_Tracker
  imports Snapshot Go_Time "HOL-Library.AList"
begin

text \<open>
  internal/api/accesslog.go and the \<open>/v1/usage\<close> route of server.go: the per-client log from which
  the device's presence is computed, and the conditional GET.  The client map is an association
  list with distinct keys; the order in which Go ranges over a map is the order of the list, and
  no result depends on it except which of several equally recent devices is shown.
\<close>

subsection \<open>accesslog.go\<close>

record clientEntry =
  ce_firstSeen :: int
  ce_lastSeen :: int
  ce_prevSeen :: int
  ce_lastStatus :: nat
  ce_count200 :: nat
  ce_count304 :: nat
  ce_addr :: string
  ce_userAgent :: string
  ce_isDevice :: bool
  ce_otaArmed :: "bool option"

type_synonym clientTracker = "(string \<times> clientEntry) list"

definition isDeviceUserAgent :: "string \<Rightarrow> bool" where
  "isDeviceUserAgent ua = has_prefix ua ''sticks3-usage/''"

definition fresh_entry :: "string \<Rightarrow> int \<Rightarrow> nat \<Rightarrow> clientEntry" where
  "fresh_entry key now status =
     \<lparr>ce_firstSeen = now, ce_lastSeen = now, ce_prevSeen = now, ce_lastStatus = status, ce_count200 = 0,
      ce_count304 = 0, ce_addr = key, ce_userAgent = [], ce_isDevice = False, ce_otaArmed = None\<rparr>"

definition touch_entry ::
  "string \<Rightarrow> string \<Rightarrow> int \<Rightarrow> nat \<Rightarrow> bool option \<Rightarrow> clientEntry \<Rightarrow> clientEntry"
where
  "touch_entry key ua now status ota e =
     (let e1 = (if \<not> is_zero (ce_lastSeen e) \<and> now \<noteq> ce_lastSeen e
                then e\<lparr>ce_prevSeen := ce_lastSeen e\<rparr> else e);
          e2 = e1\<lparr>ce_lastSeen := now, ce_lastStatus := status, ce_addr := key, ce_userAgent := ua,
                  ce_isDevice := isDeviceUserAgent ua\<rparr>;
          e3 = (if ota \<noteq> None then e2\<lparr>ce_otaArmed := ota\<rparr> else e2)
      in if status = 200 then e3\<lparr>ce_count200 := ce_count200 e3 + 1\<rparr>
         else if status = 304 then e3\<lparr>ce_count304 := ce_count304 e3 + 1\<rparr> else e3)"

definition tracker_record ::
  "string \<Rightarrow> string \<Rightarrow> int \<Rightarrow> nat \<Rightarrow> bool option \<Rightarrow> clientTracker \<Rightarrow> clientTracker"
where
  "tracker_record key ua now status ota t =
     (let e = (case map_of t key of Some e \<Rightarrow> e | None \<Rightarrow> fresh_entry key now status)
      in AList.update key (touch_entry key ua now status ota e) t)"

record deviceState =
  ds_LastSeen :: int
  ds_SecondsSince :: int
  ds_IntervalSec :: int
  ds_Count200 :: nat
  ds_Count304 :: nat
  ds_LastStatus :: nat
  ds_State :: string
  ds_ClientAddr :: string
  ds_OtaArmed :: "bool option"

definition computeDeviceState :: "int \<Rightarrow> int \<Rightarrow> string" where
  "computeDeviceState intervalSec secondsSince =
     (if secondsSince = 0 \<and> intervalSec = 0 then ''connected''
      else (let expected = (if intervalSec = 0 then 600 else intervalSec) in
        if secondsSince > 3 * expected then ''absent'' else ''connected''))"

definition entryToState :: "int \<Rightarrow> clientEntry \<Rightarrow> deviceState" where
  "entryToState now e =
     (let since = trunc (duration_seconds (time_sub now (ce_lastSeen e)));
          interval = trunc (duration_seconds (time_sub (ce_lastSeen e) (ce_prevSeen e)))
      in \<lparr>ds_LastSeen = to_unix (ce_lastSeen e), ds_SecondsSince = since, ds_IntervalSec = interval,
          ds_Count200 = ce_count200 e, ds_Count304 = ce_count304 e, ds_LastStatus = ce_lastStatus e,
          ds_State = computeDeviceState interval since, ds_ClientAddr = ce_addr e,
          ds_OtaArmed = ce_otaArmed e\<rparr>)"

definition tracker_state :: "int \<Rightarrow> string \<Rightarrow> clientTracker \<Rightarrow> deviceState option" where
  "tracker_state now key t = map_option (entryToState now) (map_of t key)"

fun latest_device :: "clientEntry option \<Rightarrow> clientEntry list \<Rightarrow> clientEntry option" where
  "latest_device dev [] = dev"
| "latest_device dev (e # es) =
     latest_device
       (if \<not> ce_isDevice e then dev
        else (case dev of None \<Rightarrow> Some e
              | Some d \<Rightarrow> if ce_lastSeen e > ce_lastSeen d then Some e else dev)) es"

definition device_state :: "int \<Rightarrow> clientTracker \<Rightarrow> deviceState option" where
  "device_state now t = map_option (entryToState now) (latest_device None (map snd t))"

definition parseOtaArmed :: "string \<Rightarrow> bool option" where
  "parseOtaArmed v = (if v = [] then None else Some (v = ''1''))"

subsection \<open>server.go: the conditional GET\<close>

definition etagMatch :: "string \<Rightarrow> string \<Rightarrow> bool" where
  "etagMatch inm rv =
     list_ex (\<lambda>part. let p = trim_prefix (trim_space part) ''W/''
                     in p = [CHR 0x22] @ rv @ [CHR 0x22] \<or> p = rv)
             (split_char (CHR 0x2C) inm)"

record usage_request =
  ur_peer :: string
  ur_UserAgent :: string
  ur_IfNoneMatch :: string
  ur_otaArmed :: string

record usage_reply =
  rp_status :: nat
  rp_etag :: string
  rp_body :: "(snapshot \<times> 32 word) option"

definition handleUsage ::
  "int \<Rightarrow> int \<Rightarrow> snapshot \<Rightarrow> usage_request \<Rightarrow> clientTracker \<Rightarrow> clientTracker \<times> usage_reply"
where
  "handleUsage interval_sec now current r t =
     (let snap = current\<lparr>snap_NextSec := interval_sec\<rparr>;
          etag = [CHR 0x22] @ snap_Rev snap @ [CHR 0x22];
          matched = etagMatch (ur_IfNoneMatch r) (snap_Rev snap);
          status = (if matched then 304 else 200);
          t1 = tracker_record (ur_peer r) (ur_UserAgent r) now status (parseOtaArmed (ur_otaArmed r)) t
      in (t1, if matched then \<lparr>rp_status = 304, rp_etag = etag, rp_body = None\<rparr>
              else \<lparr>rp_status = 200, rp_etag = etag,
                    rp_body = Some (snap, word_of_int (to_unix now - snap_CheckedAt snap))\<rparr>))"

subsection \<open>What the tracker remembers of one client\<close>

record access =
  ac_key :: string
  ac_ua :: string
  ac_now :: int
  ac_status :: nat
  ac_ota :: "bool option"

definition track :: "access list \<Rightarrow> clientTracker" where
  "track h = fold (\<lambda>a. tracker_record (ac_key a) (ac_ua a) (ac_now a) (ac_status a) (ac_ota a)) h []"

definition touch :: "access \<Rightarrow> clientEntry option \<Rightarrow> clientEntry option" where
  "touch a e = Some (touch_entry (ac_key a) (ac_ua a) (ac_now a) (ac_status a) (ac_ota a)
     (case e of Some e \<Rightarrow> e | None \<Rightarrow> fresh_entry (ac_key a) (ac_now a) (ac_status a)))"

definition of_client :: "string \<Rightarrow> access list \<Rightarrow> access list" where
  "of_client k h = filter (\<lambda>a. ac_key a = k) h"

lemma tracker_record_map_of:
  "map_of (tracker_record (ac_key a) (ac_ua a) (ac_now a) (ac_status a) (ac_ota a) t) k =
     (if k = ac_key a then touch a (map_of t k) else map_of t k)"
  by (simp add: tracker_record_def touch_def update_conv' Let_def)

lemma track_map_of: "map_of (track h) k = fold touch (of_client k h) None"
proof -
  have "map_of (fold (\<lambda>a. tracker_record (ac_key a) (ac_ua a) (ac_now a) (ac_status a) (ac_ota a)) h t) k =
        fold touch (of_client k h) (map_of t k)" for t
    by (induction h arbitrary: t) (auto simp: of_client_def tracker_record_map_of)
  from this [of "[]"] show ?thesis by (simp add: track_def)
qed

lemma tracker_record_keys:
  "distinct (map fst t) \<Longrightarrow> distinct (map fst (tracker_record k ua now st ota t))"
  by (simp add: tracker_record_def distinct_update Let_def)

lemma track_distinct: "distinct (map fst (track h))"
proof -
  have "distinct (map fst t) \<Longrightarrow>
    distinct (map fst (fold (\<lambda>a. tracker_record (ac_key a) (ac_ua a) (ac_now a) (ac_status a) (ac_ota a)) h t))" for t
    by (induction h arbitrary: t) (simp_all add: tracker_record_keys)
  then show ?thesis by (simp add: track_def)
qed

definition last_report :: "access list \<Rightarrow> bool option" where
  "last_report h = fold (\<lambda>a r. if ac_ota a \<noteq> None then ac_ota a else r) h None"

lemma touch_entry_fields [simp]:
  "ce_firstSeen (touch_entry k ua now st ota e) = ce_firstSeen e"
  "ce_lastSeen (touch_entry k ua now st ota e) = now"
  "ce_lastStatus (touch_entry k ua now st ota e) = st"
  "ce_addr (touch_entry k ua now st ota e) = k"
  "ce_userAgent (touch_entry k ua now st ota e) = ua"
  "ce_isDevice (touch_entry k ua now st ota e) = isDeviceUserAgent ua"
  "ce_otaArmed (touch_entry k ua now st ota e) = (if ota \<noteq> None then ota else ce_otaArmed e)"
  "ce_count200 (touch_entry k ua now st ota e) = ce_count200 e + (if st = 200 then 1 else 0)"
  "ce_count304 (touch_entry k ua now st ota e) = ce_count304 e + (if st = 304 then 1 else 0)"
  by (auto simp: touch_entry_def Let_def)

lemma fold_touch:
  "fold touch h (Some e) = Some e' \<Longrightarrow>
   ce_firstSeen e' = ce_firstSeen e \<and>
   ce_count200 e' = ce_count200 e + length (filter (\<lambda>a. ac_status a = 200) h) \<and>
   ce_count304 e' = ce_count304 e + length (filter (\<lambda>a. ac_status a = 304) h) \<and>
   ce_otaArmed e' = fold (\<lambda>a r. if ac_ota a \<noteq> None then ac_ota a else r) h (ce_otaArmed e) \<and>
   (h \<noteq> [] \<longrightarrow> ce_lastSeen e' = ac_now (last h) \<and> ce_lastStatus e' = ac_status (last h) \<and>
      ce_addr e' = ac_key (last h) \<and> ce_isDevice e' = isDeviceUserAgent (ac_ua (last h)))"
proof (induction h arbitrary: e)
  case (Cons a h)
  let ?e = "touch_entry (ac_key a) (ac_ua a) (ac_now a) (ac_status a) (ac_ota a) e"
  have t: "touch a (Some e) = Some ?e" by (simp add: touch_def)
  with Cons have "fold touch h (Some ?e) = Some e'" by simp
  from Cons.IH [OF this] this show ?case by (cases "h = []") auto
qed simp

lemma touch_None: "touch a None = touch a (Some (fresh_entry (ac_key a) (ac_now a) (ac_status a)))"
  by (simp add: touch_def)

lemma fold_touch_None:
  "h \<noteq> [] \<Longrightarrow> fold touch h None = fold touch h (Some (fresh_entry (ac_key (hd h)) (ac_now (hd h)) (ac_status (hd h))))"
  by (cases h) (simp_all add: touch_None)

lemma fold_touch_Some: "\<exists>e'. fold touch h (Some e) = Some e'"
  by (induction h arbitrary: e) (simp_all add: touch_def)

lemma latest_device_None:
  "latest_device dev es = None \<longleftrightarrow> dev = None \<and> (\<forall>e \<in> set es. \<not> ce_isDevice e)"
  by (induction dev es rule: latest_device.induct) (auto split: option.splits)

lemma latest_device_Some:
  "latest_device dev es = Some d \<Longrightarrow>
   (dev = Some d \<or> d \<in> set es \<and> ce_isDevice d) \<and>
   (\<forall>e. dev = Some e \<longrightarrow> ce_lastSeen e \<le> ce_lastSeen d) \<and>
   (\<forall>e \<in> set es. ce_isDevice e \<longrightarrow> ce_lastSeen e \<le> ce_lastSeen d)"
proof (induction es arbitrary: dev)
  case (Cons e es)
  let ?dev = "if \<not> ce_isDevice e then dev
        else (case dev of None \<Rightarrow> Some e | Some d \<Rightarrow> if ce_lastSeen e > ce_lastSeen d then Some e else dev)"
  from Cons have "latest_device ?dev es = Some d" by simp
  from Cons.IH [OF this] show ?case
    by (cases dev) (auto split: if_splits)
qed simp

subsection \<open>A header that names a revision\<close>

lemma trim_space_quoted: "trim_space ([CHR 0x22] @ s @ [CHR 0x22]) = [CHR 0x22] @ s @ [CHR 0x22]"
  by (rule trim_space_graphic) (simp add: graphic_def)

definition plain_rev :: "string \<Rightarrow> bool" where
  "plain_rev r \<longleftrightarrow> CHR 0x22 \<notin> set r \<and> CHR 0x2C \<notin> set r"

lemma etagMatch_quoted:
  assumes "plain_rev r" "plain_rev r'"
  shows "etagMatch ([CHR 0x22] @ r @ [CHR 0x22]) r' \<longleftrightarrow> r = r'"
proof -
  let ?q = "[CHR 0x22] @ r @ [CHR 0x22]"
  have "split_char (CHR 0x2C) ?q = [?q]"
    using assms(1) by (intro split_char_free) (auto simp: plain_rev_def)
  moreover have "trim_prefix ?q ''W/'' = ?q"
    by (simp add: trim_prefix_def has_prefix_def)
  moreover have "?q \<noteq> r'" using assms(2) by (auto simp: plain_rev_def)
  ultimately show ?thesis
    by (simp add: etagMatch_def trim_space_quoted [simplified])
qed

lemma hex_char_plain:
  assumes "d < 16"
  shows "CHR 0x22 \<noteq> hex_char d" "CHR 0x2C \<noteq> hex_char d"
proof -
  have "(of_char (hex_char d) :: nat) = (if d < 10 then 48 + d else 87 + d)"
    using assms by (simp add: hex_char_def of_char_of)
  then have "(of_char (hex_char d) :: nat) \<noteq> of_char (CHR 0x22)"
    "(of_char (hex_char d) :: nat) \<noteq> of_char (CHR 0x2C)"
    using assms by auto
  then show "CHR 0x22 \<noteq> hex_char d" "CHR 0x2C \<noteq> hex_char d"
    by metis+
qed

lemma plain_hex: "plain_rev (hex_bytes bs)"
proof -
  have "unat b div 16 < 16" "unat b mod 16 < 16" for b :: byte
    using unsigned_less [of b, where 'a = nat] by (simp_all add: less_mult_imp_div_less)
  then show ?thesis
    by (simp add: plain_rev_def hex_bytes_def hex_byte_def hex_char_plain)
qed

subsection \<open>What the component promises\<close>

text \<open>
  What the tracker holds of a client is a function of that client's own requests: nothing
  for a client never seen, otherwise the time of its first and last request, how many of each
  status it got, whether its \<^emph>\<open>last\<close> user agent was the device's, and the last OTA state it
  reported, which a request that reports none leaves alone.
\<close>

theorem track_client:
  "case map_of (track h) k of
     None \<Rightarrow> of_client k h = []
   | Some e \<Rightarrow> of_client k h \<noteq> [] \<and>
       ce_firstSeen e = ac_now (hd (of_client k h)) \<and> ce_lastSeen e = ac_now (last (of_client k h)) \<and>
       ce_lastStatus e = ac_status (last (of_client k h)) \<and> ce_addr e = k \<and>
       ce_count200 e = length (filter (\<lambda>a. ac_status a = 200) (of_client k h)) \<and>
       ce_count304 e = length (filter (\<lambda>a. ac_status a = 304) (of_client k h)) \<and>
       ce_isDevice e = isDeviceUserAgent (ac_ua (last (of_client k h))) \<and>
       ce_otaArmed e = last_report (of_client k h)"
proof (cases "of_client k h = []")
  case True
  then show ?thesis by (simp add: track_map_of)
next
  case False
  let ?c = "of_client k h"
  let ?f = "fresh_entry (ac_key (hd ?c)) (ac_now (hd ?c)) (ac_status (hd ?c))"
  obtain e where e: "fold touch ?c (Some ?f) = Some e" using fold_touch_Some by blast
  have "ac_key (last ?c) = k"
    using last_in_set [OF False] by (simp add: of_client_def)
  with fold_touch [OF e] False e show ?thesis
    by (simp add: track_map_of fold_touch_None [OF False] last_report_def fresh_entry_def)
qed

text \<open>
  The device shown is the client whose last request carried the device's user agent and which
  asked most recently; it is absent only when no client's last request did.  A browser or another
  client, however recent, is never shown as the device.
\<close>

theorem device_state_latest:
  "case device_state now (track h) of
     None \<Rightarrow> \<forall>k e. map_of (track h) k = Some e \<longrightarrow> \<not> ce_isDevice e
   | Some d \<Rightarrow> \<exists>k e. map_of (track h) k = Some e \<and> ce_isDevice e \<and> d = entryToState now e \<and>
       (\<forall>k' e'. map_of (track h) k' = Some e' \<and> ce_isDevice e' \<longrightarrow> ce_lastSeen e' \<le> ce_lastSeen e)"
proof -
  have mem: "e \<in> set (map snd (track h)) \<longleftrightarrow> (\<exists>k. map_of (track h) k = Some e)" for e
    using track_distinct [of h] by force
  show ?thesis
  proof (cases "latest_device None (map snd (track h))")
    case None
    with latest_device_None [of None "map snd (track h)"] show ?thesis
      by (force simp: device_state_def dest!: map_of_SomeD)
  next
    case (Some e)
    note d = latest_device_Some [OF this]
    then obtain k where k: "map_of (track h) k = Some e" using mem by auto
    have "ce_lastSeen e' \<le> ce_lastSeen e" if "map_of (track h) k' = Some e'" "ce_isDevice e'" for k' e'
      using d that mem by blast
    with k d Some show ?thesis by (auto simp: device_state_def)
  qed
qed

lemma device_state_latest_witness:
  "let a = \<lparr>ac_key = ''10.0.0.7'', ac_ua = ''sticks3-usage/1'', ac_now = 5, ac_status = 200, ac_ota = None\<rparr>;
       b = \<lparr>ac_key = ''10.0.0.9'', ac_ua = ''curl'', ac_now = 9, ac_status = 200, ac_ota = None\<rparr>
   in map_option ds_ClientAddr (device_state 10 (track [a, b])) = Some ''10.0.0.7''"
proof -
  let ?a = "\<lparr>ac_key = ''10.0.0.7'', ac_ua = ''sticks3-usage/1'', ac_now = 5, ac_status = 200, ac_ota = None\<rparr>"
  let ?b = "\<lparr>ac_key = ''10.0.0.9'', ac_ua = ''curl'', ac_now = 9, ac_status = 200, ac_ota = None\<rparr>"
  have keys: "map_of (track [?a, ?b]) k = Some e \<Longrightarrow> ce_isDevice e \<Longrightarrow> ce_addr e = ''10.0.0.7''" for k e
    by (auto simp: track_map_of of_client_def touch_def isDeviceUserAgent_def has_prefix_def split: if_splits)
  have "\<exists>e. map_of (track [?a, ?b]) ''10.0.0.7'' = Some e \<and> ce_isDevice e"
    by (simp add: track_map_of of_client_def touch_def isDeviceUserAgent_def has_prefix_def)
  with device_state_latest [where now = 10 and h = "[?a, ?b]"] keys show ?thesis
    by (auto simp: entryToState_def Let_def split: option.splits)
qed

text \<open>
  The conditional GET follows the revision.  A client that sends back the ETag of an earlier
  reply gets a 304 without a body exactly when the revision is still the one of that reply, and
  otherwise a 200 with the current snapshot, its poll interval and its age modulo \<open>2 ^ 32\<close>.
\<close>

theorem usage_conditional:
  assumes "ur_IfNoneMatch r = rp_etag (snd (handleUsage sec now0 (current0\<lparr>snap_Rev := Rev ps0\<rparr>) r0 t0))"
    and "snap_Rev current = Rev ps"
  shows "snd (handleUsage sec now current r t) =
    (if Rev ps = Rev ps0
     then \<lparr>rp_status = 304, rp_etag = [CHR 0x22] @ Rev ps @ [CHR 0x22], rp_body = None\<rparr>
     else \<lparr>rp_status = 200, rp_etag = [CHR 0x22] @ Rev ps @ [CHR 0x22],
           rp_body = Some (current\<lparr>snap_NextSec := sec\<rparr>, word_of_int (to_unix now - snap_CheckedAt current))\<rparr>)"
proof -
  have "ur_IfNoneMatch r = [CHR 0x22] @ Rev ps0 @ [CHR 0x22]"
    using assms(1) by (simp add: handleUsage_def Let_def)
  moreover have "plain_rev (Rev ps0)" "plain_rev (Rev ps)"
    by (simp_all add: Rev_def plain_hex)
  ultimately have "etagMatch (ur_IfNoneMatch r) (Rev ps) \<longleftrightarrow> Rev ps = Rev ps0"
    using etagMatch_quoted [of "Rev ps0" "Rev ps"] by (auto simp del: append.simps)
  with assms(2) show ?thesis by (simp add: handleUsage_def Let_def)
qed

lemma usage_conditional_witness:
  "rp_status (snd (handleUsage 900 7 (empty_snapshot\<lparr>snap_Rev := Rev []\<rparr>)
     \<lparr>ur_peer = ''p'', ur_UserAgent = [], ur_IfNoneMatch = [CHR 0x22] @ Rev [] @ [CHR 0x22], ur_otaArmed = []\<rparr> []))
   = 304"
proof -
  let ?r = "\<lparr>ur_peer = ''p'', ur_UserAgent = [], ur_IfNoneMatch = [CHR 0x22] @ Rev [] @ [CHR 0x22], ur_otaArmed = []\<rparr>"
  have "ur_IfNoneMatch ?r = rp_etag (snd (handleUsage 900 1 (empty_snapshot\<lparr>snap_Rev := Rev []\<rparr>) ?r []))"
    by (simp add: handleUsage_def Let_def)
  from usage_conditional [OF this, where current = "empty_snapshot\<lparr>snap_Rev := Rev []\<rparr>" and ps = "[]"
      and now = 7 and t = "[]"] show ?thesis
    by simp
qed

end
