(* ===== verification/Format.thy ===== *)
theory Format
  imports Snapshot Go_Time
begin

text \<open>
  internal/format: the rules that turn a usage figure into a tier, a severity and a text, and the
  plain-text table of \<open>usaged once\<close> and \<open>/v1/usage.txt\<close>.
\<close>

subsection \<open>format.go\<close>

definition ResetTxt :: "int \<Rightarrow> int \<Rightarrow> location \<Rightarrow> string" where
  "ResetTxt reset now loc =
     (if is_zero reset then ''--''
      else if \<not> reset > now then ''now''
      else if time_sub reset now < 24 * Hour then format_hhmm loc reset
      else format_weekday loc reset)"

definition Tier :: "int option \<Rightarrow> string \<Rightarrow> string" where
  "Tier pct status =
     (case pct of
        None \<Rightarrow> ''off''
      | Some v \<Rightarrow>
          if status \<noteq> ''ok'' \<and> status \<noteq> ''stale'' then ''off''
          else if v < 50 then ''ok'' else if v < 80 then ''warn'' else ''crit'')"

record Alerts =
  Warn5hPct :: int
  WarnWeeklyPct :: int

definition DefaultAlerts :: Alerts where
  "DefaultAlerts = \<lparr>Warn5hPct = 70, WarnWeeklyPct = 60\<rparr>"

definition WarnPctFor :: "Alerts \<Rightarrow> string \<Rightarrow> int" where
  "WarnPctFor a k = (if k = ''7d'' \<or> k = ''30d'' then WarnWeeklyPct a else Warn5hPct a)"

definition pct_at_least :: "int \<Rightarrow> row \<Rightarrow> bool" where
  "pct_at_least n r = (case row_Pct r of None \<Rightarrow> False | Some v \<Rightarrow> v \<ge> n)"

definition Severity :: "string \<Rightarrow> row list \<Rightarrow> Alerts \<Rightarrow> string" where
  "Severity status rows alerts =
     (if status = ''auth'' \<or> status = ''error'' then ''crit''
      else if list_ex (pct_at_least 100) rows then ''crit''
      else if list_ex (\<lambda>r. pct_at_least (WarnPctFor alerts (row_K r)) r) rows then ''warn''
      else ''ok'')"

definition Cents :: "rat \<Rightarrow> int" where
  "Cents v = math_round (fl (v * 100))"

definition Money :: "int \<Rightarrow> string" where
  "Money cents =
     (if cents < 0
      then ''-$'' @ show_int (quot (- cents) 100) @ ''.'' @ show_nat2 (nat (remn (- cents) 100))
      else ''$'' @ show_int (quot cents 100) @ ''.'' @ show_nat2 (nat (remn cents 100)))"

definition Credits :: "rat \<Rightarrow> string" where
  "Credits n =
     (if n < 10 then show_fixed 1 n @ '' cr'' else show_int (math_round n) @ '' cr'')"

definition Age :: "int \<Rightarrow> int \<Rightarrow> string" where
  "Age now thn =
     (let d = (if now - thn < 0 then 0 else now - thn) in
      if d < 60 then ''just now''
      else if d < 3600 then show_int (quot d 60) @ ''m''
      else if d < 86400 then show_int (quot d 3600) @ ''h''
      else show_int (quot d 86400) @ ''d'')"

subsection \<open>table.go\<close>

definition pctString :: "int option \<Rightarrow> string" where
  "pctString pct = (case pct of None \<Rightarrow> ''--'' | Some v \<Rightarrow> show_int v @ ''%'')"

text \<open>\<open>%-*s\<close> and \<open>%*s\<close> pad with spaces to a width counted in runes.\<close>

definition pad_right :: "nat \<Rightarrow> string \<Rightarrow> string" where
  "pad_right w s = s @ replicate (w - rune_count s) (CHR '' '')"

definition pad_left :: "nat \<Rightarrow> string \<Rightarrow> string" where
  "pad_left w s = replicate (w - rune_count s) (CHR '' '') @ s"

record widths =
  w_provider :: nat
  w_row :: nat
  w_used :: nat
  w_resets :: nat

definition row_widths :: "row \<Rightarrow> widths \<Rightarrow> widths" where
  "row_widths r w =
     w\<lparr>w_row := max (w_row w) (rune_count (row_Label r)),
       w_used := max (w_used w) (length (pctString (row_Pct r))),
       w_resets := max (w_resets w) (rune_count (row_Txt r))\<rparr>"

definition provider_widths :: "provider \<Rightarrow> widths \<Rightarrow> widths" where
  "provider_widths p w =
     fold row_widths (prov_Rows p) (w\<lparr>w_provider := max (w_provider w) (rune_count (prov_Label p))\<rparr>)"

definition table_widths :: "provider list \<Rightarrow> widths" where
  "table_widths ps =
     fold provider_widths ps
       \<lparr>w_provider = length ''PROVIDER'', w_row = length ''ROW'', w_used = length ''USED'',
        w_resets = length ''RESETS''\<rparr>"

text \<open>A line up to its last column, and the line.\<close>

definition line_head :: "widths \<Rightarrow> string \<Rightarrow> string \<Rightarrow> string \<Rightarrow> string \<Rightarrow> string" where
  "line_head w a b c d =
     pad_right (w_provider w) a @ '' '' @ pad_right (w_row w) b @ '' '' @ pad_left (w_used w) c @ ''  '' @
     pad_right (w_resets w) d @ '' ''"

definition newline :: string where
  "newline = [CHR 0x0A]"

definition table_line :: "widths \<Rightarrow> string \<Rightarrow> string \<Rightarrow> string \<Rightarrow> string \<Rightarrow> string \<Rightarrow> string" where
  "table_line w a b c d e = line_head w a b c d @ e @ newline"

definition row_line :: "widths \<Rightarrow> provider \<Rightarrow> row \<Rightarrow> string" where
  "row_line w p r =
     table_line w (prov_Label p) (row_Label r) (pctString (row_Pct r)) (row_Txt r) (prov_Status p)"

definition RenderTable :: "snapshot \<Rightarrow> location \<Rightarrow> string" where
  "RenderTable s loc = (let w = table_widths (snap_Providers s) in
     table_line w ''PROVIDER'' ''ROW'' ''USED'' ''RESETS'' ''STATUS'' @
     concat (map (\<lambda>p. concat (map (row_line w p) (prov_Rows p))) (snap_Providers s)) @
     ''rev='' @ snap_Rev s @ '' seq='' @ show_int (snap_Seq s) @ '' as of '' @
     format_hhmm loc (of_unix (snap_CheckedAt s)) @ newline)"

subsection \<open>Counting runes across a join\<close>

lemma rune_size_le: "rune_size s \<le> length s"
proof (cases s)
  case (Cons c r)
  have "rune_size_nat bs \<le> length bs" for bs
    by (auto simp: rune_size_nat_def split: list.splits)
  from this [of "map of_char (take 4 s)"] show ?thesis by (simp add: rune_size_def)
qed simp

definition ascii_start :: "string \<Rightarrow> bool" where
  "ascii_start t \<longleftrightarrow> t = [] \<or> (of_char (hd t) :: nat) < 128"

lemma rune_size_nat_append:
  "bs \<noteq> [] \<Longrightarrow> cs = [] \<or> hd cs < 128 \<Longrightarrow> rune_size_nat (bs @ cs) = rune_size_nat bs"
  by (cases bs; cases "tl bs"; cases "tl (tl bs)"; cases "tl (tl (tl bs))"; cases cs; cases "tl cs"; cases "tl (tl cs)")
     (auto simp: rune_size_nat_def cont_byte_def)

lemma rune_size_append:
  assumes "s \<noteq> []" "ascii_start t"
  shows "rune_size (s @ t) = rune_size s"
proof -
  have "take 4 (s @ t) = take 4 s @ take (4 - length s) t" by simp
  moreover have "map of_char (take (4 - length s) t) = [] \<or> hd (map of_char (take (4 - length s) t)) < (128 :: nat)"
    using assms(2) by (cases t) (auto simp: ascii_start_def take_Cons split: nat.split)
  ultimately show ?thesis
    using assms(1) rune_size_nat_append [of "map of_char (take 4 s)" "map of_char (take (4 - length s) t)"]
    by (simp add: rune_size_def)
qed

lemma rune_count_append: "ascii_start t \<Longrightarrow> rune_count (s @ t) = rune_count s + rune_count t"
proof (induction s rule: rune_count.induct)
  case (1 s)
  show ?case
  proof (cases "s = []")
    case False
    have "drop (rune_size s) (s @ t) = drop (rune_size s) s @ t"
      using rune_size_le [of s] by simp
    with 1 False show ?thesis
      by (simp add: rune_count.simps [of "s @ t"] rune_count.simps [of s] rune_size_append)
  qed simp
qed

lemma rune_count_spaces [simp]: "rune_count (replicate n (CHR '' '')) = n"
  by (subst rune_count_ascii) (auto simp: ascii_def)

lemma ascii_start_spaces [simp]: "ascii_start (replicate n (CHR '' ''))" "ascii_start (CHR '' '' # s)"
  by (cases n; simp add: ascii_start_def)+

lemma rune_count_space: "rune_count (CHR '' '' # s) = Suc (rune_count s)"
  by (simp add: rune_count.simps [of "CHR '' '' # s"] rune_size_ascii)

lemma rune_count_prefix_spaces: "rune_count (replicate n (CHR '' '') @ s) = n + rune_count s"
  by (induction n) (simp_all add: rune_count_space)

lemma rune_count_pad_right: "rune_count s \<le> w \<Longrightarrow> rune_count (pad_right w s) = w"
  by (simp add: pad_right_def rune_count_append)

lemma rune_count_pad_left: "rune_count s \<le> w \<Longrightarrow> rune_count (pad_left w s) = w"
  by (simp add: pad_left_def rune_count_prefix_spaces)

lemma rune_count_line_head:
  assumes "rune_count a \<le> w_provider w" "rune_count b \<le> w_row w" "rune_count c \<le> w_used w"
    "rune_count d \<le> w_resets w" 
  shows "rune_count (line_head w a b c d) = w_provider w + w_row w + w_used w + w_resets w + 5"
  using assms
  by (simp add: line_head_def rune_count_append rune_count_space rune_count_pad_right rune_count_pad_left)

subsection \<open>Every value stays inside the contract\<close>

lemma Tier_valid [simp]: "Tier p st \<in> set validTiers"
  by (simp add: Tier_def validTiers_def split: option.split)

lemma Severity_valid [simp]: "Severity st rs a \<in> set validSeverities"
  by (simp add: Severity_def validSeverities_def)

lemma Tier_stale: "Tier p ''stale'' = Tier p ''ok''"
  by (simp add: Tier_def split: option.split)

lemma length_ResetTxt: "length (ResetTxt r now loc) \<le> 5"
  by (simp add: ResetTxt_def)

lemma rune_count_ResetTxt [simp]: "rune_count (ResetTxt r now loc) \<le> 11"
  using rune_count_le_length [of "ResetTxt r now loc"] length_ResetTxt [of r now loc] by linarith

subsection \<open>Severity\<close>

definition severity_rank :: "string \<Rightarrow> nat" where
  "severity_rank s = (if s = ''crit'' then 2 else if s = ''warn'' then 1 else 0)"

text \<open>The same window, used at least as much.\<close>

definition row_grows :: "row \<Rightarrow> row \<Rightarrow> bool" where
  "row_grows r r' \<longleftrightarrow> row_K r' = row_K r \<and>
     (case (row_Pct r, row_Pct r') of
        (None, _) \<Rightarrow> True | (Some a, None) \<Rightarrow> False | (Some a, Some b) \<Rightarrow> a \<le> b)"

lemma row_grows_pct: "row_grows r r' \<Longrightarrow> pct_at_least n r \<Longrightarrow> pct_at_least n r'"
  by (auto simp: row_grows_def pct_at_least_def split: option.splits)

lemma list_ex_mono2: "list_all2 R xs ys \<Longrightarrow> list_ex P xs \<Longrightarrow> (\<And>x y. R x y \<Longrightarrow> P x \<Longrightarrow> Q y) \<Longrightarrow> list_ex Q ys"
  by (induction rule: list_all2_induct) auto

text \<open>A provider's severity never falls when the rows it is computed from only grow, whatever the
  thresholds and the status are.\<close>

theorem Severity_mono:
  assumes "list_all2 row_grows rs rs'"
  shows "severity_rank (Severity st rs a) \<le> severity_rank (Severity st rs' a)"
proof -
  have "list_ex (pct_at_least 100) rs \<Longrightarrow> list_ex (pct_at_least 100) rs'"
    by (erule list_ex_mono2 [OF assms]) (rule row_grows_pct)
  moreover have "list_ex (\<lambda>r. pct_at_least (WarnPctFor a (row_K r)) r) rs \<Longrightarrow>
      list_ex (\<lambda>r. pct_at_least (WarnPctFor a (row_K r)) r) rs'"
    by (erule list_ex_mono2 [OF assms]) (auto simp: row_grows_def pct_at_least_def split: option.splits)
  ultimately show ?thesis by (simp add: Severity_def severity_rank_def)
qed

definition demo_row :: "string \<Rightarrow> int \<Rightarrow> row" where
  "demo_row k v = empty_row\<lparr>row_K := k, row_Pct := Some v\<rparr>"

lemma Severity_mono_witness:
  "severity_rank (Severity ''ok'' [demo_row ''7d'' 59] DefaultAlerts) \<le>
     severity_rank (Severity ''ok'' [demo_row ''7d'' 60] DefaultAlerts) \<and>
   Severity ''ok'' [demo_row ''7d'' 59] DefaultAlerts = ''ok'' \<and>
   Severity ''ok'' [demo_row ''7d'' 60] DefaultAlerts = ''warn''"
  using Severity_mono [of "[demo_row ''7d'' 59]" "[demo_row ''7d'' 60]" "''ok''" DefaultAlerts]
  by (simp add: row_grows_def demo_row_def empty_row_def Severity_def severity_rank_def
      pct_at_least_def WarnPctFor_def DefaultAlerts_def)

subsection \<open>Money reads back\<close>

definition read_dollars :: "string \<Rightarrow> int option" where
  "read_dollars s = (case s of [] \<Rightarrow> None | c # t \<Rightarrow> if c \<noteq> CHR ''$'' then None else
     (case split_char (CHR ''.'') t of
        [a, b] \<Rightarrow> (case (read_nat a, read_nat b) of
                    (Some x, Some y) \<Rightarrow> Some (100 * int x + int y) | _ \<Rightarrow> None)
      | _ \<Rightarrow> None))"

definition read_money :: "string \<Rightarrow> int option" where
  "read_money s = (case s of
     [] \<Rightarrow> None
   | c # t \<Rightarrow> if c = CHR ''-'' then map_option uminus (read_dollars t) else read_dollars s)"

lemma digit_char_neq: "d < 10 \<Longrightarrow> of_char c < (48::nat) \<or> 57 < (of_char c :: nat) \<Longrightarrow> digit_char d \<noteq> c"
  by (auto simp: digit_char_def)

lemma show_nat_digit_chars: "c \<in> set (show_nat n) \<Longrightarrow> \<exists>d < 10. c = digit_char d"
proof (induction n rule: show_nat.induct)
  case (1 n)
  then show ?case
    by (cases "n < 10") (auto simp: show_nat.simps [of n] intro: exI [of _ "n mod 10"])
qed

lemma read_nat_show_nat2 [simp]: "n < 100 \<Longrightarrow> read_nat (show_nat2 n) = Some n"
  by (simp add: show_nat2_def read_nat_def read_digits_show_nat digit_val_def)

lemma read_dollars_dollars:
  assumes "m < 100"
  shows "read_dollars (CHR ''$'' # show_nat n @ CHR ''.'' # show_nat2 m) = Some (100 * int n + int m)"
proof -
  have free: "CHR ''.'' \<notin> set (show_nat k)" for k
    using show_nat_digit_chars [where c = "CHR ''.''" and n = k] digit_char_neq [where c = "CHR ''.''"] by force
  then have "CHR ''.'' \<notin> set (show_nat2 m)"
    using digit_char_neq [where d = 0 and c = "CHR ''.''"] by (auto simp: show_nat2_def)
  with free [of n] show ?thesis using assms
    by (simp add: read_dollars_def split_char_append_sep split_char_free)
qed

lemma Money_abs:
  "Money c = (if c < 0 then [CHR ''-''] else []) @ CHR ''$'' # show_nat (nat (\<bar>c\<bar> div 100)) @
     CHR ''.'' # show_nat2 (nat (\<bar>c\<bar> mod 100))"
  by (cases "c < 0") (simp_all add: Money_def show_int_def quot_nonneg remn_nonneg pos_imp_zdiv_neg_iff not_less)

text \<open>Money is exact: the printed dollars and cents determine the integer amount of cents, negative
  amounts included, so no two amounts print alike.\<close>

theorem Money_roundtrip: "read_money (Money c) = Some c"
proof -
  have "nat (\<bar>c\<bar> mod 100) < 100" by (simp add: nat_less_iff)
  note * = read_dollars_dollars [OF this, of "nat (\<bar>c\<bar> div 100)"]
  have "int (nat (\<bar>c\<bar> div 100)) * 100 + int (nat (\<bar>c\<bar> mod 100)) = \<bar>c\<bar>"
    by (simp add: pos_imp_zdiv_nonneg_iff)
  with * have "read_dollars (CHR ''$'' # show_nat (nat (\<bar>c\<bar> div 100)) @
      CHR ''.'' # show_nat2 (nat (\<bar>c\<bar> mod 100))) = Some \<bar>c\<bar>" by (simp add: mult.commute)
  then show ?thesis by (cases "c < 0") (simp_all add: Money_abs read_money_def)
qed

subsection \<open>The table is aligned\<close>

definition widths_le :: "widths \<Rightarrow> widths \<Rightarrow> bool" where
  "widths_le v w \<longleftrightarrow> w_provider v \<le> w_provider w \<and> w_row v \<le> w_row w \<and> w_used v \<le> w_used w \<and>
     w_resets v \<le> w_resets w"

lemma widths_le_refl [simp]: "widths_le w w"
  by (simp add: widths_le_def)

lemma widths_le_trans: "widths_le u v \<Longrightarrow> widths_le v w \<Longrightarrow> widths_le u w"
  by (auto simp: widths_le_def)

lemma fold_widths_grow:
  assumes "\<And>x w. widths_le w (f x w)"
  shows "widths_le w (fold f xs w)"
  by (induction xs arbitrary: w) (auto intro: widths_le_trans assms)

lemma fold_widths_cover:
  assumes "\<And>x w. widths_le w (f x w)" "\<And>x w. x \<in> set xs \<Longrightarrow> widths_le (g x) (f x w)" "x \<in> set xs"
  shows "widths_le (g x) (fold f xs w)"
  using assms(2,3)
proof (induction xs arbitrary: w)
  case (Cons y ys)
  then show ?case
    by (cases "x = y") (auto intro: widths_le_trans [OF _ fold_widths_grow [where f = f, OF assms(1)]])
qed simp

definition cell_widths :: "provider \<Rightarrow> row \<Rightarrow> widths" where
  "cell_widths p r = \<lparr>w_provider = rune_count (prov_Label p), w_row = rune_count (row_Label r),
     w_used = length (pctString (row_Pct r)), w_resets = rune_count (row_Txt r)\<rparr>"

lemma row_widths_grow: "widths_le w (row_widths r w)"
  by (simp add: widths_le_def row_widths_def)

lemma provider_widths_grow: "widths_le w (provider_widths p w)"
  unfolding provider_widths_def
  by (rule widths_le_trans [OF _ fold_widths_grow [OF row_widths_grow]]) (simp add: widths_le_def)

lemma provider_widths_cover:
  assumes "r \<in> set (prov_Rows p)"
  shows "widths_le (cell_widths p r) (provider_widths p w)"
proof -
  let ?w = "w\<lparr>w_provider := max (w_provider w) (rune_count (prov_Label p))\<rparr>"
  have "widths_le ((cell_widths p r)\<lparr>w_provider := 0\<rparr>) (fold row_widths (prov_Rows p) ?w)"
    by (rule fold_widths_cover [where g = "\<lambda>r. (cell_widths p r)\<lparr>w_provider := 0\<rparr>", OF row_widths_grow _ assms])
       (simp add: widths_le_def row_widths_def cell_widths_def)
  moreover have "widths_le ?w (fold row_widths (prov_Rows p) ?w)"
    by (rule fold_widths_grow [OF row_widths_grow])
  ultimately show ?thesis by (simp add: provider_widths_def widths_le_def cell_widths_def)
qed

lemma table_widths_cover:
  assumes "p \<in> set ps" "r \<in> set (prov_Rows p)"
  shows "widths_le (cell_widths p r) (table_widths ps)"
proof -
  have "widths_le (cell_widths p r) (fold provider_widths ps w)" for w
    using assms
  proof (induction ps arbitrary: w)
    case (Cons q qs)
    then show ?case
      by (cases "p = q")
         (auto intro: widths_le_trans [OF _ fold_widths_grow [OF provider_widths_grow]] provider_widths_cover)
  qed simp
  then show ?thesis by (simp add: table_widths_def)
qed

lemma table_widths_header:
  "widths_le \<lparr>w_provider = 8, w_row = 3, w_used = 4, w_resets = 6\<rparr> (table_widths ps)"
  unfolding table_widths_def
  by (rule widths_le_trans [OF _ fold_widths_grow [where f = provider_widths, OF provider_widths_grow]])
     (simp add: widths_le_def)

text \<open>The cells of a table: what stands before the status in each line, and the status.\<close>

definition table_cells :: "provider list \<Rightarrow> (provider \<times> row) list" where
  "table_cells ps = concat (map (\<lambda>p. map (Pair p) (prov_Rows p)) ps)"

lemma table_cells_set: "(p, r) \<in> set (table_cells ps) \<longleftrightarrow> p \<in> set ps \<and> r \<in> set (prov_Rows p)"
  by (auto simp: table_cells_def)

definition cell_head :: "widths \<Rightarrow> provider \<times> row \<Rightarrow> string" where
  "cell_head w c = line_head w (prov_Label (fst c)) (row_Label (snd c)) (pctString (row_Pct (snd c))) (row_Txt (snd c))"

lemma rune_count_cell_head:
  assumes "c \<in> set (table_cells ps)"
  shows "rune_count (cell_head (table_widths ps) c) =
    (let w = table_widths ps in w_provider w + w_row w + w_used w + w_resets w + 5)"
proof -
  obtain p r where c: "c = (p, r)" by (cases c)
  then have "widths_le (cell_widths p r) (table_widths ps)"
    using assms by (simp add: table_cells_set table_widths_cover)
  moreover have "rune_count (pctString (row_Pct r)) \<le> length (pctString (row_Pct r))"
    by (rule rune_count_le_length)
  ultimately show ?thesis
    by (simp add: c cell_head_def Let_def widths_le_def cell_widths_def rune_count_line_head)
qed

lemma RenderTable_lines:
  "RenderTable s loc =
     concat (map2 (\<lambda>h t. h @ t @ newline)
       (line_head (table_widths (snap_Providers s)) ''PROVIDER'' ''ROW'' ''USED'' ''RESETS'' #
          map (cell_head (table_widths (snap_Providers s))) (table_cells (snap_Providers s)))
       (''STATUS'' # map (prov_Status \<circ> fst) (table_cells (snap_Providers s)))) @
     ''rev='' @ snap_Rev s @ '' seq='' @ show_int (snap_Seq s) @ '' as of '' @
     format_hhmm loc (of_unix (snap_CheckedAt s)) @ newline"
  (is "_ = _ @ ?foot")
proof -
  have "map2 (\<lambda>h t. h @ t @ newline) (map f cs) (map g cs) = map (\<lambda>c. f c @ g c @ newline) cs"
    for f g :: "provider \<times> row \<Rightarrow> string" and cs
    by (induction cs) simp_all
  moreover have "concat (map (\<lambda>p. concat (map (row_line w p) (prov_Rows p))) ps) =
     concat (map (\<lambda>c. cell_head w c @ (prov_Status \<circ> fst) c @ newline) (table_cells ps))" for w ps
    by (induction ps)
       (simp_all add: table_cells_def row_line_def table_line_def cell_head_def comp_def)
  ultimately show ?thesis by (simp add: RenderTable_def Let_def table_line_def)
qed

text \<open>The usage table is a header line and one line per row of each provider, in order, each
  ending in the provider's status, and every status starts at the same rune column, whatever the
  labels, percentages and reset texts are.\<close>

theorem RenderTable_aligned:
  "\<exists>heads column. RenderTable s loc =
     concat (map2 (\<lambda>h t. h @ t @ newline) heads
       (''STATUS'' # concat (map (\<lambda>p. map (\<lambda>_. prov_Status p) (prov_Rows p)) (snap_Providers s)))) @
     ''rev='' @ snap_Rev s @ '' seq='' @ show_int (snap_Seq s) @ '' as of '' @
     format_hhmm loc (of_unix (snap_CheckedAt s)) @ newline \<and>
   map rune_count heads =
     replicate (Suc (sum_list (map (length \<circ> prov_Rows) (snap_Providers s)))) column"
proof -
  let ?w = "table_widths (snap_Providers s)" and ?cs = "table_cells (snap_Providers s)"
  let ?col = "w_provider ?w + w_row ?w + w_used ?w + w_resets ?w + 5"
  have status: "map (prov_Status \<circ> fst) ?cs =
      concat (map (\<lambda>p. map (\<lambda>_. prov_Status p) (prov_Rows p)) (snap_Providers s))"
    by (simp add: table_cells_def map_concat comp_def)
  have "length ?cs = sum_list (map (length \<circ> prov_Rows) (snap_Providers s))"
    by (simp add: table_cells_def length_concat comp_def)
  moreover have "map (rune_count \<circ> cell_head ?w) ?cs = replicate (length ?cs) ?col"
    by (rule replicate_eqI) (auto simp: rune_count_cell_head Let_def)
  moreover have "rune_count (line_head ?w ''PROVIDER'' ''ROW'' ''USED'' ''RESETS'') = ?col"
    using table_widths_header [of "snap_Providers s"]
    by (intro rune_count_line_head) (simp_all add: widths_le_def rune_count_ascii ascii_def)
  ultimately show ?thesis
    using RenderTable_lines [of s loc] unfolding status
    by (intro exI [of _ "line_head ?w ''PROVIDER'' ''ROW'' ''USED'' ''RESETS'' # map (cell_head ?w) ?cs"] exI [of _ ?col])
       simp
qed

end
