(* ===== verification/Go_Date.thy ===== *)
theory Go_Date
  imports Go_Time "HOL-Library.Monad_Syntax"
begin

text \<open>
  Calendar dates, \<open>strconv.Atoi\<close> and \<open>time.Parse\<close> on the layouts \<open>RFC3339\<close> and \<open>RFC3339Nano\<close>, which
  read alike: Go accepts a fraction of a second after either of them.
\<close>

subsection \<open>Machine integers\<close>

text \<open>The value an \<open>int64\<close> holds after an operation whose exact result is \<open>x\<close>.\<close>

definition wrap64 :: "int \<Rightarrow> int" where
  "wrap64 x = (x + 2 ^ 63) mod 2 ^ 64 - 2 ^ 63"

lemma wrap64_id: "- (2 ^ 63) \<le> x \<Longrightarrow> x < 2 ^ 63 \<Longrightarrow> wrap64 x = x"
  by (simp add: wrap64_def)

definition atoi :: "string \<Rightarrow> int option" where
  "atoi s = (let neg = has_prefix s ''-'';
                 t = (if neg \<or> has_prefix s ''+'' then tl s else s) in
     case read_nat t of
       None \<Rightarrow> None
     | Some n \<Rightarrow>
         if neg then (if int n \<le> 2 ^ 63 then Some (- int n) else None)
         else (if int n < 2 ^ 63 then Some (int n) else None))"

subsection \<open>Dates\<close>

definition is_leap :: "int \<Rightarrow> bool" where
  "is_leap y \<longleftrightarrow> 4 dvd y \<and> (\<not> 100 dvd y \<or> 400 dvd y)"

definition days_in :: "int \<Rightarrow> int \<Rightarrow> int" where
  "days_in m y = (if m = 2 then (if is_leap y then 29 else 28)
     else if m = 4 \<or> m = 6 \<or> m = 9 \<or> m = 11 then 30 else 31)"

text \<open>Days since January 1, 1970 in the proleptic Gregorian calendar, and back.\<close>

definition days_from_civil :: "int \<Rightarrow> int \<Rightarrow> int \<Rightarrow> int" where
  "days_from_civil y m d = (let y' = (if m \<le> 2 then y - 1 else y); yoe = y' mod 400;
       doy = (153 * ((m + 9) mod 12) + 2) div 5 + d - 1 in
     y' div 400 * 146097 + (yoe * 365 + yoe div 4 - yoe div 100 + doy) - 719468)"

definition civil_from_days :: "int \<Rightarrow> int \<times> int \<times> int" where
  "civil_from_days days = (let z = days + 719468; doe = z mod 146097;
       yoe = (doe - doe div 1460 + doe div 36524 - doe div 146096) div 365;
       doy = doe - (365 * yoe + yoe div 4 - yoe div 100);
       mp = (5 * doy + 2) div 153;
       m = (if mp < 10 then mp + 3 else mp - 9) in
     (yoe + z div 146097 * 400 + (if m \<le> 2 then 1 else 0), m, doy - (153 * mp + 2) div 5 + 1))"

definition show_nat4 :: "nat \<Rightarrow> string" where
  "show_nat4 n = replicate (4 - length (show_nat n)) (CHR ''0'') @ show_nat n"

text \<open>\<open>Format("2006-01-02")\<close> at a location, for years from 0 on.\<close>

definition format_date :: "location \<Rightarrow> int \<Rightarrow> string" where
  "format_date loc t = (case civil_from_days (local_seconds loc t div 86400) of (y, m, d) \<Rightarrow>
     show_nat4 (nat y) @ ''-'' @ show_nat2 (nat m) @ ''-'' @ show_nat2 (nat d))"

subsection \<open>time.Parse\<close>

text \<open>Each step reads a part of the value and returns the rest.\<close>

definition expect :: "char \<Rightarrow> string \<Rightarrow> string option" where
  "expect c s = (case s of [] \<Rightarrow> None | x # t \<Rightarrow> if x = c then Some t else None)"

text \<open>\<open>getnum\<close>: two digits, or one when that is allowed.\<close>

definition getnum :: "bool \<Rightarrow> string \<Rightarrow> (int \<times> string) option" where
  "getnum fixed s = (case s of
     [] \<Rightarrow> None
   | a # t \<Rightarrow> (case digit_val a of
        None \<Rightarrow> None
      | Some x \<Rightarrow>
          (case t of
             [] \<Rightarrow> if fixed then None else Some (int x, t)
           | b # u \<Rightarrow> (case digit_val b of
                None \<Rightarrow> if fixed then None else Some (int x, t)
              | Some y \<Rightarrow> Some (10 * int x + int y, u)))))"

definition in_range :: "int \<Rightarrow> int \<Rightarrow> int \<Rightarrow> unit option" where
  "in_range lo hi x = (if lo \<le> x \<and> x \<le> hi then Some () else None)"

definition parse_year :: "string \<Rightarrow> (int \<times> string) option" where
  "parse_year s = (if length s < 4 then None
     else map_option (\<lambda>n. (int n, drop 4 s)) (read_nat (take 4 s)))"

definition is_digit :: "char \<Rightarrow> bool" where
  "is_digit c \<longleftrightarrow> digit_val c \<noteq> None"

text \<open>The fraction of a second, if there is one: any number of digits, of which nine count.\<close>

definition parse_fraction :: "string \<Rightarrow> int \<times> string" where
  "parse_fraction s =
     (if length s \<ge> 2 \<and> (hd s = CHR ''.'' \<or> hd s = CHR '','') \<and> is_digit (s ! 1)
      then let ds = takeWhile is_digit (tl s); ks = take 9 ds in
           (case read_nat ks of None \<Rightarrow> 0 | Some n \<Rightarrow> int n * 10 ^ (9 - length ks), drop (length ds) (tl s))
      else (0, s))"

text \<open>\<open>Z07:00\<close>: the offset in seconds.\<close>

definition parse_zone :: "string \<Rightarrow> (int \<times> string) option" where
  "parse_zone s =
     (if has_prefix s ''Z'' then Some (0, tl s)
      else if length s < 6 \<or> s ! 3 \<noteq> CHR '':'' then None
      else do {
        (hr, _) \<leftarrow> getnum True (take 2 (drop 1 s));
        (mm, _) \<leftarrow> getnum True (take 2 (drop 4 s));
        in_range 0 24 hr;
        in_range 0 60 mm;
        (if hd s = CHR ''+'' then Some ((hr * 60 + mm) * 60, drop 6 s)
         else if hd s = CHR ''-'' then Some (- ((hr * 60 + mm) * 60), drop 6 s)
         else None)
      })"

definition parse_rfc3339 :: "string \<Rightarrow> int option" where
  "parse_rfc3339 s = do {
     (y, s) \<leftarrow> parse_year s;
     s \<leftarrow> expect (CHR ''-'') s;
     (mo, s) \<leftarrow> getnum True s;
     in_range 1 12 mo;
     s \<leftarrow> expect (CHR ''-'') s;
     (d, s) \<leftarrow> getnum True s;
     s \<leftarrow> expect (CHR ''T'') s;
     (h, s) \<leftarrow> getnum False s;
     in_range 0 23 h;
     s \<leftarrow> expect (CHR '':'') s;
     (mi, s) \<leftarrow> getnum True s;
     in_range 0 59 mi;
     s \<leftarrow> expect (CHR '':'') s;
     (sec, s) \<leftarrow> getnum True s;
     in_range 0 59 sec;
     (let (ns, s) = parse_fraction s in do {
       (off, s) \<leftarrow> parse_zone s;
       in_range 1 (days_in mo y) d;
       (if s = [] then
          Some ((days_from_civil y mo d * 86400 + h * 3600 + mi * 60 + sec - off) * Second + ns)
        else None)
     })
   }"

lemma parse_rfc3339_utc:
  "parse_rfc3339 ''2026-09-01T12:30:00.5Z'' = Some (1788265800 * Second + 500000000)"
  by code_simp

lemma parse_rfc3339_offset:
  "parse_rfc3339 ''2024-02-29T23:59:59-03:00'' = Some (1709261999 * Second)"
  by code_simp

lemma parse_rfc3339_bad_day: "parse_rfc3339 ''2026-02-29T00:00:00Z'' = None"
  by code_simp

lemma format_date_example: "format_date (\<lambda>_. - 10800) (1709261999 * Second) = ''2024-02-29''"
  by code_simp

end
