(* ===== verification/Httpx.thy ===== *)
theory Httpx
  imports Go_Date "HOL-Library.AList"
begin

text \<open>
  internal/httpx: the HTTP client every provider uses (\<open>Do\<close>, \<open>RetryAfter\<close>) and the transport that
  serves fixture files.  The transport below the client is a parameter: what a request is answered.
  A header map holds one value per canonical key.
\<close>

subsection \<open>http.Header\<close>

definition header_token_char :: "char \<Rightarrow> bool" where
  "header_token_char c \<longleftrightarrow> (let n = of_char c :: nat in
     48 \<le> n \<and> n \<le> 57 \<or> 65 \<le> n \<and> n \<le> 90 \<or> 97 \<le> n \<and> n \<le> 122 \<or> c \<in> set ''!#$%&*+-.^_`|~'' \<or> n = 39)"

fun canonical_from :: "bool \<Rightarrow> string \<Rightarrow> string" where
  "canonical_from up [] = []"
| "canonical_from up (c # cs) =
     (if up then upper_char c else lower_char c) # canonical_from (c = CHR ''-'') cs"

definition canonical_header_key :: "string \<Rightarrow> string" where
  "canonical_header_key k = (if list_all header_token_char k then canonical_from True k else k)"

type_synonym header = "(string \<times> string) list"

definition header_set :: "header \<Rightarrow> string \<Rightarrow> string \<Rightarrow> header" where
  "header_set h k v = AList.update (canonical_header_key k) v h"

definition header_get :: "header \<Rightarrow> string \<Rightarrow> string" where
  "header_get h k = (case map_of h (canonical_header_key k) of None \<Rightarrow> [] | Some v \<Rightarrow> v)"

definition header_set_all :: "(string \<times> string) list \<Rightarrow> header \<Rightarrow> header" where
  "header_set_all kvs h = fold (\<lambda>(k, v) h. header_set h k v) kvs h"

lemma header_get_set: "header_get (header_set h k v) j =
    (if canonical_header_key j = canonical_header_key k then v else header_get h j)"
  by (simp add: header_get_def header_set_def update_conv')

subsection \<open>client.go: Do\<close>

definition MaxBodyBytes :: nat where
  "MaxBodyBytes = 256 * 1024"

text \<open>What a caller can tell apart in an error.\<close>

datatype http_error = DeadlineExceeded | NetworkError

record http_request =
  hreq_Method :: string
  hreq_URL :: string
  hreq_Header :: header
  hreq_Body :: "string option"

text \<open>
  The transport either fails or answers with a status, a header and a body, of which
  the bytes given can be read before \<open>Some e\<close> stops the reader, or all of it with \<open>None\<close>.
\<close>

datatype http_answer =
    NoAnswer http_error
  | Answer int header string "http_error option"

record response =
  resp_Status :: int
  resp_Header :: header
  resp_Body :: string

text \<open>\<open>io.ReadAll\<close> of an \<open>io.LimitReader\<close> asks for no byte beyond the limit.\<close>

definition read_limited :: "nat \<Rightarrow> string \<Rightarrow> http_error option \<Rightarrow> http_error + string" where
  "read_limited n body e =
     (if length body \<ge> n then Inr (take n body)
      else (case e of None \<Rightarrow> Inr body | Some err \<Rightarrow> Inl err))"

definition do_request :: "string \<Rightarrow> string \<Rightarrow> string \<Rightarrow> (string \<times> string) list \<Rightarrow> string option \<Rightarrow> http_request" where
  "do_request ua method url headers body =
     \<lparr>hreq_Method = method, hreq_URL = url,
      hreq_Header = header_set_all headers
        ((if ua \<noteq> [] then (\<lambda>h. header_set h ''User-Agent'' ua) else (\<lambda>h. h))
           (header_set [] ''Accept'' ''application/json'')),
      hreq_Body = body\<rparr>"

definition Do ::
  "(http_request \<Rightarrow> http_answer) \<Rightarrow> string \<Rightarrow> string \<Rightarrow> string \<Rightarrow> (string \<times> string) list \<Rightarrow> string option \<Rightarrow>
     http_error + response" where
  "Do transport ua method url headers body =
     (case transport (do_request ua method url headers body) of
        NoAnswer e \<Rightarrow> Inl e
      | Answer status h b e \<Rightarrow>
          bind_result (read_limited MaxBodyBytes b e)
            (\<lambda>bs. Inr \<lparr>resp_Status = status, resp_Header = h, resp_Body = bs\<rparr>))"

subsection \<open>client.go: RetryAfter\<close>

text \<open>
  \<open>parse_date\<close> is \<open>http.ParseTime\<close>.  The product of the seconds and a second is an \<open>int64\<close>.
\<close>

definition RetryAfter :: "(string \<Rightarrow> int option) \<Rightarrow> header \<Rightarrow> int \<Rightarrow> int option" where
  "RetryAfter parse_date h now = (let ra = header_get h ''Retry-After'' in
     if ra = [] then None
     else (case atoi ra of
        Some seconds \<Rightarrow> Some (wrap64 (seconds * Second))
      | None \<Rightarrow>
          (case parse_date ra of
             None \<Rightarrow> None
           | Some t \<Rightarrow> (let d = time_sub t now in Some (if d < 0 then 0 else d)))))"

subsection \<open>client.go: the fixture transport\<close>

record fixtureEntry =
  fx_File :: string
  fx_Inline :: string
  fx_Status :: int
  fx_Headers :: "(string \<times> string) list"

definition fixture_file :: "string \<Rightarrow> fixtureEntry" where
  "fixture_file f = \<lparr>fx_File = f, fx_Inline = [], fx_Status = 0, fx_Headers = []\<rparr>"

definition quoted :: "string \<Rightarrow> string" where
  "quoted s = CHR 0x22 # s @ [CHR 0x22]"

definition defaultFixtureTable :: "(string \<times> fixtureEntry) list" where
  "defaultFixtureTable =
     [(''GET api.anthropic.com/api/oauth/usage'', fixture_file ''claude_usage.json''),
      (''GET chatgpt.com/backend-api/wham/usage'', fixture_file ''codex_usage.json''),
      (''GET openrouter.ai/api/v1/credits'', fixture_file ''openrouter_credits.json''),
      (''GET openrouter.ai/api/v1/key'', fixture_file ''openrouter_key.json''),
      (''GET api.groq.com/openai/v1/models'',
        (fixture_file [])\<lparr>fx_Inline := ''{'' @ quoted ''data'' @ '':[]}''\<rparr>),
      (''GET opencode.ai/zen/go/v1/usage'', fixture_file ''opencode_usage.json''),
      (''POST api.groq.com/openai/v1/chat/completions'',
        (fixture_file [])\<lparr>fx_Inline := ''{'' @ quoted ''usage'' @ '':{'' @ quoted ''total_tokens'' @ '':73}}'',
          fx_Headers :=
            [(''x-ratelimit-limit-requests'', ''500000''),
             (''x-ratelimit-remaining-requests'', ''499999''),
             (''x-ratelimit-limit-tokens'', ''250000''),
             (''x-ratelimit-remaining-tokens'', ''249927''),
             (''x-ratelimit-reset-requests'', ''172ms''),
             (''x-ratelimit-reset-tokens'', ''17ms'')]\<rparr>)]"

text \<open>\<open>overrides\<close> is routes.json when it can be read and parsed.\<close>

definition NewFixtureTransport :: "(string \<times> fixtureEntry) list option \<Rightarrow> (string \<times> fixtureEntry) list" where
  "NewFixtureTransport overrides =
     (case overrides of
        None \<Rightarrow> defaultFixtureTable
      | Some os \<Rightarrow> fold (\<lambda>(k, v) t. AList.update k v t) os defaultFixtureTable)"

definition newJSONResponse :: "int \<Rightarrow> header \<Rightarrow> string \<Rightarrow> http_answer" where
  "newJSONResponse status h body =
     Answer status
       (if header_get h ''Content-Type'' = [] then header_set h ''Content-Type'' ''application/json'' else h)
       body None"

text \<open>\<open>files\<close> reads a file of the fixture directory; a request is a method, a host and a path.\<close>

definition fixture_round_trip ::
  "(string \<Rightarrow> string option) \<Rightarrow> (string \<times> fixtureEntry) list \<Rightarrow> string \<Rightarrow> string \<Rightarrow> string \<Rightarrow> http_answer" where
  "fixture_round_trip files table method host path =
     (case map_of table (method @ '' '' @ host @ path) of
        None \<Rightarrow> newJSONResponse 404 [] ''{}''
      | Some e \<Rightarrow>
          (let status = (if fx_Status e = 0 then 200 else fx_Status e);
               h = header_set_all (fx_Headers e) [] in
           if fx_File e \<noteq> [] then
             (case files (fx_File e) of
                None \<Rightarrow> NoAnswer NetworkError
              | Some body \<Rightarrow> newJSONResponse status h body)
           else newJSONResponse status h (if fx_Inline e \<noteq> [] then fx_Inline e else ''{}'')))"

subsection \<open>What a caller may rely on\<close>

lemma Do_body_bounded: "Do tr ua m u hs b = Inr r \<Longrightarrow> length (resp_Body r) \<le> MaxBodyBytes"
  by (auto simp: Do_def read_limited_def bind_result_Inr_iff split: http_answer.splits if_splits option.splits)

lemma header_get_set_all:
  "canonical_header_key k \<notin> set (map (canonical_header_key \<circ> fst) kvs) \<Longrightarrow>
     header_get (header_set_all kvs h) k = header_get h k"
  by (induction kvs arbitrary: h) (auto simp: header_set_all_def header_get_set)

text \<open>Whatever a caller passes, the request sent accepts JSON and carries the client's user agent
  unless the caller sets these headers, and a body larger than the limit is cut there instead of
  failing: no reply a provider sees is longer than 256 KiB.\<close>

theorem Do_request_and_limit:
  assumes "Do tr ua m u hs b = Inr r"
    and "canonical_header_key ''Accept'' \<notin> set (map (canonical_header_key \<circ> fst) hs)"
  shows "header_get (hreq_Header (do_request ua m u hs b)) ''Accept'' = ''application/json'' \<and>
    (\<exists>h full e. tr (do_request ua m u hs b) = Answer (resp_Status r) h full e \<and>
       resp_Header r = h \<and> resp_Body r = take MaxBodyBytes full \<and>
       length (resp_Body r) \<le> MaxBodyBytes \<and> (e = None \<or> MaxBodyBytes \<le> length full))"
proof -
  have "canonical_header_key ''Accept'' \<noteq> canonical_header_key ''User-Agent''" by code_simp
  then have "header_get (hreq_Header (do_request ua m u hs b)) ''Accept'' = ''application/json''"
    using assms(2) by (simp add: do_request_def header_get_set_all header_get_set)
  moreover from assms(1) obtain h full e where
    "tr (do_request ua m u hs b) = Answer (resp_Status r) h full e" "resp_Header r = h"
    "read_limited MaxBodyBytes full e = Inr (resp_Body r)"
    by (auto simp: Do_def bind_result_Inr_iff split: http_answer.splits)
  moreover from this(3) have "resp_Body r = take MaxBodyBytes full" "e = None \<or> MaxBodyBytes \<le> length full"
    by (auto simp: read_limited_def split: if_splits option.splits)
  ultimately show ?thesis by auto
qed

lemma Do_request_and_limit_witness:
  "header_get (hreq_Header (do_request ''usaged'' ''GET'' ''u'' [(''X'', ''1'')] None)) ''accept'' = ''application/json''"
proof -
  have "Do (\<lambda>_. Answer 200 [] ''{}'' None) ''usaged'' ''GET'' ''u'' [(''X'', ''1'')] None =
      Inr \<lparr>resp_Status = 200, resp_Header = [], resp_Body = ''{}''\<rparr>"
    by (simp add: Do_def read_limited_def MaxBodyBytes_def)
  moreover have "canonical_header_key ''Accept'' \<notin> set (map (canonical_header_key \<circ> fst) [(''X'', ''1'')])"
    by code_simp
  moreover have "canonical_header_key ''accept'' = canonical_header_key ''Accept''" by code_simp
  ultimately show ?thesis
    using Do_request_and_limit [of _ "''usaged''" "''GET''" "''u''" "[(''X'', ''1'')]" None] by (simp add: header_get_def)
qed


end
