(* ===== verification/Creds.thy ===== *)
theory Creds
  imports Go_Date
begin

text \<open>
  internal/creds: the credentials of the two plan providers.  keychain.go reads the Claude Code item
  through a \<open>Runner\<close>, codex.go reads auth.json and the claims of its token.  Commands, files, the
  clock and the decoding of JSON are parameters.
\<close>

text \<open>\<open>ErrNotLoggedIn\<close>, \<open>ErrExpired\<close> and every other error.\<close>

datatype creds_error = ErrNotLoggedIn | ErrExpired | ErrOther

subsection \<open>runner.go\<close>

text \<open>Standard output, standard error, and the text of the error if there is one.\<close>

type_synonym runner = "string \<Rightarrow> string list \<Rightarrow> string \<times> string \<times> string option"

definition FakeRunner :: "(string \<times> (string \<times> string \<times> string option)) list \<Rightarrow> runner" where
  "FakeRunner responses name args =
     (case map_of responses (name @ '' '' @ join_char (CHR '' '') args) of
        Some r \<Rightarrow> r
      | None \<Rightarrow> ([], [], Some ''FakeRunner: no response''))"

definition FixtureRunner :: "(string \<Rightarrow> string option) \<Rightarrow> runner" where
  "FixtureRunner files name args =
     (if name = ''security'' then
        (case files ''keychain.json'' of
           None \<Rightarrow> ([], [], Some ''open keychain.json'')
         | Some data \<Rightarrow> (data, [], None))
      else if name = ''claude'' then (''2.1.259 (Claude Code)'', [], None)
      else ([], [], Some ''FixtureRunner: unhandled command''))"

subsection \<open>keychain.go\<close>

record claudeCreds =
  cc_AccessToken :: string
  cc_ExpiresAt :: int
  cc_SubscriptionType :: string
  cc_RateLimitTier :: string

definition no_claude_creds :: claudeCreds where
  "no_claude_creds = \<lparr>cc_AccessToken = [], cc_ExpiresAt = zero_time, cc_SubscriptionType = [],
     cc_RateLimitTier = []\<rparr>"

record keychainJSON =
  kc_accessToken :: string
  kc_refreshToken :: string
  kc_expiresAt :: int
  kc_subscriptionType :: string
  kc_rateLimitTier :: string

definition ReadClaude ::
  "runner \<Rightarrow> (string \<Rightarrow> keychainJSON option) \<Rightarrow> string \<Rightarrow> int \<Rightarrow> claudeCreds \<times> creds_error option" where
  "ReadClaude run decode username now =
     (case run ''security''
             [''find-generic-password'', ''-s'', ''Claude Code-credentials'', ''-a'', username, ''-w''] of
        (stdout, stderr, Some err) \<Rightarrow>
          if str_contains stderr ''could not be found'' \<or> str_contains err ''exit status 44''
          then (no_claude_creds, Some ErrNotLoggedIn)
          else (no_claude_creds, Some ErrOther)
      | (stdout, stderr, None) \<Rightarrow>
          (case decode stdout of
             None \<Rightarrow> (no_claude_creds, Some ErrOther)
           | Some kc \<Rightarrow>
               (let c = \<lparr>cc_AccessToken = kc_accessToken kc,
                         cc_ExpiresAt = kc_expiresAt kc * Millisecond,
                         cc_SubscriptionType = kc_subscriptionType kc,
                         cc_RateLimitTier = kc_rateLimitTier kc\<rparr> in
                if \<not> cc_ExpiresAt c > now then (c, Some ErrExpired) else (c, None))))"

text \<open>The text of the credentials with the token cut, up to the expiry, whose layout is Go's.\<close>

definition ClaudeCreds_String :: "(int \<Rightarrow> string) \<Rightarrow> claudeCreds \<Rightarrow> string" where
  "ClaudeCreds_String show_time c =
     (let prefix = (if length (cc_AccessToken c) > 7 then take 7 (cc_AccessToken c) else cc_AccessToken c) in
      ''ClaudeCreds{AccessToken:'' @ prefix @ ''(len='' @ show_nat (length (cc_AccessToken c)) @
      ''),ExpiresAt:'' @ show_time (cc_ExpiresAt c) @ '',SubscriptionType:'' @ cc_SubscriptionType c @
      '',RateLimitTier:'' @ cc_RateLimitTier c @ ''}'')"

text \<open>The first field of \<open>strings.Fields(strings.TrimSpace(s))\<close>, or nothing.\<close>

fun until_space :: "string \<Rightarrow> string" where
  "until_space [] = []"
| "until_space (c # cs) = (if space_len space_seqs (c # cs) > 0 then [] else c # until_space cs)"

definition first_field :: "string \<Rightarrow> string" where
  "first_field s = until_space (trim_space s)"

definition eat_digits :: "string \<Rightarrow> string option" where
  "eat_digits s = (if takeWhile is_digit s = [] then None else Some (dropWhile is_digit s))"

definition versionPattern :: "string \<Rightarrow> bool" where
  "versionPattern s \<longleftrightarrow>
     (case eat_digits s \<bind> expect (CHR ''.'') \<bind> eat_digits \<bind> expect (CHR ''.'') \<bind> eat_digits of
        None \<Rightarrow> False | Some _ \<Rightarrow> True)"

definition ClaudeUserAgent :: "runner \<Rightarrow> string" where
  "ClaudeUserAgent run =
     (case run ''claude'' [''--version''] of
        (stdout, stderr, Some err) \<Rightarrow> ''claude-code/2.1.0''
      | (stdout, stderr, None) \<Rightarrow>
          (let version = first_field stdout in
           if version \<noteq> [] \<and> versionPattern version then ''claude-code/'' @ version
           else ''claude-code/2.1.0''))"

lemma ClaudeUserAgent_fixture: "ClaudeUserAgent (FixtureRunner f) = ''claude-code/2.1.259''"
  by code_simp

subsection \<open>codex.go\<close>

record codexCreds =
  cx_AccessToken :: string
  cx_AccountID :: string
  cx_PlanType :: string
  cx_Exp :: int
  cx_LastRefresh :: int

definition no_codex_creds :: codexCreds where
  "no_codex_creds = \<lparr>cx_AccessToken = [], cx_AccountID = [], cx_PlanType = [], cx_Exp = zero_time,
     cx_LastRefresh = zero_time\<rparr>"

record codexAuthJSON =
  ca_AuthMode :: string
  ca_AccessToken :: string
  ca_AccountID :: string
  ca_LastRefresh :: string

text \<open>The claims the code looks at; a claim that is absent or of another type is \<open>None\<close>.\<close>

record codexClaims =
  cl_exp :: "rat option"
  cl_account_id :: "string option"
  cl_plan_type :: "string option"

text \<open>\<open>base64.RawURLEncoding\<close>: no padding, line breaks are skipped.\<close>

definition b64url_val :: "char \<Rightarrow> nat option" where
  "b64url_val c = (let n = of_char c :: nat in
     if 65 \<le> n \<and> n \<le> 90 then Some (n - 65)
     else if 97 \<le> n \<and> n \<le> 122 then Some (n - 71)
     else if 48 \<le> n \<and> n \<le> 57 then Some (n + 4)
     else if n = 45 then Some 62 else if n = 95 then Some 63 else None)"

fun b64_bytes :: "nat list \<Rightarrow> nat list option" where
  "b64_bytes [] = Some []"
| "b64_bytes [a] = None"
| "b64_bytes [a, b] = Some [a * 4 + b div 16]"
| "b64_bytes [a, b, c] = Some [a * 4 + b div 16, b mod 16 * 16 + c div 4]"
| "b64_bytes (a # b # c # d # r) =
     map_option (\<lambda>t. (a * 4 + b div 16) # (b mod 16 * 16 + c div 4) # (c mod 4 * 64 + d) # t) (b64_bytes r)"

definition b64url_decode :: "string \<Rightarrow> string option" where
  "b64url_decode s = (let t = filter (\<lambda>c. (of_char c :: nat) \<noteq> 10 \<and> (of_char c :: nat) \<noteq> 13) s in
     if list_ex (\<lambda>c. b64url_val c = None) t then None
     else map_option (map char_of) (b64_bytes (List.map_filter b64url_val t)))"

definition decodeCodexJWT :: "(string \<Rightarrow> codexClaims option) \<Rightarrow> string \<Rightarrow> codexClaims option" where
  "decodeCodexJWT parse token = (let parts = split_char (CHR ''.'') token in
     if length parts < 2 then None
     else b64url_decode (trim_right_char (CHR ''='') (parts ! 1)) \<bind> parse)"

definition ReadCodex ::
  "string option \<Rightarrow> (string \<Rightarrow> string option) \<Rightarrow> (string \<Rightarrow> codexAuthJSON option) \<Rightarrow>
     (string \<Rightarrow> codexClaims option) \<Rightarrow> string \<Rightarrow> int \<Rightarrow> codexCreds \<times> creds_error option" where
  "ReadCodex home files decode parse path now =
     (case (if path \<noteq> [] then Some path else map_option (\<lambda>h. h @ ''/.codex/auth.json'') home) of
        None \<Rightarrow> (no_codex_creds, Some ErrNotLoggedIn)
      | Some p \<Rightarrow>
     (case files p of
        None \<Rightarrow> (no_codex_creds, Some ErrNotLoggedIn)
      | Some data \<Rightarrow>
     (case decode data of
        None \<Rightarrow> (no_codex_creds, Some ErrOther)
      | Some auth \<Rightarrow>
     if ca_AuthMode auth \<noteq> ''chatgpt'' \<or> ca_AccessToken auth = [] then
       (no_codex_creds, Some ErrNotLoggedIn)
     else
     (case decodeCodexJWT parse (ca_AccessToken auth) of
        None \<Rightarrow> (no_codex_creds, Some ErrOther)
      | Some claims \<Rightarrow>
          (let expiry = (case cl_exp claims of None \<Rightarrow> zero_time | Some x \<Rightarrow> of_unix (trunc x));
               refreshed = (case parse_rfc3339 (ca_LastRefresh auth) of None \<Rightarrow> zero_time | Some t \<Rightarrow> t);
               account = (if ca_AccountID auth = []
                          then (case cl_account_id claims of None \<Rightarrow> [] | Some a \<Rightarrow> a)
                          else ca_AccountID auth);
               plan = (case cl_plan_type claims of None \<Rightarrow> [] | Some p \<Rightarrow> p);
               c = \<lparr>cx_AccessToken = ca_AccessToken auth, cx_AccountID = account, cx_PlanType = plan,
                    cx_Exp = expiry, cx_LastRefresh = refreshed\<rparr> in
           if \<not> cx_Exp c > now then (c, Some ErrExpired) else (c, None))))))"

lemma parse_rfc3339_empty: "parse_rfc3339 [] = None"
  by code_simp

lemma ReadClaude_usable: "ReadClaude run dec u now = (c, None) \<Longrightarrow> now < cc_ExpiresAt c"
  by (auto simp: ReadClaude_def Let_def split: prod.splits option.splits if_splits)

lemma ReadCodex_usable:
  "ReadCodex home files dec parse path now = (c, None) \<Longrightarrow> now < cx_Exp c \<and> cx_AccessToken c \<noteq> []"
  by (auto simp: ReadCodex_def Let_def split: option.splits if_splits)

text \<open>A token with a claim set in its middle segment: \<open>eyJleHAiOjEyM30\<close> is \<open>{"exp":123}\<close>.\<close>

lemma b64url_decode_example:
  "b64url_decode ''eyJleHAiOjEyM30'' = Some (CHR ''{'' # CHR 0x22 # ''exp'' @ CHR 0x22 # '':123}'')"
  by code_simp

end
