(* ===== verification/Providers.thy ===== *)
theory Providers
  imports Format Httpx Creds
begin

text \<open>
  internal/providers: one \<open>Fetch\<close> per usage source.  Each reads its credentials, asks its endpoint
  through \<open>Httpx.Do\<close> (the parameter of type \<open>api\<close>), decodes the body and builds the provider block
  of the snapshot.  Decoding JSON, \<open>http.ParseTime\<close>, \<open>strconv.ParseFloat\<close> and the upper case of
  non-ASCII letters are parameters.
\<close>

subsection \<open>provider.go\<close>

text \<open>\<open>Outcome\<close>; its \<open>Err\<close> is never set.  The zero time is no cooldown.\<close>

record fetch_outcome =
  out_CooldownUntil :: int

definition no_cooldown :: fetch_outcome where
  "no_cooldown = \<lparr>out_CooldownUntil = zero_time\<rparr>"

type_synonym api =
  "string \<Rightarrow> string \<Rightarrow> (string \<times> string) list \<Rightarrow> string option \<Rightarrow> http_error + response"

text \<open>The message of a request that got no answer, and of an answer that is not 200.\<close>

definition net_msg :: "http_error \<Rightarrow> string" where
  "net_msg e = (case e of DeadlineExceeded \<Rightarrow> ''api timeout'' | NetworkError \<Rightarrow> ''api unreachable'')"

definition http_msg :: "int \<Rightarrow> string" where
  "http_msg status = ''http '' @ show_int status"

definition cooldown_until :: "(string \<Rightarrow> int option) \<Rightarrow> header \<Rightarrow> int \<Rightarrow> int" where
  "cooldown_until parse_date h now =
     now + (case RetryAfter parse_date h now of None \<Rightarrow> 300 * Second | Some d \<Rightarrow> d)"

definition until_msg :: "location \<Rightarrow> int \<Rightarrow> string" where
  "until_msg loc t = ''429 until '' @ format_hhmm loc t"

definition quota_row :: "string \<Rightarrow> string \<Rightarrow> int \<Rightarrow> string \<Rightarrow> int \<Rightarrow> row" where
  "quota_row k label pct txt reset_at =
     \<lparr>row_K = k, row_Label = label, row_Pct = Some pct, row_Txt = txt,
      row_Tier = Tier (Some pct) ''ok'', row_ResetAt = Some reset_at\<rparr>"

subsection \<open>claude.go\<close>

text \<open>\<open>lim_Scope\<close> is the display name of the scoped model, when there is a scope.\<close>

record claudeLimit =
  lim_Kind :: string
  lim_Percent :: rat
  lim_ResetsAt :: string
  lim_Scope :: "string option"

record claudeWindow =
  win_Utilization :: rat
  win_ResetsAt :: string

record claudeUsageResponse =
  cu_Limits :: "claudeLimit list"
  cu_FiveHour :: claudeWindow
  cu_SevenDay :: claudeWindow

definition stripClaudeTier :: "string \<Rightarrow> string" where
  "stripClaudeTier tier = trim_prefix tier ''default_claude_''"

definition claudeBlock :: "string \<Rightarrow> string \<Rightarrow> string \<Rightarrow> row list \<Rightarrow> int \<Rightarrow> Alerts \<Rightarrow> provider" where
  "claudeBlock status msg plan rows fetchedAt alerts =
     \<lparr>prov_ID = ''claude'', prov_Label = ''Claude'', prov_Plan = plan, prov_Kind = ''plan'',
      prov_Severity = Severity status rows alerts, prov_Status = status, prov_Msg = msg,
      prov_FetchedAt = fetchedAt, prov_Rows = rows\<rparr>"

definition claude_limit_row ::
  "(string \<Rightarrow> string) \<Rightarrow> int \<Rightarrow> location \<Rightarrow> claudeLimit \<Rightarrow> row option" where
  "claude_limit_row upper now loc l =
     (case parse_rfc3339 (lim_ResetsAt l) of
        None \<Rightarrow> None
      | Some t \<Rightarrow>
          (let pct = trunc (lim_Percent l); txt = ResetTxt t now loc; stamp = to_unix t in
           if lim_Kind l = ''session'' then Some (quota_row ''5h'' ''CLAUDE 5h'' pct txt stamp)
           else if lim_Kind l = ''weekly_all'' then Some (quota_row ''7d'' ''CLAUDE 7d'' pct txt stamp)
           else if lim_Kind l = ''weekly_scoped'' then
             (let name = (case lim_Scope l of None \<Rightarrow> [] | Some n \<Rightarrow> n); label = to_upper upper name in
              Some (quota_row (''7d:'' @ name)
                ((if length label > 6 then take 6 label else label) @ '' 7d'') pct txt stamp))
           else None))"

definition parseClaudeLimits ::
  "(string \<Rightarrow> string) \<Rightarrow> claudeLimit list \<Rightarrow> int \<Rightarrow> location \<Rightarrow> row list" where
  "parseClaudeLimits upper limits now loc = List.map_filter (claude_limit_row upper now loc) limits"

definition claude_window_row :: "string \<Rightarrow> string \<Rightarrow> claudeWindow \<Rightarrow> int \<Rightarrow> location \<Rightarrow> row" where
  "claude_window_row k label w now loc =
     (let t = (case parse_rfc3339 (win_ResetsAt w) of None \<Rightarrow> zero_time | Some t \<Rightarrow> t) in
      quota_row k label (math_round (win_Utilization w)) (ResetTxt t now loc) (to_unix t))"

definition parseClaudeFallback :: "claudeUsageResponse \<Rightarrow> int \<Rightarrow> location \<Rightarrow> row list" where
  "parseClaudeFallback body now loc =
     [claude_window_row ''5h'' ''CLAUDE 5h'' (cu_FiveHour body) now loc,
      claude_window_row ''7d'' ''CLAUDE 7d'' (cu_SevenDay body) now loc]"

record claudeProvider =
  cp_username :: string
  cp_loc :: location
  cp_ua :: string
  cp_uaSet :: bool
  cp_alerts :: Alerts

text \<open>What the provider calls: commands, the clock of the credential check, the endpoint, the decoders.\<close>

record claude_world =
  cw_run :: runner
  cw_clock :: int
  cw_keychain :: "string \<Rightarrow> keychainJSON option"
  cw_api :: api
  cw_decode :: "string \<Rightarrow> claudeUsageResponse option"
  cw_date :: "string \<Rightarrow> int option"
  cw_upper :: "string \<Rightarrow> string"

definition claude_headers :: "string \<Rightarrow> string \<Rightarrow> (string \<times> string) list" where
  "claude_headers token ua =
     [(''Authorization'', ''Bearer '' @ token), (''anthropic-beta'', ''oauth-2025-04-20''), (''User-Agent'', ua)]"

definition claude_answer ::
  "claude_world \<Rightarrow> claudeProvider \<Rightarrow> string \<Rightarrow> int \<Rightarrow> http_error + response \<Rightarrow> provider \<times> fetch_outcome" where
  "claude_answer w p plan now res = (let blk = (\<lambda>st msg rows. claudeBlock st msg plan rows (to_unix now) (cp_alerts p)) in
     case res of
       Inl e \<Rightarrow> (blk ''error'' (net_msg e) [], no_cooldown)
     | Inr r \<Rightarrow>
         if resp_Status r = 401 \<or> resp_Status r = 403 then (blk ''auth'' ''run claude'' [], no_cooldown)
         else if resp_Status r = 429 then
           (let until = cooldown_until (cw_date w) (resp_Header r) now in
            (blk ''error'' (until_msg (cp_loc p) until) [], \<lparr>out_CooldownUntil = until\<rparr>))
         else if resp_Status r \<noteq> 200 then (blk ''error'' (http_msg (resp_Status r)) [], no_cooldown)
         else (case cw_decode w (resp_Body r) of
             None \<Rightarrow> (blk ''error'' (http_msg (resp_Status r)) [], no_cooldown)
           | Some body \<Rightarrow>
               (let rows = (if cu_Limits body \<noteq> [] then parseClaudeLimits (cw_upper w) (cu_Limits body) now (cp_loc p)
                            else []);
                    rows = (if rows = [] then parseClaudeFallback body now (cp_loc p) else rows) in
                (blk ''ok'' [] rows, no_cooldown))))"

definition claude_Fetch :: "claude_world \<Rightarrow> claudeProvider \<Rightarrow> int \<Rightarrow> (provider \<times> fetch_outcome) \<times> claudeProvider" where
  "claude_Fetch w p now =
     (case ReadClaude (cw_run w) (cw_keychain w) (cp_username p) (cw_clock w) of
        (c, Some e) \<Rightarrow>
          (if e = ErrNotLoggedIn \<or> e = ErrExpired
           then (claudeBlock ''auth'' ''run claude'' (stripClaudeTier (cc_RateLimitTier c)) [] (to_unix now) (cp_alerts p), no_cooldown)
           else (claudeBlock ''error'' ''cred read'' [] [] (to_unix now) (cp_alerts p), no_cooldown), p)
      | (c, None) \<Rightarrow>
          (let p' = (if cp_uaSet p then p else p\<lparr>cp_ua := ClaudeUserAgent (cw_run w), cp_uaSet := True\<rparr>) in
           (claude_answer w p' (stripClaudeTier (cc_RateLimitTier c)) now
              (cw_api w ''GET'' ''https://api.anthropic.com/api/oauth/usage''
                 (claude_headers (cc_AccessToken c) (cp_ua p')) None), p')))"

subsection \<open>claude\_statusline.go\<close>

definition claudeStatuslineTTL :: int where
  "claudeStatuslineTTL = 10 * Minute"

record statuslineWindow =
  sw_UsedPercentage :: rat
  sw_ResetsAt :: int

record statuslineData =
  sl_FiveHour :: statuslineWindow
  sl_SevenDay :: statuslineWindow
  sl_PlanType :: string

definition statusline_row :: "string \<Rightarrow> string \<Rightarrow> statuslineWindow \<Rightarrow> int \<Rightarrow> location \<Rightarrow> row" where
  "statusline_row k label w now loc =
     quota_row k label (trunc (sw_UsedPercentage w)) (ResetTxt (of_unix (sw_ResetsAt w)) now loc) (sw_ResetsAt w)"

definition parseStatuslineRows :: "statuslineData \<Rightarrow> int \<Rightarrow> location \<Rightarrow> row list" where
  "parseStatuslineRows body now loc =
     [statusline_row ''5h'' ''CLAUDE 5h'' (sl_FiveHour body) now loc,
      statusline_row ''7d'' ''CLAUDE 7d'' (sl_SevenDay body) now loc]"

text \<open>
  \<open>data\<close> and \<open>modified\<close> are the content of the file and its modification time, \<open>None\<close> when reading
  or stat fails; \<open>fallback\<close> is the result of the OAuth fetcher, if one is configured.
\<close>

definition statusline_Fetch ::
  "string \<Rightarrow> (provider \<times> fetch_outcome) option \<Rightarrow> location \<Rightarrow> Alerts \<Rightarrow> string option \<Rightarrow> int option \<Rightarrow>
     (string \<Rightarrow> statuslineData option) \<Rightarrow> int \<Rightarrow> provider \<times> fetch_outcome" where
  "statusline_Fetch source fallback loc alerts data modified decode now =
     (let otherwise = (\<lambda>msg. case fallback of
            Some r \<Rightarrow> r
          | None \<Rightarrow> (claudeBlock ''error'' msg [] [] (to_unix now) alerts, no_cooldown)) in
      if source = [] then otherwise ''no claude source''
      else (case data of
          None \<Rightarrow> otherwise ''no statusline data''
        | Some d \<Rightarrow>
            if (case modified of None \<Rightarrow> True | Some t \<Rightarrow> time_sub now t > claudeStatuslineTTL)
            then otherwise ''statusline stale''
            else (case decode d of
                None \<Rightarrow> otherwise ''parse error''
              | Some body \<Rightarrow>
                  (claudeBlock ''ok'' [] (sl_PlanType body) (parseStatuslineRows body now loc) (to_unix now) alerts,
                   no_cooldown))))"

subsection \<open>codex.go\<close>

record codexWindow =
  cxw_UsedPercent :: int
  cxw_LimitWindowSeconds :: int
  cxw_ResetAt :: int

record codexUsageResponse =
  cxr_PlanType :: string
  cxr_PrimaryWindow :: codexWindow
  cxr_SecondaryWindow :: codexWindow
  cxr_HasCredits :: bool
  cxr_Unlimited :: bool
  cxr_Balance :: string
  cxr_AvailableCount :: int

definition codexBlock :: "string \<Rightarrow> string \<Rightarrow> string \<Rightarrow> row list \<Rightarrow> int \<Rightarrow> Alerts \<Rightarrow> provider" where
  "codexBlock status msg plan rows fetchedAt alerts =
     \<lparr>prov_ID = ''codex'', prov_Label = ''ChatGPT'', prov_Plan = plan, prov_Kind = ''plan'',
      prov_Severity = Severity status rows alerts, prov_Status = status, prov_Msg = msg,
      prov_FetchedAt = fetchedAt, prov_Rows = rows\<rparr>"

definition codex_window_row :: "int \<Rightarrow> location \<Rightarrow> codexWindow \<Rightarrow> row option" where
  "codex_window_row now loc w = (let n = cxw_LimitWindowSeconds w in
     if n = 0 then None
     else (let (k, label) =
         (if n = 18000 then (''5h'', ''GPT 5h'')
          else if n = 604800 then (''7d'', ''GPT 7d'')
          else (show_int n @ ''s'', ''GPT '' @ show_int (quot n 3600) @ ''h'')) in
       Some (quota_row k label (cxw_UsedPercent w) (ResetTxt (of_unix (cxw_ResetAt w)) now loc) (cxw_ResetAt w))))"

text \<open>\<open>sort.Slice\<close> sorts two elements by insertion, which keeps the order of equal ones.\<close>

definition codex_windows :: "codexUsageResponse \<Rightarrow> codexWindow list" where
  "codex_windows body =
     slice_stable (\<lambda>v w. cxw_LimitWindowSeconds v < cxw_LimitWindowSeconds w)
       [cxr_PrimaryWindow body, cxr_SecondaryWindow body]"

definition text_row :: "string \<Rightarrow> string \<Rightarrow> string \<Rightarrow> row" where
  "text_row k label txt =
     \<lparr>row_K = k, row_Label = label, row_Pct = None, row_Txt = txt, row_Tier = ''ok'', row_ResetAt = None\<rparr>"

definition parseCodexRows ::
  "(string \<Rightarrow> rat option) \<Rightarrow> codexUsageResponse \<Rightarrow> int \<Rightarrow> location \<Rightarrow> row list" where
  "parseCodexRows parse_float body now loc =
     List.map_filter (codex_window_row now loc) (codex_windows body) @
     (if cxr_HasCredits body \<and> \<not> cxr_Unlimited body
      then [text_row ''bal'' ''GPT cr''
              (Credits (case parse_float (cxr_Balance body) of None \<Rightarrow> 0 | Some b \<Rightarrow> b))]
      else []) @
     (if cxr_AvailableCount body > 0
      then [text_row ''rst'' ''GPT rst''
              (show_int (cxr_AvailableCount body) @ '' '' @
               (if cxr_AvailableCount body \<noteq> 1 then ''resets'' else ''reset''))]
      else [])"

record codexProvider =
  xp_authPath :: string
  xp_loc :: location
  xp_alerts :: Alerts

record codex_world =
  xw_home :: "string option"
  xw_files :: "string \<Rightarrow> string option"
  xw_clock :: int
  xw_auth :: "string \<Rightarrow> codexAuthJSON option"
  xw_claims :: "string \<Rightarrow> codexClaims option"
  xw_api :: api
  xw_decode :: "string \<Rightarrow> codexUsageResponse option"
  xw_date :: "string \<Rightarrow> int option"
  xw_float :: "string \<Rightarrow> rat option"

definition codex_answer ::
  "codex_world \<Rightarrow> codexProvider \<Rightarrow> string \<Rightarrow> int \<Rightarrow> http_error + response \<Rightarrow> provider \<times> fetch_outcome" where
  "codex_answer w p plan now res = (let blk = (\<lambda>st msg. codexBlock st msg plan [] (to_unix now) (xp_alerts p)) in
     case res of
       Inl e \<Rightarrow> (blk ''error'' (net_msg e), no_cooldown)
     | Inr r \<Rightarrow>
         if resp_Status r = 401 \<or> resp_Status r = 403 then (blk ''auth'' ''run codex'', no_cooldown)
         else if resp_Status r = 429 then
           (let until = cooldown_until (xw_date w) (resp_Header r) now in
            (blk ''error'' (until_msg (xp_loc p) until), \<lparr>out_CooldownUntil = until\<rparr>))
         else if resp_Status r \<noteq> 200 then (blk ''error'' (http_msg (resp_Status r)), no_cooldown)
         else (case xw_decode w (resp_Body r) of
             None \<Rightarrow> (blk ''error'' (http_msg (resp_Status r)), no_cooldown)
           | Some body \<Rightarrow>
               (codexBlock ''ok'' [] (cxr_PlanType body) (parseCodexRows (xw_float w) body now (xp_loc p))
                  (to_unix now) (xp_alerts p), no_cooldown)))"

definition codex_Fetch :: "codex_world \<Rightarrow> codexProvider \<Rightarrow> int \<Rightarrow> provider \<times> fetch_outcome" where
  "codex_Fetch w p now =
     (case ReadCodex (xw_home w) (xw_files w) (xw_auth w) (xw_claims w) (xp_authPath p) (xw_clock w) of
        (c, Some e) \<Rightarrow>
          if e = ErrNotLoggedIn \<or> e = ErrExpired
          then (codexBlock ''auth'' ''run codex'' (cx_PlanType c) [] (to_unix now) (xp_alerts p), no_cooldown)
          else (codexBlock ''error'' ''cred read'' [] [] (to_unix now) (xp_alerts p), no_cooldown)
      | (c, None) \<Rightarrow>
          codex_answer w p (cx_PlanType c) now
            (xw_api w ''GET'' ''https://chatgpt.com/backend-api/wham/usage''
               [(''Authorization'', ''Bearer '' @ cx_AccessToken c), (''ChatGPT-Account-Id'', cx_AccountID c),
                (''User-Agent'', ''codex-cli'')] None))"

subsection \<open>groq.go\<close>

record groqProvider =
  gp_key :: string
  gp_probe :: bool
  gp_alerts :: Alerts

definition groq_block :: "groqProvider \<Rightarrow> string \<Rightarrow> string \<Rightarrow> string \<Rightarrow> row list \<Rightarrow> int \<Rightarrow> provider" where
  "groq_block p status msg plan rows fetchedAt =
     \<lparr>prov_ID = ''groq'', prov_Label = ''Groq'', prov_Plan = plan,
      prov_Kind = (if plan = ''paid'' then ''credit'' else ''free''),
      prov_Severity = Severity status rows (gp_alerts p), prov_Status = status, prov_Msg = msg,
      prov_FetchedAt = fetchedAt, prov_Rows = rows\<rparr>"

definition parseHeaderInt :: "string \<Rightarrow> int" where
  "parseHeaderInt s = (case atoi s of None \<Rightarrow> 0 | Some n \<Rightarrow> n)"

definition shortenNum :: "int \<Rightarrow> string" where
  "shortenNum n = (if n \<ge> 1000 then show_int (quot (wrap64 (n + 500)) 1000) @ ''k'' else show_int n)"

definition groq_limit_row :: "string \<Rightarrow> string \<Rightarrow> int \<Rightarrow> int \<Rightarrow> row option" where
  "groq_limit_row k label limit remaining =
     (if limit > 0
      then (let pct = math_round (fl (fl (100 * fl (of_int (wrap64 (limit - remaining)))) / fl (of_int limit))) in
            Some \<lparr>row_K = k, row_Label = label, row_Pct = Some pct, row_Txt = shortenNum remaining,
                  row_Tier = Tier (Some pct) ''ok'', row_ResetAt = None\<rparr>)
      else None)"

definition parseGroqRateLimits :: "header \<Rightarrow> row list" where
  "parseGroqRateLimits h = List.map_filter id
     [groq_limit_row ''rpd'' ''GROQ rpd''
        (parseHeaderInt (header_get h ''x-ratelimit-limit-requests''))
        (parseHeaderInt (header_get h ''x-ratelimit-remaining-requests'')),
      groq_limit_row ''tpm'' ''GROQ tpm''
        (parseHeaderInt (header_get h ''x-ratelimit-limit-tokens''))
        (parseHeaderInt (header_get h ''x-ratelimit-remaining-tokens''))]"

definition groq_probe_body :: string where
  "groq_probe_body =
     ''{'' @ quoted ''model'' @ '':'' @ quoted ''openai/gpt-oss-20b'' @ '','' @ quoted ''messages'' @ '':[{'' @
     quoted ''role'' @ '':'' @ quoted ''user'' @ '','' @ quoted ''content'' @ '':'' @ quoted ''.'' @ ''}],'' @
     quoted ''max_tokens'' @ '':1}''"

definition groq_Fetch :: "api \<Rightarrow> groqProvider \<Rightarrow> int \<Rightarrow> provider \<times> fetch_outcome" where
  "groq_Fetch call p now =
     (let blk = (\<lambda>st msg plan rows. (groq_block p st msg plan rows (to_unix now), no_cooldown));
          headers = [(''Authorization'', ''Bearer '' @ gp_key p)] in
      case call ''GET'' ''https://api.groq.com/openai/v1/models'' headers None of
        Inl e \<Rightarrow> blk ''error'' (net_msg e) [] []
      | Inr r \<Rightarrow>
          if resp_Status r = 401 \<or> resp_Status r = 403 then blk ''auth'' ''bad key'' [] []
          else if resp_Status r \<noteq> 200 then blk ''error'' (http_msg (resp_Status r)) [] []
          else if \<not> gp_probe p then
            blk ''ok'' [] ''on_demand'' [text_row ''key'' ''GROQ key'' ''ok'']
          else (case call ''POST'' ''https://api.groq.com/openai/v1/chat/completions'' headers
                       (Some groq_probe_body) of
              Inl e \<Rightarrow> blk ''error'' (net_msg e) ''on_demand'' []
            | Inr r2 \<Rightarrow>
                if resp_Status r2 \<noteq> 200 then blk ''error'' (http_msg (resp_Status r2)) ''on_demand'' []
                else blk ''ok'' [] ''on_demand'' (parseGroqRateLimits (resp_Header r2))))"

subsection \<open>opencode.go\<close>

record opencodeWindow =
  ow_Status :: string
  ow_Percent :: int
  ow_ResetsAt :: string

record opencodeUsageResponse =
  ou_Rolling :: opencodeWindow
  ou_Weekly :: opencodeWindow
  ou_Monthly :: opencodeWindow

record opencodeProvider =
  op_key :: string
  op_loc :: location
  op_alerts :: Alerts

definition opencode_block :: "opencodeProvider \<Rightarrow> string \<Rightarrow> string \<Rightarrow> row list \<Rightarrow> int \<Rightarrow> provider" where
  "opencode_block p status msg rows fetchedAt =
     \<lparr>prov_ID = ''opencode:go'', prov_Label = ''OpenCode Go'', prov_Plan = ''plan'', prov_Kind = ''plan'',
      prov_Severity = Severity status rows (op_alerts p), prov_Status = status, prov_Msg = msg,
      prov_FetchedAt = fetchedAt, prov_Rows = rows\<rparr>"

definition opencode_row :: "int \<Rightarrow> location \<Rightarrow> opencodeWindow \<times> string \<times> string \<Rightarrow> row" where
  "opencode_row now loc = (\<lambda>(w, k, label).
     let pct = (if ow_Status w = ''ok'' then Some (ow_Percent w) else None);
         tier = (if ow_Status w = ''ok'' then Tier pct ''ok'' else ''off'');
         reset = (if ow_ResetsAt w \<noteq> [] then parse_rfc3339 (ow_ResetsAt w) else None) in
     \<lparr>row_K = k, row_Label = label, row_Pct = pct,
      row_Txt = (case reset of None \<Rightarrow> ''--'' | Some t \<Rightarrow> ResetTxt t now loc),
      row_Tier = tier, row_ResetAt = map_option to_unix reset\<rparr>)"

definition parseOpenCodeWindows :: "opencodeUsageResponse \<Rightarrow> int \<Rightarrow> location \<Rightarrow> row list" where
  "parseOpenCodeWindows body now loc = map (opencode_row now loc)
     [(ou_Rolling body, ''5h'', ''OCgo 5h''), (ou_Weekly body, ''7d'', ''OCgo 7d''),
      (ou_Monthly body, ''30d'', ''OCgo 30d'')]"

definition opencode_Fetch ::
  "api \<Rightarrow> (string \<Rightarrow> opencodeUsageResponse option) \<Rightarrow> opencodeProvider \<Rightarrow> int \<Rightarrow> provider \<times> fetch_outcome" where
  "opencode_Fetch call decode p now =
     (let blk = (\<lambda>st msg rows. (opencode_block p st msg rows (to_unix now), no_cooldown)) in
      case call ''GET'' ''https://opencode.ai/zen/go/v1/usage'' [(''Authorization'', ''Bearer '' @ op_key p)] None of
        Inl e \<Rightarrow> blk ''error'' (net_msg e) []
      | Inr r \<Rightarrow>
          if resp_Status r = 401 \<or> resp_Status r = 403 then blk ''auth'' ''bad key'' []
          else if resp_Status r \<noteq> 200 then blk ''error'' (http_msg (resp_Status r)) []
          else (case decode (resp_Body r) of
              None \<Rightarrow> blk ''error'' ''parse error'' []
            | Some body \<Rightarrow> blk ''ok'' [] (parseOpenCodeWindows body now (op_loc p))))"

subsection \<open>openrouter.go\<close>

record openRouterProvider =
  or_id :: string
  or_label :: string
  or_key :: string
  or_alerts :: Alerts
  or_lowUSD :: rat

record openrouterCreditsResponse =
  oc_TotalCredits :: rat
  oc_TotalUsage :: rat

record openrouterKeyResponse =
  ok_Limit :: "rat option"
  ok_LimitRemaining :: "rat option"
  ok_UsageDaily :: rat
  ok_IsFreeTier :: bool

definition orPrefix :: "string \<Rightarrow> string" where
  "orPrefix i = (if has_suffix i ''main'' then ''ORmain'' else ''ORfbk'')"

definition openrouter_block :: "openRouterProvider \<Rightarrow> string \<Rightarrow> string \<Rightarrow> string \<Rightarrow> row list \<Rightarrow> int \<Rightarrow> provider" where
  "openrouter_block p status msg plan rows fetchedAt =
     \<lparr>prov_ID = or_id p, prov_Label = or_label p, prov_Plan = plan, prov_Kind = ''credit'',
      prov_Severity = Severity status rows (or_alerts p), prov_Status = status, prov_Msg = msg,
      prov_FetchedAt = fetchedAt, prov_Rows = rows\<rparr>"

definition money_row :: "string \<Rightarrow> string \<Rightarrow> int option \<Rightarrow> int \<Rightarrow> row" where
  "money_row k label pct cents =
     \<lparr>row_K = k, row_Label = label, row_Pct = pct, row_Txt = Money cents,
      row_Tier = (case pct of None \<Rightarrow> ''ok'' | Some _ \<Rightarrow> Tier pct ''ok''), row_ResetAt = None\<rparr>"

text \<open>The first request: the balance row and the balance in cents.\<close>

definition openrouter_balance ::
  "(string \<Rightarrow> openrouterCreditsResponse option) \<Rightarrow> string \<Rightarrow> response \<Rightarrow> row list \<times> int option" where
  "openrouter_balance decode i r =
     (if resp_Status r = 200 then
        (case decode (resp_Body r) of
           None \<Rightarrow> ([], None)
         | Some cr \<Rightarrow>
             if oc_TotalCredits cr > 0 then
               (let bal = Cents (fl (oc_TotalCredits cr - oc_TotalUsage cr));
                    pct = math_round (fl (fl (100 * oc_TotalUsage cr) / oc_TotalCredits cr)) in
                ([money_row ''bal'' (orPrefix i @ '' bal'') (Some pct) bal], Some bal))
             else ([], None))
      else ([], None))"

definition openrouter_key_rows :: "string \<Rightarrow> openrouterKeyResponse \<Rightarrow> row list" where
  "openrouter_key_rows i kr =
     money_row ''day'' (orPrefix i @ '' day'') None (Cents (ok_UsageDaily kr)) #
     (case (ok_Limit kr, ok_LimitRemaining kr) of
        (Some limit, Some remaining) \<Rightarrow>
          (let pct = (if limit > 0 then math_round (fl (fl (100 * fl (limit - remaining)) / limit)) else 0) in
           [money_row ''lim'' (orPrefix i @ '' lim'') (Some pct) (Cents remaining)])
      | _ \<Rightarrow> [])"

text \<open>The low-balance override.\<close>

definition low_balance :: "rat \<Rightarrow> int option \<Rightarrow> provider \<Rightarrow> provider" where
  "low_balance low bal svc =
     (case bal of
        None \<Rightarrow> svc
      | Some c \<Rightarrow>
          if c \<le> 0 then svc\<lparr>prov_Severity := ''crit'', prov_Msg := ''EMPTY - free blocked''\<rparr>
          else if c < Cents low then svc\<lparr>prov_Severity := ''warn'', prov_Msg := ''low '' @ Money c\<rparr>
          else svc)"

definition openrouter_Fetch ::
  "api \<Rightarrow> (string \<Rightarrow> openrouterCreditsResponse option) \<Rightarrow> (string \<Rightarrow> openrouterKeyResponse option) \<Rightarrow>
     openRouterProvider \<Rightarrow> int \<Rightarrow> provider \<times> fetch_outcome" where
  "openrouter_Fetch call decode_credits decode_key p now =
     (let headers = [(''Authorization'', ''Bearer '' @ or_key p)];
          blk = (\<lambda>st msg plan rows. (openrouter_block p st msg plan rows (to_unix now), no_cooldown)) in
      case call ''GET'' ''https://openrouter.ai/api/v1/credits'' headers None of
        Inl e \<Rightarrow> blk ''error'' (net_msg e) [] []
      | Inr r \<Rightarrow>
          (let (rows, bal) = openrouter_balance decode_credits (or_id p) r in
           case call ''GET'' ''https://openrouter.ai/api/v1/key'' headers None of
             Inl e \<Rightarrow> blk ''error'' (net_msg e) [] rows
           | Inr r2 \<Rightarrow>
               if resp_Status r2 = 401 \<or> resp_Status r2 = 403 then blk ''auth'' ''bad key'' [] []
               else if resp_Status r2 \<noteq> 200 then blk ''error'' (http_msg (resp_Status r2)) [] []
               else (case decode_key (resp_Body r2) of
                   None \<Rightarrow> blk ''error'' ''parse error'' [] []
                 | Some kr \<Rightarrow>
                     (low_balance (or_lowUSD p) bal
                        (openrouter_block p ''ok'' [] (if ok_IsFreeTier kr then ''free'' else ''paid'')
                           (rows @ openrouter_key_rows (or_id p) kr) (to_unix now)), no_cooldown))))"

subsection \<open>Every block is inside the v1 contract\<close>

lemma length_show_nat: "n < 10 ^ k \<Longrightarrow> 0 < k \<Longrightarrow> length (show_nat n) \<le> k"
proof (induction k arbitrary: n)
  case (Suc k)
  show ?case
  proof (cases "n < 10")
    case False
    then have "0 < k" using Suc.prems by (cases k) auto
    moreover have "n div 10 < 10 ^ k" using Suc.prems by (simp add: div_less_iff_less_mult mult.commute)
    ultimately show ?thesis using Suc.IH [of "n div 10"] False by (simp add: show_nat.simps [of n])
  qed (simp add: show_nat.simps [of n])
qed simp

lemma length_show_int_nonneg: "0 \<le> i \<Longrightarrow> i < 10 ^ k \<Longrightarrow> 0 < k \<Longrightarrow> length (show_int i) \<le> k"
  by (simp add: show_int_def length_show_nat nat_less_iff)

lemma length_show_int: "- (10 ^ k) < i \<Longrightarrow> i < 10 ^ Suc k \<Longrightarrow> 0 < k \<Longrightarrow> length (show_int i) \<le> Suc k"
  using length_show_nat [of "nat (- i)" k] length_show_nat [of "nat i" "Suc k"]
  by (auto simp: show_int_def nat_less_iff)

lemma rune_count_le: "length s \<le> n \<Longrightarrow> rune_count s \<le> n"
  using rune_count_le_length [of s] by linarith

definition msg_ok :: "string \<Rightarrow> bool" where
  "msg_ok m \<longleftrightarrow> rune_count m \<le> 24"

lemma http_msg_ok: "0 \<le> st \<Longrightarrow> st \<le> 999 \<Longrightarrow> msg_ok (http_msg st)"
  using length_show_int_nonneg [of st 3] by (simp add: msg_ok_def http_msg_def rune_count_le)

lemma until_msg_ok: "msg_ok (until_msg loc t)"
  by (simp add: msg_ok_def until_msg_def rune_count_le)

lemma net_msg_ok: "msg_ok (net_msg e)"
  by (simp add: msg_ok_def net_msg_def rune_count_le split: http_error.split)

lemma fixed_msgs_ok:
  "msg_ok []" "msg_ok ''run claude''" "msg_ok ''run codex''" "msg_ok ''cred read''" "msg_ok ''bad key''"
  "msg_ok ''parse error''" "msg_ok ''no claude source''" "msg_ok ''no statusline data''"
  "msg_ok ''statusline stale''" "msg_ok ''EMPTY - free blocked''"
  by (simp_all add: msg_ok_def rune_count_le)

lemmas msgs_ok = http_msg_ok until_msg_ok net_msg_ok fixed_msgs_ok

lemma statuses_valid: "''ok'' \<in> set validStatuses" "''auth'' \<in> set validStatuses" "''error'' \<in> set validStatuses"
  by (simp_all add: validStatuses_def)

lemma ok_valid: "''ok'' \<in> set validTiers"
  by (simp add: validTiers_def)

lemma off_valid: "''off'' \<in> set validTiers"
  by (simp add: validTiers_def)

lemma quota_row_ok: "length label \<le> 10 \<Longrightarrow> rune_count txt \<le> 11 \<Longrightarrow> row_ok (quota_row k label v txt at')"
  by (simp add: row_ok_def quota_row_def rune_count_le)

lemma text_row_ok: "length label \<le> 10 \<Longrightarrow> length txt \<le> 11 \<Longrightarrow> row_ok (text_row k label txt)"
  by (simp add: row_ok_def text_row_def rune_count_le validTiers_def)

lemma claudeBlock_ok:
  "st \<in> set validStatuses \<Longrightarrow> msg_ok msg \<Longrightarrow> list_all row_ok rows \<Longrightarrow>
     provider_ok (claudeBlock st msg plan rows t a)"
  by (simp add: provider_ok_def claudeBlock_def msg_ok_def list_all_iff canonicalProviderOrder_def validKinds_def)

lemma codexBlock_ok:
  "st \<in> set validStatuses \<Longrightarrow> msg_ok msg \<Longrightarrow> list_all row_ok rows \<Longrightarrow>
     provider_ok (codexBlock st msg plan rows t a)"
  by (simp add: provider_ok_def codexBlock_def msg_ok_def list_all_iff canonicalProviderOrder_def validKinds_def)

lemma groq_block_ok:
  "st \<in> set validStatuses \<Longrightarrow> msg_ok msg \<Longrightarrow> list_all row_ok rows \<Longrightarrow>
     provider_ok (groq_block p st msg plan rows t)"
  by (simp add: provider_ok_def groq_block_def msg_ok_def list_all_iff canonicalProviderOrder_def validKinds_def)

lemma opencode_block_ok:
  "st \<in> set validStatuses \<Longrightarrow> msg_ok msg \<Longrightarrow> list_all row_ok rows \<Longrightarrow>
     provider_ok (opencode_block p st msg rows t)"
  by (simp add: provider_ok_def opencode_block_def msg_ok_def list_all_iff canonicalProviderOrder_def validKinds_def)

lemma openrouter_block_ok:
  "or_id p = ''openrouter:main'' \<or> or_id p = ''openrouter:fallback'' \<Longrightarrow>
   st \<in> set validStatuses \<Longrightarrow> msg_ok msg \<Longrightarrow> list_all row_ok rows \<Longrightarrow>
     provider_ok (openrouter_block p st msg plan rows t)"
  by (auto simp: provider_ok_def openrouter_block_def msg_ok_def list_all_iff canonicalProviderOrder_def validKinds_def)

text \<open>net/http reads a status of three digits.\<close>

definition three_digit :: "api \<Rightarrow> bool" where
  "three_digit call \<longleftrightarrow> (\<forall>m u hs b r. call m u hs b = Inr r \<longrightarrow> 0 \<le> resp_Status r \<and> resp_Status r \<le> 999)"

lemma three_digitD: "three_digit call \<Longrightarrow> call m u hs b = Inr r \<Longrightarrow> 0 \<le> resp_Status r \<and> resp_Status r \<le> 999"
  unfolding three_digit_def by blast

lemma list_all_map_filter: "(\<And>x y. f x = Some y \<Longrightarrow> P y) \<Longrightarrow> list_all P (List.map_filter f xs)"
  by (induction xs) (auto simp: List.map_filter_simps split: option.split)

lemma parseClaudeLimits_ok: "list_all row_ok (parseClaudeLimits up ls now loc)"
  unfolding parseClaudeLimits_def
  by (rule list_all_map_filter)
     (auto simp: claude_limit_row_def Let_def quota_row_ok split: option.splits if_splits)

lemma parseClaudeFallback_ok: "list_all row_ok (parseClaudeFallback body now loc)"
  by (simp add: parseClaudeFallback_def claude_window_row_def Let_def quota_row_ok)

lemma claude_answer_ok:
  assumes "\<And>r. res = Inr r \<Longrightarrow> 0 \<le> resp_Status r \<and> resp_Status r \<le> 999"
  shows "provider_ok (fst (claude_answer w p plan now res))"
  using assms
  by (cases res)
     (auto simp: claude_answer_def Let_def parseClaudeLimits_ok parseClaudeFallback_ok statuses_valid msgs_ok
       intro!: claudeBlock_ok split: option.split)

lemma claude_Fetch_ok:
  assumes "three_digit (cw_api w)"
  shows "provider_ok (fst (fst (claude_Fetch w p now)))"
  by (auto simp: claude_Fetch_def Let_def statuses_valid msgs_ok
      intro!: claudeBlock_ok claude_answer_ok dest: three_digitD [OF assms] split: prod.split option.split)

lemma statusline_Fetch_ok:
  assumes "\<And>r. fb = Some r \<Longrightarrow> provider_ok (fst r)"
  shows "provider_ok (fst (statusline_Fetch src fb loc alerts data modified dec now))"
proof -
  have "list_all row_ok (parseStatuslineRows body now loc)" for body
    by (simp add: parseStatuslineRows_def statusline_row_def quota_row_ok)
  then show ?thesis using assms
    by (cases fb)
       (auto simp: statusline_Fetch_def Let_def statuses_valid msgs_ok intro!: claudeBlock_ok split: option.split)
qed

lemma opencode_Fetch_ok:
  assumes "three_digit call"
  shows "provider_ok (fst (opencode_Fetch call dec p now))"
proof -
  have "row_ok (opencode_row now loc (w, k, label))" if "length label \<le> 10" for w k label loc
    using that by (auto simp: opencode_row_def Let_def row_ok_def rune_count_le off_valid split: option.split)
  then have "list_all row_ok (parseOpenCodeWindows body now loc)" for body loc
    by (simp add: parseOpenCodeWindows_def)
  then show ?thesis
    by (auto simp: opencode_Fetch_def Let_def statuses_valid msgs_ok
        intro!: opencode_block_ok dest: three_digitD [OF assms] split: sum.split option.split)
qed

text \<open>Whatever the keychain, the statusline file, the network and the endpoints answer, the blocks
  fetched for Claude (with or without the statusline file) and for OpenCode are valid in the v1
  contract: known id, status, kind, severity and tiers, and no label, text or message too long.\<close>

theorem Fetch_contract:
  assumes "three_digit (cw_api w)" "three_digit call"
  shows "provider_ok (fst (fst (claude_Fetch w p now))) \<and>
    provider_ok (fst (statusline_Fetch src (if oauth then Some (fst (claude_Fetch w p now)) else None)
      loc alerts data modified decode_line now)) \<and>
    provider_ok (fst (opencode_Fetch call decode q now))"
proof -
  note claude = claude_Fetch_ok [OF assms(1)]
  have "provider_ok (fst r)" if "(if oauth then Some (fst (claude_Fetch w p now)) else None) = Some r" for r
    using that claude [of p now] by (auto split: if_splits)
  with claude show ?thesis by (auto intro!: statusline_Fetch_ok opencode_Fetch_ok assms(2))
qed

definition no_world :: claude_world where
  "no_world = \<lparr>cw_run = FakeRunner [], cw_clock = 0, cw_keychain = (\<lambda>_. None), cw_api = (\<lambda>_ _ _ _. Inl DeadlineExceeded),
     cw_decode = (\<lambda>_. None), cw_date = (\<lambda>_. None), cw_upper = (\<lambda>s. s)\<rparr>"

definition not_found :: api where
  "not_found = (\<lambda>_ _ _ _. Inr \<lparr>resp_Status = 404, resp_Header = [], resp_Body = ''{}''\<rparr>)"

lemma Fetch_contract_witness:
  "provider_ok (fst (opencode_Fetch not_found (\<lambda>_. None)
      \<lparr>op_key = ''k'', op_loc = (\<lambda>_. 0), op_alerts = DefaultAlerts\<rparr> 0)) \<and>
   prov_Msg (fst (opencode_Fetch not_found (\<lambda>_. None)
      \<lparr>op_key = ''k'', op_loc = (\<lambda>_. 0), op_alerts = DefaultAlerts\<rparr> 0)) = ''http 404''"
proof -
  have "three_digit (cw_api no_world)" "three_digit not_found"
    by (simp_all add: three_digit_def no_world_def not_found_def)
  from Fetch_contract [where q = "\<lparr>op_key = ''k'', op_loc = (\<lambda>_. 0), op_alerts = DefaultAlerts\<rparr>"
      and decode = "\<lambda>_. None" and now = 0, OF this]
  have "provider_ok (fst (opencode_Fetch not_found (\<lambda>_. None)
      \<lparr>op_key = ''k'', op_loc = (\<lambda>_. 0), op_alerts = DefaultAlerts\<rparr> 0))" by blast
  moreover have "prov_Msg (fst (opencode_Fetch not_found (\<lambda>_. None)
      \<lparr>op_key = ''k'', op_loc = (\<lambda>_. 0), op_alerts = DefaultAlerts\<rparr> 0)) = ''http 404''"
    by code_simp
  ultimately show ?thesis by blast
qed

subsection \<open>The blocks whose texts grow with the figures\<close>

text \<open>
  The codex labels and texts, the groq texts and the openrouter amounts are printed without a limit;
  they fit their columns while the figures are in these ranges.
\<close>

definition codex_figures_fit :: "(string \<Rightarrow> rat option) \<Rightarrow> codexUsageResponse \<Rightarrow> bool" where
  "codex_figures_fit parse_float b \<longleftrightarrow>
     (\<forall>w \<in> {cxr_PrimaryWindow b, cxr_SecondaryWindow b}.
        0 \<le> cxw_LimitWindowSeconds w \<and> cxw_LimitWindowSeconds w < 36000000) \<and>
     cxr_AvailableCount b < 10000 \<and>
     (\<forall>x. parse_float (cxr_Balance b) = Some x \<longrightarrow> - 1000 \<le> x \<and> x < 9999999)"

definition groq_figures_fit :: "header \<Rightarrow> bool" where
  "groq_figures_fit h \<longleftrightarrow>
     (\<forall>k \<in> {''x-ratelimit-remaining-requests'', ''x-ratelimit-remaining-tokens''}.
        - (10 ^ 9) < parseHeaderInt (header_get h k) \<and> parseHeaderInt (header_get h k) < 10 ^ 12)"

definition cents_fit :: "int \<Rightarrow> bool" where
  "cents_fit c \<longleftrightarrow> - (10 ^ 8) < c \<and> c < 10 ^ 8"

definition credits_fit :: "openrouterCreditsResponse \<Rightarrow> bool" where
  "credits_fit cr \<longleftrightarrow> cents_fit (Cents (fl (oc_TotalCredits cr - oc_TotalUsage cr)))"

definition key_fits :: "openrouterKeyResponse \<Rightarrow> bool" where
  "key_fits kr \<longleftrightarrow> cents_fit (Cents (ok_UsageDaily kr)) \<and>
     (\<forall>x. ok_LimitRemaining kr = Some x \<longrightarrow> cents_fit (Cents x))"

lemma length_show_fixed_1:
  assumes "\<bar>x\<bar> \<le> 1000"
  shows "length (show_fixed 1 x) \<le> 7"
proof -
  have "round_even (\<bar>x\<bar> * 10) \<le> 10000" "0 \<le> round_even (\<bar>x\<bar> * 10)"
    using assms by (auto intro!: round_even_le round_even_ge)
  then have "length (show_nat (nat (round_even (\<bar>x\<bar> * 10) div 10))) \<le> 4"
    by (intro length_show_nat) (simp_all add: nat_less_iff div_less_iff_less_mult)
  moreover have "length (show_nat (nat (round_even (\<bar>x\<bar> * 10) mod 10))) \<le> 1"
    by (intro length_show_nat) (simp_all add: nat_less_iff)
  ultimately show ?thesis by (cases "x < 0") (simp_all add: show_fixed_def Let_def)
qed

lemma length_Credits:
  assumes "- 1000 \<le> x" "x < 9999999"
  shows "length (Credits x) \<le> 11"
proof (cases "x < 10")
  case True
  then have "\<bar>x\<bar> \<le> 1000" using assms(1) by linarith
  from length_show_fixed_1 [OF this] True show ?thesis by (simp add: Credits_def)
next
  case False
  then have "0 \<le> math_round x" "math_round x < 10 ^ 8"
    using assms math_round_le [of x 9999999] math_round_ge [of x 0] by simp_all
  then show ?thesis using False length_show_int_nonneg [of "math_round x" 8] by (simp add: Credits_def)
qed

lemma codex_window_row_ok:
  assumes "codex_window_row now loc w = Some r" "0 \<le> cxw_LimitWindowSeconds w" "cxw_LimitWindowSeconds w < 36000000"
  shows "row_ok r"
proof -
  have "length (show_int (quot (cxw_LimitWindowSeconds w) 3600)) \<le> 5"
    using assms(2,3) by (intro length_show_int_nonneg) (simp_all add: quot_nonneg pos_imp_zdiv_nonneg_iff div_less_iff_less_mult)
  then show ?thesis
    using assms(1) by (auto simp: codex_window_row_def Let_def quota_row_ok split: if_splits)
qed

lemma set_codex_windows: "set (codex_windows b) = {cxr_PrimaryWindow b, cxr_SecondaryWindow b}"
  by (auto simp: codex_windows_def)

lemma list_all_map_filter_set:
  "(\<And>x y. x \<in> set xs \<Longrightarrow> f x = Some y \<Longrightarrow> P y) \<Longrightarrow> list_all P (List.map_filter f xs)"
  by (induction xs) (auto simp: List.map_filter_simps split: option.split)

lemma parseCodexRows_ok:
  assumes "codex_figures_fit pf b"
  shows "list_all row_ok (parseCodexRows pf b now loc)"
proof -
  have "list_all row_ok (List.map_filter (codex_window_row now loc) (codex_windows b))"
    using assms by (intro list_all_map_filter_set)
      (auto simp: set_codex_windows codex_figures_fit_def intro: codex_window_row_ok)
  moreover have "length (Credits (case pf (cxr_Balance b) of None \<Rightarrow> 0 | Some x \<Rightarrow> x)) \<le> 11"
    using assms by (intro length_Credits) (auto simp: codex_figures_fit_def split: option.split)
  moreover have "length (show_int (cxr_AvailableCount b)) \<le> 4" if "0 < cxr_AvailableCount b"
    using assms that by (intro length_show_int_nonneg) (simp_all add: codex_figures_fit_def)
  ultimately show ?thesis by (auto simp: parseCodexRows_def intro!: text_row_ok)
qed

lemma codex_Fetch_ok:
  assumes "three_digit (xw_api w)" "\<And>s b. xw_decode w s = Some b \<Longrightarrow> codex_figures_fit (xw_float w) b"
  shows "provider_ok (fst (codex_Fetch w p now))"
  by (auto simp: codex_Fetch_def codex_answer_def Let_def statuses_valid msgs_ok
      intro!: codexBlock_ok parseCodexRows_ok
      dest: three_digitD [OF assms(1)] assms(2) split: prod.split sum.split option.split)

lemma groq_limit_row_ok:
  assumes "groq_limit_row k label n rem = Some r" "length label \<le> 10" "- (10 ^ 9) < rem" "rem < 10 ^ 12"
  shows "row_ok r"
proof -
  have "length (shortenNum rem) \<le> 11"
  proof (cases "rem < 1000")
    case True
    then show ?thesis using length_show_int [of 9 rem] assms(3) by (simp add: shortenNum_def)
  next
    case False
    then have "length (show_int (quot (wrap64 (rem + 500)) 1000)) \<le> 10" using assms(4)
      by (intro length_show_int_nonneg)
         (simp_all add: wrap64_id quot_nonneg pos_imp_zdiv_nonneg_iff div_less_iff_less_mult)
    then show ?thesis using False by (simp add: shortenNum_def)
  qed
  then show ?thesis using assms(1,2)
    by (auto simp: groq_limit_row_def Let_def row_ok_def rune_count_le split: if_splits)
qed

lemma parseGroqRateLimits_ok: "groq_figures_fit h \<Longrightarrow> list_all row_ok (parseGroqRateLimits h)"
  unfolding parseGroqRateLimits_def
  by (rule list_all_map_filter_set) (auto simp: groq_figures_fit_def intro: groq_limit_row_ok)

lemma groq_Fetch_ok:
  assumes "three_digit call" "\<And>m u hs b r. call m u hs b = Inr r \<Longrightarrow> groq_figures_fit (resp_Header r)"
  shows "provider_ok (fst (groq_Fetch call p now))"
  by (auto simp: groq_Fetch_def Let_def statuses_valid msgs_ok
      intro!: groq_block_ok parseGroqRateLimits_ok text_row_ok
      dest: three_digitD [OF assms(1)] assms(2) split: sum.split)

lemma length_Money: "cents_fit c \<Longrightarrow> length (Money c) \<le> 11"
proof -
  assume "cents_fit c"
  then have "length (show_nat (nat (\<bar>c\<bar> div 100))) \<le> 6"
    by (intro length_show_nat) (auto simp: cents_fit_def nat_less_iff div_less_iff_less_mult)
  moreover have "length (show_nat2 (nat (\<bar>c\<bar> mod 100))) = 2"
    by (rule length_show_nat2) (simp add: nat_less_iff)
  ultimately show ?thesis by (cases "c < 0") (simp_all add: Money_abs)
qed

lemma money_row_ok: "length label \<le> 10 \<Longrightarrow> cents_fit c \<Longrightarrow> row_ok (money_row k label pct c)"
  by (auto simp: row_ok_def money_row_def rune_count_le length_Money ok_valid split: option.split)

lemma length_orPrefix: "length (orPrefix i) \<le> 6"
  by (simp add: orPrefix_def)

lemma openrouter_balance_ok:
  assumes "openrouter_balance dec i r = (rows, bal)" "\<And>s cr. dec s = Some cr \<Longrightarrow> credits_fit cr"
  shows "list_all row_ok rows \<and> (\<forall>c. bal = Some c \<longrightarrow> cents_fit c)"
  using assms(1) length_orPrefix [of i]
  by (auto simp: openrouter_balance_def Let_def dest!: assms(2) [unfolded credits_fit_def]
      intro!: money_row_ok split: if_splits option.splits)

lemma openrouter_key_rows_ok: "key_fits kr \<Longrightarrow> list_all row_ok (openrouter_key_rows i kr)"
  using length_orPrefix [of i]
  by (auto simp: openrouter_key_rows_def key_fits_def Let_def intro!: money_row_ok split: option.split)

lemma low_balance_ok:
  assumes "provider_ok p" "\<And>c. bal = Some c \<Longrightarrow> cents_fit c"
  shows "provider_ok (low_balance low bal p)"
  using assms length_Money
  by (fastforce simp: low_balance_def provider_ok_def validSeverities_def intro: rune_count_le split: option.split)

lemma openrouter_Fetch_ok:
  assumes "three_digit call" "or_id p = ''openrouter:main'' \<or> or_id p = ''openrouter:fallback''"
    "\<And>s cr. dc s = Some cr \<Longrightarrow> credits_fit cr" "\<And>s kr. dk s = Some kr \<Longrightarrow> key_fits kr"
  shows "provider_ok (fst (openrouter_Fetch call dc dk p now))"
  by (auto simp: openrouter_Fetch_def Let_def statuses_valid msgs_ok
      intro!: openrouter_block_ok [OF assms(2)] low_balance_ok openrouter_key_rows_ok
      dest: three_digitD [OF assms(1)] openrouter_balance_ok [OF _ assms(3)] assms(4)
      split: sum.split prod.split option.split)

text \<open>The blocks of Codex, Groq and OpenRouter are valid in the v1 contract for every outcome of
  credentials, network and endpoint as long as the figures of an answer fit their columns: codex
  windows below 10000 hours, counts below 10000 and credits below ten million, groq headroom below
  10^12, openrouter amounts below a million dollars.\<close>

theorem Fetch_contract_in_range:
  assumes "three_digit (xw_api w)" "three_digit call"
    and "\<And>s b. xw_decode w s = Some b \<Longrightarrow> codex_figures_fit (xw_float w) b"
    and "\<And>m u hs b r. call m u hs b = Inr r \<Longrightarrow> groq_figures_fit (resp_Header r)"
    and "or_id q = ''openrouter:main'' \<or> or_id q = ''openrouter:fallback''"
    and "\<And>s cr. dc s = Some cr \<Longrightarrow> credits_fit cr" "\<And>s kr. dk s = Some kr \<Longrightarrow> key_fits kr"
  shows "provider_ok (fst (codex_Fetch w p now)) \<and> provider_ok (fst (groq_Fetch call g now)) \<and>
    provider_ok (fst (openrouter_Fetch call dc dk q now))"
proof (intro conjI)
  show "provider_ok (fst (codex_Fetch w p now))" using assms(1,3) by (rule codex_Fetch_ok)
  show "provider_ok (fst (groq_Fetch call g now))" using assms(2,4) by (rule groq_Fetch_ok)
  show "provider_ok (fst (openrouter_Fetch call dc dk q now))" using assms(2,5-7) by (rule openrouter_Fetch_ok)
qed

definition demo_codex_world :: codex_world where
  "demo_codex_world = \<lparr>xw_home = None, xw_files = (\<lambda>_. None), xw_clock = 0, xw_auth = (\<lambda>_. None),
     xw_claims = (\<lambda>_. None), xw_api = not_found, xw_decode = (\<lambda>_. None), xw_date = (\<lambda>_. None),
     xw_float = (\<lambda>_. None)\<rparr>"

lemma Fetch_contract_in_range_witness:
  "provider_ok (fst (groq_Fetch not_found \<lparr>gp_key = ''k'', gp_probe = True, gp_alerts = DefaultAlerts\<rparr> 0)) \<and>
   prov_Status (fst (groq_Fetch not_found \<lparr>gp_key = ''k'', gp_probe = True, gp_alerts = DefaultAlerts\<rparr> 0)) = ''error''"
proof -
  have "three_digit (xw_api demo_codex_world)" "three_digit not_found"
    by (simp_all add: three_digit_def demo_codex_world_def not_found_def)
  moreover have "groq_figures_fit (resp_Header r)" if "not_found m u hs b = Inr r" for m u hs b r
    using that by (auto simp: not_found_def groq_figures_fit_def header_get_def parseHeaderInt_def atoi_def
        has_prefix_def read_nat_def Let_def)
  ultimately have "provider_ok (fst (groq_Fetch not_found \<lparr>gp_key = ''k'', gp_probe = True, gp_alerts = DefaultAlerts\<rparr> 0))"
    using Fetch_contract_in_range [where w = demo_codex_world and call = not_found and
        q = "\<lparr>or_id = ''openrouter:main'', or_label = [], or_key = [], or_alerts = DefaultAlerts, or_lowUSD = 1\<rparr>" and
        dc = "\<lambda>_. None" and dk = "\<lambda>_. None" and now = 0 and
        g = "\<lparr>gp_key = ''k'', gp_probe = True, gp_alerts = DefaultAlerts\<rparr>"]
    by (simp add: demo_codex_world_def)
  moreover have "prov_Status (fst (groq_Fetch not_found
      \<lparr>gp_key = ''k'', gp_probe = True, gp_alerts = DefaultAlerts\<rparr> 0)) = ''error''" by code_simp
  ultimately show ?thesis by blast
qed

subsection \<open>What the rows mean\<close>

text \<open>Codex windows are told apart by their length alone: when the two lengths differ, exchanging the
  primary and the secondary window of the reply changes no row and no order.\<close>

theorem parseCodexRows_position:
  assumes "cxw_LimitWindowSeconds (cxr_PrimaryWindow b) \<noteq> cxw_LimitWindowSeconds (cxr_SecondaryWindow b)"
  shows "parseCodexRows pf (b\<lparr>cxr_PrimaryWindow := cxr_SecondaryWindow b,
      cxr_SecondaryWindow := cxr_PrimaryWindow b\<rparr>) now loc = parseCodexRows pf b now loc"
proof -
  have "codex_windows (b\<lparr>cxr_PrimaryWindow := cxr_SecondaryWindow b, cxr_SecondaryWindow := cxr_PrimaryWindow b\<rparr>) =
      codex_windows b"
    using assms by (auto simp: codex_windows_def slice_stable_def)
  then show ?thesis by (simp add: parseCodexRows_def)
qed

definition demo_codex_reply :: codexUsageResponse where
  "demo_codex_reply = \<lparr>cxr_PlanType = ''plus'',
     cxr_PrimaryWindow = \<lparr>cxw_UsedPercent = 7, cxw_LimitWindowSeconds = 604800, cxw_ResetAt = 900\<rparr>,
     cxr_SecondaryWindow = \<lparr>cxw_UsedPercent = 42, cxw_LimitWindowSeconds = 18000, cxw_ResetAt = 90\<rparr>,
     cxr_HasCredits = False, cxr_Unlimited = False, cxr_Balance = [], cxr_AvailableCount = 2\<rparr>"

lemma parseCodexRows_position_witness:
  "parseCodexRows (\<lambda>_. None) (demo_codex_reply\<lparr>cxr_PrimaryWindow := cxr_SecondaryWindow demo_codex_reply,
      cxr_SecondaryWindow := cxr_PrimaryWindow demo_codex_reply\<rparr>) 0 (\<lambda>_. 0) =
     parseCodexRows (\<lambda>_. None) demo_codex_reply 0 (\<lambda>_. 0) \<and>
   map row_Label (parseCodexRows (\<lambda>_. None) demo_codex_reply 0 (\<lambda>_. 0)) = [''GPT 5h'', ''GPT 7d'', ''GPT rst'']"
proof -
  have "cxw_LimitWindowSeconds (cxr_PrimaryWindow demo_codex_reply) \<noteq>
      cxw_LimitWindowSeconds (cxr_SecondaryWindow demo_codex_reply)"
    by (simp add: demo_codex_reply_def)
  from parseCodexRows_position [OF this] show ?thesis by (rule conjI) code_simp
qed

text \<open>The low-balance rule can lower an alarm: with two dollars as the threshold and 999 of 1000
  dollars used, the rows make the provider critical (100 \%) and the fetched block says warn.\<close>

theorem low_balance_downgrades:
  "(\<exists>p. fst (openrouter_Fetch (\<lambda>_ _ _ _. Inr \<lparr>resp_Status = 200, resp_Header = [], resp_Body = []\<rparr>)
      (\<lambda>_. Some \<lparr>oc_TotalCredits = 1000, oc_TotalUsage = 999\<rparr>)
      (\<lambda>_. Some \<lparr>ok_Limit = None, ok_LimitRemaining = None, ok_UsageDaily = 0, ok_IsFreeTier = False\<rparr>)
      \<lparr>or_id = ''openrouter:main'', or_label = ''OpenRouter'', or_key = ''k'', or_alerts = DefaultAlerts, or_lowUSD = 2\<rparr>
      now) = p \<and>
    Severity (prov_Status p) (prov_Rows p) DefaultAlerts = ''crit'' \<and>
    prov_Severity p = ''warn'' \<and> prov_Msg p = ''low $1.00'')"
proof -
  have n: "fl (1000 - 999) = 1" "fl 99900 = 99900" "fl 0 = 0" "fl (1 * 100) = 100" "fl (2 * 100) = 200"
    using fl_numeral [of "num.Bit0 num.One"] by (simp_all add: fl_numeral)
  have "\<bar>fl (999 / 10) - 999 / 10\<bar> \<le> 1 / 10"
    by (rule order_trans [OF fl_error]) simp
  then have "998 / 10 \<le> fl (999 / 10)" "fl (999 / 10) \<le> 100" by linarith+
  then have pct: "math_round (fl (999 / 10)) = 100"
    by (intro antisym math_round_le math_round_ge) simp_all
  have cents: "Cents 1 = 100" "Cents 2 = 200" "Cents 0 = 0"
    using math_round_of_int [of 100] math_round_of_int [of 200] math_round_of_int [of 0]
    by (simp_all add: Cents_def fl_numeral)
  have "Money 100 = ''$1.00''" by code_simp
  then show ?thesis
    by (simp add: openrouter_Fetch_def openrouter_balance_def low_balance_def openrouter_block_def
        openrouter_key_rows_def money_row_def Severity_def pct_at_least_def n pct cents Let_def)
qed

text \<open>An answer of status 200 without any of the fields the Claude fetcher reads (\<open>{}\<close>, all fields at
  their zero values) is shown as a healthy provider with 0 \% used in both windows, instead of an error.\<close>

theorem claude_empty_reply:
  assumes "cw_decode w (resp_Body r) =
      Some \<lparr>cu_Limits = [], cu_FiveHour = \<lparr>win_Utilization = 0, win_ResetsAt = []\<rparr>,
        cu_SevenDay = \<lparr>win_Utilization = 0, win_ResetsAt = []\<rparr>\<rparr>"
    and "resp_Status r = 200" "0 < Warn5hPct (cp_alerts p)" "0 < WarnWeeklyPct (cp_alerts p)"
  shows "map (\<lambda>b. (prov_Status b, prov_Severity b, map (\<lambda>x. (row_K x, row_Pct x, row_Txt x)) (prov_Rows b)))
      [fst (claude_answer w p plan now (Inr r))] =
    [(''ok'', ''ok'', [(''5h'', Some 0, ''--''), (''7d'', Some 0, ''--'')])]"
  using assms math_round_of_int [of 0]
  by (simp add: claude_answer_def Let_def parseClaudeFallback_def claude_window_row_def quota_row_def
      parse_rfc3339_empty claudeBlock_def Severity_def pct_at_least_def WarnPctFor_def ResetTxt_def is_zero_def)

definition empty_reply_world :: claude_world where
  "empty_reply_world = no_world\<lparr>cw_decode := (\<lambda>_. Some \<lparr>cu_Limits = [],
     cu_FiveHour = \<lparr>win_Utilization = 0, win_ResetsAt = []\<rparr>,
     cu_SevenDay = \<lparr>win_Utilization = 0, win_ResetsAt = []\<rparr>\<rparr>)\<rparr>"

lemma claude_empty_reply_witness:
  "prov_Status (fst (claude_answer empty_reply_world
      \<lparr>cp_username = [], cp_loc = (\<lambda>_. 0), cp_ua = [], cp_uaSet = True, cp_alerts = DefaultAlerts\<rparr> [] 0
      (Inr \<lparr>resp_Status = 200, resp_Header = [], resp_Body = ''{}''\<rparr>))) = ''ok''"
  using claude_empty_reply [of empty_reply_world "\<lparr>resp_Status = 200, resp_Header = [], resp_Body = ''{}''\<rparr>"
      "\<lparr>cp_username = [], cp_loc = (\<lambda>_. 0), cp_ua = [], cp_uaSet = True, cp_alerts = DefaultAlerts\<rparr>" "[]" 0]
  by (simp add: empty_reply_world_def DefaultAlerts_def)

end
