(* ===== verification/Config_Yaml.thy ===== *)
theory Config_Yaml
  imports Go_Date "HOL-Library.AList"
begin

text \<open>
  internal/config, yaml.go and serialize.go: the restricted YAML of config.yaml, read with line
  numbers in every error, and its printer.  \<open>strconv.ParseFloat\<close> and \<open>strconv.FormatFloat(v, 'f', -1, 64)\<close>
  are parameters of the definitions that use them.
\<close>

subsection \<open>The data\<close>

record planConfig =
  pc_Cost :: rat
  pc_Currency :: string
  pc_CostUSD :: rat
  pc_HasCostUSD :: bool
  pc_Label :: string

record yamlProvider =
  yp_ID :: string
  yp_Enabled :: bool
  yp_Label :: string
  yp_KeyEnv :: string
  yp_Probe :: bool
  yp_HasProbe :: bool
  yp_Plan :: "planConfig option"

record fileConfig =
  fc_IntervalSec :: int
  fc_Listen :: string
  fc_DeviceToken :: string
  fc_TZ :: string
  fc_Alerts :: "(string \<times> rat) list"
  fc_Providers :: "yamlProvider list"
  fc_ProviderOrder :: "string list"

definition no_plan :: planConfig where
  "no_plan = \<lparr>pc_Cost = 0, pc_Currency = [], pc_CostUSD = 0, pc_HasCostUSD = False, pc_Label = []\<rparr>"

definition new_provider :: yamlProvider where
  "new_provider = \<lparr>yp_ID = [], yp_Enabled = True, yp_Label = [], yp_KeyEnv = [], yp_Probe = False,
     yp_HasProbe = False, yp_Plan = None\<rparr>"

definition empty_file :: fileConfig where
  "empty_file = \<lparr>fc_IntervalSec = 0, fc_Listen = [], fc_DeviceToken = [], fc_TZ = [], fc_Alerts = [],
     fc_Providers = [], fc_ProviderOrder = []\<rparr>"

text \<open>The errors, with the number of the line.\<close>

datatype yaml_error =
    TabNotAllowed nat
  | UnexpectedIndent nat
  | NotKeyValue nat string
  | ValueRequired nat string
  | NotAnInteger nat string
  | NotANumber nat string
  | NotABool nat string
  | MustNest nat string
  | UnknownKey nat string
  | NoMapEntries
  | WrongIndent nat nat
  | NestedNotScalar nat string
  | EmptyPlan nat
  | KeyValueInKeyEnv nat
  | LiteralKey nat
  | MissingId nat
  | DuplicateProvider string

record yamlLine =
  yl_indent :: nat
  yl_content :: string
  yl_lineNo :: nat

subsection \<open>Lines\<close>

definition tab :: char where "tab = CHR 0x09"
definition dquote :: char where "dquote = CHR 0x22"
definition nl :: char where "nl = CHR 0x0A"
definition backslash :: char where "backslash = CHR 0x5C"

fun strip_comment_from :: "bool \<Rightarrow> string \<Rightarrow> string" where
  "strip_comment_from q [] = []"
| "strip_comment_from q (c # cs) =
     (let q' = (if c = dquote then \<not> q else q) in
      if c = CHR ''#'' \<and> \<not> q' then [] else c # strip_comment_from q' cs)"

definition stripInlineComment :: "string \<Rightarrow> string" where
  "stripInlineComment line = strip_comment_from False line"

fun lex_lines :: "nat \<Rightarrow> string list \<Rightarrow> yaml_error + yamlLine list" where
  "lex_lines n [] = Inr []"
| "lex_lines n (raw # rest) =
     (if tab \<in> set raw then Inl (TabNotAllowed n)
      else (let content = trim_right_char (CHR '' '') (stripInlineComment raw) in
        if content = [] then lex_lines (Suc n) rest
        else (let trimmed = trim_left_char (CHR '' '') content in
          bind_result (lex_lines (Suc n) rest)
            (\<lambda>ls. Inr (\<lparr>yl_indent = length content - length trimmed, yl_content = trimmed, yl_lineNo = n\<rparr> # ls)))))"

definition lexYAML :: "string \<Rightarrow> yaml_error + yamlLine list" where
  "lexYAML text = lex_lines 1 (split_char nl text)"

definition splitKV :: "string \<Rightarrow> (string \<times> string) option" where
  "splitKV s = (if CHR '':'' \<notin> set s then None
     else Some (trim_space (takeWhile (\<lambda>c. c \<noteq> CHR '':'') s),
                trim_space (tl (dropWhile (\<lambda>c. c \<noteq> CHR '':'') s))))"

definition unquote :: "string \<Rightarrow> string" where
  "unquote s0 = (let s = trim_space s0 in
     if length s \<ge> 2 \<and> hd s = dquote \<and> last s = dquote then butlast (tl s) else s)"

subsection \<open>Blocks\<close>

definition validAlertKeys :: "string list" where
  "validAlertKeys = [''openrouter_low_usd'', ''quota_warn_pct'', ''quota_warn_5h_pct'', ''quota_warn_weekly_pct'']"

text \<open>The loop of \<open>parseScalarMap\<close> at indentation \<open>n\<close>.\<close>

fun scalar_map_from ::
  "(string \<Rightarrow> rat option) \<Rightarrow> nat \<Rightarrow> yamlLine list \<Rightarrow> (string \<times> rat) list \<Rightarrow>
     yaml_error + (string \<times> rat) list \<times> yamlLine list" where
  "scalar_map_from pf n [] m = Inr (m, [])"
| "scalar_map_from pf n (l # rest) m =
     (if yl_indent l \<noteq> n then Inr (m, l # rest)
      else (case splitKV (yl_content l) of
          None \<Rightarrow> Inl (NotKeyValue (yl_lineNo l) (yl_content l))
        | Some (key, value) \<Rightarrow>
            if value = [] then Inl (NestedNotScalar (yl_lineNo l) key)
            else if key \<notin> set validAlertKeys then Inl (UnknownKey (yl_lineNo l) key)
            else (case pf value of
                None \<Rightarrow> Inl (NotANumber (yl_lineNo l) value)
              | Some f \<Rightarrow> scalar_map_from pf n rest (AList.update key f m))))"

definition parseScalarMap ::
  "(string \<Rightarrow> rat option) \<Rightarrow> yamlLine list \<Rightarrow> yaml_error + (string \<times> rat) list \<times> yamlLine list" where
  "parseScalarMap pf lines =
     (case lines of
        [] \<Rightarrow> Inl NoMapEntries
      | l # _ \<Rightarrow>
          if yl_indent l \<noteq> 2 then Inl (WrongIndent (yl_lineNo l) (yl_indent l))
          else scalar_map_from pf (yl_indent l) lines [])"

definition is_item :: "nat \<Rightarrow> yamlLine \<Rightarrow> bool" where
  "is_item n l \<longleftrightarrow> yl_indent l = n \<and> has_prefix (yl_content l) ''- ''"

definition parseStringList :: "yamlLine list \<Rightarrow> yaml_error + string list \<times> yamlLine list" where
  "parseStringList lines =
     (case lines of
        [] \<Rightarrow> Inr ([], [])
      | l # _ \<Rightarrow>
          if yl_indent l \<noteq> 2 then Inl (WrongIndent (yl_lineNo l) (yl_indent l))
          else Inr (map (\<lambda>i. unquote (trim_space (trim_prefix (yl_content i) ''- ''))) (takeWhile (is_item 2) lines),
                    dropWhile (is_item 2) lines))"

fun plan_fields ::
  "(string \<Rightarrow> rat option) \<Rightarrow> nat \<Rightarrow> yamlLine list \<Rightarrow> planConfig \<Rightarrow> yaml_error + planConfig \<times> yamlLine list" where
  "plan_fields pf n [] pc = Inr (pc, [])"
| "plan_fields pf n (l # rest) pc =
     (if yl_indent l \<noteq> n then Inr (pc, l # rest)
      else (case splitKV (yl_content l) of
          None \<Rightarrow> Inl (NotKeyValue (yl_lineNo l) (yl_content l))
        | Some (key, value) \<Rightarrow>
            if key = ''cost'' then
              (case pf value of None \<Rightarrow> Inl (NotANumber (yl_lineNo l) value)
               | Some f \<Rightarrow> plan_fields pf n rest (pc\<lparr>pc_Cost := f\<rparr>))
            else if key = ''currency'' then
              (if value = [] then Inl (ValueRequired (yl_lineNo l) key)
               else plan_fields pf n rest (pc\<lparr>pc_Currency := unquote value\<rparr>))
            else if key = ''cost_usd'' then
              (case pf value of None \<Rightarrow> Inl (NotANumber (yl_lineNo l) value)
               | Some f \<Rightarrow> plan_fields pf n rest (pc\<lparr>pc_CostUSD := f, pc_HasCostUSD := True\<rparr>))
            else if key = ''label'' then
              (if value = [] then Inl (ValueRequired (yl_lineNo l) key)
               else plan_fields pf n rest (pc\<lparr>pc_Label := unquote value\<rparr>))
            else Inl (UnknownKey (yl_lineNo l) key)))"

definition parsePlanBlock ::
  "(string \<Rightarrow> rat option) \<Rightarrow> nat \<Rightarrow> nat \<Rightarrow> yamlLine list \<Rightarrow> yaml_error + planConfig \<times> yamlLine list" where
  "parsePlanBlock pf n parentLineNo lines =
     (case lines of
        [] \<Rightarrow> Inl (EmptyPlan parentLineNo)
      | l # _ \<Rightarrow>
          if yl_indent l \<noteq> n then Inl (WrongIndent (yl_lineNo l) (yl_indent l))
          else plan_fields pf n lines no_plan)"

definition parse_bool :: "string \<Rightarrow> bool option" where
  "parse_bool s =
     (if s \<in> set [''1'', ''t'', ''T'', ''TRUE'', ''true'', ''True''] then Some True
      else if s \<in> set [''0'', ''f'', ''F'', ''FALSE'', ''false'', ''False''] then Some False
      else None)"

definition setProviderField ::
  "yamlProvider \<Rightarrow> string \<Rightarrow> string \<Rightarrow> nat \<Rightarrow> yaml_error + yamlProvider" where
  "setProviderField p key value n =
     (if key = ''id'' then Inr (p\<lparr>yp_ID := unquote value\<rparr>)
      else if key = ''enabled'' then
        (case parse_bool value of None \<Rightarrow> Inl (NotABool n value) | Some b \<Rightarrow> Inr (p\<lparr>yp_Enabled := b\<rparr>))
      else if key = ''label'' then Inr (p\<lparr>yp_Label := unquote value\<rparr>)
      else if key = ''key_env'' then
        (let envName = unquote value in
         if has_prefix envName ''sk-'' \<or> has_prefix envName ''gsk_'' then Inl (KeyValueInKeyEnv n)
         else Inr (p\<lparr>yp_KeyEnv := envName\<rparr>))
      else if key = ''probe'' then
        (case parse_bool value of None \<Rightarrow> Inl (NotABool n value)
         | Some b \<Rightarrow> Inr (p\<lparr>yp_Probe := b, yp_HasProbe := True\<rparr>))
      else if key = ''key'' then Inl (LiteralKey n)
      else if key = ''plan'' then Inl (MustNest n value)
      else Inl (UnknownKey n key))"

lemma plan_fields_rest: "plan_fields pf n ls pc = Inr (pc', rest) \<Longrightarrow> length rest \<le> length ls"
  by (induction ls arbitrary: pc) (auto split: if_splits option.splits prod.splits dest!: le_SucI)

lemma parsePlanBlock_rest: "parsePlanBlock pf n k ls = Inr (pc, rest) \<Longrightarrow> length rest \<le> length ls"
  by (auto simp: parsePlanBlock_def simp del: plan_fields.simps dest!: plan_fields_rest split: list.splits if_splits)

lemma scalar_map_rest: "scalar_map_from pf n ls m = Inr (m', rest) \<Longrightarrow> length rest \<le> length ls"
  by (induction ls arbitrary: m) (auto split: if_splits option.splits prod.splits dest!: le_SucI)

text \<open>The continuation lines of an item.\<close>

function continuation ::
  "(string \<Rightarrow> rat option) \<Rightarrow> nat \<Rightarrow> yamlLine list \<Rightarrow> yamlProvider \<Rightarrow> yaml_error + yamlProvider \<times> yamlLine list" where
  "continuation pf n lines p =
     (case lines of
        [] \<Rightarrow> Inr (p, [])
      | l # rest \<Rightarrow>
          if yl_indent l \<noteq> n then Inr (p, l # rest)
          else (case splitKV (yl_content l) of
              None \<Rightarrow> Inl (NotKeyValue (yl_lineNo l) (yl_content l))
            | Some (k, v) \<Rightarrow>
                if k = ''plan'' \<and> v = [] then
                  (case parsePlanBlock pf (n + 2) (yl_lineNo l) rest of
                     Inl e \<Rightarrow> Inl e
                   | Inr (plan, rest') \<Rightarrow> continuation pf n rest' (p\<lparr>yp_Plan := Some plan\<rparr>))
                else (case setProviderField p k v (yl_lineNo l) of
                     Inl e \<Rightarrow> Inl e
                   | Inr p' \<Rightarrow> continuation pf n rest p')))"
  by pat_completeness auto

termination
  by (relation "measure (\<lambda>(pf, n, lines, p). length lines)") (auto dest: parsePlanBlock_rest)

declare continuation.simps [simp del]

lemma continuation_rest: "continuation pf n ls p = Inr (p', rest) \<Longrightarrow> length rest \<le> length ls"
proof (induction pf n ls p rule: continuation.induct)
  case (1 pf n lines p)
  show ?case
  proof (cases lines)
    case Nil
    then show ?thesis using 1(3) by (simp add: continuation.simps [of pf n "[]"])
  next
    case (Cons l ls)
    from 1 show ?thesis unfolding Cons
      by (subst (asm) (3) continuation.simps)
         (fastforce split: if_splits option.splits prod.splits sum.splits dest: parsePlanBlock_rest)
  qed
qed

function provider_items ::
  "(string \<Rightarrow> rat option) \<Rightarrow> nat \<Rightarrow> yamlLine list \<Rightarrow> yaml_error + yamlProvider list \<times> yamlLine list" where
  "provider_items pf n lines =
     (case lines of
        [] \<Rightarrow> Inr ([], [])
      | l # rest \<Rightarrow>
          if \<not> is_item n l then Inr ([], l # rest)
          else (case (case splitKV (trim_prefix (yl_content l) ''- '') of
                   None \<Rightarrow> Inr new_provider
                 | Some (key, value) \<Rightarrow> setProviderField new_provider key value (yl_lineNo l)) of
              Inl e \<Rightarrow> Inl e
            | Inr p \<Rightarrow>
                (case continuation pf (n + 2) rest p of
                   Inl e \<Rightarrow> Inl e
                 | Inr (p', rest') \<Rightarrow>
                     bind_result (provider_items pf n rest') (\<lambda>(ps, r). Inr (p' # ps, r)))))"
  by pat_completeness auto

termination
  by (relation "measure (\<lambda>(pf, n, lines). length lines)") (auto dest: continuation_rest)

declare provider_items.simps [simp del]

definition parseProviderList ::
  "(string \<Rightarrow> rat option) \<Rightarrow> yamlLine list \<Rightarrow> yaml_error + yamlProvider list \<times> yamlLine list" where
  "parseProviderList pf lines =
     (case lines of [] \<Rightarrow> Inr ([], []) | l # _ \<Rightarrow> provider_items pf (yl_indent l) lines)"

subsection \<open>ParseYAML\<close>

fun validate_providers_from :: "nat \<Rightarrow> string list \<Rightarrow> yamlProvider list \<Rightarrow> yaml_error + unit" where
  "validate_providers_from i seen [] = Inr ()"
| "validate_providers_from i seen (p # ps) =
     (if yp_ID p = [] then Inl (MissingId i)
      else if yp_ID p \<in> set seen then Inl (DuplicateProvider (yp_ID p))
      else validate_providers_from (Suc i) (yp_ID p # seen) ps)"

definition validate_file :: "fileConfig \<Rightarrow> yaml_error + unit" where
  "validate_file fc = validate_providers_from 0 [] (fc_Providers fc)"

text \<open>A scalar at the top level; then one top-level key with the block that belongs to it.\<close>

definition top_scalar ::
  "fileConfig \<Rightarrow> string \<Rightarrow> string \<Rightarrow> nat \<Rightarrow> yaml_error + fileConfig" where
  "top_scalar fc key value n =
     (if value = [] then Inl (ValueRequired n key)
      else if key = ''interval_sec'' then
        (case atoi value of None \<Rightarrow> Inl (NotAnInteger n value) | Some v \<Rightarrow> Inr (fc\<lparr>fc_IntervalSec := v\<rparr>))
      else if key = ''listen'' then Inr (fc\<lparr>fc_Listen := unquote value\<rparr>)
      else if key = ''device_token'' then Inr (fc\<lparr>fc_DeviceToken := unquote value\<rparr>)
      else Inr (fc\<lparr>fc_TZ := unquote value\<rparr>))"

definition top_key ::
  "(string \<Rightarrow> rat option) \<Rightarrow> fileConfig \<Rightarrow> yamlLine \<Rightarrow> yamlLine list \<Rightarrow> yaml_error + fileConfig \<times> yamlLine list" where
  "top_key pf fc l rest =
     (if yl_indent l \<noteq> 0 then Inl (UnexpectedIndent (yl_lineNo l))
      else (case splitKV (yl_content l) of
          None \<Rightarrow> Inl (NotKeyValue (yl_lineNo l) (yl_content l))
        | Some (key, value) \<Rightarrow>
            if key \<in> set [''interval_sec'', ''listen'', ''device_token'', ''tz''] then
              bind_result (top_scalar fc key value (yl_lineNo l)) (\<lambda>fc'. Inr (fc', rest))
            else if key = ''alerts'' then
              (if value \<noteq> [] then Inl (MustNest (yl_lineNo l) value)
               else bind_result (parseScalarMap pf rest)
                 (\<lambda>(m, rest'). Inr (fc\<lparr>fc_Alerts := fold (\<lambda>(k, v). AList.update k v) m (fc_Alerts fc)\<rparr>, rest')))
            else if key = ''providers'' then
              (if value \<noteq> [] then Inl (MustNest (yl_lineNo l) value)
               else bind_result (parseProviderList pf rest)
                 (\<lambda>(ps, rest'). Inr (fc\<lparr>fc_Providers := ps\<rparr>, rest')))
            else if key = ''provider_order'' then
              (if value \<noteq> [] then Inl (MustNest (yl_lineNo l) value)
               else bind_result (parseStringList rest)
                 (\<lambda>(ids, rest'). Inr (fc\<lparr>fc_ProviderOrder := ids\<rparr>, rest')))
            else Inl (UnknownKey (yl_lineNo l) key)))"

lemma provider_items_rest: "provider_items pf n ls = Inr (ps, rest) \<Longrightarrow> length rest \<le> length ls"
proof (induction pf n ls arbitrary: ps rest rule: provider_items.induct)
  case (1 pf n lines)
  show ?case
  proof (cases lines)
    case Nil
    then show ?thesis using 1(2) by (simp add: provider_items.simps [of pf n "[]"])
  next
    case (Cons l ls)
    show ?thesis
    proof (cases "is_item n l")
      case False
      then show ?thesis using 1(2) by (simp add: Cons provider_items.simps [of pf n "l # ls"])
    next
      case True
      then obtain p p' rest' ps' where
        p: "(case splitKV (trim_prefix (yl_content l) ''- '') of None \<Rightarrow> Inr new_provider
            | Some (key, value) \<Rightarrow> setProviderField new_provider key value (yl_lineNo l)) = Inr p"
        and c: "continuation pf (n + 2) ls p = Inr (p', rest')"
        and r: "provider_items pf n rest' = Inr (ps', rest)"
        using 1(2) unfolding Cons
        by (subst (asm) provider_items.simps)
           (auto simp: bind_result_Inr_iff split: sum.splits)
      have "length rest \<le> length rest'"
        using 1(1) [OF Cons _ p c _ r] True by auto
      then show ?thesis using continuation_rest [OF c] by (simp add: Cons)
    qed
  qed
qed

lemma parseStringList_rest: "parseStringList ls = Inr (ids, rest) \<Longrightarrow> length rest \<le> length ls"
proof (cases ls)
  case (Cons l xs)
  assume "parseStringList ls = Inr (ids, rest)"
  then have "rest = dropWhile (is_item 2) ls"
    by (auto simp: parseStringList_def Cons simp del: dropWhile.simps split: if_splits)
  then show ?thesis by (simp only: length_dropWhile_le)
qed (simp add: parseStringList_def)

lemma top_key_rest: "top_key pf fc l rest = Inr (fc', rest') \<Longrightarrow> length rest' \<le> length rest"
  by (auto simp: top_key_def bind_result_Inr_iff parseScalarMap_def parseProviderList_def
      simp del: scalar_map_from.simps
      dest: scalar_map_rest provider_items_rest parseStringList_rest split: if_splits option.splits prod.splits list.splits)

function parse_top :: "(string \<Rightarrow> rat option) \<Rightarrow> yamlLine list \<Rightarrow> fileConfig \<Rightarrow> yaml_error + fileConfig" where
  "parse_top pf lines fc =
     (case lines of
        [] \<Rightarrow> Inr fc
      | l # rest \<Rightarrow>
          (case top_key pf fc l rest of
             Inl e \<Rightarrow> Inl e
           | Inr (fc', rest') \<Rightarrow> parse_top pf rest' fc'))"
  by pat_completeness auto

termination
  by (relation "measure (\<lambda>(pf, lines, fc). length lines)") (auto dest: top_key_rest)

declare parse_top.simps [simp del]

definition ParseYAML :: "(string \<Rightarrow> rat option) \<Rightarrow> string \<Rightarrow> yaml_error + fileConfig" where
  "ParseYAML pf text =
     bind_result (lexYAML text) (\<lambda>lines.
     bind_result (parse_top pf lines empty_file) (\<lambda>fc.
     bind_result (validate_file fc) (\<lambda>_. Inr fc)))"

subsection \<open>serialize.go\<close>

definition ValidAlertKey :: "string \<Rightarrow> bool" where
  "ValidAlertKey k \<longleftrightarrow> k \<in> set validAlertKeys"

text \<open>\<open>strconv.Quote\<close> on printable ASCII: only the quote and the backslash are escaped.  What it does to
  any other byte is the parameter \<open>esc\<close>.\<close>

definition printable :: "char \<Rightarrow> bool" where
  "printable c \<longleftrightarrow> (32 :: nat) \<le> of_char c \<and> of_char c \<le> (126 :: nat)"

definition quote_char :: "(char \<Rightarrow> string) \<Rightarrow> char \<Rightarrow> string" where
  "quote_char esc c =
     (if c = dquote \<or> c = backslash then [backslash, c] else if printable c then [c] else esc c)"

definition str_quote :: "(char \<Rightarrow> string) \<Rightarrow> string \<Rightarrow> string" where
  "str_quote esc s = dquote # concat (map (quote_char esc) s) @ [dquote]"

definition yaml_special :: "char \<Rightarrow> bool" where
  "yaml_special c \<longleftrightarrow> c \<in> set ('' :#{}[],&*?|-<>'' @ [dquote, CHR 39])"

definition yamlStr :: "(char \<Rightarrow> string) \<Rightarrow> string \<Rightarrow> string" where
  "yamlStr esc s = (if s = [] then [dquote, dquote] else if list_ex yaml_special s then str_quote esc s else s)"

text \<open>The parameters of the printer: \<open>strconv.FormatFloat(v, 'f', -1, 64)\<close> and the escapes.\<close>

record printer =
  pr_float :: "rat \<Rightarrow> string"
  pr_esc :: "char \<Rightarrow> string"

definition spaces :: "nat \<Rightarrow> string" where
  "spaces n = replicate n (CHR '' '')"

text \<open>A printed line is its indentation and its content.\<close>

definition kv :: "nat \<Rightarrow> string \<Rightarrow> string \<Rightarrow> nat \<times> string" where
  "kv n key value = (n, key @ '': '' @ value)"

definition alert_lines :: "printer \<Rightarrow> (string \<times> rat) list \<Rightarrow> (nat \<times> string) list" where
  "alert_lines pr m =
     (if m = [] then []
      else (0, ''alerts:'') #
        List.map_filter (\<lambda>key. map_option (\<lambda>v. kv 2 key (pr_float pr v)) (map_of m key))
          [''openrouter_low_usd'', ''quota_warn_5h_pct'', ''quota_warn_weekly_pct''])"

definition order_lines :: "printer \<Rightarrow> string list \<Rightarrow> (nat \<times> string) list" where
  "order_lines pr ids =
     (if ids = [] then []
      else (0, ''provider_order:'') # map (\<lambda>i. (2, ''- '' @ yamlStr (pr_esc pr) i)) ids)"

definition plan_lines :: "printer \<Rightarrow> planConfig \<Rightarrow> (nat \<times> string) list" where
  "plan_lines pr pc =
     (2, ''plan:'') #
     (if pc_Cost pc \<noteq> 0 then [kv 4 ''cost'' (pr_float pr (pc_Cost pc))] else []) @
     (if pc_Currency pc \<noteq> [] then [kv 4 ''currency'' (yamlStr (pr_esc pr) (pc_Currency pc))] else []) @
     (if pc_Label pc \<noteq> [] then [kv 4 ''label'' (yamlStr (pr_esc pr) (pc_Label pc))] else []) @
     (if pc_HasCostUSD pc then [kv 4 ''cost_usd'' (pr_float pr (pc_CostUSD pc))] else [])"

definition field_lines :: "printer \<Rightarrow> yamlProvider \<Rightarrow> (nat \<times> string) list" where
  "field_lines pr p =
     (if \<not> yp_Enabled p then [kv 2 ''enabled'' ''false''] else []) @
     (if yp_Label p \<noteq> [] then [kv 2 ''label'' (yamlStr (pr_esc pr) (yp_Label p))] else []) @
     (if yp_KeyEnv p \<noteq> [] then [kv 2 ''key_env'' (yamlStr (pr_esc pr) (yp_KeyEnv p))] else []) @
     (if yp_HasProbe p then [kv 2 ''probe'' (if yp_Probe p then ''true'' else ''false'')] else []) @
     (case yp_Plan p of None \<Rightarrow> [] | Some pc \<Rightarrow> plan_lines pr pc)"

definition provider_lines :: "printer \<Rightarrow> yamlProvider \<Rightarrow> (nat \<times> string) list" where
  "provider_lines pr p = kv 0 ''- id'' (yamlStr (pr_esc pr) (yp_ID p)) # field_lines pr p"

definition file_lines :: "printer \<Rightarrow> fileConfig \<Rightarrow> (nat \<times> string) list" where
  "file_lines pr fc =
     (if fc_IntervalSec fc > 0 then [kv 0 ''interval_sec'' (show_int (fc_IntervalSec fc))] else []) @
     (if fc_Listen fc \<noteq> [] then [kv 0 ''listen'' (yamlStr (pr_esc pr) (fc_Listen fc))] else []) @
     (if fc_TZ fc \<noteq> [] then [kv 0 ''tz'' (yamlStr (pr_esc pr) (fc_TZ fc))] else []) @
     alert_lines pr (fc_Alerts fc) @
     order_lines pr (fc_ProviderOrder fc) @
     (if fc_Providers fc \<noteq> [] then (0, ''providers:'') # concat (map (provider_lines pr) (fc_Providers fc)) else [])"

definition SerializeYAML :: "printer \<Rightarrow> fileConfig \<Rightarrow> string" where
  "SerializeYAML pr fc = concat (map (\<lambda>(n, content). spaces n @ content @ [nl]) (file_lines pr fc))"

end
