(* ===== verification/Config.thy ===== *)
theory Config
  imports Config_Yaml Go_Float Go_Time
begin

text \<open>
  internal/config, defaults.go and config.go: the built-in providers, \<open>Load\<close> (defaults, file,
  environment, flags, in this order of precedence) and \<open>Redacted\<close>.  The zone database, the integer
  syntax of \<open>flag\<close>, \<open>strconv.ParseFloat\<close>, the Unicode part of \<open>strings.ToUpper\<close>, the
  environment, the home directory of the account and the file system are parameters.
\<close>

subsection \<open>defaults.go\<close>

definition ProviderClaude :: string where "ProviderClaude = ''claude''"
definition ProviderCodex :: string where "ProviderCodex = ''codex''"
definition ProviderOpenRouterMain :: string where "ProviderOpenRouterMain = ''openrouter:main''"
definition ProviderOpenRouterFbk :: string where "ProviderOpenRouterFbk = ''openrouter:fallback''"
definition ProviderGroq :: string where "ProviderGroq = ''groq''"
definition ProviderOpenCodeGo :: string where "ProviderOpenCodeGo = ''opencode:go''"

lemmas provider_id_defs = ProviderClaude_def ProviderCodex_def ProviderOpenRouterMain_def
  ProviderOpenRouterFbk_def ProviderGroq_def ProviderOpenCodeGo_def

definition DefaultProviderOrder :: "string list" where
  "DefaultProviderOrder =
     [ProviderClaude, ProviderCodex, ProviderOpenRouterMain, ProviderOpenRouterFbk, ProviderGroq, ProviderOpenCodeGo]"

definition list_plan :: "rat \<Rightarrow> string \<Rightarrow> rat \<Rightarrow> string \<Rightarrow> planConfig" where
  "list_plan cost currency usd label =
     \<lparr>pc_Cost = cost, pc_Currency = currency, pc_CostUSD = usd, pc_HasCostUSD = True, pc_Label = label\<rparr>"

definition DefaultProviders :: "yamlProvider list" where
  "DefaultProviders =
     [new_provider\<lparr>yp_ID := ProviderClaude, yp_Label := ''Claude'', yp_Plan := Some (list_plan 1100 ''BRL'' 200 ''Max 20x'')\<rparr>,
      new_provider\<lparr>yp_ID := ProviderCodex, yp_Label := ''ChatGPT'', yp_Plan := Some (list_plan 110 ''BRL'' 20 ''Plus'')\<rparr>,
      new_provider\<lparr>yp_ID := ProviderOpenRouterMain, yp_Label := ''OpenRouter main'', yp_KeyEnv := ''OPENROUTER_API_KEY''\<rparr>,
      new_provider\<lparr>yp_ID := ProviderOpenRouterFbk, yp_Label := ''OpenRouter fallback'',
        yp_KeyEnv := ''OPENROUTER_API_KEY_FALLBACK''\<rparr>,
      new_provider\<lparr>yp_ID := ProviderGroq, yp_Label := ''Groq'', yp_KeyEnv := ''GROQ_API_KEY''\<rparr>,
      new_provider\<lparr>yp_ID := ProviderOpenCodeGo, yp_Label := ''OpenCode Go'', yp_KeyEnv := ''OPENCODE_API_KEY'',
        yp_Plan := Some (list_plan 10 ''USD'' 10 ''Go'')\<rparr>]"

definition defaultProviderByID :: "string \<Rightarrow> yamlProvider option" where
  "defaultProviderByID i = List.find (\<lambda>p. yp_ID p = i) DefaultProviders"

definition planEqual :: "planConfig option \<Rightarrow> planConfig option \<Rightarrow> bool" where
  "planEqual a b = (case (a, b) of
       (Some x, Some y) \<Rightarrow> pc_Cost x = pc_Cost y \<and> pc_Currency x = pc_Currency y \<and>
          pc_CostUSD x = pc_CostUSD y \<and> pc_Label x = pc_Label y
     | (None, None) \<Rightarrow> True
     | _ \<Rightarrow> False)"

definition providerEqual :: "yamlProvider \<Rightarrow> yamlProvider \<Rightarrow> bool" where
  "providerEqual a b \<longleftrightarrow> yp_ID a = yp_ID b \<and> yp_Enabled a = yp_Enabled b \<and> yp_Label a = yp_Label b \<and>
     yp_KeyEnv a = yp_KeyEnv b \<and> yp_Probe a = yp_Probe b \<and> planEqual (yp_Plan a) (yp_Plan b)"

definition mergeWithDefault :: "yamlProvider \<Rightarrow> yamlProvider \<Rightarrow> yamlProvider" where
  "mergeWithDefault p d =
     (let m1 = d\<lparr>yp_Enabled := yp_Enabled p\<rparr>;
          m2 = (if yp_Label p \<noteq> [] then m1\<lparr>yp_Label := yp_Label p\<rparr> else m1);
          m3 = (if yp_KeyEnv p \<noteq> [] then m2\<lparr>yp_KeyEnv := yp_KeyEnv p\<rparr> else m2);
          m4 = (if yp_HasProbe p then m3\<lparr>yp_Probe := yp_Probe p, yp_HasProbe := True\<rparr> else m3) in
      (case yp_Plan p of None \<Rightarrow> m4 | Some pl \<Rightarrow> m4\<lparr>yp_Plan := Some pl\<rparr>))"

fun OverridesOnly :: "yamlProvider list \<Rightarrow> yamlProvider list" where
  "OverridesOnly [] = []"
| "OverridesOnly (p # ps) =
     (case defaultProviderByID (yp_ID p) of
        None \<Rightarrow> p # OverridesOnly ps
      | Some d \<Rightarrow> (let eff = mergeWithDefault p d in
          if \<not> providerEqual eff d then eff # OverridesOnly ps else OverridesOnly ps))"

record effectiveProvider =
  ep_ID :: string
  ep_Enabled :: bool
  ep_Label :: string
  ep_KeyEnv :: string
  ep_Probe :: bool
  ep_HasProbe :: bool
  ep_CanProbe :: bool
  ep_Plan :: "planConfig option"

text \<open>One built-in provider with the entry of the file for it, if there is one.\<close>

definition effective :: "yamlProvider \<Rightarrow> yamlProvider option \<Rightarrow> effectiveProvider" where
  "effective d entry =
     (let e0 = \<lparr>ep_ID = yp_ID d, ep_Enabled = yp_Enabled d, ep_Label = yp_Label d, ep_KeyEnv = yp_KeyEnv d,
                ep_Probe = yp_Probe d, ep_HasProbe = yp_HasProbe d, ep_CanProbe = (yp_ID d = ProviderGroq),
                ep_Plan = yp_Plan d\<rparr> in
      (case entry of
         None \<Rightarrow> e0
       | Some f \<Rightarrow>
          (let e1 = e0\<lparr>ep_Enabled := yp_Enabled f\<rparr>;
               e2 = (if yp_Label f \<noteq> [] then e1\<lparr>ep_Label := yp_Label f\<rparr> else e1);
               e3 = (if yp_KeyEnv f \<noteq> [] then e2\<lparr>ep_KeyEnv := yp_KeyEnv f\<rparr> else e2);
               e4 = (if yp_HasProbe f then e3\<lparr>ep_HasProbe := True, ep_Probe := yp_Probe f\<rparr> else e3) in
           (case yp_Plan f of None \<Rightarrow> e4 | Some pl \<Rightarrow> e4\<lparr>ep_Plan := Some pl\<rparr>))))"

definition PlanPresets :: "(string \<times> planConfig list) list" where
  "PlanPresets =
     [(ProviderClaude,
        [list_plan 110 ''BRL'' 20 ''Pro'', list_plan 550 ''BRL'' 100 ''Max 5x'', list_plan 1100 ''BRL'' 200 ''Max 20x'']),
      (ProviderCodex,
        [list_plan 110 ''BRL'' 20 ''Plus'', list_plan 100 ''BRL'' 25 ''Business Standard'',
         list_plan 500 ''BRL'' 125 ''Business Premium'']),
      (ProviderOpenCodeGo, [list_plan 10 ''USD'' 10 ''Go''])]"

subsection \<open>config.go: the configuration\<close>

definition DefaultListen :: string where "DefaultListen = ''0.0.0.0:8765''"
definition DefaultIntervalSec :: int where "DefaultIntervalSec = 900"
definition DefaultStatePath :: string where "DefaultStatePath = ''$HOME/.local/state/ai-usage/state.json''"
definition DefaultStatsPath :: string where "DefaultStatsPath = ''$HOME/.local/state/ai-usage/stats.json''"
definition DefaultTZ :: string where "DefaultTZ = ''America/Sao_Paulo''"
definition MinIntervalSec :: int where "MinIntervalSec = 300"
definition DefaultConfigFile :: string where "DefaultConfigFile = ''$HOME/.config/ai-usage/config.yaml''"

datatype log_level = LevelDebug | LevelInfo | LevelWarn | LevelError

text \<open>A location is kept by its name.\<close>

record config =
  cf_Listen :: string
  cf_Interval :: int
  cf_DeviceToken :: string
  cf_DeviceOTAPass :: string
  cf_StatePath :: string
  cf_TZ :: string
  cf_OpenRouterKeys :: "(string \<times> string) list"
  cf_GroqKey :: string
  cf_OpenCodeKey :: string
  cf_GroqProbe :: bool
  cf_FixturesDir :: string
  cf_Scenario :: string
  cf_LogLevel :: log_level
  cf_JSONOutput :: bool
  cf_ClaudeDir :: string
  cf_CodexDir :: string
  cf_ClaudeSource :: string
  cf_StatsIndexPath :: string
  cf_StatsPath :: string
  cf_PublishURL :: string
  cf_PublishToken :: string
  cf_AlertOpenRouterLowUSD :: rat
  cf_AlertQuotaWarn5hPct :: int
  cf_AlertQuotaWarnWeeklyPct :: int
  cf_ConfigPath :: string
  cf_ProviderConfigs :: "(string \<times> yamlProvider) list"
  cf_ProviderOrder :: "string list"

definition EffectiveProviders :: "config \<Rightarrow> effectiveProvider list" where
  "EffectiveProviders c = map (\<lambda>d. effective d (map_of (cf_ProviderConfigs c) (yp_ID d))) DefaultProviders"

definition GroqProbeEnabled :: "config \<Rightarrow> bool" where
  "GroqProbeEnabled c =
     (case map_of (cf_ProviderConfigs c) ProviderGroq of
        Some p \<Rightarrow> if yp_HasProbe p then yp_Probe p else cf_GroqProbe c
      | None \<Rightarrow> cf_GroqProbe c)"

text \<open>\<open>time.LoadLocation\<close>: the name of the location it returns.\<close>

definition load_location :: "(string \<Rightarrow> bool) \<Rightarrow> string \<Rightarrow> string option" where
  "load_location known name =
     (if name = [] \<or> name = ''UTC'' then Some ''UTC''
      else if name = ''Local'' \<or> known name then Some name else None)"

definition default_config :: "(string \<Rightarrow> bool) \<Rightarrow> config" where
  "default_config known =
     \<lparr>cf_Listen = DefaultListen, cf_Interval = DefaultIntervalSec * Second, cf_DeviceToken = [],
      cf_DeviceOTAPass = [], cf_StatePath = DefaultStatePath,
      cf_TZ = (case load_location known DefaultTZ of Some z \<Rightarrow> z | None \<Rightarrow> ''UTC''),
      cf_OpenRouterKeys = [], cf_GroqKey = [], cf_OpenCodeKey = [], cf_GroqProbe = False, cf_FixturesDir = [],
      cf_Scenario = [], cf_LogLevel = LevelInfo, cf_JSONOutput = False, cf_ClaudeDir = [], cf_CodexDir = [],
      cf_ClaudeSource = ''auto'', cf_StatsIndexPath = [], cf_StatsPath = DefaultStatsPath, cf_PublishURL = [],
      cf_PublishToken = [], cf_AlertOpenRouterLowUSD = 1, cf_AlertQuotaWarn5hPct = 70,
      cf_AlertQuotaWarnWeeklyPct = 60, cf_ConfigPath = [], cf_ProviderConfigs = [],
      cf_ProviderOrder = DefaultProviderOrder\<rparr>"

definition seconds :: "int \<Rightarrow> int" where
  "seconds n = wrap64 (n * Second)"

text \<open>The alert thresholds of a map of alerts; \<open>int(v)\<close> of a float in the range of \<open>int\<close>.\<close>

definition apply_alerts :: "(string \<times> rat) list \<Rightarrow> config \<Rightarrow> config" where
  "apply_alerts m c =
     (let c1 = (case map_of m ''openrouter_low_usd'' of None \<Rightarrow> c | Some v \<Rightarrow> c\<lparr>cf_AlertOpenRouterLowUSD := v\<rparr>);
          c2 = (case map_of m ''quota_warn_pct'' of None \<Rightarrow> c1
                | Some v \<Rightarrow> c1\<lparr>cf_AlertQuotaWarn5hPct := trunc v, cf_AlertQuotaWarnWeeklyPct := trunc v\<rparr>);
          c3 = (case map_of m ''quota_warn_5h_pct'' of None \<Rightarrow> c2 | Some v \<Rightarrow> c2\<lparr>cf_AlertQuotaWarn5hPct := trunc v\<rparr>) in
      (case map_of m ''quota_warn_weekly_pct'' of None \<Rightarrow> c3 | Some v \<Rightarrow> c3\<lparr>cf_AlertQuotaWarnWeeklyPct := trunc v\<rparr>))"

definition applyFileConfig :: "(string \<Rightarrow> bool) \<Rightarrow> fileConfig \<Rightarrow> config \<Rightarrow> config" where
  "applyFileConfig known fc c =
     (let c1 = (if fc_IntervalSec fc > 0 then c\<lparr>cf_Interval := seconds (fc_IntervalSec fc)\<rparr> else c);
          c2 = (if fc_Listen fc \<noteq> [] then c1\<lparr>cf_Listen := fc_Listen fc\<rparr> else c1);
          c3 = (if fc_DeviceToken fc \<noteq> [] then c2\<lparr>cf_DeviceToken := fc_DeviceToken fc\<rparr> else c2);
          c4 = (if fc_TZ fc \<noteq> [] then (case load_location known (fc_TZ fc) of None \<Rightarrow> c3 | Some z \<Rightarrow> c3\<lparr>cf_TZ := z\<rparr>) else c3);
          c5 = apply_alerts (fc_Alerts fc) c4;
          c6 = c5\<lparr>cf_ProviderConfigs := fold (\<lambda>p. AList.update (yp_ID p) p) (fc_Providers fc) (cf_ProviderConfigs c5)\<rparr> in
      (if fc_ProviderOrder fc \<noteq> [] then c6\<lparr>cf_ProviderOrder := fc_ProviderOrder fc\<rparr> else c6))"

definition parseLogLevel :: "(string \<Rightarrow> string) \<Rightarrow> string \<Rightarrow> log_level option" where
  "parseLogLevel upper s =
     map_of [(''DEBUG'', LevelDebug), (''INFO'', LevelInfo), (''WARN'', LevelWarn), (''ERROR'', LevelError)] (to_upper upper s)"

definition expandHome :: "string \<Rightarrow> string \<Rightarrow> string \<Rightarrow> string" where
  "expandHome os_home home path =
     (if path = [] then []
      else (let h = (if home = [] then os_home else home) in
        if h \<noteq> [] then replace_all ''$HOME'' h (replace_all ''~'' h path) else path))"

subsection \<open>The flags\<close>

record flags =
  fl_config :: "string option"
  fl_listen :: "string option"
  fl_interval :: "int option"
  fl_state :: "string option"
  fl_fixtures :: "string option"
  fl_scenario :: "string option"
  fl_tz :: "string option"
  fl_json :: "bool option"

definition no_flags :: flags where
  "no_flags = \<lparr>fl_config = None, fl_listen = None, fl_interval = None, fl_state = None, fl_fixtures = None,
     fl_scenario = None, fl_tz = None, fl_json = None\<rparr>"

datatype flag_error = BadFlagSyntax string | UnknownFlag string | FlagHelp | MissingValue string | InvalidValue string string

definition set_text_flag :: "string \<Rightarrow> string \<Rightarrow> flags \<Rightarrow> flags option" where
  "set_text_flag name v f =
     (if name = ''config'' then Some (f\<lparr>fl_config := Some v\<rparr>)
      else if name = ''listen'' then Some (f\<lparr>fl_listen := Some v\<rparr>)
      else if name = ''state'' then Some (f\<lparr>fl_state := Some v\<rparr>)
      else if name = ''fixtures'' then Some (f\<lparr>fl_fixtures := Some v\<rparr>)
      else if name = ''scenario'' then Some (f\<lparr>fl_scenario := Some v\<rparr>)
      else if name = ''tz'' then Some (f\<lparr>fl_tz := Some v\<rparr>)
      else None)"

definition set_flag :: "(string \<Rightarrow> int option) \<Rightarrow> string \<Rightarrow> string \<Rightarrow> flags \<Rightarrow> flag_error + flags" where
  "set_flag pint name v f =
     (if name = ''interval'' then
        (case pint v of None \<Rightarrow> Inl (InvalidValue name v) | Some n \<Rightarrow> Inr (f\<lparr>fl_interval := Some n\<rparr>))
      else if name = ''json'' then
        (case parse_bool v of None \<Rightarrow> Inl (InvalidValue name v) | Some b \<Rightarrow> Inr (f\<lparr>fl_json := Some b\<rparr>))
      else (case set_text_flag name v f of None \<Rightarrow> Inl (UnknownFlag name) | Some f' \<Rightarrow> Inr f'))"

definition flag_names :: "string list" where
  "flag_names = [''config'', ''listen'', ''interval'', ''state'', ''fixtures'', ''scenario'', ''tz'', ''json'']"

text \<open>\<open>flag.FlagSet.Parse\<close> with \<open>ContinueOnError\<close>: parsing stops at the first argument that is no flag,
  after \<open>--\<close>, or at an error.\<close>

fun parse_flags :: "(string \<Rightarrow> int option) \<Rightarrow> string list \<Rightarrow> flags \<Rightarrow> flag_error + flags" where
  "parse_flags pint [] f = Inr f"
| "parse_flags pint (s # args) f =
     (if length s < 2 \<or> hd s \<noteq> CHR ''-'' \<or> s = ''--'' then Inr f
      else (let body = (if has_prefix s ''--'' then drop 2 s else drop 1 s);
                name = hd body # takeWhile (\<lambda>c. c \<noteq> CHR ''='') (tl body);
                rest = dropWhile (\<lambda>c. c \<noteq> CHR ''='') (tl body) in
        if hd body = CHR ''-'' \<or> hd body = CHR ''='' then Inl (BadFlagSyntax s)
        else if name \<notin> set flag_names then Inl (if name = ''help'' \<or> name = ''h'' then FlagHelp else UnknownFlag name)
        else if rest \<noteq> [] then bind_result (set_flag pint name (tl rest) f) (parse_flags pint args)
        else if name = ''json'' then bind_result (set_flag pint name ''true'' f) (parse_flags pint args)
        else (case args of
            [] \<Rightarrow> Inl (MissingValue name)
          | v # args' \<Rightarrow> bind_result (set_flag pint name v f) (parse_flags pint args'))))"

subsection \<open>Load\<close>

text \<open>What is at the path of the configuration: nothing, something that cannot be read, or a text.\<close>

datatype path_state = NoFile | Unreadable | TextFile string

record world =
  w_known :: "string \<Rightarrow> bool"
  w_pint :: "string \<Rightarrow> int option"
  w_pf :: "string \<Rightarrow> rat option"
  w_upper :: "string \<Rightarrow> string"
  w_env :: "string \<Rightarrow> string"
  w_home :: string
  w_file :: "string \<Rightarrow> path_state"

datatype config_error =
    BadFlag flag_error
  | CannotRead string
  | CannotParse string yaml_error
  | BadIntervalEnv string
  | UnknownZone string
  | BadProbeEnv string
  | BadLogLevel string
  | BadClaudeSource string
  | IntervalTooShort int
  | ListenEmpty

definition home_dir :: "world \<Rightarrow> string" where
  "home_dir w = (if w_env w ''HOME'' = [] then w_home w else w_env w ''HOME'')"

definition config_path :: "world \<Rightarrow> flags \<Rightarrow> string" where
  "config_path w f = (case fl_config f of Some p \<Rightarrow> p | None \<Rightarrow> replace_all ''$HOME'' (home_dir w) DefaultConfigFile)"

definition load_file_config :: "world \<Rightarrow> flags \<Rightarrow> config \<Rightarrow> config_error + config" where
  "load_file_config w f c =
     (let path = config_path w f; c1 = c\<lparr>cf_ConfigPath := path\<rparr> in
      (case w_file w path of
         NoFile \<Rightarrow> (if fl_config f = None then Inr c1 else Inl (CannotRead path))
       | Unreadable \<Rightarrow> Inl (CannotRead path)
       | TextFile text \<Rightarrow>
           (case ParseYAML (w_pf w) text of
              Inl e \<Rightarrow> Inl (CannotParse path e)
            | Inr fc \<Rightarrow> Inr (applyFileConfig (w_known w) fc c1))))"

text \<open>One environment variable: an empty value is as good as none.\<close>

definition with_env ::
  "world \<Rightarrow> string \<Rightarrow> (string \<Rightarrow> config \<Rightarrow> config_error + config) \<Rightarrow> config \<Rightarrow> config_error + config" where
  "with_env w name f c = (if w_env w name = [] then Inr c else f (w_env w name) c)"

definition set_zone :: "world \<Rightarrow> string \<Rightarrow> config \<Rightarrow> config_error + config" where
  "set_zone w v c = (case load_location (w_known w) v of None \<Rightarrow> Inl (UnknownZone v) | Some z \<Rightarrow> Inr (c\<lparr>cf_TZ := z\<rparr>))"

definition env_steps :: "world \<Rightarrow> (config \<Rightarrow> config_error + config) list" where
  "env_steps w =
     [with_env w ''USAGED_LISTEN'' (\<lambda>v c. Inr (c\<lparr>cf_Listen := v\<rparr>)),
      with_env w ''USAGED_INTERVAL_SEC'' (\<lambda>v c. case atoi v of None \<Rightarrow> Inl (BadIntervalEnv v)
        | Some n \<Rightarrow> Inr (c\<lparr>cf_Interval := seconds n\<rparr>)),
      with_env w ''USAGED_DEVICE_TOKEN'' (\<lambda>v c. Inr (c\<lparr>cf_DeviceToken := v\<rparr>)),
      with_env w ''USAGED_DEVICE_OTA_PASS'' (\<lambda>v c. Inr (c\<lparr>cf_DeviceOTAPass := v\<rparr>)),
      with_env w ''USAGED_STATE'' (\<lambda>v c. Inr (c\<lparr>cf_StatePath := v\<rparr>)),
      with_env w ''USAGED_TZ'' (set_zone w),
      with_env w ''OPENROUTER_API_KEY''
        (\<lambda>v c. Inr (c\<lparr>cf_OpenRouterKeys := AList.update ''main'' v (cf_OpenRouterKeys c)\<rparr>)),
      with_env w ''OPENROUTER_API_KEY_FALLBACK''
        (\<lambda>v c. Inr (c\<lparr>cf_OpenRouterKeys := AList.update ''fallback'' v (cf_OpenRouterKeys c)\<rparr>)),
      with_env w ''GROQ_API_KEY'' (\<lambda>v c. Inr (c\<lparr>cf_GroqKey := v\<rparr>)),
      with_env w ''OPENCODE_API_KEY'' (\<lambda>v c. Inr (c\<lparr>cf_OpenCodeKey := v\<rparr>)),
      with_env w ''USAGED_GROQ_PROBE'' (\<lambda>v c. case parse_bool v of None \<Rightarrow> Inl (BadProbeEnv v)
        | Some b \<Rightarrow> Inr (c\<lparr>cf_GroqProbe := b\<rparr>)),
      with_env w ''USAGED_LOG_LEVEL'' (\<lambda>v c. case parseLogLevel (w_upper w) v of None \<Rightarrow> Inl (BadLogLevel v)
        | Some l \<Rightarrow> Inr (c\<lparr>cf_LogLevel := l\<rparr>)),
      with_env w ''USAGED_CLAUDE_DIR'' (\<lambda>v c. Inr (c\<lparr>cf_ClaudeDir := expandHome (w_home w) (home_dir w) v\<rparr>)),
      with_env w ''USAGED_CODEX_DIR'' (\<lambda>v c. Inr (c\<lparr>cf_CodexDir := expandHome (w_home w) (home_dir w) v\<rparr>)),
      with_env w ''USAGED_CLAUDE_SOURCE'' (\<lambda>v c. if v \<noteq> ''auto'' \<and> v \<noteq> ''oauth'' \<and> v \<noteq> ''statusline''
        then Inl (BadClaudeSource v) else Inr (c\<lparr>cf_ClaudeSource := v\<rparr>)),
      with_env w ''USAGED_STATS_INDEX'' (\<lambda>v c. Inr (c\<lparr>cf_StatsIndexPath := expandHome (w_home w) (home_dir w) v\<rparr>)),
      with_env w ''USAGED_STATS_PATH'' (\<lambda>v c. Inr (c\<lparr>cf_StatsPath := expandHome (w_home w) (home_dir w) v\<rparr>)),
      with_env w ''USAGED_PUBLISH_URL'' (\<lambda>v c. Inr (c\<lparr>cf_PublishURL := v\<rparr>)),
      with_env w ''USAGED_PUBLISH_TOKEN'' (\<lambda>v c. Inr (c\<lparr>cf_PublishToken := v\<rparr>))]"

definition with_flag ::
  "'a option \<Rightarrow> ('a \<Rightarrow> config \<Rightarrow> config_error + config) \<Rightarrow> config \<Rightarrow> config_error + config" where
  "with_flag v f c = (case v of None \<Rightarrow> Inr c | Some x \<Rightarrow> f x c)"

definition flag_steps :: "world \<Rightarrow> flags \<Rightarrow> (config \<Rightarrow> config_error + config) list" where
  "flag_steps w f =
     [with_flag (fl_listen f) (\<lambda>v c. Inr (c\<lparr>cf_Listen := v\<rparr>)),
      with_flag (fl_interval f) (\<lambda>n c. Inr (c\<lparr>cf_Interval := seconds n\<rparr>)),
      with_flag (fl_state f) (\<lambda>v c. Inr (c\<lparr>cf_StatePath := v\<rparr>)),
      with_flag (fl_fixtures f) (\<lambda>v c. Inr (c\<lparr>cf_FixturesDir := v\<rparr>)),
      with_flag (fl_scenario f) (\<lambda>v c. Inr (c\<lparr>cf_Scenario := v\<rparr>)),
      with_flag (fl_tz f) (set_zone w),
      with_flag (fl_json f) (\<lambda>b c. Inr (c\<lparr>cf_JSONOutput := b\<rparr>))]"

definition path_defaults :: "world \<Rightarrow> config \<Rightarrow> config" where
  "path_defaults w c =
     (let home = home_dir w; dflt = (\<lambda>p v. if v = [] then expandHome (w_home w) home p else v);
          c1 = (if home \<noteq> [] then c\<lparr>cf_StatePath := replace_all ''$HOME'' home (cf_StatePath c),
                  cf_StatsPath := replace_all ''$HOME'' home (cf_StatsPath c)\<rparr> else c) in
      c1\<lparr>cf_ClaudeDir := dflt ''~/.claude/projects/'' (cf_ClaudeDir c1),
         cf_CodexDir := dflt ''~/.codex/sessions/'' (cf_CodexDir c1),
         cf_StatsIndexPath := dflt ''~/.local/state/ai-usage/stats-index.json'' (cf_StatsIndexPath c1)\<rparr>)"

definition check_config :: "config \<Rightarrow> config_error + config" where
  "check_config c =
     (if cf_Interval c < MinIntervalSec * Second then Inl (IntervalTooShort (cf_Interval c))
      else if cf_Listen c = [] then Inl ListenEmpty else Inr c)"

fun run_steps :: "(config \<Rightarrow> config_error + config) list \<Rightarrow> config \<Rightarrow> config_error + config" where
  "run_steps [] c = Inr c"
| "run_steps (f # fs) c = bind_result (f c) (run_steps fs)"

definition LoadConfig :: "world \<Rightarrow> string list \<Rightarrow> config_error + config" where
  "LoadConfig w args =
     (case parse_flags (w_pint w) args no_flags of
        Inl e \<Rightarrow> Inl (BadFlag e)
      | Inr f \<Rightarrow>
          bind_result (load_file_config w f (default_config (w_known w))) (\<lambda>c1.
          bind_result (run_steps (env_steps w) c1) (\<lambda>c2.
          bind_result (run_steps (flag_steps w f) c2) (\<lambda>c3.
          check_config (path_defaults w c3)))))"

subsection \<open>Redacted\<close>

text \<open>The values of the map: what \<open>encoding/json\<close> or the log sees.\<close>

datatype setting =
    SText string
  | SInt int
  | SFloat rat
  | SFlag bool
  | SList "string list"
  | SMap "(string \<times> setting) list"

text \<open>\<open>int(d.Seconds())\<close>.\<close>

definition interval_seconds :: "int \<Rightarrow> int" where
  "interval_seconds d = trunc (duration_seconds d)"

definition set_len :: "string \<Rightarrow> setting" where
  "set_len secret = SText (''set(len='' @ show_nat (length secret) @ '')'')"

fun level_name :: "log_level \<Rightarrow> string" where
  "level_name LevelDebug = ''DEBUG''"
| "level_name LevelInfo = ''INFO''"
| "level_name LevelWarn = ''WARN''"
| "level_name LevelError = ''ERROR''"

definition provider_settings :: "yamlProvider \<Rightarrow> setting" where
  "provider_settings p = SMap ([(''enabled'', SFlag (yp_Enabled p)), (''label'', SText (yp_Label p)),
      (''key_env'', SText (yp_KeyEnv p)), (''probe'', SFlag (yp_Probe p))] @
     (case yp_Plan p of None \<Rightarrow> []
      | Some pl \<Rightarrow> [(''plan'', SMap [(''cost'', SFloat (pc_Cost pl)), (''currency'', SText (pc_Currency pl)),
          (''label'', SText (pc_Label pl)), (''has_cost_usd'', SFlag (pc_HasCostUSD pl))])]))"

definition alert_settings :: "config \<Rightarrow> setting" where
  "alert_settings c = SMap [(''openrouter_low_usd'', SFloat (cf_AlertOpenRouterLowUSD c)),
     (''quota_warn_5h_pct'', SInt (cf_AlertQuotaWarn5hPct c)),
     (''quota_warn_weekly_pct'', SInt (cf_AlertQuotaWarnWeeklyPct c))]"

definition Redacted :: "config \<Rightarrow> (string \<times> setting) list" where
  "Redacted c =
     [(''listen'', SText (cf_Listen c)), (''interval_sec'', SInt (interval_seconds (cf_Interval c))),
      (''device_token'', set_len (cf_DeviceToken c)), (''device_ota_pass'', set_len (cf_DeviceOTAPass c)),
      (''state_path'', SText (cf_StatePath c)), (''stats_path'', SText (cf_StatsPath c)), (''tz'', SText (cf_TZ c)),
      (''groq_probe'', SFlag (cf_GroqProbe c)), (''log_level'', SText (level_name (cf_LogLevel c))),
      (''fixtures_dir'', SText (cf_FixturesDir c)), (''scenario'', SText (cf_Scenario c)),
      (''alerts'', alert_settings c),
      (''provider_configs'', SMap (map (\<lambda>(i, p). (i, provider_settings p)) (cf_ProviderConfigs c))),
      (''provider_order'', SList (cf_ProviderOrder c)),
      (''openrouter_keys'', SMap (map (\<lambda>(k, v). (k, set_len v)) (cf_OpenRouterKeys c))),
      (''groq_key'', set_len (cf_GroqKey c)), (''opencode_key'', set_len (cf_OpenCodeKey c)),
      (''claude_source'', SText (cf_ClaudeSource c)), (''publish_url'', SText (cf_PublishURL c)),
      (''publish_token'', set_len (cf_PublishToken c))]"

subsection \<open>What the redacted map tells of the secrets\<close>

text \<open>The configuration with every secret replaced by one of the same length.\<close>

definition masked :: "string \<Rightarrow> string" where
  "masked s = replicate (length s) (CHR ''*'')"

definition mask_secrets :: "config \<Rightarrow> config" where
  "mask_secrets c = c\<lparr>cf_DeviceToken := masked (cf_DeviceToken c), cf_DeviceOTAPass := masked (cf_DeviceOTAPass c),
     cf_OpenRouterKeys := map (\<lambda>(k, v). (k, masked v)) (cf_OpenRouterKeys c), cf_GroqKey := masked (cf_GroqKey c),
     cf_OpenCodeKey := masked (cf_OpenCodeKey c), cf_PublishToken := masked (cf_PublishToken c)\<rparr>"

text \<open>
  \<open>Redacted\<close> leaks no secret: tokens, passwords and keys can be replaced by any others of the same
  length without a change in the map.
\<close>

theorem Redacted_hides_secrets: "Redacted (mask_secrets c) = Redacted c"
  by (simp add: Redacted_def mask_secrets_def set_len_def masked_def alert_settings_def split_beta comp_def)

subsection \<open>Precedence\<close>

fun first_set :: "'a option list \<Rightarrow> 'a \<Rightarrow> 'a" where
  "first_set [] d = d"
| "first_set (None # vs) d = first_set vs d"
| "first_set (Some v # vs) d = v"

definition nonempty :: "string \<Rightarrow> string option" where
  "nonempty v = (if v = [] then None else Some v)"

definition loaded_file :: "world \<Rightarrow> flags \<Rightarrow> fileConfig" where
  "loaded_file w f = (case w_file w (config_path w f) of
       TextFile text \<Rightarrow> (case ParseYAML (w_pf w) text of Inr fc \<Rightarrow> fc | Inl _ \<Rightarrow> empty_file)
     | _ \<Rightarrow> empty_file)"

lemma run_steps_append: "run_steps (fs @ gs) c = bind_result (run_steps fs c) (run_steps gs)"
  by (induction fs arbitrary: c) (auto simp: bind_result_def split: sum.splits)

definition kept :: "(config \<Rightarrow> 'a) \<Rightarrow> config \<Rightarrow> config_error + config \<Rightarrow> bool" where
  "kept g c r = (case r of Inl _ \<Rightarrow> True | Inr c' \<Rightarrow> g c' = g c)"

definition keeps :: "(config \<Rightarrow> 'a) \<Rightarrow> (config \<Rightarrow> config_error + config) \<Rightarrow> bool" where
  "keeps g f \<longleftrightarrow> (\<forall>c. kept g c (f c))"

lemma kept_simps [simp]: "kept g c (Inl e)" "kept g c (Inr c') \<longleftrightarrow> g c' = g c"
  by (simp_all add: kept_def)

lemma keepsD: "keeps g f \<Longrightarrow> f c = Inr c' \<Longrightarrow> g c' = g c"
  unfolding keeps_def by (metis kept_simps(2))

lemma keeps_with_env: "(\<And>v c. kept g c (f v c)) \<Longrightarrow> keeps g (with_env w name f)"
  by (simp add: keeps_def with_env_def)

lemma run_steps_keep: "run_steps fs c = Inr c' \<Longrightarrow> list_all (keeps g) fs \<Longrightarrow> g c' = g c"
  by (induction fs arbitrary: c) (auto simp: bind_result_Inr_iff dest: keepsD)

lemma run_steps_one:
  assumes "run_steps (fs @ f # gs) c = Inr c'" and "list_all (keeps g) fs" and "list_all (keeps g) gs"
  obtains d e where "g d = g c" and "f d = Inr e" and "g c' = g e"
proof -
  from assms(1) obtain d where d: "run_steps fs c = Inr d" and r: "run_steps (f # gs) d = Inr c'"
    by (auto simp: run_steps_append bind_result_Inr_iff simp del: run_steps.simps)
  from r obtain e where e: "f d = Inr e" "run_steps gs e = Inr c'" by (auto simp: bind_result_Inr_iff)
  show ?thesis
    using that [OF run_steps_keep [OF d assms(2)] e(1) run_steps_keep [OF e(2) assms(3)]] .
qed

lemma env_keeps:
  "list_all (keeps cf_Listen) (tl (env_steps w))"
  "list_all (keeps cf_Interval) (take 1 (env_steps w))" "list_all (keeps cf_Interval) (drop 2 (env_steps w))"
  "list_all (keeps cf_DeviceToken) (take 2 (env_steps w))" "list_all (keeps cf_DeviceToken) (drop 3 (env_steps w))"
  "list_all (keeps cf_TZ) (take 5 (env_steps w))" "list_all (keeps cf_TZ) (drop 6 (env_steps w))"
  by (simp_all add: env_steps_def keeps_with_env set_zone_def split: option.split)

lemma env_scalars:
  assumes run: "run_steps (env_steps w) c = Inr c'"
  shows "cf_Listen c' = first_set [nonempty (w_env w ''USAGED_LISTEN'')] (cf_Listen c)"
    and "cf_Interval c' = first_set [map_option seconds (Option.bind (nonempty (w_env w ''USAGED_INTERVAL_SEC'')) atoi)]
      (cf_Interval c)"
    and "cf_DeviceToken c' = first_set [nonempty (w_env w ''USAGED_DEVICE_TOKEN'')] (cf_DeviceToken c)"
    and "cf_TZ c' = first_set [Option.bind (nonempty (w_env w ''USAGED_TZ'')) (load_location (w_known w))] (cf_TZ c)"
proof -
  have split: "env_steps w = [] @ env_steps w ! 0 # tl (env_steps w)"
    "env_steps w = take 1 (env_steps w) @ env_steps w ! 1 # drop 2 (env_steps w)"
    "env_steps w = take 2 (env_steps w) @ env_steps w ! 2 # drop 3 (env_steps w)"
    "env_steps w = take 5 (env_steps w) @ env_steps w ! 5 # drop 6 (env_steps w)"
    by (simp_all add: env_steps_def numeral_nat)
  have steps: "env_steps w ! 0 = with_env w ''USAGED_LISTEN'' (\<lambda>v c. Inr (c\<lparr>cf_Listen := v\<rparr>))"
    "env_steps w ! 1 = with_env w ''USAGED_INTERVAL_SEC'' (\<lambda>v c. case atoi v of None \<Rightarrow> Inl (BadIntervalEnv v)
        | Some n \<Rightarrow> Inr (c\<lparr>cf_Interval := seconds n\<rparr>))"
    "env_steps w ! 2 = with_env w ''USAGED_DEVICE_TOKEN'' (\<lambda>v c. Inr (c\<lparr>cf_DeviceToken := v\<rparr>))"
    "env_steps w ! 5 = with_env w ''USAGED_TZ'' (set_zone w)"
    by (simp_all add: env_steps_def numeral_nat)
  note eff = with_env_def set_zone_def nonempty_def
  note runs = run [THEN trans [OF arg_cong [OF split(1) [symmetric], of "\<lambda>fs. run_steps fs c"]]]
    run [THEN trans [OF arg_cong [OF split(2) [symmetric], of "\<lambda>fs. run_steps fs c"]]]
    run [THEN trans [OF arg_cong [OF split(3) [symmetric], of "\<lambda>fs. run_steps fs c"]]]
    run [THEN trans [OF arg_cong [OF split(4) [symmetric], of "\<lambda>fs. run_steps fs c"]]]
  show "cf_Listen c' = first_set [nonempty (w_env w ''USAGED_LISTEN'')] (cf_Listen c)"
    by (rule run_steps_one [OF runs(1) _ env_keeps(1)])
      (auto simp: steps eff split: if_splits)
  show "cf_Interval c' = first_set [map_option seconds (Option.bind (nonempty (w_env w ''USAGED_INTERVAL_SEC'')) atoi)]
      (cf_Interval c)"
    by (rule run_steps_one [OF runs(2) env_keeps(2,3)])
      (auto simp: steps eff simp del: One_nat_def split: option.splits if_splits)
  show "cf_DeviceToken c' = first_set [nonempty (w_env w ''USAGED_DEVICE_TOKEN'')] (cf_DeviceToken c)"
    by (rule run_steps_one [OF runs(3) env_keeps(4,5)])
      (auto simp: steps eff split: if_splits)
  show "cf_TZ c' = first_set [Option.bind (nonempty (w_env w ''USAGED_TZ'')) (load_location (w_known w))] (cf_TZ c)"
    by (rule run_steps_one [OF runs(4) env_keeps(6,7)])
      (auto simp: steps eff split: option.splits if_splits)
qed

lemma flag_scalars:
  assumes run: "run_steps (flag_steps w f) c = Inr c'"
  shows "cf_Listen c' = first_set [fl_listen f] (cf_Listen c)"
    and "cf_Interval c' = first_set [map_option seconds (fl_interval f)] (cf_Interval c)"
    and "cf_DeviceToken c' = cf_DeviceToken c"
    and "cf_TZ c' = first_set [Option.bind (fl_tz f) (load_location (w_known w))] (cf_TZ c)"
  using run
  by (auto simp: flag_steps_def with_flag_def set_zone_def bind_result_Inr_iff split: option.splits)

lemma apply_alerts_keeps [simp]:
  "cf_Listen (apply_alerts m c) = cf_Listen c"
  "cf_Interval (apply_alerts m c) = cf_Interval c"
  "cf_DeviceToken (apply_alerts m c) = cf_DeviceToken c"
  "cf_TZ (apply_alerts m c) = cf_TZ c"
  "cf_ProviderConfigs (apply_alerts m c) = cf_ProviderConfigs c"
  "cf_ProviderOrder (apply_alerts m c) = cf_ProviderOrder c"
  "cf_GroqProbe (apply_alerts m c) = cf_GroqProbe c"
  by (simp_all add: apply_alerts_def Let_def split: option.split)

lemma applyFileConfig_fields:
  "cf_Listen (applyFileConfig known fc c) = first_set [nonempty (fc_Listen fc)] (cf_Listen c)"
  "cf_Interval (applyFileConfig known fc c) = (if fc_IntervalSec fc > 0 then seconds (fc_IntervalSec fc) else cf_Interval c)"
  "cf_DeviceToken (applyFileConfig known fc c) = first_set [nonempty (fc_DeviceToken fc)] (cf_DeviceToken c)"
  "cf_TZ (applyFileConfig known fc c) =
     first_set [Option.bind (nonempty (fc_TZ fc)) (load_location known)] (cf_TZ c)"
  "cf_ProviderConfigs (applyFileConfig known fc c) =
     fold (\<lambda>p. AList.update (yp_ID p) p) (fc_Providers fc) (cf_ProviderConfigs c)"
  "cf_ProviderOrder (applyFileConfig known fc c) =
     (if fc_ProviderOrder fc \<noteq> [] then fc_ProviderOrder fc else cf_ProviderOrder c)"
  "cf_GroqProbe (applyFileConfig known fc c) = cf_GroqProbe c"
  by (simp_all add: applyFileConfig_def Let_def nonempty_def split: option.split)

lemma load_file_cases:
  assumes "load_file_config w f c = Inr c'"
  shows "c' = applyFileConfig (w_known w) (loaded_file w f) (c\<lparr>cf_ConfigPath := config_path w f\<rparr>) \<or>
    (c' = c\<lparr>cf_ConfigPath := config_path w f\<rparr> \<and> loaded_file w f = empty_file)"
  using assms
  by (auto simp: load_file_config_def loaded_file_def Let_def split: path_state.splits sum.splits if_splits)

lemma file_scalars:
  assumes "load_file_config w f c = Inr c'"
  defines "fc \<equiv> loaded_file w f"
  shows "cf_Listen c' = first_set [nonempty (fc_Listen fc)] (cf_Listen c)"
    and "cf_Interval c' = (if fc_IntervalSec fc > 0 then seconds (fc_IntervalSec fc) else cf_Interval c)"
    and "cf_DeviceToken c' = first_set [nonempty (fc_DeviceToken fc)] (cf_DeviceToken c)"
    and "cf_TZ c' = first_set [Option.bind (nonempty (fc_TZ fc)) (load_location (w_known w))] (cf_TZ c)"
  using load_file_cases [OF assms(1)]
  by (auto simp: fc_def applyFileConfig_fields empty_file_def nonempty_def)

lemma path_defaults_keeps [simp]:
  "cf_Listen (path_defaults w c) = cf_Listen c"
  "cf_Interval (path_defaults w c) = cf_Interval c"
  "cf_DeviceToken (path_defaults w c) = cf_DeviceToken c"
  "cf_TZ (path_defaults w c) = cf_TZ c"
  "cf_ProviderConfigs (path_defaults w c) = cf_ProviderConfigs c"
  "cf_ProviderOrder (path_defaults w c) = cf_ProviderOrder c"
  by (simp_all add: path_defaults_def Let_def)

lemma Load_cases:
  assumes "LoadConfig w args = Inr c"
  obtains f c1 c2 c3 where "parse_flags (w_pint w) args no_flags = Inr f"
    and "load_file_config w f (default_config (w_known w)) = Inr c1"
    and "run_steps (env_steps w) c1 = Inr c2" and "run_steps (flag_steps w f) c2 = Inr c3"
    and "c = path_defaults w c3" and "MinIntervalSec * Second \<le> cf_Interval c" and "cf_Listen c \<noteq> []"
  using assms
  by (auto simp: LoadConfig_def bind_result_Inr_iff check_config_def split: sum.splits if_splits)

lemma first_set_append: "first_set vs (first_set ws d) = first_set (vs @ ws) d"
proof (induction vs)
  case (Cons v vs)
  then show ?case by (cases v) auto
qed simp


definition sample_world :: world where
  "sample_world = \<lparr>w_known = (\<lambda>z. z = ''America/Sao_Paulo'' \<or> z = ''Europe/Paris''), w_pint = atoi,
     w_pf = (\<lambda>s. map_option of_int (atoi s)), w_upper = (\<lambda>s. s),
     w_env = (\<lambda>n. if n = ''USAGED_TZ'' then ''Europe/Paris'' else []), w_home = ''/home/u'',
     w_file = (\<lambda>p. if p = ''/home/u/.config/ai-usage/config.yaml''
       then TextFile (''interval_sec: 600'' @ [nl] @ ''listen: :9000'' @ [nl] @ ''tz: UTC'' @ [nl]) else NoFile)\<rparr>"


end
