(* ===== verification/Sched.thy ===== *)
theory Sched
  imports Providers Advise Config
begin

text \<open>
  internal/sched: the poll.  One goroutine per fetcher reads the cooldown and the last good block of
  its provider, fetches, and stores its results under locks; then the blocks are put into display
  order, applied to the snapshot, saved and published.  \<open>poll_step\<close> is the interleaving of the
  goroutines, \<open>pollOnce\<close> the poll with the goroutines run one after another.  What a fetcher returns
  at a given time, the display zone of the host and the result of the transcript scan are parameters.
\<close>

subsection \<open>kindRank and orderProviders\<close>

definition kindRank :: "string \<Rightarrow> nat" where
  "kindRank k = (if k = ''plan'' then 0 else if k = ''credit'' then 1 else if k = ''free'' then 2 else 3)"

text \<open>The maps filled by \<open>for _, rec\<close> and by \<open>for i, id\<close>: a later entry for an id wins.\<close>

definition score_map :: "recommendation list \<Rightarrow> string \<rightharpoonup> rat" where
  "score_map rs = fold (\<lambda>r m. m(rec_ID r \<mapsto> rec_Score r)) rs Map.empty"

definition pos_map :: "string list \<Rightarrow> string \<Rightarrow> nat" where
  "pos_map ids i = (case order_pos_from 0 ids Map.empty i of None \<Rightarrow> 0 | Some k \<Rightarrow> k)"

definition display_less :: "(string \<rightharpoonup> rat) \<Rightarrow> (string \<Rightarrow> nat) \<Rightarrow> provider \<Rightarrow> provider \<Rightarrow> bool" where
  "display_less scores pos p q =
     (let ki = kindRank (prov_Kind p); kj = kindRank (prov_Kind q) in
      if ki \<noteq> kj then ki < kj
      else if ki = 0 then
        (let iRanked = scores (prov_ID p) \<noteq> None; jRanked = scores (prov_ID q) \<noteq> None;
             si = (case scores (prov_ID p) of None \<Rightarrow> 0 | Some x \<Rightarrow> x);
             sj = (case scores (prov_ID q) of None \<Rightarrow> 0 | Some x \<Rightarrow> x) in
         if iRanked \<and> \<not> jRanked then True
         else if \<not> iRanked \<and> jRanked then False
         else if si \<noteq> sj then si > sj
         else pos (prov_ID p) < pos (prov_ID q))
      else pos (prov_ID p) < pos (prov_ID q))"

definition orderProviders :: "provider list \<Rightarrow> string list \<Rightarrow> int \<Rightarrow> provider list" where
  "orderProviders ps userOrder now =
     slice_stable
       (display_less (score_map (out_Recommendations (Rank ps now DefaultHorizon)))
          (pos_map (Order (map prov_ID ps) userOrder))) ps"

subsection \<open>The state\<close>

text \<open>A fetcher is its id and what \<open>Fetch\<close> returns at a time.\<close>

type_synonym fetcher = "string \<times> (int \<Rightarrow> provider \<times> fetch_outcome)"

text \<open>\<open>'i\<close> is the transcript index, \<open>'r\<close> the statistics report.\<close>

record ('i, 'r) sched =
  sch_Fetchers :: "fetcher list"
  sch_Interval :: int
  sch_State :: state
  sch_StatePath :: string
  sch_StatsConfigured :: bool
  sch_StatsIndex :: 'i
  sch_StatsReport :: "'r option"
  sch_StatsScanPath :: string
  sch_StatsPath :: string
  sch_PublishURL :: string
  sch_PublishToken :: string
  sch_ProviderOrder :: "string list"

text \<open>A nil map reads like an empty one; \<open>ensureMaps\<close> makes it writable and changes nothing else.\<close>

definition NewScheduler :: "'i \<Rightarrow> fetcher list \<Rightarrow> int \<Rightarrow> string \<Rightarrow> ('i, 'r) sched" where
  "NewScheduler no_index fetchers interval statePath =
     \<lparr>sch_Fetchers = fetchers, sch_Interval = interval, sch_State = empty_state,
      sch_StatePath = statePath, sch_StatsConfigured = False, sch_StatsIndex = no_index,
      sch_StatsReport = None, sch_StatsScanPath = [], sch_StatsPath = [],
      sch_PublishURL = [], sch_PublishToken = [], sch_ProviderOrder = []\<rparr>"

definition LoadState :: "state \<Rightarrow> ('i, 'r) sched \<Rightarrow> ('i, 'r) sched" where
  "LoadState st s = s\<lparr>sch_State := st\<rparr>"

definition SetInterval :: "int \<Rightarrow> ('i, 'r) sched \<Rightarrow> ('i, 'r) sched" where
  "SetInterval d s = (if d \<ge> MinIntervalSec * Second then s\<lparr>sch_Interval := d\<rparr> else s)"

definition SetFetchers :: "fetcher list \<Rightarrow> ('i, 'r) sched \<Rightarrow> ('i, 'r) sched" where
  "SetFetchers fs s = s\<lparr>sch_Fetchers := fs\<rparr>"

definition SetProviderOrder :: "string list \<Rightarrow> ('i, 'r) sched \<Rightarrow> ('i, 'r) sched" where
  "SetProviderOrder ids s = s\<lparr>sch_ProviderOrder := ids\<rparr>"

definition Current :: "('i, 'r) sched \<Rightarrow> snapshot" where
  "Current s = st_Snapshot (sch_State s)"

text \<open>\<open>r\<close> is a number \<open>rand.Float64\<close> returned.\<close>

definition jitteredInterval :: "rat \<Rightarrow> ('i, 'r) sched \<Rightarrow> int" where
  "jitteredInterval r s =
     (if sch_Interval s \<le> 0 then 0
      else sch_Interval s +
        trunc (fl (fl (fl (r * fl (1 / 5)) - fl (1 / 10)) * fl (of_int (sch_Interval s)))))"

subsection \<open>One goroutine\<close>

definition recompute_row :: "row \<Rightarrow> row" where
  "recompute_row r = (if row_Pct r \<noteq> None then r\<lparr>row_Tier := Tier (row_Pct r) ''stale''\<rparr> else r)"

definition recomputeTiers :: "row list \<Rightarrow> row list" where
  "recomputeTiers rows = map recompute_row rows"

text \<open>The last good block, served as stale.\<close>

definition serve_last :: "string \<Rightarrow> provider \<Rightarrow> provider" where
  "serve_last msg p = p\<lparr>prov_Status := ''stale'', prov_Msg := msg, prov_Rows := recomputeTiers (prov_Rows p)\<rparr>"

definition cooldown_block :: "location \<Rightarrow> int \<Rightarrow> string \<Rightarrow> int \<Rightarrow> provider option \<Rightarrow> provider" where
  "cooldown_block loc now i cooldown lg =
     (case lg of
        Some p \<Rightarrow> serve_last (until_msg loc (of_unix cooldown)) p
      | None \<Rightarrow> empty_provider\<lparr>prov_ID := i, prov_Status := ''stale'',
                  prov_Msg := until_msg loc (of_unix cooldown), prov_FetchedAt := to_unix now\<rparr>)"

text \<open>
  From the cooldown and the last good block that were read: the block, the cooldown to store (the
  zero time for none) and the last good block afterwards.  \<open>recomputeTiers\<close> writes into the rows the
  last good block shares with the copy.
\<close>

definition decide ::
  "location \<Rightarrow> int \<Rightarrow> fetcher \<Rightarrow> int \<Rightarrow> provider option \<Rightarrow> provider \<times> int \<times> provider option" where
  "decide loc now f cooldown lg =
     (let touched = map_option (\<lambda>p. p\<lparr>prov_Rows := recomputeTiers (prov_Rows p)\<rparr>) lg in
      if cooldown > to_unix now then (cooldown_block loc now (fst f) cooldown lg, zero_time, touched)
      else (let (p, out) = snd f now in
        if prov_Status p = ''ok'' then (p, out_CooldownUntil out, Some p)
        else (case lg of
            Some q \<Rightarrow> (serve_last (prov_Msg p) q, out_CooldownUntil out, touched)
          | None \<Rightarrow> (p, out_CooldownUntil out, None))))"

definition age_stale :: "int \<Rightarrow> int \<Rightarrow> provider \<Rightarrow> provider" where
  "age_stale interval now p =
     (if prov_FetchedAt p > 0 \<and> time_sub now (of_unix (prov_FetchedAt p)) > 2 * interval
      then p\<lparr>prov_Status := ''stale''\<rparr> else p)"

definition cooldown_of :: "state \<Rightarrow> string \<Rightarrow> int" where
  "cooldown_of st i = (case st_Cooldowns st i of None \<Rightarrow> 0 | Some c \<Rightarrow> c)"

text \<open>The writes of a goroutine: the entry of the last good block, then the entry of the cooldown.\<close>

definition store_last :: "string \<Rightarrow> provider option \<Rightarrow> state \<Rightarrow> state" where
  "store_last i l st =
     (case l of None \<Rightarrow> st | Some p \<Rightarrow> st\<lparr>st_LastGood := (st_LastGood st)(i \<mapsto> p)\<rparr>)"

definition store_cooldown :: "string \<Rightarrow> int \<Rightarrow> state \<Rightarrow> state" where
  "store_cooldown i until st =
     (if is_zero until then st else st\<lparr>st_Cooldowns := (st_Cooldowns st)(i \<mapsto> to_unix until)\<rparr>)"

text \<open>The goroutine from its first to its last step, alone.\<close>

definition run_fetcher ::
  "location \<Rightarrow> int \<Rightarrow> int \<Rightarrow> fetcher \<Rightarrow> state \<times> (string \<rightharpoonup> provider) \<Rightarrow> state \<times> (string \<rightharpoonup> provider)" where
  "run_fetcher loc interval now f = (\<lambda>(st, results).
     let i = fst f; (p, until, l) = decide loc now f (cooldown_of st i) (st_LastGood st i) in
     (store_cooldown i until (store_last i l st), results(i \<mapsto> age_stale interval now p)))"

subsection \<open>The goroutines together\<close>

text \<open>What a goroutine holds between two of its steps.\<close>

datatype phase =
    Started
  | Have int "provider option"
  | Decided provider int
  | Cooled provider
  | Finished

record poll =
  po_State :: state
  po_Results :: "string \<rightharpoonup> provider"
  po_Phase :: "nat \<Rightarrow> phase"

definition set_phase :: "nat \<Rightarrow> phase \<Rightarrow> poll \<Rightarrow> poll" where
  "set_phase k ph s = s\<lparr>po_Phase := (po_Phase s)(k := ph)\<rparr>"

inductive poll_step :: "location \<Rightarrow> int \<Rightarrow> int \<Rightarrow> fetcher list \<Rightarrow> poll \<Rightarrow> poll \<Rightarrow> bool"
  for loc :: location and interval :: int and now :: int and fs :: "fetcher list" where
  read_state:
    "k < length fs \<Longrightarrow> po_Phase s k = Started \<Longrightarrow>
     poll_step loc interval now fs s
       (set_phase k (Have (cooldown_of (po_State s) (fst (fs ! k))) (st_LastGood (po_State s) (fst (fs ! k)))) s)"
| fetch_and_store:
    "k < length fs \<Longrightarrow> po_Phase s k = Have c l \<Longrightarrow> decide loc now (fs ! k) c l = (p, until, l') \<Longrightarrow>
     poll_step loc interval now fs s
       (set_phase k (Decided p until) (s\<lparr>po_State := store_last (fst (fs ! k)) l' (po_State s)\<rparr>))"
| cool_down:
    "k < length fs \<Longrightarrow> po_Phase s k = Decided p until \<Longrightarrow>
     poll_step loc interval now fs s
       (set_phase k (Cooled p) (s\<lparr>po_State := store_cooldown (fst (fs ! k)) until (po_State s)\<rparr>))"
| give_result:
    "k < length fs \<Longrightarrow> po_Phase s k = Cooled p \<Longrightarrow>
     poll_step loc interval now fs s
       (set_phase k Finished
          (s\<lparr>po_Results := (po_Results s)(fst (fs ! k) \<mapsto> age_stale interval now p)\<rparr>))"

definition poll_start :: "state \<Rightarrow> poll" where
  "poll_start st = \<lparr>po_State = st, po_Results = Map.empty, po_Phase = (\<lambda>_. Started)\<rparr>"

definition poll_over :: "fetcher list \<Rightarrow> poll \<Rightarrow> bool" where
  "poll_over fs s \<longleftrightarrow> list_all (\<lambda>k. po_Phase s k = Finished) [0..<length fs]"

subsection \<open>The poll\<close>

datatype ('i, 'r) effect =
    SaveState string state
  | Publish string string snapshot
  | SaveIndex string 'i
  | SaveReport string 'r

definition poll_results :: "location \<Rightarrow> int \<Rightarrow> int \<Rightarrow> fetcher list \<Rightarrow> state \<Rightarrow> state \<times> (string \<rightharpoonup> provider)" where
  "poll_results loc interval now fs st = fold (run_fetcher loc interval now) fs (st, Map.empty)"

definition publish :: "('i, 'r) sched \<Rightarrow> ('i, 'r) effect" where
  "publish s = Publish (sch_PublishURL s) (sch_PublishToken s) (st_Snapshot (sch_State s))"

text \<open>
  \<open>scanStats\<close>: the scan returns the index it reached and, unless it failed, a report.
\<close>

definition scanStats :: "('i \<Rightarrow> 'i \<times> 'r option) \<Rightarrow> ('i, 'r) sched \<Rightarrow> ('i, 'r) sched \<times> ('i, 'r) effect list" where
  "scanStats scan s =
     (case scan (sch_StatsIndex s) of
        (index, None) \<Rightarrow>
          (s\<lparr>sch_StatsIndex := index\<rparr>,
           if sch_StatsScanPath s \<noteq> [] then [SaveIndex (sch_StatsScanPath s) index] else [])
      | (index, Some report) \<Rightarrow>
          (s\<lparr>sch_StatsReport := Some report, sch_StatsIndex := index\<rparr>,
           (if sch_StatsScanPath s \<noteq> [] then [SaveIndex (sch_StatsScanPath s) index] else []) @
           (if sch_StatsPath s \<noteq> [] then [SaveReport (sch_StatsPath s) report] else [])))"

definition apply_poll :: "location \<Rightarrow> int \<Rightarrow> ('i, 'r) sched \<Rightarrow> ('i, 'r) sched \<times> ('i, 'r) effect list" where
  "apply_poll loc now s =
     (let (st, results) = poll_results loc (sch_Interval s) now (sch_Fetchers s) (sch_State s);
          blockList = List.map_filter (\<lambda>f. results (fst f)) (sch_Fetchers s);
          ordered = orderProviders blockList (sch_ProviderOrder s) now;
          snap = Apply ordered (to_unix now) (st_Snapshot st);
          s' = s\<lparr>sch_State := st\<lparr>st_Snapshot := snap\<rparr>\<rparr>
      in (s', (if sch_StatePath s \<noteq> [] then [SaveState (sch_StatePath s) (sch_State s')] else []) @
              (if snap_Seq snap > snap_Seq (st_Snapshot st) \<and> sch_PublishURL s \<noteq> [] then [publish s'] else [])))"

definition pollOnce ::
  "location \<Rightarrow> ('i \<Rightarrow> 'i \<times> 'r option) \<Rightarrow> int \<Rightarrow> ('i, 'r) sched \<Rightarrow> ('i, 'r) sched \<times> ('i, 'r) effect list" where
  "pollOnce loc scan now s =
     (let (s1, e1) = apply_poll loc now s in
      if sch_StatsConfigured s then (let (s2, e2) = scanStats scan s1 in (s2, e1 @ e2)) else (s1, e1))"

text \<open>\<open>Refresh\<close>: dropped while another poll holds the lock.\<close>

definition Refresh ::
  "bool \<Rightarrow> location \<Rightarrow> ('i \<Rightarrow> 'i \<times> 'r option) \<Rightarrow> int \<Rightarrow> ('i, 'r) sched \<Rightarrow>
     bool \<times> ('i, 'r) sched \<times> ('i, 'r) effect list" where
  "Refresh locked loc scan now s = (if locked then (False, s, []) else (True, pollOnce loc scan now s))"

definition CurrentStats :: "('i, 'r) sched \<Rightarrow> 'r option" where
  "CurrentStats s = sch_StatsReport s"

text \<open>\<open>LoadStatsIndex\<close> and \<open>LoadStatsReport\<close>, from what was read.\<close>

definition LoadStatsIndex :: "'i option \<Rightarrow> ('i, 'r) sched \<Rightarrow> ('i, 'r) sched" where
  "LoadStatsIndex loaded s = (case loaded of None \<Rightarrow> s | Some i \<Rightarrow> s\<lparr>sch_StatsIndex := i\<rparr>)"

definition LoadStatsReport :: "'r option \<Rightarrow> ('i, 'r) sched \<Rightarrow> ('i, 'r) sched" where
  "LoadStatsReport loaded s = (case loaded of None \<Rightarrow> s | Some r \<Rightarrow> s\<lparr>sch_StatsReport := Some r\<rparr>)"

subsection \<open>Every interleaving ends like the goroutines run one after another\<close>

inductive_cases poll_stepE: "poll_step loc interval now fs s t"

lemmas poll_defs = set_phase_def store_last_def store_cooldown_def cooldown_of_def

text \<open>What the goroutine of \<open>f\<close> leaves at its id when the poll starts in \<open>st\<close>.\<close>

definition last_done :: "location \<Rightarrow> int \<Rightarrow> state \<Rightarrow> fetcher \<Rightarrow> provider option" where
  "last_done loc now st f =
     (case decide loc now f (cooldown_of st (fst f)) (st_LastGood st (fst f)) of
        (_, _, None) \<Rightarrow> st_LastGood st (fst f) | (_, _, Some q) \<Rightarrow> Some q)"

definition cooldown_done :: "location \<Rightarrow> int \<Rightarrow> state \<Rightarrow> fetcher \<Rightarrow> int option" where
  "cooldown_done loc now st f =
     (case decide loc now f (cooldown_of st (fst f)) (st_LastGood st (fst f)) of
        (_, until, _) \<Rightarrow> if is_zero until then st_Cooldowns st (fst f) else Some (to_unix until))"

definition result_done :: "location \<Rightarrow> int \<Rightarrow> int \<Rightarrow> state \<Rightarrow> fetcher \<Rightarrow> provider" where
  "result_done loc interval now st f =
     age_stale interval now (fst (decide loc now f (cooldown_of st (fst f)) (st_LastGood st (fst f))))"

lemmas done_defs = last_done_def cooldown_done_def result_done_def

definition phase_ok ::
  "location \<Rightarrow> int \<Rightarrow> int \<Rightarrow> state \<Rightarrow> fetcher \<Rightarrow> phase \<Rightarrow> int option \<Rightarrow> provider option \<Rightarrow> provider option \<Rightarrow> bool" where
  "phase_ok loc interval now st f ph c l r =
     (let d = decide loc now f (cooldown_of st (fst f)) (st_LastGood st (fst f)) in
      case ph of
        Started \<Rightarrow> c = st_Cooldowns st (fst f) \<and> l = st_LastGood st (fst f) \<and> r = None
      | Have c' l' \<Rightarrow> c' = cooldown_of st (fst f) \<and> l' = st_LastGood st (fst f) \<and>
          c = st_Cooldowns st (fst f) \<and> l = st_LastGood st (fst f) \<and> r = None
      | Decided p until \<Rightarrow> p = fst d \<and> until = fst (snd d) \<and>
          c = st_Cooldowns st (fst f) \<and> l = last_done loc now st f \<and> r = None
      | Cooled p \<Rightarrow> p = fst d \<and> c = cooldown_done loc now st f \<and> l = last_done loc now st f \<and> r = None
      | Finished \<Rightarrow> c = cooldown_done loc now st f \<and> l = last_done loc now st f \<and>
          r = Some (result_done loc interval now st f))"

definition poll_inv :: "location \<Rightarrow> int \<Rightarrow> int \<Rightarrow> fetcher list \<Rightarrow> state \<Rightarrow> poll \<Rightarrow> bool" where
  "poll_inv loc interval now fs st s \<longleftrightarrow>
     st_Snapshot (po_State s) = st_Snapshot st \<and>
     (\<forall>k < length fs. phase_ok loc interval now st (fs ! k) (po_Phase s k)
        (st_Cooldowns (po_State s) (fst (fs ! k))) (st_LastGood (po_State s) (fst (fs ! k)))
        (po_Results s (fst (fs ! k)))) \<and>
     (\<forall>i. i \<notin> fst ` set fs \<longrightarrow> st_Cooldowns (po_State s) i = st_Cooldowns st i \<and>
        st_LastGood (po_State s) i = st_LastGood st i \<and> po_Results s i = None)"

lemma poll_inv_start: "poll_inv loc interval now fs st (poll_start st)"
  by (simp add: poll_inv_def poll_start_def phase_ok_def)

text \<open>A step that touches only the entries of its own id keeps the invariant of the others.\<close>

lemma poll_inv_frame:
  assumes inv: "poll_inv loc interval now fs st s" and dist: "distinct (map fst fs)" and k: "k < length fs"
    and frame: "st_Snapshot (po_State t) = st_Snapshot (po_State s)"
      "\<And>j. j \<noteq> k \<Longrightarrow> po_Phase t j = po_Phase s j"
      "\<And>i. i \<noteq> fst (fs ! k) \<Longrightarrow> st_Cooldowns (po_State t) i = st_Cooldowns (po_State s) i \<and>
        st_LastGood (po_State t) i = st_LastGood (po_State s) i \<and> po_Results t i = po_Results s i"
    and own: "phase_ok loc interval now st (fs ! k) (po_Phase t k) (st_Cooldowns (po_State t) (fst (fs ! k)))
      (st_LastGood (po_State t) (fst (fs ! k))) (po_Results t (fst (fs ! k)))"
  shows "poll_inv loc interval now fs st t"
proof -
  have "phase_ok loc interval now st (fs ! j) (po_Phase t j) (st_Cooldowns (po_State t) (fst (fs ! j)))
      (st_LastGood (po_State t) (fst (fs ! j))) (po_Results t (fst (fs ! j)))" if j: "j < length fs" for j
  proof (cases "j = k")
    case False
    then have "fst (fs ! j) \<noteq> fst (fs ! k)"
      using dist j k nth_eq_iff_index_eq [of "map fst fs" j k] by simp
    with False frame(2) [of j] frame(3) [of "fst (fs ! j)"] inv j show ?thesis by (simp add: poll_inv_def)
  qed (simp add: own)
  moreover have "i \<noteq> fst (fs ! k)" if "i \<notin> fst ` set fs" for i
    using that k by force
  ultimately show ?thesis using inv frame(1,3) by (simp add: poll_inv_def)
qed

lemma poll_inv_step:
  assumes "poll_step loc interval now fs s t" "poll_inv loc interval now fs st s" "distinct (map fst fs)"
  shows "poll_inv loc interval now fs st t"
  using assms(1)
proof (cases rule: poll_stepE [consumes 1, case_names read_state fetch_and_store cool_down give_result])
  case (read_state k)
  with assms(2) have "phase_ok loc interval now st (fs ! k) Started (st_Cooldowns (po_State s) (fst (fs ! k)))
      (st_LastGood (po_State s) (fst (fs ! k))) (po_Results s (fst (fs ! k)))"
    unfolding poll_inv_def by metis
  with read_state show ?thesis
    by (intro poll_inv_frame [OF assms(2,3), where k = k]) (simp_all add: phase_ok_def poll_defs)
next
  case (fetch_and_store k c l p until l')
  with assms(2) have "phase_ok loc interval now st (fs ! k) (Have c l) (st_Cooldowns (po_State s) (fst (fs ! k)))
      (st_LastGood (po_State s) (fst (fs ! k))) (po_Results s (fst (fs ! k)))"
    unfolding poll_inv_def by metis
  with fetch_and_store show ?thesis
    by (intro poll_inv_frame [OF assms(2,3), where k = k])
       (auto simp: phase_ok_def poll_defs last_done_def Let_def split: option.split)
next
  case (cool_down k p until)
  with assms(2) have "phase_ok loc interval now st (fs ! k) (Decided p until) (st_Cooldowns (po_State s) (fst (fs ! k)))
      (st_LastGood (po_State s) (fst (fs ! k))) (po_Results s (fst (fs ! k)))"
    unfolding poll_inv_def by metis
  with cool_down show ?thesis
    by (intro poll_inv_frame [OF assms(2,3), where k = k])
       (auto simp: phase_ok_def poll_defs cooldown_done_def Let_def split: prod.split)
next
  case (give_result k p)
  with assms(2) have "phase_ok loc interval now st (fs ! k) (Cooled p) (st_Cooldowns (po_State s) (fst (fs ! k)))
      (st_LastGood (po_State s) (fst (fs ! k))) (po_Results s (fst (fs ! k)))"
    unfolding poll_inv_def by metis
  with give_result show ?thesis
    by (intro poll_inv_frame [OF assms(2,3), where k = k])
       (simp_all add: phase_ok_def poll_defs result_done_def Let_def)
qed

lemma poll_inv_steps:
  "(poll_step loc interval now fs)\<^sup>*\<^sup>* s t \<Longrightarrow> poll_inv loc interval now fs st s \<Longrightarrow> distinct (map fst fs) \<Longrightarrow>
     poll_inv loc interval now fs st t"
  by (induction rule: rtranclp_induct) (auto intro: poll_inv_step)

text \<open>The same entries after running the fetchers one by one.\<close>

lemma run_fetcher_entries:
  assumes "run_fetcher loc interval now f (st, R) = (st', R')"
  shows "st_Snapshot st' = st_Snapshot st \<and>
    st_Cooldowns st' = (st_Cooldowns st)(fst f := cooldown_done loc now st f) \<and>
    st_LastGood st' = (st_LastGood st)(fst f := last_done loc now st f) \<and>
    R' = R(fst f \<mapsto> result_done loc interval now st f)"
  using assms
  by (auto simp: run_fetcher_def Let_def poll_defs done_defs fun_upd_idem split: prod.splits option.splits if_splits)

lemma done_cong:
  assumes "st_Cooldowns st (fst f) = st_Cooldowns st' (fst f)" "st_LastGood st (fst f) = st_LastGood st' (fst f)"
  shows "cooldown_done loc now st f = cooldown_done loc now st' f \<and> last_done loc now st f = last_done loc now st' f \<and>
    result_done loc interval now st f = result_done loc interval now st' f"
  using assms by (simp add: done_defs cooldown_of_def split: prod.split option.split)

lemma run_all_entries:
  assumes "distinct (map fst fs)" "fold (run_fetcher loc interval now) fs (st, R) = (st', R')"
  shows "st_Snapshot st' = st_Snapshot st \<and>
    (\<forall>f \<in> set fs. st_Cooldowns st' (fst f) = cooldown_done loc now st f \<and>
       st_LastGood st' (fst f) = last_done loc now st f \<and> R' (fst f) = Some (result_done loc interval now st f)) \<and>
    (\<forall>i. i \<notin> fst ` set fs \<longrightarrow> st_Cooldowns st' i = st_Cooldowns st i \<and> st_LastGood st' i = st_LastGood st i \<and> R' i = R i)"
  using assms
proof (induction fs arbitrary: st R)
  case (Cons f fs)
  obtain st1 R1 where run: "run_fetcher loc interval now f (st, R) = (st1, R1)" by fastforce
  note one = run_fetcher_entries [OF run]
  have rest: "fold (run_fetcher loc interval now) fs (st1, R1) = (st', R')"
    using Cons.prems(2) run by simp
  have "fst g \<noteq> fst f" if "g \<in> set fs" for g
  proof -
    have "fst g \<in> fst ` set fs" using that by simp
    then show ?thesis using Cons.prems(1) by (metis distinct.simps(2) list.set_map list.simps(9))
  qed
  then have same: "cooldown_done loc now st1 g = cooldown_done loc now st g \<and> last_done loc now st1 g = last_done loc now st g \<and>
      result_done loc interval now st1 g = result_done loc interval now st g" if "g \<in> set fs" for g
    using that one by (intro done_cong) simp_all
  have "fst f \<notin> fst ` set fs" "distinct (map fst fs)" using Cons.prems(1) by simp_all
  with Cons.IH [OF _ rest] one same show ?case by auto
qed simp

lemma poll_results_entries:
  assumes "distinct (map fst fs)" "poll_results loc interval now fs st = (st', R')"
  shows "st_Snapshot st' = st_Snapshot st \<and>
    (\<forall>f \<in> set fs. st_Cooldowns st' (fst f) = cooldown_done loc now st f \<and>
       st_LastGood st' (fst f) = last_done loc now st f \<and> R' (fst f) = Some (result_done loc interval now st f)) \<and>
    (\<forall>i. i \<notin> fst ` set fs \<longrightarrow> st_Cooldowns st' i = st_Cooldowns st i \<and> st_LastGood st' i = st_LastGood st i \<and> R' i = None)"
  using run_all_entries [OF assms(1), of loc interval now st Map.empty st' R'] assms(2)
  by (simp add: poll_results_def)

lemma state_eqI:
  "st_Snapshot a = st_Snapshot b \<Longrightarrow> st_Cooldowns a = st_Cooldowns b \<Longrightarrow> st_LastGood a = st_LastGood b \<Longrightarrow> a = (b :: state)"
  by simp

text \<open>C6: The goroutines of a poll may take their steps in any order: when all of them are done, the
  cooldowns, the last good blocks and the results are those of running the fetchers one after
  another, so the poll modelled by \<open>pollOnce\<close> is the poll of every schedule.\<close>

theorem poll_interleavings:
  assumes "distinct (map fst fs)"
    and "(poll_step loc interval now fs)\<^sup>*\<^sup>* (poll_start st) s" "poll_over fs s"
  shows "(po_State s, po_Results s) = poll_results loc interval now fs st"
proof -
  obtain st' R' where res: "poll_results loc interval now fs st = (st', R')" by fastforce
  note seq = poll_results_entries [OF assms(1) res]
  have inv: "poll_inv loc interval now fs st s"
    using poll_inv_steps [OF assms(2) poll_inv_start assms(1)] .
  have fin: "st_Cooldowns (po_State s) (fst f) = cooldown_done loc now st f \<and>
      st_LastGood (po_State s) (fst f) = last_done loc now st f \<and>
      po_Results s (fst f) = Some (result_done loc interval now st f)" if "f \<in> set fs" for f
  proof -
    from that obtain k where "k < length fs" "f = fs ! k" by (metis in_set_conv_nth)
    with inv assms(3) show ?thesis
      by (auto simp: poll_inv_def poll_over_def list_all_iff phase_ok_def Let_def)
  qed
  have "st_Cooldowns (po_State s) i = st_Cooldowns st' i \<and> st_LastGood (po_State s) i = st_LastGood st' i \<and>
      po_Results s i = R' i" for i
  proof (cases "i \<in> fst ` set fs")
    case True
    then show ?thesis using fin seq by auto
  next
    case False
    then show ?thesis using inv seq by (simp add: poll_inv_def)
  qed
  then have "st_Cooldowns (po_State s) = st_Cooldowns st'" "st_LastGood (po_State s) = st_LastGood st'"
    "po_Results s = R'" by (simp_all add: fun_eq_iff)
  then show ?thesis using inv seq res by (auto simp: poll_inv_def intro: state_eqI)
qed

definition claude_then_codex :: "fetcher list" where
  "claude_then_codex =
     [(''claude'', \<lambda>_. (claudeBlock ''ok'' [] [] [] 0 DefaultAlerts, no_cooldown)),
      (''codex'', \<lambda>_. (codexBlock ''error'' ''api timeout'' [] [] 0 DefaultAlerts, no_cooldown))]"

lemma solo_run:
  assumes "k < length fs" "po_Phase s k = Started"
    and "run_fetcher loc interval now (fs ! k) (po_State s, po_Results s) = (st', R')"
  shows "(poll_step loc interval now fs)\<^sup>*\<^sup>* s (set_phase k Finished (s\<lparr>po_State := st', po_Results := R'\<rparr>))"
proof -
  let ?i = "fst (fs ! k)"
  obtain p until l where d: "decide loc now (fs ! k) (cooldown_of (po_State s) ?i) (st_LastGood (po_State s) ?i) = (p, until, l)"
    by (metis prod_cases3)
  define s1 where "s1 = set_phase k (Have (cooldown_of (po_State s) ?i) (st_LastGood (po_State s) ?i)) s"
  define s2 where "s2 = set_phase k (Decided p until) (s1\<lparr>po_State := store_last ?i l (po_State s1)\<rparr>)"
  define s3 where "s3 = set_phase k (Cooled p) (s2\<lparr>po_State := store_cooldown ?i until (po_State s2)\<rparr>)"
  define s4 where "s4 = set_phase k Finished (s3\<lparr>po_Results := (po_Results s3)(?i \<mapsto> age_stale interval now p)\<rparr>)"
  have "poll_step loc interval now fs s s1" unfolding s1_def using assms(1,2) by (rule read_state)
  moreover have "poll_step loc interval now fs s1 s2" unfolding s2_def
    by (rule fetch_and_store [OF assms(1) _ d]) (simp add: s1_def set_phase_def)
  moreover have "poll_step loc interval now fs s2 s3" unfolding s3_def
    by (rule cool_down [OF assms(1)]) (simp add: s2_def set_phase_def)
  moreover have "poll_step loc interval now fs s3 s4" unfolding s4_def
    by (rule give_result [OF assms(1)]) (simp add: s3_def set_phase_def)
  moreover have "s4 = set_phase k Finished (s\<lparr>po_State := st', po_Results := R'\<rparr>)"
    using assms(3) d by (auto simp: s4_def s3_def s2_def s1_def set_phase_def run_fetcher_def Let_def)
  ultimately show ?thesis by (auto intro: converse_rtranclp_into_rtranclp)
qed

lemma poll_interleavings_witness:
  "run_fetcher (\<lambda>_. 0) 300 0 (claude_then_codex ! 0)
      (run_fetcher (\<lambda>_. 0) 300 0 (claude_then_codex ! 1) (empty_state, Map.empty)) =
     poll_results (\<lambda>_. 0) 300 0 claude_then_codex empty_state"
proof -
  obtain st1 R1 where one: "run_fetcher (\<lambda>_. 0) 300 0 (claude_then_codex ! 1) (empty_state, Map.empty) = (st1, R1)"
    by fastforce
  obtain st2 R2 where two: "run_fetcher (\<lambda>_. 0) 300 0 (claude_then_codex ! 0) (st1, R1) = (st2, R2)" by fastforce
  define s1 where "s1 = set_phase 1 Finished ((poll_start empty_state)\<lparr>po_State := st1, po_Results := R1\<rparr>)"
  define s2 where "s2 = set_phase 0 Finished (s1\<lparr>po_State := st2, po_Results := R2\<rparr>)"
  have fs: "length claude_then_codex = 2" "distinct (map fst claude_then_codex)"
    by (simp_all add: claude_then_codex_def)
  have "(poll_step (\<lambda>_. 0) 300 0 claude_then_codex)\<^sup>*\<^sup>* (poll_start empty_state) s1" unfolding s1_def
    by (rule solo_run) (use one fs in \<open>simp_all add: poll_start_def\<close>)
  also have "(poll_step (\<lambda>_. 0) 300 0 claude_then_codex)\<^sup>*\<^sup>* s1 s2" unfolding s2_def
    by (rule solo_run) (use two fs in \<open>simp_all add: s1_def set_phase_def poll_start_def\<close>)
  finally have run: "(poll_step (\<lambda>_. 0) 300 0 claude_then_codex)\<^sup>*\<^sup>* (poll_start empty_state) s2" .
  have "poll_over claude_then_codex s2"
    using fs(1) by (auto simp: poll_over_def list_all_iff s2_def s1_def set_phase_def less_2_cases_iff)
  from poll_interleavings [OF fs(2) run this] show ?thesis
    unfolding one two by (simp add: s2_def set_phase_def)
qed

subsection \<open>A poll ends\<close>

definition steps_left :: "phase \<Rightarrow> nat" where
  "steps_left ph = (case ph of Started \<Rightarrow> 4 | Have _ _ \<Rightarrow> 3 | Decided _ _ \<Rightarrow> 2 | Cooled _ \<Rightarrow> 1 | Finished \<Rightarrow> 0)"

definition poll_left :: "fetcher list \<Rightarrow> poll \<Rightarrow> nat" where
  "poll_left fs s = sum_list (map (steps_left \<circ> po_Phase s) [0..<length fs])"

lemma sum_list_single:
  assumes "k \<in> set ks" "distinct ks" "f k = Suc (g k)" "\<And>j. j \<noteq> k \<Longrightarrow> f j = (g j :: nat)"
  shows "sum_list (map f ks) = Suc (sum_list (map g ks))"
  using assms
proof (induction ks)
  case (Cons j ks)
  show ?case
  proof (cases "j = k")
    case True
    then have "map f ks = map g ks" using Cons.prems(2,4) by (metis distinct.simps(2) map_eq_conv)
    then show ?thesis using True Cons.prems(3) by (simp del: map_eq_conv)
  next
    case False
    then show ?thesis using Cons by auto
  qed
qed simp

lemma poll_step_left:
  assumes "poll_step loc interval now fs s t"
  shows "poll_left fs s = Suc (poll_left fs t)"
  using assms
proof (cases rule: poll_stepE [consumes 1, case_names read_state fetch_and_store cool_down give_result])
  case (read_state k)
  then show ?thesis unfolding poll_left_def
    by (intro sum_list_single [where k = k]) (simp_all add: set_phase_def steps_left_def)
next
  case (fetch_and_store k)
  then show ?thesis unfolding poll_left_def
    by (intro sum_list_single [where k = k]) (simp_all add: set_phase_def steps_left_def)
next
  case (cool_down k)
  then show ?thesis unfolding poll_left_def
    by (intro sum_list_single [where k = k]) (simp_all add: set_phase_def steps_left_def)
next
  case (give_result k)
  then show ?thesis unfolding poll_left_def
    by (intro sum_list_single [where k = k]) (simp_all add: set_phase_def steps_left_def)
qed

lemma steps_left_0 [simp]: "steps_left ph = 0 \<longleftrightarrow> ph = Finished"
  by (cases ph) (simp_all add: steps_left_def)

lemma poll_over_left: "poll_over fs s \<longleftrightarrow> poll_left fs s = 0"
  by (simp add: poll_over_def poll_left_def list_all_iff)

lemma poll_progress:
  assumes "\<not> poll_over fs s"
  shows "\<exists>t. poll_step loc interval now fs s t"
proof -
  from assms obtain k where k: "k < length fs" "po_Phase s k \<noteq> Finished"
    by (auto simp: poll_over_def list_all_iff)
  show ?thesis
  proof (cases "po_Phase s k")
    case (Have c l)
    obtain p until l' where "decide loc now (fs ! k) c l = (p, until, l')" by (metis prod_cases3)
    with k(1) Have show ?thesis by (blast intro: fetch_and_store)
  qed (use k in \<open>blast intro: poll_step.intros\<close>)+
qed



subsection \<open>The display order\<close>

text \<open>The key \<open>display_less\<close> compares: the kind, then for plans ranked before unranked and the higher
  score, then the position.\<close>

definition display_key :: "(string \<rightharpoonup> rat) \<Rightarrow> (string \<Rightarrow> nat) \<Rightarrow> provider \<Rightarrow> nat \<times> nat \<times> rat \<times> nat" where
  "display_key scores pos p =
     (kindRank (prov_Kind p),
      if kindRank (prov_Kind p) = 0 \<and> scores (prov_ID p) = None then 1 else 0,
      if kindRank (prov_Kind p) = 0 then (case scores (prov_ID p) of None \<Rightarrow> 0 | Some x \<Rightarrow> - x) else 0,
      pos (prov_ID p))"

lemma display_keyed: "keyed_order (display_less scores pos) (display_key scores pos)"
  by unfold_locales (auto simp: display_less_def display_key_def Let_def less_prod_def' split: option.split)

interpretation display_order: keyed_order "display_less (score_map rs) (pos_map ids)" "display_key (score_map rs) (pos_map ids)" for rs ids
  by (rule display_keyed)

lemma score_map_notin: "i \<notin> rec_ID ` set rs \<Longrightarrow> fold (\<lambda>r m. m(rec_ID r \<mapsto> rec_Score r)) rs m i = m i"
  by (induction rs arbitrary: m) auto

lemma score_map_None: "score_map rs i = None \<longleftrightarrow> i \<notin> rec_ID ` set rs"
proof -
  have "fold (\<lambda>r m. m(rec_ID r \<mapsto> rec_Score r)) rs m i = None \<longleftrightarrow> m i = None \<and> i \<notin> rec_ID ` set rs" for m
    by (induction rs arbitrary: m) auto
  then show ?thesis by (simp add: score_map_def)
qed

lemma score_map_Some:
  assumes "distinct (map rec_ID rs)" "r \<in> set rs"
  shows "score_map rs (rec_ID r) = Some (rec_Score r)"
proof -
  have "fold (\<lambda>r m. m(rec_ID r \<mapsto> rec_Score r)) rs m (rec_ID r) = Some (rec_Score r)" for m
    using assms by (induction rs arbitrary: m) (auto simp: score_map_notin)
  then show ?thesis by (simp add: score_map_def)
qed

lemma Rank_distinct_ids:
  assumes "distinct (map prov_ID ps)"
  shows "distinct (map rec_ID (out_Recommendations (Rank ps now h)))"
proof -
  have "map rec_ID (out_Recommendations (Rank ps now h)) = map (snd \<circ> snd) (map rank_key (out_Recommendations (Rank ps now h)))"
    by (simp add: rank_key_def comp_def)
  also have "\<dots> = map rec_ID (ranked ps now h)"
    by (simp only: Rank_keys) (simp add: rank_key_def comp_def)
  finally show ?thesis
    using distinct_map_mset_eq [OF _ map_filter_ids [OF assms, of now h], where ys = "ranked ps now h"]
    by (simp add: ranked_def)
qed

text \<open>C28: The display order loses and invents no block; it groups plans, then credit, then free
  providers; among the plans, those the advice ranks come first, by descending score, and the
  others after them; and inside credit and free the user's order is kept.\<close>

theorem orderProviders_result:
  fixes ps :: "provider list" and user :: "string list" and now :: int
  assumes "distinct (map prov_ID ps)"
  defines "recs \<equiv> out_Recommendations (Rank ps now DefaultHorizon)"
    and "pos \<equiv> pos_map (Order (map prov_ID ps) user)"
  shows "mset (orderProviders ps user now) = mset ps \<and>
    sorted (map (kindRank \<circ> prov_Kind) (orderProviders ps user now)) \<and>
    sorted_wrt (\<lambda>p q. prov_Kind p = ''plan'' \<and> prov_Kind q = ''plan'' \<longrightarrow>
        (prov_ID q \<in> rec_ID ` set recs \<longrightarrow> prov_ID p \<in> rec_ID ` set recs) \<and>
        (\<forall>a \<in> set recs. \<forall>b \<in> set recs. rec_ID a = prov_ID p \<and> rec_ID b = prov_ID q \<longrightarrow> rec_Score b \<le> rec_Score a))
      (orderProviders ps user now) \<and>
    sorted_wrt (\<lambda>p q. prov_Kind p = prov_Kind q \<and> prov_Kind p \<noteq> ''plan'' \<longrightarrow> pos (prov_ID p) \<le> pos (prov_ID q))
      (orderProviders ps user now)"
proof -
  let ?key = "display_key (score_map recs) pos"
  have res: "orderProviders ps user now = slice_stable (display_less (score_map recs) pos) ps"
    by (simp add: orderProviders_def recs_def pos_def)
  have "sorted (map ?key (orderProviders ps user now))"
    unfolding res pos_def by (rule display_order.sorted_keys)
  then have key: "sorted_wrt (\<lambda>p q. ?key p \<le> ?key q) (orderProviders ps user now)"
    by (simp add: sorted_wrt_map)
  have scores: "score_map recs (rec_ID r) = Some (rec_Score r)" if "r \<in> set recs" for r
    using score_map_Some [OF Rank_distinct_ids [OF assms(1)]] that by (simp add: recs_def)
  have "sorted (map (kindRank \<circ> prov_Kind) (orderProviders ps user now))"
    unfolding sorted_wrt_map by (rule sorted_wrt_mono_rel [OF _ key]) (auto simp: display_key_def)
  moreover have "sorted_wrt (\<lambda>p q. prov_Kind p = ''plan'' \<and> prov_Kind q = ''plan'' \<longrightarrow>
        (prov_ID q \<in> rec_ID ` set recs \<longrightarrow> prov_ID p \<in> rec_ID ` set recs) \<and>
        (\<forall>a \<in> set recs. \<forall>b \<in> set recs. rec_ID a = prov_ID p \<and> rec_ID b = prov_ID q \<longrightarrow> rec_Score b \<le> rec_Score a))
      (orderProviders ps user now)"
  proof (rule sorted_wrt_mono_rel [OF _ key], safe, goal_cases)
    case (1 p q b)
    then show ?case using scores [of b] score_map_None [of recs "prov_ID p"]
      by (auto simp: display_key_def kindRank_def split: if_splits)
  next
    case (2 p q a b)
    then show ?case using scores [of a] scores [of b] by (auto simp: display_key_def kindRank_def)
  qed
  moreover have "sorted_wrt (\<lambda>p q. prov_Kind p = prov_Kind q \<and> prov_Kind p \<noteq> ''plan'' \<longrightarrow> pos (prov_ID p) \<le> pos (prov_ID q))
      (orderProviders ps user now)"
    by (rule sorted_wrt_mono_rel [OF _ key]) (auto simp: display_key_def kindRank_def split: if_splits)
  ultimately show ?thesis by (simp add: res)
qed

lemma orderProviders_result_witness:
  "mset (orderProviders [groq_block \<lparr>gp_key = [], gp_probe = False, gp_alerts = DefaultAlerts\<rparr> ''ok'' [] [] [] 0,
      claudeBlock ''ok'' [] [] [] 0 DefaultAlerts] [] 0) =
   mset [groq_block \<lparr>gp_key = [], gp_probe = False, gp_alerts = DefaultAlerts\<rparr> ''ok'' [] [] [] 0,
      claudeBlock ''ok'' [] [] [] 0 DefaultAlerts]"
proof -
  have "distinct (map prov_ID [groq_block \<lparr>gp_key = [], gp_probe = False, gp_alerts = DefaultAlerts\<rparr> ''ok'' [] [] [] 0,
      claudeBlock ''ok'' [] [] [] 0 DefaultAlerts])"
    by (simp add: groq_block_def claudeBlock_def)
  from orderProviders_result [OF this, where now = 0 and user = "[]"] show ?thesis by blast
qed

subsection \<open>The snapshot after a poll\<close>

lemma scanStats_state [simp]: "sch_State (fst (scanStats scan s)) = sch_State s"
  by (simp add: scanStats_def split: prod.split option.split)

lemma pollOnce_state: "sch_State (fst (pollOnce loc scan now s)) = sch_State (fst (apply_poll loc now s))"
  by (simp add: pollOnce_def Let_def split: prod.split) (metis fst_conv scanStats_state)

definition poll_blocks :: "location \<Rightarrow> int \<Rightarrow> ('i, 'r) sched \<Rightarrow> provider list" where
  "poll_blocks loc now s =
     map (result_done loc (sch_Interval s) now (sch_State s)) (sch_Fetchers s)"

lemma apply_poll_state:
  assumes "distinct (map fst (sch_Fetchers s))"
  shows "st_Snapshot (sch_State (fst (apply_poll loc now s))) =
      Apply (orderProviders (poll_blocks loc now s) (sch_ProviderOrder s) now) (to_unix now) (st_Snapshot (sch_State s))"
    and "st_LastGood (sch_State (fst (apply_poll loc now s))) i =
      (case find (\<lambda>f. fst f = i) (sch_Fetchers s) of
         None \<Rightarrow> st_LastGood (sch_State s) i | Some f \<Rightarrow> last_done loc now (sch_State s) f)"
proof -
  obtain st R where res: "poll_results loc (sch_Interval s) now (sch_Fetchers s) (sch_State s) = (st, R)"
    by fastforce
  note seq = poll_results_entries [OF assms res]
  have "List.map_filter (\<lambda>f. R (fst f)) fs = map (result_done loc (sch_Interval s) now (sch_State s)) fs"
    if "set fs \<subseteq> set (sch_Fetchers s)" for fs
    using that seq by (induction fs) (auto simp: List.map_filter_simps)
  then have "List.map_filter (\<lambda>f. R (fst f)) (sch_Fetchers s) = poll_blocks loc now s"
    by (simp add: poll_blocks_def)
  then show "st_Snapshot (sch_State (fst (apply_poll loc now s))) =
      Apply (orderProviders (poll_blocks loc now s) (sch_ProviderOrder s) now) (to_unix now) (st_Snapshot (sch_State s))"
    using seq by (simp add: apply_poll_def res Let_def)
  show "st_LastGood (sch_State (fst (apply_poll loc now s))) i =
      (case find (\<lambda>f. fst f = i) (sch_Fetchers s) of
         None \<Rightarrow> st_LastGood (sch_State s) i | Some f \<Rightarrow> last_done loc now (sch_State s) f)"
  proof (cases "find (\<lambda>f. fst f = i) (sch_Fetchers s)")
    case None
    then have "i \<notin> fst ` set (sch_Fetchers s)" by (auto simp: find_None_iff)
    then show ?thesis using seq None by (simp add: apply_poll_def res Let_def)
  next
    case (Some f)
    then have "f \<in> set (sch_Fetchers s)" "fst f = i" by (auto simp: find_Some_iff)
    then show ?thesis using seq Some by (auto simp: apply_poll_def res Let_def)
  qed
qed

lemma pollOnce_Current:
  assumes "distinct (map fst (sch_Fetchers s))"
  shows "Current (fst (pollOnce loc scan now s)) =
    Apply (orderProviders (poll_blocks loc now s) (sch_ProviderOrder s) now) (to_unix now) (Current s)"
  by (simp add: Current_def pollOnce_state apply_poll_state(1) [OF assms])

lemma set_orderProviders [simp]: "set (orderProviders ps user now) = set ps"
  by (simp add: orderProviders_def)

lemma distinct_ids_orderProviders:
  "distinct (map prov_ID (orderProviders ps user now)) \<longleftrightarrow> distinct (map prov_ID ps)"
  by (metis mset_slice_stable orderProviders_def distinct_map_mset_eq)

subsection \<open>The v1 contract\<close>

definition fetch_ok :: "int \<Rightarrow> fetcher \<Rightarrow> bool" where
  "fetch_ok now f \<longleftrightarrow> provider_ok (fst (snd f now)) \<and> prov_ID (fst (snd f now)) = fst f"

definition last_good_ok :: "state \<Rightarrow> bool" where
  "last_good_ok st \<longleftrightarrow> (\<forall>i p. st_LastGood st i = Some p \<longrightarrow> provider_ok p \<and> prov_ID p = i)"

text \<open>A cooldown that is running without a block to serve meanwhile.\<close>

definition bare_cooldown :: "int \<Rightarrow> state \<Rightarrow> fetcher \<Rightarrow> bool" where
  "bare_cooldown now st f \<longleftrightarrow> cooldown_of st (fst f) > to_unix now \<and> st_LastGood st (fst f) = None"

lemma recompute_row_ok: "row_ok r \<Longrightarrow> row_ok (recompute_row r)"
  by (simp add: recompute_row_def row_ok_def)

lemma touched_ok: "provider_ok p \<Longrightarrow> provider_ok (p\<lparr>prov_Rows := recomputeTiers (prov_Rows p)\<rparr>)"
  by (auto simp: provider_ok_def recomputeTiers_def intro: recompute_row_ok)

lemma serve_last_ok: "provider_ok p \<Longrightarrow> msg_ok m \<Longrightarrow> provider_ok (serve_last m p)"
  by (auto simp: provider_ok_def serve_last_def msg_ok_def recomputeTiers_def validStatuses_def intro: recompute_row_ok)

lemma age_stale_ok: "provider_ok p \<Longrightarrow> provider_ok (age_stale interval now p)"
  by (simp add: age_stale_def provider_ok_def validStatuses_def)

lemma age_stale_id [simp]: "prov_ID (age_stale interval now p) = prov_ID p"
  by (simp add: age_stale_def)

lemma provider_ok_msg: "provider_ok p \<Longrightarrow> msg_ok (prov_Msg p)"
  by (simp add: provider_ok_def msg_ok_def)

lemma decide_ok:
  assumes "fetch_ok now f" "\<And>p. lg = Some p \<Longrightarrow> provider_ok p \<and> prov_ID p = fst f"
    and "c > to_unix now \<Longrightarrow> lg \<noteq> None" "decide loc now f c lg = (p, until, l)"
  shows "provider_ok p \<and> prov_ID p = fst f \<and> (\<forall>q. l = Some q \<longrightarrow> provider_ok q \<and> prov_ID q = fst f)"
proof -
  obtain q out where f: "snd f now = (q, out)" by fastforce
  then have q: "provider_ok q" "prov_ID q = fst f" using assms(1) by (simp_all add: fetch_ok_def)
  show ?thesis
  proof (cases lg)
    case None
    then show ?thesis using assms(3,4) q f by (auto simp: decide_def Let_def split: if_splits)
  next
    case (Some p')
    then show ?thesis using assms(2,4) q f
      by (auto simp: decide_def Let_def cooldown_block_def serve_last_ok touched_ok msgs_ok provider_ok_msg split: if_splits)
         (auto simp: serve_last_def)
  qed
qed

lemma poll_each:
  assumes "fetch_ok now f" "last_good_ok st" "\<not> bare_cooldown now st f"
  shows "provider_ok (result_done loc interval now st f) \<and> prov_ID (result_done loc interval now st f) = fst f \<and>
    (\<forall>q. last_done loc now st f = Some q \<longrightarrow> provider_ok q \<and> prov_ID q = fst f)"
proof -
  obtain p until l where d: "decide loc now f (cooldown_of st (fst f)) (st_LastGood st (fst f)) = (p, until, l)"
    by (metis prod_cases3)
  have "provider_ok p \<and> prov_ID p = fst f \<and> (\<forall>q. l = Some q \<longrightarrow> provider_ok q \<and> prov_ID q = fst f)"
    by (rule decide_ok [OF assms(1) _ _ d]) (use assms(2,3) in \<open>auto simp: last_good_ok_def bare_cooldown_def\<close>)
  then show ?thesis using d assms(2)
    by (auto simp: result_done_def last_done_def age_stale_ok last_good_ok_def split: option.splits)
qed

lemma pollOnce_valid:
  assumes "distinct (map fst (sch_Fetchers s))" "\<And>f. f \<in> set (sch_Fetchers s) \<Longrightarrow> fetch_ok now f"
    and "last_good_ok (sch_State s)" "\<And>f. f \<in> set (sch_Fetchers s) \<Longrightarrow> \<not> bare_cooldown now (sch_State s) f"
  shows "Validate (Current (fst (pollOnce loc scan now s))) = Inr () \<and>
    last_good_ok (sch_State (fst (pollOnce loc scan now s)))"
proof -
  let ?st = "sch_State s" and ?fs = "sch_Fetchers s"
  note each = poll_each [OF assms(2) assms(3) assms(4), where interval = "sch_Interval s" and loc = loc]
  have "map prov_ID (poll_blocks loc now s) = map fst ?fs"
    using each by (simp add: poll_blocks_def)
  then have "distinct (map prov_ID (poll_blocks loc now s))" using assms(1) by simp
  moreover have "provider_ok p" if "p \<in> set (poll_blocks loc now s)" for p
    using that each by (auto simp: poll_blocks_def)
  ultimately have "Validate (Current (fst (pollOnce loc scan now s))) = Inr ()"
    by (simp add: Validate_iff snapshot_ok_def pollOnce_Current [OF assms(1)] distinct_ids_orderProviders)
  moreover have "last_good_ok (sch_State (fst (pollOnce loc scan now s)))"
    unfolding last_good_ok_def pollOnce_state apply_poll_state(2) [OF assms(1)]
  proof (intro allI impI)
    fix i p
    assume p: "(case find (\<lambda>f. fst f = i) ?fs of None \<Rightarrow> st_LastGood ?st i | Some f \<Rightarrow> last_done loc now ?st f) = Some p"
    show "provider_ok p \<and> prov_ID p = i"
    proof (cases "find (\<lambda>f. fst f = i) ?fs")
      case None
      then show ?thesis using p assms(3) by (simp add: last_good_ok_def)
    next
      case (Some f)
      then have "f \<in> set ?fs" "fst f = i" by (auto simp: find_Some_iff)
      then show ?thesis using p Some each [of f] by simp
    qed
  qed
  ultimately show ?thesis ..
qed

text \<open>C13: If every fetcher returns a block of its own id that is valid in the v1 contract, the last good
  blocks are valid, and no cooldown runs without a last good block, then the snapshot after the poll
  passes \<open>Validate\<close>, and the last good blocks are valid again.\<close>

theorem pollOnce_contract:
  assumes "distinct (map fst (sch_Fetchers s))" "\<And>f. f \<in> set (sch_Fetchers s) \<Longrightarrow> fetch_ok now f"
    and "last_good_ok (sch_State s)" "\<And>f. f \<in> set (sch_Fetchers s) \<Longrightarrow> \<not> bare_cooldown now (sch_State s) f"
  shows "Validate (Current (fst (pollOnce loc scan now s))) = Inr () \<and>
    last_good_ok (sch_State (fst (pollOnce loc scan now s)))"
  by (rule pollOnce_valid [OF assms])

definition demo_sched :: "(unit, unit) sched" where
  "demo_sched = NewScheduler () claude_then_codex (300 * Second) []"

lemma claude_then_codex_ok: "f \<in> set claude_then_codex \<Longrightarrow> fetch_ok now f"
proof -
  have "provider_ok (claudeBlock ''ok'' [] [] [] 0 DefaultAlerts)"
    by (rule claudeBlock_ok) (simp_all add: statuses_valid msgs_ok)
  moreover have "provider_ok (codexBlock ''error'' ''api timeout'' [] [] 0 DefaultAlerts)"
    by (rule codexBlock_ok) (simp_all add: statuses_valid msg_ok_def rune_count_le)
  ultimately show "f \<in> set claude_then_codex \<Longrightarrow> fetch_ok now f"
    by (auto simp: claude_then_codex_def fetch_ok_def claudeBlock_def codexBlock_def)
qed

lemma pollOnce_contract_witness:
  "Validate (Current (fst (pollOnce (\<lambda>_. 0) (\<lambda>i. (i, None)) 0 demo_sched))) = Inr ()"
proof -
  have "distinct (map fst (sch_Fetchers demo_sched))" "last_good_ok (sch_State demo_sched)"
    "\<And>f. f \<in> set (sch_Fetchers demo_sched) \<Longrightarrow> fetch_ok 0 f"
    "\<And>f. f \<in> set (sch_Fetchers demo_sched) \<Longrightarrow> \<not> bare_cooldown 0 (sch_State demo_sched) f"
    using claude_then_codex_ok
    by (simp_all add: demo_sched_def NewScheduler_def last_good_ok_def empty_state_def bare_cooldown_def
        cooldown_of_def to_unix_def) (simp add: claude_then_codex_def)
  then show ?thesis using pollOnce_contract [of demo_sched 0] by blast
qed

text \<open>A provider that is in cooldown before it was ever fetched successfully (a 429 at the first
  poll) is published with empty kind and severity: the snapshot then violates the v1 contract, whatever
  the other providers return.\<close>

theorem bare_cooldown_breaks_contract:
  assumes "distinct (map fst (sch_Fetchers s))" "f \<in> set (sch_Fetchers s)" "bare_cooldown now (sch_State s) f"
  shows "Validate (Current (fst (pollOnce loc scan now s))) \<noteq> Inr ()"
proof -
  have "prov_Kind (result_done loc (sch_Interval s) now (sch_State s) f) = []"
    using assms(3)
    by (simp add: bare_cooldown_def result_done_def decide_def cooldown_block_def age_stale_def empty_provider_def)
  then have "\<not> provider_ok (result_done loc (sch_Interval s) now (sch_State s) f)"
    by (simp add: provider_ok_def validKinds_def)
  moreover have "result_done loc (sch_Interval s) now (sch_State s) f \<in> set (poll_blocks loc now s)"
    using assms(2) by (simp add: poll_blocks_def)
  ultimately have "\<not> snapshot_ok (Current (fst (pollOnce loc scan now s)))"
    unfolding pollOnce_Current [OF assms(1)] snapshot_ok_def by auto
  then show ?thesis by (simp add: Validate_iff)
qed

definition limited_sched :: "(unit, unit) sched" where
  "limited_sched = LoadState (empty_state\<lparr>st_Cooldowns := [''codex'' \<mapsto> 900]\<rparr>) demo_sched"

lemma bare_cooldown_breaks_contract_witness:
  "Validate (Current (fst (pollOnce (\<lambda>_. 0) (\<lambda>i. (i, None)) 0 limited_sched))) \<noteq> Inr ()"
proof -
  have "distinct (map fst (sch_Fetchers limited_sched))" "claude_then_codex ! 1 \<in> set (sch_Fetchers limited_sched)"
    "bare_cooldown 0 (sch_State limited_sched) (claude_then_codex ! 1)"
    by (simp_all add: limited_sched_def demo_sched_def LoadState_def NewScheduler_def claude_then_codex_def
        bare_cooldown_def cooldown_of_def empty_state_def to_unix_def)
  then show ?thesis by (rule bare_cooldown_breaks_contract)
qed

text \<open>While a cooldown runs, what the provider's endpoint would answer does not matter: the poll
  leaves the same snapshot, cooldowns and last good blocks whatever that fetcher would return.\<close>

theorem cooldown_suppresses_fetch:
  assumes "cooldown_of (sch_State s) i > to_unix now" "i \<notin> fst ` set xs"
  shows "sch_State (fst (pollOnce loc scan now (SetFetchers (xs @ (i, f) # ys) s))) =
    sch_State (fst (pollOnce loc scan now (SetFetchers (xs @ (i, g) # ys) s)))"
proof -
  have one: "run_fetcher loc (sch_Interval s) now (i, f) (st, R) = run_fetcher loc (sch_Interval s) now (i, g) (st, R)"
    if "cooldown_of st i > to_unix now" for st R
    using that by (simp add: run_fetcher_def decide_def)
  have keep: "st_Cooldowns (fst (fold (run_fetcher loc (sch_Interval s) now) zs (st, R))) i = st_Cooldowns st i"
    if "i \<notin> fst ` set zs" for zs st R
    using that
  proof (induction zs arbitrary: st R)
    case (Cons z zs)
    obtain st1 R1 where run: "run_fetcher loc (sch_Interval s) now z (st, R) = (st1, R1)" by fastforce
    then show ?case using Cons run_fetcher_entries [OF run] by auto
  qed simp
  obtain st R where xs: "fold (run_fetcher loc (sch_Interval s) now) xs (sch_State s, Map.empty) = (st, R)" by fastforce
  then have "cooldown_of st i > to_unix now"
    using keep [OF assms(2), of "sch_State s" Map.empty] assms(1) by (simp add: cooldown_of_def)
  from one [OF this, of R] have "poll_results loc (sch_Interval s) now (xs @ (i, f) # ys) (sch_State s) =
      poll_results loc (sch_Interval s) now (xs @ (i, g) # ys) (sch_State s)"
    by (simp add: poll_results_def xs)
  moreover have "List.map_filter (\<lambda>f. R (fst f)) (xs @ (i, f) # ys) = List.map_filter (\<lambda>f. R (fst f)) (xs @ (i, g) # ys)"
    for R :: "string \<rightharpoonup> provider"
    by (simp add: List.map_filter_def)
  ultimately show ?thesis
    by (simp add: pollOnce_state apply_poll_def SetFetchers_def Let_def split: prod.split)
qed

lemma cooldown_suppresses_fetch_witness:
  "sch_State (fst (pollOnce (\<lambda>_. 0) (\<lambda>i. (i, None)) 0
      (SetFetchers ([] @ (''codex'', snd (claude_then_codex ! 0)) # []) limited_sched))) =
   sch_State (fst (pollOnce (\<lambda>_. 0) (\<lambda>i. (i, None)) 0
      (SetFetchers ([] @ (''codex'', snd (claude_then_codex ! 1)) # []) limited_sched)))"
proof (rule cooldown_suppresses_fetch)
  show "cooldown_of (sch_State limited_sched) ''codex'' > to_unix 0"
    by (simp add: limited_sched_def demo_sched_def LoadState_def NewScheduler_def cooldown_of_def empty_state_def to_unix_def)
qed simp

subsection \<open>The interval\<close>

lemma SetInterval_min: "MinIntervalSec * Second \<le> sch_Interval s \<Longrightarrow> MinIntervalSec * Second \<le> sch_Interval (SetInterval d s)"
  by (simp add: SetInterval_def)

lemma fl_near:
  assumes "\<bar>x\<bar> \<le> 1"
  shows "\<bar>fl x - x\<bar> \<le> 1 / 1000"
proof -
  have "\<bar>x\<bar> / 2 ^ 53 \<le> 1 / 1000" using assms by simp
  with fl_error [of x] show ?thesis by linarith
qed

lemma trunc_abs: "\<bar>y\<bar> \<le> b \<Longrightarrow> of_int \<bar>trunc y\<bar> \<le> b"
proof -
  assume "\<bar>y\<bar> \<le> b"
  moreover have "\<bar>trunc y\<bar> = \<lfloor>\<bar>y\<bar>\<rfloor>" by (simp add: trunc_def)
  moreover have "of_int \<lfloor>\<bar>y\<bar>\<rfloor> \<le> \<bar>y\<bar>" by (rule of_int_floor_le)
  ultimately show ?thesis by linarith
qed

text \<open>The wait between two polls stays within 11 \% of the interval, rounding included, so it is positive.\<close>

lemma jitteredInterval_bounds:
  assumes "0 \<le> r" "r \<le> 1" "0 < sch_Interval s" "sch_Interval s < 2 ^ 53"
  shows "\<bar>jitteredInterval r s - sch_Interval s\<bar> \<le> sch_Interval s * 11 div 100"
proof -
  let ?I = "sch_Interval s"
  define a b y where "a = fl (r * fl (1 / 5))" and "b = fl (a - fl (1 / 10))" and "y = fl (b * fl (of_int ?I))"
  have c: "\<bar>fl (1 / 5) - 1 / 5\<bar> \<le> 1 / 1000" "\<bar>fl (1 / 10) - 1 / 10\<bar> \<le> 1 / 1000"
    by (rule fl_near, simp)+
  have "0 \<le> r * fl (1 / 5)" "r * fl (1 / 5) \<le> 1 * fl (1 / 5)"
    using assms(1,2) mult_right_mono [of r 1 "fl (1 / 5)"] by (simp_all add: fl_nonneg)
  then have "0 \<le> r * fl (1 / 5)" "r * fl (1 / 5) \<le> 201 / 1000" using c(1) by linarith+
  then have "0 \<le> a" "a \<le> 202 / 1000"
    using fl_near [of "r * fl (1 / 5)"] fl_nonneg [of "r * fl (1 / 5)"] unfolding a_def by linarith+
  then have "\<bar>a - fl (1 / 10)\<bar> \<le> 103 / 1000" using c(2) by linarith
  then have b: "\<bar>b\<bar> \<le> 104 / 1000" using fl_near [of "a - fl (1 / 10)"] unfolding b_def by linarith
  have I: "fl (of_int ?I) = of_int ?I" using assms(3,4) by (intro fl_of_int) simp
  have "\<bar>b * of_int ?I\<bar> \<le> 104 / 1000 * of_int ?I"
    using b assms(3) by (simp add: abs_mult mult_right_mono)
  then have "\<bar>y\<bar> \<le> 105 / 1000 * of_int ?I"
  proof -
    have "\<bar>b * of_int ?I\<bar> / 2 ^ 53 \<le> \<bar>b * of_int ?I\<bar> / 1000" by (rule divide_left_mono) simp_all
    moreover have "0 < (of_int ?I :: rat)" using assms(3) by simp
    ultimately show ?thesis
      using fl_error [of "b * of_int ?I"] \<open>\<bar>b * of_int ?I\<bar> \<le> 104 / 1000 * of_int ?I\<close>
      unfolding y_def I by linarith
  qed
  from trunc_abs [OF this] have "of_int \<bar>trunc y\<bar> * 100 \<le> (of_int (?I * 11) :: rat)"
    using assms(3) by simp
  then have "\<bar>trunc y\<bar> * 100 \<le> ?I * 11" by linarith
  moreover have "jitteredInterval r s - ?I = trunc y"
    using assms(3) by (simp add: jitteredInterval_def y_def b_def a_def)
  ultimately show ?thesis by linarith
qed

end
