(* ===== verification/Config_Text.thy ===== *)
theory Config_Text
  imports Config_Yaml
begin

text \<open>
  The printed configuration read back: what \<open>ParseYAML\<close> makes of the text of \<open>SerializeYAML\<close>, block by
  block, and the files the printer writes that the parser refuses.
\<close>

subsection \<open>Words, keys and quoted values\<close>

definition clean :: "string \<Rightarrow> bool" where
  "clean s \<longleftrightarrow> list_all (\<lambda>c. printable c \<and> c \<noteq> dquote \<and> c \<noteq> backslash) s"

text \<open>A key or a number: neither blank nor quote nor comment sign in it.\<close>

definition word_char :: "char \<Rightarrow> bool" where
  "word_char c \<longleftrightarrow> graphic c \<and> c \<noteq> dquote \<and> c \<noteq> CHR ''#''"

definition word :: "string \<Rightarrow> bool" where
  "word s \<longleftrightarrow> s \<noteq> [] \<and> list_all word_char s"

definition key_word :: "string \<Rightarrow> bool" where
  "key_word s \<longleftrightarrow> word s \<and> CHR '':'' \<notin> set s"

text \<open>A value the line reader leaves as it is.\<close>

definition solid :: "string \<Rightarrow> bool" where
  "solid v \<longleftrightarrow> v \<noteq> [] \<and> graphic (hd v) \<and> graphic (last v) \<and> tab \<notin> set v \<and> nl \<notin> set v
     \<and> stripInlineComment v = v"

lemmas char_defs = tab_def dquote_def nl_def backslash_def

lemma graphic_blank: "graphic c \<Longrightarrow> c \<noteq> tab \<and> c \<noteq> nl \<and> c \<noteq> CHR '' ''"
  by (auto simp: graphic_def char_defs)

lemma printable_blank: "printable c \<Longrightarrow> c \<noteq> tab \<and> c \<noteq> nl"
  by (auto simp: printable_def char_defs)

lemma strip_word: "list_all word_char s \<Longrightarrow> strip_comment_from False (s @ t) = s @ strip_comment_from False t"
  by (induction s) (auto simp: word_char_def)

lemma strip_quoted: "dquote \<notin> set s \<Longrightarrow> strip_comment_from True (s @ [dquote]) = s @ [dquote]"
  by (induction s) (auto simp: dquote_def)

lemma word_solid: "word s \<Longrightarrow> solid s"
  using strip_word [of s "[]"]
  by (auto simp: word_def solid_def stripInlineComment_def word_char_def list_all_iff dest: graphic_blank)

lemma graphic_dquote: "graphic dquote" by (simp add: graphic_def dquote_def)

lemma clean_quote: "clean s \<Longrightarrow> concat (map (quote_char esc) s) = s"
  by (induction s) (auto simp: clean_def quote_char_def)

lemma not_special_graphic: "printable c \<Longrightarrow> \<not> yaml_special c \<Longrightarrow> word_char c"
proof -
  assume "printable c" "\<not> yaml_special c"
  then have "c \<noteq> CHR '' ''" "c \<noteq> CHR ''#''" "c \<noteq> dquote" and p: "32 \<le> (of_char c :: nat)" "of_char c \<le> (126 :: nat)"
    by (auto simp: yaml_special_def printable_def)
  moreover have "of_char c \<noteq> (32 :: nat)"
  proof
    assume "of_char c = (32 :: nat)"
    then have "of_char c = (of_char (CHR '' '') :: nat)" by simp
    then show False using \<open>c \<noteq> CHR '' ''\<close> by (simp only: of_char_eq_iff)
  qed
  ultimately show ?thesis by (auto simp: word_char_def graphic_def)
qed

lemma yamlStr_cases:
  assumes "clean s" and "s \<noteq> []"
  obtains "yamlStr esc s = s" and "word s" and "dquote \<notin> set s"
  | "yamlStr esc s = dquote # s @ [dquote]"
proof (cases "list_ex yaml_special s")
  case True
  then show ?thesis using that(2) assms by (simp add: yamlStr_def str_quote_def clean_quote)
next
  case False
  then have "list_all word_char s"
    using assms(1) by (auto simp: clean_def list_all_iff list_ex_iff intro: not_special_graphic)
  then show ?thesis using that(1) assms False by (auto simp: yamlStr_def word_def word_char_def list_all_iff)
qed

lemma yamlStr_solid: "clean s \<Longrightarrow> solid (yamlStr esc s)"
proof (cases "s = []")
  case True
  then show ?thesis by (simp add: yamlStr_def solid_def stripInlineComment_def graphic_def char_defs)
next
  case False
  assume c: "clean s"
  then show ?thesis
  proof (cases rule: yamlStr_cases [OF c False, of esc])
    case 1
    then show ?thesis by (simp add: word_solid)
  next
    case 2
    have "dquote \<notin> set s" "tab \<notin> set s" "nl \<notin> set s"
      using c by (auto simp: clean_def list_all_iff dest: printable_blank)
    then show ?thesis
      by (auto simp: 2 solid_def graphic_dquote stripInlineComment_def strip_quoted) (simp_all add: char_defs)
  qed
qed

lemma unquote_yamlStr [simp]: "clean s \<Longrightarrow> unquote (yamlStr esc s) = s"
proof -
  assume c: "clean s"
  have t: "trim_space (yamlStr esc s) = yamlStr esc s"
    using yamlStr_solid [OF c, of esc] by (simp add: solid_def trim_space_graphic)
  show ?thesis
  proof (cases "s = []")
    case True
    then show ?thesis using t by (simp add: unquote_def yamlStr_def)
  next
    case False
    from c False show ?thesis
    proof (cases rule: yamlStr_cases [OF c False, of esc])
      case 1
      then have "hd s \<noteq> dquote" using False by (metis hd_in_set)
      then show ?thesis using t 1 by (simp add: unquote_def)
    next
      case 2
      then show ?thesis using t by (simp add: unquote_def butlast_append)
    qed
  qed
qed

text \<open>A printed \<open>key: value\<close> and how it splits.\<close>

lemma takeWhile_key: "CHR '':'' \<notin> set k \<Longrightarrow> takeWhile (\<lambda>c. c \<noteq> CHR '':'') (k @ CHR '':'' # t) = k"
  by (induction k) auto

lemma dropWhile_key: "CHR '':'' \<notin> set k \<Longrightarrow> dropWhile (\<lambda>c. c \<noteq> CHR '':'') (k @ CHR '':'' # t) = CHR '':'' # t"
  by (induction k) auto

lemma key_trim: "key_word k \<Longrightarrow> trim_space k = k"
  by (intro trim_space_graphic) (auto simp: key_word_def word_def word_char_def list_all_iff)

lemma splitKV_kv [simp]:
  assumes "key_word k" and "solid v"
  shows "splitKV (k @ CHR '':'' # CHR '' '' # v) = Some (k, v)"
  using assms key_trim [OF assms(1)]
  by (auto simp: splitKV_def key_word_def takeWhile_key dropWhile_key solid_def trim_space_graphic)

lemma splitKV_block [simp]:
  "key_word k \<Longrightarrow> splitKV (k @ '':'') = Some (k, [])"
  using key_trim [of k] trim_space_graphic(1) [of "[]"]
  by (auto simp: splitKV_def key_word_def takeWhile_key dropWhile_key)

subsection \<open>Lexing printed lines\<close>

fun number :: "nat \<Rightarrow> (nat \<times> string) list \<Rightarrow> yamlLine list" where
  "number n [] = []"
| "number n (l # ls) = \<lparr>yl_indent = fst l, yl_content = snd l, yl_lineNo = n\<rparr> # number (Suc n) ls"

lemma number_append [simp]: "number n (xs @ ys) = number n xs @ number (n + length xs) ys"
  by (induction xs arbitrary: n) auto

lemma number_eq_Nil [simp]: "number n xs = [] \<longleftrightarrow> xs = []"
  by (cases xs) auto

lemma strip_spaces: "strip_comment_from False (spaces n @ s) = spaces n @ strip_comment_from False s"
  by (induction n) (auto simp: spaces_def dquote_def)

lemma lex_printed_line:
  assumes "solid c"
  shows "lex_lines n ((spaces i @ c) # rest) =
    bind_result (lex_lines (Suc n) rest) (\<lambda>ls. Inr (\<lparr>yl_indent = i, yl_content = c, yl_lineNo = n\<rparr> # ls))"
proof -
  have "last c \<noteq> CHR '' ''" "hd c \<noteq> CHR '' ''" "c \<noteq> []" "tab \<notin> set c"
    using assms by (auto simp: solid_def dest: graphic_blank)
  have d: "dropWhile (\<lambda>d. d = CHR '' '') (rev c @ t) = rev c @ t" for t
    using \<open>last c \<noteq> CHR '' ''\<close> \<open>c \<noteq> []\<close> by (cases c rule: rev_cases) auto
  have "trim_right_char (CHR '' '') (spaces i @ c) = spaces i @ c"
    by (simp add: trim_right_char_def d)
  moreover have "trim_left_char (CHR '' '') (spaces i @ c) = c"
    using \<open>hd c \<noteq> CHR '' ''\<close> \<open>c \<noteq> []\<close>
    by (induction i) (auto simp: spaces_def neq_Nil_conv)
  moreover have "stripInlineComment (spaces i @ c) = spaces i @ c"
    using assms by (simp add: stripInlineComment_def strip_spaces solid_def)
  moreover have "tab \<notin> set (spaces i @ c)"
    using \<open>tab \<notin> set c\<close> by (auto simp: spaces_def tab_def)
  ultimately show ?thesis using \<open>c \<noteq> []\<close>
    by (simp add: Let_def spaces_def tab_def del: trim_left_char.simps)
qed

lemma lex_printed_lines:
  "list_all (solid \<circ> snd) ls \<Longrightarrow>
     lex_lines n (map (\<lambda>(i, c). spaces i @ c) ls @ [[]]) = Inr (number n ls)"
proof (induction ls arbitrary: n)
  case Nil
  show ?case by (simp add: trim_right_char_def stripInlineComment_def)
next
  case (Cons l ls)
  then show ?case by (cases l) (simp add: lex_printed_line del: lex_lines.simps)
qed

lemma split_printed_lines:
  "list_all (solid \<circ> snd) ls \<Longrightarrow>
     split_char nl (concat (map (\<lambda>(i, c). spaces i @ c @ [nl]) ls)) = map (\<lambda>(i, c). spaces i @ c) ls @ [[]]"
proof (induction ls)
  case (Cons l ls)
  obtain i c where l: "l = (i, c)" by (cases l)
  have "nl \<notin> set (spaces i @ c)"
    using Cons.prems by (auto simp: l solid_def spaces_def nl_def)
  from split_char_append_sep [OF this] Cons show ?case by (simp add: l)
qed simp

lemma lexYAML_printed:
  "list_all (solid \<circ> snd) ls \<Longrightarrow>
     lexYAML (concat (map (\<lambda>(i, c). spaces i @ c @ [nl]) ls)) = Inr (number 1 ls)"
  by (simp add: lexYAML_def split_printed_lines lex_printed_lines del: lex_lines.simps)

lemma solid_append:
  assumes "word k" and "solid v"
  shows "solid (k @ CHR '' '' # v)"
proof -
  have "stripInlineComment (k @ CHR '' '' # v) = k @ CHR '' '' # v"
    using assms by (simp add: word_def strip_word solid_def stripInlineComment_def dquote_def)
  moreover have "hd (k @ CHR '' '' # v) = hd k" "last (k @ CHR '' '' # v) = last v" "graphic (hd k)"
    "tab \<notin> set k" "nl \<notin> set k"
    using assms by (auto simp: word_def solid_def word_char_def list_all_iff dest: graphic_blank)
  ultimately show ?thesis
    using assms unfolding solid_def by (simp add: tab_def nl_def)
qed

lemma word_colon: "key_word k \<Longrightarrow> word (k @ '':'')"
  by (simp add: key_word_def word_def word_char_def graphic_def dquote_def)

lemma solid_kv: "key_word k \<Longrightarrow> solid v \<Longrightarrow> solid (k @ CHR '':'' # CHR '' '' # v)"
  using solid_append [of "k @ '':''" v] by (simp add: word_colon)

subsection \<open>What can be written and read back\<close>

definition float_ok :: "(string \<Rightarrow> rat option) \<Rightarrow> printer \<Rightarrow> rat \<Rightarrow> bool" where
  "float_ok pf pr v \<longleftrightarrow> word (pr_float pr v) \<and> pf (pr_float pr v) = Some v"

definition plan_text_ok :: "(string \<Rightarrow> rat option) \<Rightarrow> printer \<Rightarrow> planConfig \<Rightarrow> bool" where
  "plan_text_ok pf pr pc \<longleftrightarrow>
     (pc_Cost pc = 0 \<or> float_ok pf pr (pc_Cost pc)) \<and> (\<not> pc_HasCostUSD pc \<or> float_ok pf pr (pc_CostUSD pc)) \<and>
     clean (pc_Currency pc) \<and> clean (pc_Label pc)"

definition plan_has_line :: "planConfig \<Rightarrow> bool" where
  "plan_has_line pc \<longleftrightarrow> pc_Cost pc \<noteq> 0 \<or> pc_Currency pc \<noteq> [] \<or> pc_Label pc \<noteq> [] \<or> pc_HasCostUSD pc"

definition provider_text_ok :: "(string \<Rightarrow> rat option) \<Rightarrow> printer \<Rightarrow> yamlProvider \<Rightarrow> bool" where
  "provider_text_ok pf pr p \<longleftrightarrow>
     yp_ID p \<noteq> [] \<and> clean (yp_ID p) \<and> clean (yp_Label p) \<and> clean (yp_KeyEnv p) \<and>
     (case yp_Plan p of None \<Rightarrow> True | Some pc \<Rightarrow> plan_text_ok pf pr pc)"

definition provider_loadable :: "yamlProvider \<Rightarrow> bool" where
  "provider_loadable p \<longleftrightarrow>
     \<not> has_prefix (yp_KeyEnv p) ''sk-'' \<and> \<not> has_prefix (yp_KeyEnv p) ''gsk_'' \<and>
     (case yp_Plan p of None \<Rightarrow> True | Some pc \<Rightarrow> plan_has_line pc)"

definition written_alerts :: "string list" where
  "written_alerts = [''openrouter_low_usd'', ''quota_warn_5h_pct'', ''quota_warn_weekly_pct'']"

definition kept_alerts :: "(string \<times> rat) list \<Rightarrow> (string \<times> rat) list" where
  "kept_alerts m = List.map_filter (\<lambda>key. map_option (\<lambda>v. (key, v)) (map_of m key)) written_alerts"

definition fields_ok :: "(string \<Rightarrow> rat option) \<Rightarrow> printer \<Rightarrow> fileConfig \<Rightarrow> bool" where
  "fields_ok pf pr fc \<longleftrightarrow>
     fc_IntervalSec fc < 2 ^ 63 \<and> clean (fc_Listen fc) \<and> clean (fc_TZ fc) \<and>
     list_all (\<lambda>(key, v). float_ok pf pr v) (kept_alerts (fc_Alerts fc)) \<and>
     list_all clean (fc_ProviderOrder fc) \<and>
     list_all (provider_text_ok pf pr) (fc_Providers fc) \<and> distinct (map yp_ID (fc_Providers fc))"

definition file_loadable :: "fileConfig \<Rightarrow> bool" where
  "file_loadable fc \<longleftrightarrow>
     (fc_Alerts fc = [] \<or> kept_alerts (fc_Alerts fc) \<noteq> []) \<and> list_all provider_loadable (fc_Providers fc)"

definition file_ok :: "(string \<Rightarrow> rat option) \<Rightarrow> printer \<Rightarrow> fileConfig \<Rightarrow> bool" where
  "file_ok pf pr fc \<longleftrightarrow> fields_ok pf pr fc \<and> file_loadable fc"

definition plan_read :: "planConfig \<Rightarrow> planConfig" where
  "plan_read pc = (if pc_HasCostUSD pc then pc else pc\<lparr>pc_CostUSD := 0\<rparr>)"

definition provider_read :: "yamlProvider \<Rightarrow> yamlProvider" where
  "provider_read p = p\<lparr>yp_Probe := yp_HasProbe p \<and> yp_Probe p, yp_Plan := map_option plan_read (yp_Plan p)\<rparr>"

text \<open>What is read back: the token is not written, nor an interval of 0 or less, the alerts are those
  the printer knows, and values without their flag are gone.\<close>

definition file_read :: "fileConfig \<Rightarrow> fileConfig" where
  "file_read fc = fc\<lparr>fc_IntervalSec := max 0 (fc_IntervalSec fc), fc_DeviceToken := [],
     fc_Alerts := kept_alerts (fc_Alerts fc), fc_Providers := map provider_read (fc_Providers fc)\<rparr>"

subsection \<open>One block at a time\<close>

definition stops :: "nat \<Rightarrow> yamlLine list \<Rightarrow> bool" where
  "stops n ls \<longleftrightarrow> (case ls of [] \<Rightarrow> True | l # _ \<Rightarrow> yl_indent l < n)"

lemma stops_simps [simp]:
  "stops n []"
  "stops n (l # ls) \<longleftrightarrow> yl_indent l < n"
  by (simp_all add: stops_def)

lemma fst_kv [simp]: "fst (kv n k v) = n" by (simp add: kv_def)

lemma kv_split: "key_word k \<Longrightarrow> solid v \<Longrightarrow> splitKV (snd (kv n k v)) = Some (k, v)"
  by (simp add: kv_def)

lemma solid_kv' [simp]: "key_word k \<Longrightarrow> solid v \<Longrightarrow> solid (snd (kv n k v))"
  by (simp add: kv_def solid_kv)

lemma solid_not_Nil: "solid v \<Longrightarrow> v \<noteq> []"
  by (simp add: solid_def)

lemma key_words [simp]:
  "key_word ''cost''" "key_word ''currency''" "key_word ''label''" "key_word ''cost_usd''" "key_word ''enabled''"
  "key_word ''key_env''" "key_word ''probe''" "key_word ''id''" "key_word ''interval_sec''" "key_word ''listen''"
  "key_word ''tz''" "key_word ''openrouter_low_usd''" "key_word ''quota_warn_5h_pct''" "key_word ''quota_warn_weekly_pct''"
  "key_word ''plan''" "key_word ''alerts''" "key_word ''provider_order''" "key_word ''providers''"
  by (simp_all add: key_word_def word_def word_char_def graphic_def dquote_def)

lemma block_splits [simp]:
  "splitKV ''plan:'' = Some (''plan'', [])"
  "splitKV ''alerts:'' = Some (''alerts'', [])"
  "splitKV ''provider_order:'' = Some (''provider_order'', [])"
  "splitKV ''providers:'' = Some (''providers'', [])"
  using splitKV_block [of "''plan''"] splitKV_block [of "''alerts''"] splitKV_block [of "''provider_order''"]
    splitKV_block [of "''providers''"]
  by simp_all

lemma plan_stop: "stops 4 rest \<Longrightarrow> plan_fields pf 4 rest pc = Inr (pc, rest)"
  by (cases rest) auto

lemma float_ok_solid: "float_ok pf pr v \<Longrightarrow> solid (pr_float pr v)"
  by (simp add: float_ok_def word_solid)

lemma parse_plan_block:
  assumes "plan_text_ok pf pr pc" and "plan_has_line pc" and "stops 4 rest"
  shows "parsePlanBlock pf 4 k (number j (tl (plan_lines pr pc)) @ rest) = Inr (plan_read pc, rest)"
proof -
  have "plan_fields pf 4 (number j (tl (plan_lines pr pc)) @ rest) no_plan = Inr (plan_read pc, rest)"
    using assms
    by (auto simp: plan_text_ok_def plan_lines_def plan_read_def no_plan_def kv_split float_ok_solid float_ok_def
        yamlStr_solid solid_not_Nil plan_stop)
  moreover have "number j (tl (plan_lines pr pc)) @ rest \<noteq> []"
    "yl_indent (hd (number j (tl (plan_lines pr pc)) @ rest)) = 4"
    using assms(2) by (auto simp: plan_has_line_def plan_lines_def)
  ultimately show ?thesis
    by (cases "number j (tl (plan_lines pr pc)) @ rest") (simp_all add: parsePlanBlock_def del: plan_fields.simps)
qed

lemma continuation_stop: "stops 2 rest \<Longrightarrow> continuation pf 2 rest p = Inr (p, rest)"
  by (cases rest) (simp_all add: continuation.simps)

lemma continuation_field:
  assumes "key_word k" and "solid v" and "setProviderField p k v n = Inr p'"
  shows "continuation pf 2 (\<lparr>yl_indent = 2, yl_content = snd (kv 2 k v), yl_lineNo = n\<rparr> # rest) p =
    continuation pf 2 rest p'"
  using assms by (subst continuation.simps) (simp add: kv_split solid_not_Nil)

lemma continuation_plan:
  assumes "plan_text_ok pf pr pc" and "plan_has_line pc" and "stops 2 rest"
  shows "continuation pf 2 (number j (plan_lines pr pc) @ rest) p = Inr (p\<lparr>yp_Plan := Some (plan_read pc)\<rparr>, rest)"
proof -
  have "stops 4 rest" using assms(3) by (cases rest) auto
  note b = parse_plan_block [OF assms(1,2) this, of j "Suc j"]
  obtain t where t: "plan_lines pr pc = (2, ''plan:'') # t" by (simp add: plan_lines_def)
  then show ?thesis
    using b assms(3) by (subst continuation.simps) (simp add: continuation_stop)
qed

lemma continuation_fields:
  assumes "provider_text_ok pf pr p" and "provider_loadable p" and "stops 2 rest"
  shows "continuation pf 2 (number j (field_lines pr p) @ rest) (new_provider\<lparr>yp_ID := yp_ID p\<rparr>) =
    Inr (provider_read p, rest)"
proof -
  have bools: "solid ''false''" "solid ''true''"
    by (simp_all add: solid_def graphic_def char_defs stripInlineComment_def)
  show ?thesis
    using assms
    by (cases p; cases "yp_Plan p")
      (auto simp: field_lines_def provider_text_ok_def provider_loadable_def new_provider_def continuation_field setProviderField_def yamlStr_solid
        bools parse_bool_def provider_read_def continuation_stop continuation_plan)
qed

lemma item_line:
  "has_prefix (snd (kv 0 ''- id'' v)) ''- ''"
  "trim_prefix (snd (kv 0 ''- id'' v)) ''- '' = snd (kv 0 ''id'' v)"
  by (simp_all add: kv_def has_prefix_def trim_prefix_def)

lemma stops_providers: "stops 2 (number j (concat (map (provider_lines pr) ps)))"
  by (cases ps) (simp_all add: provider_lines_def)

lemma provider_items_printed:
  "list_all (provider_text_ok pf pr) ps \<Longrightarrow> list_all provider_loadable ps \<Longrightarrow>
     provider_items pf 0 (number j (concat (map (provider_lines pr) ps))) = Inr (map provider_read ps, [])"
proof (induction ps arbitrary: j)
  case Nil
  show ?case by (simp add: provider_items.simps)
next
  case (Cons p ps)
  let ?v = "yamlStr (pr_esc pr) (yp_ID p)"
  have ok: "provider_text_ok pf pr p" "provider_loadable p" "clean (yp_ID p)"
    using Cons.prems by (simp_all add: provider_text_ok_def)
  have id: "setProviderField new_provider ''id'' ?v n = Inr (new_provider\<lparr>yp_ID := yp_ID p\<rparr>)" for n
    using ok by (simp add: setProviderField_def)
  have "splitKV (snd (kv 0 ''id'' ?v)) = Some (''id'', ?v)"
    using ok by (simp add: kv_split yamlStr_solid)
  moreover have "number j (concat (map (provider_lines pr) (p # ps))) =
      \<lparr>yl_indent = 0, yl_content = snd (kv 0 ''- id'' ?v), yl_lineNo = j\<rparr> #
      number (Suc j) (field_lines pr p) @
      number (Suc j + length (field_lines pr p)) (concat (map (provider_lines pr) ps))"
    by (simp add: provider_lines_def)
  ultimately show ?case
    using id ok Cons
    by (subst provider_items.simps)
      (simp add: is_item_def item_line continuation_fields stops_providers del: add_2_eq_Suc add_2_eq_Suc')
qed

lemma parseProviderList_printed:
  assumes "list_all (provider_text_ok pf pr) ps" and "list_all provider_loadable ps"
  shows "parseProviderList pf (number j (concat (map (provider_lines pr) ps))) = Inr (map provider_read ps, [])"
proof (cases ps)
  case (Cons p qs)
  then have "number j (concat (map (provider_lines pr) ps)) \<noteq> []"
    and "yl_indent (hd (number j (concat (map (provider_lines pr) ps)))) = 0"
    by (simp_all add: provider_lines_def)
  then show ?thesis using provider_items_printed [OF assms, of j]
    by (cases "number j (concat (map (provider_lines pr) ps))") (simp_all add: parseProviderList_def)
qed (simp add: parseProviderList_def)

lemma order_items_printed:
  assumes "stops 2 rest" and "list_all clean ids"
  shows "takeWhile (is_item 2) (number j (map (\<lambda>i. (2, ''- '' @ yamlStr e i)) ids) @ rest) =
      number j (map (\<lambda>i. (2, ''- '' @ yamlStr e i)) ids)"
    and "dropWhile (is_item 2) (number j (map (\<lambda>i. (2, ''- '' @ yamlStr e i)) ids) @ rest) = rest"
    and "map (\<lambda>i. unquote (trim_space (trim_prefix (yl_content i) ''- '')))
      (number j (map (\<lambda>i. (2, ''- '' @ yamlStr e i)) ids)) = ids"
proof -
  have r: "takeWhile (is_item 2) rest = []" "dropWhile (is_item 2) rest = rest"
    using assms(1) by (cases rest; simp add: is_item_def)+
  have u: "clean i \<Longrightarrow> unquote (trim_space (yamlStr e i)) = i" for i
    using yamlStr_solid [of i e] by (simp add: solid_def trim_space_graphic)
  show "takeWhile (is_item 2) (number j (map (\<lambda>i. (2, ''- '' @ yamlStr e i)) ids) @ rest) =
      number j (map (\<lambda>i. (2, ''- '' @ yamlStr e i)) ids)"
    by (induction ids arbitrary: j) (simp_all add: r is_item_def has_prefix_def)
  show "dropWhile (is_item 2) (number j (map (\<lambda>i. (2, ''- '' @ yamlStr e i)) ids) @ rest) = rest"
    by (induction ids arbitrary: j) (simp_all add: r is_item_def has_prefix_def)
  show "map (\<lambda>i. unquote (trim_space (trim_prefix (yl_content i) ''- '')))
      (number j (map (\<lambda>i. (2, ''- '' @ yamlStr e i)) ids)) = ids"
    using assms(2) by (induction ids arbitrary: j) (simp_all add: trim_prefix_def has_prefix_def u)
qed

lemma parse_top_step:
  "top_key pf fc l rest = Inr (fc', rest') \<Longrightarrow> parse_top pf (l # rest) fc = parse_top pf rest' fc'"
  by (subst parse_top.simps) simp

lemma top_scalar_line:
  assumes "key_word k" and "solid v" and "top_scalar fc k v j = Inr fc'"
    and "k \<in> set [''interval_sec'', ''listen'', ''device_token'', ''tz'']"
  shows "parse_top pf (\<lparr>yl_indent = 0, yl_content = snd (kv 0 k v), yl_lineNo = j\<rparr> # rest) fc = parse_top pf rest fc'"
  using assms by (intro parse_top_step) (simp add: top_key_def kv_split)

lemma top_order_lines:
  assumes "stops 2 rest" and "list_all clean ids"
  shows "parse_top pf (number j (order_lines pr ids) @ rest) fc =
    parse_top pf rest (if ids = [] then fc else fc\<lparr>fc_ProviderOrder := ids\<rparr>)"
proof (cases ids)
  case (Cons i js)
  let ?xs = "number (Suc j) (map (\<lambda>i. (2, ''- '' @ yamlStr (pr_esc pr) i)) ids)"
  have "parseStringList (?xs @ rest) = Inr (ids, rest)"
    using order_items_printed [OF assms, of "Suc j" "pr_esc pr"]
    by (simp add: parseStringList_def Cons split: list.split)
  then have "top_key pf fc \<lparr>yl_indent = 0, yl_content = ''provider_order:'', yl_lineNo = j\<rparr> (?xs @ rest) =
      Inr (fc\<lparr>fc_ProviderOrder := ids\<rparr>, rest)"
    by (simp add: top_key_def)
  from parse_top_step [OF this] show ?thesis by (simp add: order_lines_def Cons)
qed (simp add: order_lines_def)

lemma update_fresh: "k \<notin> fst ` set m \<Longrightarrow> AList.update k v m = m @ [(k, v)]"
  by (induction m) auto

lemma fold_update_fresh:
  "distinct (map fst (acc @ m)) \<Longrightarrow> fold (\<lambda>(k, v). AList.update k v) m acc = acc @ m"
proof (induction m arbitrary: acc)
  case (Cons x m)
  obtain k v where x: "x = (k, v)" by (cases x)
  have "AList.update k v acc = acc @ [(k, v)]" using Cons.prems by (intro update_fresh) (auto simp: x)
  then show ?case using Cons.IH [of "acc @ [(k, v)]"] Cons.prems by (simp add: x)
qed simp

lemma kept_alerts_keys: "fst ` set (kept_alerts m) \<subseteq> set written_alerts"
  by (auto simp: kept_alerts_def List.map_filter_def)

lemma kept_alerts_distinct: "distinct (map fst (kept_alerts m))"
  by (simp add: kept_alerts_def written_alerts_def map_filter_simps split: option.split)

lemma alert_lines_kept:
  "alert_lines pr m =
     (if m = [] then [] else (0, ''alerts:'') # map (\<lambda>(k, v). kv 2 k (pr_float pr v)) (kept_alerts m))"
  by (simp add: alert_lines_def kept_alerts_def written_alerts_def map_filter_simps split: option.split)

lemma scalar_map_printed:
  assumes "stops 2 rest" and "fst ` set xs \<subseteq> set written_alerts" and "list_all (\<lambda>(key, v). float_ok pf pr v) xs"
  shows "scalar_map_from pf 2 (number j (map (\<lambda>(k, v). kv 2 k (pr_float pr v)) xs) @ rest) acc =
    Inr (fold (\<lambda>(k, v). AList.update k v) xs acc, rest)"
  using assms(2,3)
proof (induction xs arbitrary: j acc)
  case Nil
  then show ?case using assms(1) by (cases rest) auto
next
  case (Cons x xs)
  obtain k v where x: "x = (k, v)" by (cases x)
  have "key_word k" "k \<in> set validAlertKeys"
    using Cons.prems by (auto simp: x written_alerts_def validAlertKeys_def)
  moreover have "solid (pr_float pr v)" "pr_float pr v \<noteq> []" "pf (pr_float pr v) = Some v"
    using Cons.prems float_ok_solid [of pf pr v] by (auto simp: x solid_not_Nil float_ok_def)
  ultimately show ?case using Cons by (simp add: x kv_split)
qed

lemma top_alert_lines:
  assumes "stops 2 rest" and "fc_Alerts fc = []" and "m = [] \<or> kept_alerts m \<noteq> []"
    and "list_all (\<lambda>(key, v). float_ok pf pr v) (kept_alerts m)"
  shows "parse_top pf (number j (alert_lines pr m) @ rest) fc = parse_top pf rest (fc\<lparr>fc_Alerts := kept_alerts m\<rparr>)"
proof (cases "m = []")
  case True
  then show ?thesis
    by (cases fc) (use assms(2) in \<open>simp add: alert_lines_def kept_alerts_def written_alerts_def map_filter_simps\<close>)
next
  case False
  let ?xs = "number (Suc j) (map (\<lambda>(k, v). kv 2 k (pr_float pr v)) (kept_alerts m))"
  have d: "fold (\<lambda>(k, v). AList.update k v) (kept_alerts m) [] = kept_alerts m"
    using fold_update_fresh [of "[]" "kept_alerts m"] kept_alerts_distinct [of m] by simp
  obtain x xs where k: "kept_alerts m = x # xs" using assms(3) False by (cases "kept_alerts m") auto
  have "parseScalarMap pf (?xs @ rest) = Inr (kept_alerts m, rest)"
    using scalar_map_printed [OF assms(1) kept_alerts_keys assms(4), of "Suc j" "[]"] d
    by (simp add: parseScalarMap_def k split_beta del: scalar_map_from.simps split: list.split)
  then have "top_key pf fc \<lparr>yl_indent = 0, yl_content = ''alerts:'', yl_lineNo = j\<rparr> (?xs @ rest) =
      Inr (fc\<lparr>fc_Alerts := kept_alerts m\<rparr>, rest)"
    by (simp add: top_key_def assms(2) d)
  from parse_top_step [OF this] show ?thesis by (simp add: alert_lines_kept False)
qed

lemma show_nat_graphic: "list_all word_char (show_nat n)"
proof (induction n rule: show_nat.induct)
  case (1 n)
  have "d < 10 \<Longrightarrow> word_char (digit_char d)" for d
  proof -
    assume "d < 10"
    then have "of_char (digit_char d) = (48 + d :: nat)" by (simp add: digit_char_def of_char_of)
    then show "word_char (digit_char d)" using \<open>d < 10\<close> by (auto simp: word_char_def graphic_def dquote_def)
  qed
  with 1 show ?case by (subst show_nat.simps) simp
qed

lemma show_nat_head: "graphic (hd (show_nat n)) \<and> hd (show_nat n) \<noteq> CHR ''-'' \<and> hd (show_nat n) \<noteq> CHR ''+''"
proof (induction n rule: show_nat.induct)
  case (1 n)
  have "d < 10 \<Longrightarrow> graphic (digit_char d) \<and> digit_char d \<noteq> CHR ''-'' \<and> digit_char d \<noteq> CHR ''+''" for d
  proof -
    assume "d < 10"
    then have "of_char (digit_char d) = (48 + d :: nat)" by (simp add: digit_char_def of_char_of)
    then show "graphic (digit_char d) \<and> digit_char d \<noteq> CHR ''-'' \<and> digit_char d \<noteq> CHR ''+''"
      using \<open>d < 10\<close> by (auto simp: graphic_def)
  qed
  with 1 show ?case by (subst (1 2 3) show_nat.simps) simp
qed

lemma atoi_show_int:
  assumes "0 \<le> i" and "i < 2 ^ 63"
  shows "atoi (show_int i) = Some i" and "word (show_int i)"
proof -
  have "\<not> has_prefix (show_nat n) ''-''" "\<not> has_prefix (show_nat n) ''+''" for n
    using show_nat_head [of n] by (cases "show_nat n"; simp add: has_prefix_def)+
  then show "atoi (show_int i) = Some i"
    using assms by (simp add: atoi_def show_int_def)
  show "word (show_int i)" using assms by (simp add: show_int_def word_def show_nat_graphic)
qed

lemma validate_distinct:
  "list_all (\<lambda>p. yp_ID p \<noteq> []) ps \<Longrightarrow> distinct (map yp_ID ps) \<Longrightarrow> set seen \<inter> yp_ID ` set ps = {} \<Longrightarrow>
     validate_providers_from i seen ps = Inr ()"
  by (induction ps arbitrary: i seen) auto

subsection \<open>The whole file\<close>

lemma kv_solid_lines:
  assumes "fields_ok pf pr fc"
  shows "list_all (solid \<circ> snd) (file_lines pr fc)"
proof -
  have b: "solid ''alerts:''" "solid ''provider_order:''" "solid ''providers:''" "solid ''plan:''"
    "solid ''false''" "solid ''true''"
    by (simp_all add: solid_def graphic_def char_defs stripInlineComment_def)
  have item: "clean v \<Longrightarrow> solid (''- '' @ yamlStr e v)" for e v
    using solid_append [of "''-''" "yamlStr e v"]
    by (simp add: word_def word_char_def graphic_def dquote_def yamlStr_solid)
  have id: "key_word ''- id'' \<or> solid (snd (kv 0 ''- id'' v))" if "solid v" for v
    using solid_append [of "''-''" "snd (kv 0 ''id'' v)"] that
    by (simp add: kv_def word_def word_char_def graphic_def dquote_def solid_kv [of "''id''", simplified])
  have not_key: "\<not> key_word ''- id''" by (simp add: key_word_def word_def word_char_def graphic_def)
  have plan: "list_all (solid \<circ> snd) (plan_lines pr pc)" if "plan_text_ok pf pr pc" for pc
    using that by (auto simp: plan_text_ok_def plan_lines_def b float_ok_solid yamlStr_solid)
  have provider: "list_all (solid \<circ> snd) (provider_lines pr p)" if "provider_text_ok pf pr p" for p
    using that id not_key plan
    by (auto simp: provider_text_ok_def provider_lines_def field_lines_def b yamlStr_solid split: option.splits)
  have alert_key: "key_word k" if "(k, v) \<in> set (kept_alerts m)" for k v m
    using kept_alerts_keys [of m] imageI [OF that, of fst] by (auto simp: written_alerts_def)
  have "list_all (solid \<circ> snd) (alert_lines pr (fc_Alerts fc))"
    using assms alert_key
    by (auto simp: fields_ok_def alert_lines_kept b list_all_iff float_ok_solid split_beta)
  moreover have "list_all (solid \<circ> snd) (order_lines pr (fc_ProviderOrder fc))"
    using assms item by (auto simp: fields_ok_def order_lines_def b list_all_iff)
  moreover have "list_all (solid \<circ> snd) (concat (map (provider_lines pr) (fc_Providers fc)))"
    using assms provider by (auto simp: fields_ok_def list_all_iff)
  moreover have "fc_IntervalSec fc > 0 \<Longrightarrow> solid (show_int (fc_IntervalSec fc))"
    using assms by (simp add: fields_ok_def atoi_show_int word_solid)
  ultimately show ?thesis
    using assms by (auto simp: file_lines_def fields_ok_def b yamlStr_solid)
qed

lemma top_interval_line:
  "0 < i \<Longrightarrow> i < 2 ^ 63 \<Longrightarrow>
     parse_top pf (\<lparr>yl_indent = 0, yl_content = snd (kv 0 ''interval_sec'' (show_int i)), yl_lineNo = j\<rparr> # rest) fc =
     parse_top pf rest (fc\<lparr>fc_IntervalSec := i\<rparr>)"
  using atoi_show_int [of i] by (intro top_scalar_line) (auto simp: word_solid top_scalar_def word_def)

lemma top_text_lines:
  assumes "clean s"
  shows "parse_top pf (\<lparr>yl_indent = 0, yl_content = snd (kv 0 ''listen'' (yamlStr e s)), yl_lineNo = j\<rparr> # rest) fc =
      parse_top pf rest (fc\<lparr>fc_Listen := s\<rparr>)"
    and "parse_top pf (\<lparr>yl_indent = 0, yl_content = snd (kv 0 ''tz'' (yamlStr e s)), yl_lineNo = j\<rparr> # rest) fc =
      parse_top pf rest (fc\<lparr>fc_TZ := s\<rparr>)"
  using assms by (auto intro!: top_scalar_line simp: yamlStr_solid top_scalar_def solid_not_Nil)

lemma top_provider_lines:
  assumes "list_all (provider_text_ok pf pr) ps" and "list_all provider_loadable ps"
  shows "parse_top pf (\<lparr>yl_indent = 0, yl_content = ''providers:'', yl_lineNo = j\<rparr> #
      number k (concat (map (provider_lines pr) ps))) fc = Inr (fc\<lparr>fc_Providers := map provider_read ps\<rparr>)"
  using parseProviderList_printed [OF assms]
  by (subst parse_top_step [where rest' = "[]" and fc' = "fc\<lparr>fc_Providers := map provider_read ps\<rparr>"])
    (simp_all add: top_key_def parse_top.simps)

lemma stops_order:
  "stops 2 rest \<Longrightarrow> stops 2 (number j (order_lines pr ids) @ rest)"
  by (simp add: order_lines_def)

lemma file_reads_back:
  assumes ok: "file_ok pf pr fc"
  shows "ParseYAML pf (SerializeYAML pr fc) = Inr (file_read fc)"
proof -
  have fields: "fields_ok pf pr fc" using ok by (simp add: file_ok_def)
  have end_of_file: "parse_top pf [] f = Inr f" for f
    by (simp add: parse_top.simps)
  have "parse_top pf (number 1 (file_lines pr fc)) empty_file = Inr (file_read fc)"
    using ok
    by (cases fc)
      (auto simp: file_lines_def file_ok_def file_loadable_def fields_ok_def empty_file_def file_read_def top_interval_line top_text_lines
        top_alert_lines top_order_lines top_provider_lines stops_order end_of_file
        top_order_lines [where rest = "[]", simplified] top_alert_lines [where rest = "[]", simplified])
  moreover have "validate_file (file_read fc) = Inr ()"
    using ok by (auto simp: validate_file_def file_read_def file_ok_def fields_ok_def provider_text_ok_def provider_read_def list_all_iff comp_def intro!: validate_distinct)
  ultimately show ?thesis
    by (simp add: ParseYAML_def SerializeYAML_def lexYAML_printed kv_solid_lines [OF fields])
qed


definition sample_pf :: "string \<Rightarrow> rat option" where
  "sample_pf s = map_option of_int (atoi s)"

definition sample_printer :: printer where
  "sample_printer = \<lparr>pr_float = (\<lambda>v. show_int \<lfloor>v\<rfloor>), pr_esc = (\<lambda>c. [c])\<rparr>"

definition sample_file :: fileConfig where
  "sample_file = empty_file\<lparr>fc_IntervalSec := 600, fc_Listen := ''0.0.0.0:8765'', fc_TZ := ''America/Sao_Paulo'',
     fc_Alerts := [(''quota_warn_5h_pct'', 70)], fc_ProviderOrder := [''groq'', ''openrouter:main''],
     fc_Providers := [new_provider\<lparr>yp_ID := ''claude'', yp_Enabled := False, yp_Label := ''My Claude'',
         yp_Plan := Some (no_plan\<lparr>pc_Cost := 1100, pc_Currency := ''BRL'', pc_CostUSD := 200, pc_HasCostUSD := True\<rparr>)\<rparr>,
       new_provider\<lparr>yp_ID := ''groq'', yp_KeyEnv := ''GROQ_API_KEY'', yp_Probe := True, yp_HasProbe := True\<rparr>]\<rparr>"


lemma bare_alerts:
  assumes "stops 2 rest" and "m \<noteq> []" and "kept_alerts m = []"
  shows "\<exists>e. parse_top pf (number j (alert_lines pr m) @ rest) fc = Inl e"
proof -
  have "\<exists>e. parseScalarMap pf rest = Inl e"
    using assms(1) by (cases rest) (auto simp: parseScalarMap_def simp del: scalar_map_from.simps)
  then obtain e where "top_key pf fc \<lparr>yl_indent = 0, yl_content = ''alerts:'', yl_lineNo = j\<rparr> rest = Inl e"
    by (auto simp: top_key_def)
  then show ?thesis by (subst parse_top.simps) (simp add: alert_lines_kept assms)
qed

lemma continuation_bad_field:
  "key_word k \<Longrightarrow> solid v \<Longrightarrow> setProviderField p k v n = Inl e \<Longrightarrow>
     continuation pf 2 (\<lparr>yl_indent = 2, yl_content = snd (kv 2 k v), yl_lineNo = n\<rparr> # rest) p = Inl e"
  by (subst continuation.simps) (simp add: kv_split solid_not_Nil)

lemma continuation_empty_plan:
  "\<not> plan_has_line pc \<Longrightarrow> stops 2 rest \<Longrightarrow> \<exists>e. continuation pf 2 (number j (plan_lines pr pc) @ rest) p = Inl e"
  by (cases rest; subst continuation.simps) (auto simp: plan_lines_def plan_has_line_def parsePlanBlock_def)

lemma continuation_fails:
  assumes "provider_text_ok pf pr p" and "\<not> provider_loadable p" and "stops 2 rest"
  shows "\<exists>e. continuation pf 2 (number j (field_lines pr p) @ rest) (new_provider\<lparr>yp_ID := yp_ID p\<rparr>) = Inl e"
proof -
  have bools: "solid ''false''" "solid ''true''"
    by (simp_all add: solid_def graphic_def char_defs stripInlineComment_def)
  have short: "has_prefix [] ''sk-'' = False" "has_prefix [] ''gsk_'' = False" by (simp_all add: has_prefix_def)
  show ?thesis
    using assms
    by (cases p; cases "yp_Plan p"; cases "has_prefix (yp_KeyEnv p) ''sk-''"; cases "has_prefix (yp_KeyEnv p) ''gsk_''")
      (auto simp: field_lines_def provider_text_ok_def provider_loadable_def new_provider_def continuation_field
        setProviderField_def yamlStr_solid bools parse_bool_def continuation_bad_field continuation_empty_plan short)
qed

lemma provider_items_fail:
  "list_all (provider_text_ok pf pr) ps \<Longrightarrow> \<not> list_all provider_loadable ps \<Longrightarrow>
     \<exists>e. provider_items pf 0 (number j (concat (map (provider_lines pr) ps))) = Inl e"
proof (induction ps arbitrary: j)
  case (Cons p ps)
  let ?v = "yamlStr (pr_esc pr) (yp_ID p)"
  have ok: "provider_text_ok pf pr p" "clean (yp_ID p)" using Cons.prems by (simp_all add: provider_text_ok_def)
  have id: "setProviderField new_provider ''id'' ?v n = Inr (new_provider\<lparr>yp_ID := yp_ID p\<rparr>)" for n
    using ok by (simp add: setProviderField_def)
  have kv: "splitKV (snd (kv 0 ''id'' ?v)) = Some (''id'', ?v)" using ok by (simp add: kv_split yamlStr_solid)
  have lines: "number j (concat (map (provider_lines pr) (p # ps))) =
      \<lparr>yl_indent = 0, yl_content = snd (kv 0 ''- id'' ?v), yl_lineNo = j\<rparr> #
      number (Suc j) (field_lines pr p) @
      number (Suc j + length (field_lines pr p)) (concat (map (provider_lines pr) ps))"
    by (simp add: provider_lines_def)
  note simps = is_item_def item_line stops_providers id kv
  show ?case
  proof (cases "provider_loadable p")
    case True
    with Cons.prems Cons.IH [of "Suc j + length (field_lines pr p)"] obtain e where
      "provider_items pf 0 (number (Suc j + length (field_lines pr p)) (concat (map (provider_lines pr) ps))) = Inl e"
      by auto
    with True show ?thesis unfolding lines
      by (subst provider_items.simps)
        (simp add: simps continuation_fields [OF ok(1)] del: add_2_eq_Suc add_2_eq_Suc')
  next
    case False
    from continuation_fails [OF ok(1) False stops_providers] obtain e where
      "continuation pf 2 (number (Suc j) (field_lines pr p) @
        number (Suc j + length (field_lines pr p)) (concat (map (provider_lines pr) ps))) (new_provider\<lparr>yp_ID := yp_ID p\<rparr>) = Inl e"
      by blast
    then show ?thesis unfolding lines
      by (subst provider_items.simps) (simp add: simps del: add_2_eq_Suc add_2_eq_Suc')
  qed
qed simp

lemma bad_providers:
  assumes "list_all (provider_text_ok pf pr) ps" and "\<not> list_all provider_loadable ps"
  shows "\<exists>e. parse_top pf (\<lparr>yl_indent = 0, yl_content = ''providers:'', yl_lineNo = j\<rparr> #
      number k (concat (map (provider_lines pr) ps))) fc = Inl e"
proof -
  obtain p qs where ps: "ps = p # qs" using assms(2) by (cases ps) auto
  from provider_items_fail [OF assms] obtain e where
    "provider_items pf 0 (number k (concat (map (provider_lines pr) ps))) = Inl e" by blast
  then have "parseProviderList pf (number k (concat (map (provider_lines pr) ps))) = Inl e"
    by (simp add: ps parseProviderList_def provider_lines_def)
  then show ?thesis by (subst parse_top.simps) (simp add: top_key_def)
qed

lemma bad_file:
  assumes fields: "fields_ok pf pr fc" and bad: "\<not> file_loadable fc"
  shows "\<exists>e. parse_top pf (number 1 (file_lines pr fc)) empty_file = Inl e"
proof (cases "fc_Alerts fc = [] \<or> kept_alerts (fc_Alerts fc) \<noteq> []")
  case True
  then have "\<not> list_all provider_loadable (fc_Providers fc)" using bad by (simp add: file_loadable_def)
  with True fields show ?thesis
    by (auto simp: file_lines_def fields_ok_def empty_file_def top_interval_line top_text_lines top_alert_lines
        top_order_lines stops_order bad_providers)
next
  case False
  then show ?thesis using fields
    by (auto simp: file_lines_def fields_ok_def top_interval_line top_text_lines stops_order bare_alerts
        bare_alerts [where rest = "[]", simplified])
qed

lemma loads_iff:
  assumes "fields_ok pf pr fc"
  shows "(\<exists>r. ParseYAML pf (SerializeYAML pr fc) = Inr r) \<longleftrightarrow> file_loadable fc"
proof (cases "file_loadable fc")
  case True
  then show ?thesis using file_reads_back [of pf pr fc] assms by (simp add: file_ok_def)
next
  case False
  from bad_file [OF assms False] obtain e where "parse_top pf (number 1 (file_lines pr fc)) empty_file = Inl e" ..
  then show ?thesis
    using False by (simp add: ParseYAML_def SerializeYAML_def lexYAML_printed kv_solid_lines [OF assms])
qed

text \<open>
  Which saved files stop the next start.  For printable text and numbers the parser agrees on, the
  text of \<open>SerializeYAML\<close> can be parsed exactly when the alerts are empty or hold one of the three written
  keys (\<open>quota_warn_pct\<close> alone, a key \<open>ValidAlertKey\<close> accepts, is written as an empty block), no
  \<open>key_env\<close> starts like a key and no plan has all its fields at zero.
\<close>

theorem saved_config_loads_iff:
  assumes "fields_ok pf pr fc"
  shows "(\<exists>r. ParseYAML pf (SerializeYAML pr fc) = Inr r) \<longleftrightarrow> file_loadable fc"
  using assms by (rule loads_iff)

lemma saved_config_loads_iff_witness:
  "(\<exists>r. ParseYAML sample_pf (SerializeYAML sample_printer (sample_file\<lparr>fc_Alerts := [(''quota_warn_pct'', 60)]\<rparr>)) = Inr r)
     \<longleftrightarrow> False"
proof -
  let ?f = "sample_file\<lparr>fc_Alerts := [(''quota_warn_pct'', 60)]\<rparr>"
  have "fields_ok sample_pf sample_printer ?f" by code_simp
  from saved_config_loads_iff [OF this] show ?thesis
    by (simp add: file_loadable_def kept_alerts_def written_alerts_def map_filter_simps)
qed

end
