(* ===== verification/Api_Settings.thy ===== *)
theory Api_Settings
  imports Config_Text Config Sched Go_Files
begin

text \<open>
  internal/api/server.go, the settings routes: \<open>GET\<close> and \<open>PUT /v1/config\<close>, \<open>PUT
  /v1/config/interval\<close> and the file they write.  The JSON decoders, the key store, the environment, the
  fetcher builder of cmd and the outcome of every system call are parameters.
\<close>

subsection \<open>The request\<close>

record planReq =
  pq_Cost :: rat
  pq_Currency :: string
  pq_Label :: string
  pq_CostUSD :: "rat option"

record providerReq =
  rq_ID :: string
  rq_Enabled :: "bool option"
  rq_Label :: string
  rq_KeyEnv :: string
  rq_Probe :: "bool option"
  rq_Plan :: "planReq option"

record configReq =
  cq_IntervalSec :: int
  cq_Listen :: string
  cq_TZ :: string
  cq_Alerts :: "(string \<times> rat) list"
  cq_Providers :: "providerReq list"
  cq_ProviderOrder :: "string list"

text \<open>What \<open>encoding/json\<close> decodes into an \<open>any\<close>.\<close>

datatype json = JNull | JFlag bool | JNum rat | JText string | JList "json list" | JObject "(string \<times> json) list"

definition key_shaped :: "json option \<Rightarrow> bool" where
  "key_shaped v = (case v of Some (JText k) \<Rightarrow> has_prefix k ''sk-'' \<or> has_prefix k ''gsk_'' | _ \<Rightarrow> False)"

definition has_key_value :: "json \<Rightarrow> bool" where
  "has_key_value j = (case j of JObject m \<Rightarrow> key_shaped (map_of m ''key'') | _ \<Rightarrow> False)"

text \<open>True where \<open>rejectKeyValues\<close> returns an error; \<open>None\<close> is a body that is no JSON object.\<close>

definition rejectKeyValues :: "(string \<times> json) list option \<Rightarrow> bool" where
  "rejectKeyValues obj =
     (case obj of
        None \<Rightarrow> True
      | Some m \<Rightarrow> key_shaped (map_of m ''key'') \<or>
          (case map_of m ''providers'' of Some (JList ps) \<Rightarrow> list_ex has_key_value ps | _ \<Rightarrow> False))"

datatype bad_request =
    InvalidBody
  | KeyInConfig
  | IntervalBelow
  | BadAlertKey string
  | BadAlertValue string
  | NoProviderId

datatype settings_reply = Accepted | Rejected bad_request | WriteError | NoReply

fun settings_status :: "settings_reply \<Rightarrow> nat" where
  "settings_status Accepted = 200"
| "settings_status (Rejected _) = 400"
| "settings_status WriteError = 500"
| "settings_status NoReply = 0"

definition alert_in_range :: "(string \<times> rat) list \<Rightarrow> string \<Rightarrow> (rat \<Rightarrow> bool) \<Rightarrow> bool" where
  "alert_in_range m key ok = (case map_of m key of None \<Rightarrow> True | Some v \<Rightarrow> ok v)"

definition is_percent :: "rat \<Rightarrow> bool" where
  "is_percent v \<longleftrightarrow> 50 \<le> v \<and> v \<le> 100"

text \<open>The checks on a decoded body, in their order.\<close>

definition check_request :: "configReq \<Rightarrow> bad_request option" where
  "check_request b =
     (if cq_IntervalSec b \<noteq> 0 \<and> cq_IntervalSec b < MinIntervalSec then Some IntervalBelow
      else (case List.find (\<lambda>(k, v). \<not> ValidAlertKey k) (cq_Alerts b) of
          Some (k, v) \<Rightarrow> Some (BadAlertKey k)
        | None \<Rightarrow>
            if \<not> alert_in_range (cq_Alerts b) ''quota_warn_5h_pct'' is_percent then Some (BadAlertValue ''quota_warn_5h_pct'')
            else if \<not> alert_in_range (cq_Alerts b) ''quota_warn_weekly_pct'' is_percent
              then Some (BadAlertValue ''quota_warn_weekly_pct'')
            else if \<not> alert_in_range (cq_Alerts b) ''openrouter_low_usd'' (\<lambda>v. 0 \<le> v)
              then Some (BadAlertValue ''openrouter_low_usd'')
            else if list_ex (\<lambda>p. rq_ID p = []) (cq_Providers b) then Some NoProviderId
            else None))"

definition plan_of_req :: "planReq \<Rightarrow> planConfig" where
  "plan_of_req q =
     \<lparr>pc_Cost = pq_Cost q, pc_Currency = pq_Currency q,
      pc_CostUSD = (case pq_CostUSD q of None \<Rightarrow> 0 | Some v \<Rightarrow> v), pc_HasCostUSD = (pq_CostUSD q \<noteq> None),
      pc_Label = pq_Label q\<rparr>"

definition provider_of_req :: "providerReq \<Rightarrow> yamlProvider" where
  "provider_of_req q =
     \<lparr>yp_ID = rq_ID q, yp_Enabled = (case rq_Enabled q of None \<Rightarrow> True | Some b \<Rightarrow> b), yp_Label = rq_Label q,
      yp_KeyEnv = rq_KeyEnv q, yp_Probe = (case rq_Probe q of None \<Rightarrow> False | Some b \<Rightarrow> b),
      yp_HasProbe = (rq_Probe q \<noteq> None), yp_Plan = map_option plan_of_req (rq_Plan q)\<rparr>"

definition requested_providers :: "configReq \<Rightarrow> (string \<times> yamlProvider) list" where
  "requested_providers b = fold (\<lambda>q. AList.update (rq_ID q) (provider_of_req q)) (cq_Providers b) []"

definition buildYamlProviders :: "(string \<times> yamlProvider) list \<Rightarrow> yamlProvider list" where
  "buildYamlProviders m = List.map_filter (map_of m) DefaultProviderOrder"

definition saved_file :: "configReq \<Rightarrow> fileConfig" where
  "saved_file b =
     \<lparr>fc_IntervalSec = cq_IntervalSec b, fc_Listen = cq_Listen b, fc_DeviceToken = [], fc_TZ = cq_TZ b,
      fc_Alerts = cq_Alerts b, fc_Providers = OverridesOnly (buildYamlProviders (requested_providers b)),
      fc_ProviderOrder = cq_ProviderOrder b\<rparr>"

subsection \<open>The file\<close>

text \<open>The outcomes of \<open>MkdirAll\<close>, of reading the old file, of writing the backup and the temporary file and
  of the rename; the last flag is as in \<open>atomic_save\<close>.\<close>

type_synonym save_outcome =
  "string Go_Files.outcome \<times> bool \<times> string Go_Files.outcome \<times> string Go_Files.outcome \<times> string Go_Files.outcome \<times> bool"

definition saveConfigAtomic ::
  "string \<Rightarrow> string \<Rightarrow> string \<Rightarrow> save_outcome \<Rightarrow> string \<Rightarrow> string fs \<Rightarrow> string fs \<times> save_result" where
  "saveConfigAtomic path stamp pid oc text fs = (case oc of (mk, readable, bk, wr, rn, late) \<Rightarrow>
     (let backup = path @ ''.bak.'' @ stamp; tmp = path @ ''.tmp.'' @ pid in
      (case mk of
         Failed _ \<Rightarrow> (fs, SaveErr CreateDir)
       | Crash _ \<Rightarrow> (fs, Crashed)
       | Done \<Rightarrow>
      (case (if readable \<and> fs path \<noteq> None
             then (case bk of Done \<Rightarrow> (fs(backup := fs path), True) | Failed l \<Rightarrow> (fs(backup := l), True)
                   | Crash l \<Rightarrow> (fs(backup := l), False))
             else (fs, True)) of
         (fs0, alive) \<Rightarrow> if \<not> alive then (fs0, Crashed) else
      (case wr of
         Failed l \<Rightarrow> (fs0(tmp := l), SaveErr WriteTmp)
       | Crash l \<Rightarrow> (fs0(tmp := l), Crashed)
       | Done \<Rightarrow> (let fs1 = fs0(tmp \<mapsto> Whole text) in
      (case rn of
         Failed _ \<Rightarrow> (fs1(tmp := None), SaveErr RenameTmp)
       | Crash _ \<Rightarrow> ((if late then rename_file tmp path fs1 else fs1), Crashed)
       | Done \<Rightarrow> (rename_file tmp path fs1, Saved))))))))"

lemma saveConfigAtomic_laws:
  "snd (saveConfigAtomic path stamp pid oc text fs) = Saved \<Longrightarrow>
     fst (saveConfigAtomic path stamp pid oc text fs) path = Some (Whole text)" (is "?saved \<Longrightarrow> ?new")
  "snd (saveConfigAtomic path stamp pid oc text fs) = SaveErr e \<Longrightarrow>
     fst (saveConfigAtomic path stamp pid oc text fs) path = fs path" (is "?failed \<Longrightarrow> ?old")
  "snd (saveConfigAtomic path stamp pid oc text fs) = Crashed \<Longrightarrow>
     fst (saveConfigAtomic path stamp pid oc text fs) path = fs path \<or>
     fst (saveConfigAtomic path stamp pid oc text fs) path = Some (Whole text)" (is "?crashed \<Longrightarrow> ?either")
proof -
  obtain mk readable bk wr rn late where oc: "oc = (mk, readable, bk, wr, rn, late)" by (cases oc) auto
  have "(?saved \<longrightarrow> ?new) \<and> (?failed \<longrightarrow> ?old) \<and> (?crashed \<longrightarrow> ?either)"
    unfolding oc saveConfigAtomic_def rename_file_def
    by (cases mk; cases "readable \<and> fs path \<noteq> None"; cases bk; cases wr; cases rn; simp add: Let_def)
  then show "?saved \<Longrightarrow> ?new" "?failed \<Longrightarrow> ?old" "?crashed \<Longrightarrow> ?either" by simp_all
qed

interpretation config_file: durable_store
  "saveConfigAtomic path stamp pid" "\<lambda>fs. fs path" "\<lambda>text. Some (Whole text)"
  for path stamp pid :: string
  by unfold_locales (auto dest: saveConfigAtomic_laws)

subsection \<open>The handlers\<close>

record ('i, 'r) server =
  sv_cfg :: config
  sv_configPath :: string
  sv_sched :: "('i, 'r) sched"

definition rebuildFetchers :: "(config \<Rightarrow> fetcher list) option \<Rightarrow> ('i, 'r) server \<Rightarrow> ('i, 'r) server" where
  "rebuildFetchers build sv = (case build of
       None \<Rightarrow> sv
     | Some f \<Rightarrow> sv\<lparr>sv_sched := SetProviderOrder (cf_ProviderOrder (sv_cfg sv)) (SetFetchers (f (sv_cfg sv)) (sv_sched sv))\<rparr>)"

text \<open>The thresholds as the handler sets them: the same order as \<open>applyFileConfig\<close>, except for the last.\<close>

definition set_alerts :: "(string \<times> rat) list \<Rightarrow> config \<Rightarrow> config" where
  "set_alerts m c =
     (let c1 = (case map_of m ''quota_warn_pct'' of None \<Rightarrow> c
                | Some v \<Rightarrow> c\<lparr>cf_AlertQuotaWarn5hPct := trunc v, cf_AlertQuotaWarnWeeklyPct := trunc v\<rparr>);
          c2 = (case map_of m ''quota_warn_5h_pct'' of None \<Rightarrow> c1 | Some v \<Rightarrow> c1\<lparr>cf_AlertQuotaWarn5hPct := trunc v\<rparr>);
          c3 = (case map_of m ''quota_warn_weekly_pct'' of None \<Rightarrow> c2 | Some v \<Rightarrow> c2\<lparr>cf_AlertQuotaWarnWeeklyPct := trunc v\<rparr>) in
      (case map_of m ''openrouter_low_usd'' of None \<Rightarrow> c3 | Some v \<Rightarrow> c3\<lparr>cf_AlertOpenRouterLowUSD := v\<rparr>))"

definition apply_request :: "(string \<Rightarrow> bool) \<Rightarrow> configReq \<Rightarrow> config \<Rightarrow> config" where
  "apply_request known b c =
     (let c1 = (if cq_IntervalSec b \<noteq> 0 then c\<lparr>cf_Interval := seconds (cq_IntervalSec b)\<rparr> else c);
          c2 = (if cq_Listen b \<noteq> [] then c1\<lparr>cf_Listen := cq_Listen b\<rparr> else c1);
          c3 = (if cq_TZ b \<noteq> [] then (case load_location known (cq_TZ b) of None \<Rightarrow> c2 | Some z \<Rightarrow> c2\<lparr>cf_TZ := z\<rparr>) else c2);
          c4 = c3\<lparr>cf_ProviderConfigs := requested_providers b\<rparr>;
          c5 = (if cq_ProviderOrder b \<noteq> [] then c4\<lparr>cf_ProviderOrder := cq_ProviderOrder b\<rparr> else c4) in
      set_alerts (cq_Alerts b) c5)"

text \<open>What the handler is given: whether the body could be read, the body as \<open>encoding/json\<close> reads it (\<open>None\<close> for an error), the
  printer, the zones, the builder and the outcome of the save.\<close>

record put_env =
  pe_read :: bool
  pe_top :: "(string \<times> json) list option"
  pe_body :: "configReq option"
  pe_printer :: printer
  pe_known :: "string \<Rightarrow> bool"
  pe_build :: "(config \<Rightarrow> fetcher list) option"
  pe_stamp :: string
  pe_pid :: string
  pe_save :: save_outcome

definition handleSetConfig ::
  "put_env \<Rightarrow> ('i, 'r) server \<Rightarrow> string fs \<Rightarrow> settings_reply \<times> ('i, 'r) server \<times> string fs" where
  "handleSetConfig e sv fs =
     (if \<not> pe_read e then (Rejected InvalidBody, sv, fs)
      else if rejectKeyValues (pe_top e) then (Rejected KeyInConfig, sv, fs)
      else (case pe_body e of
          None \<Rightarrow> (Rejected InvalidBody, sv, fs)
        | Some b \<Rightarrow>
         (case check_request b of
            Some r \<Rightarrow> (Rejected r, sv, fs)
          | None \<Rightarrow>
           (case (if sv_configPath sv \<noteq> []
                  then saveConfigAtomic (sv_configPath sv) (pe_stamp e) (pe_pid e) (pe_save e)
                         (SerializeYAML (pe_printer e) (saved_file b)) fs
                  else (fs, Saved)) of
              (fs', SaveErr _) \<Rightarrow> (WriteError, sv, fs')
            | (fs', Crashed) \<Rightarrow> (NoReply, sv, fs')
            | (fs', Saved) \<Rightarrow>
                (Accepted,
                 rebuildFetchers (pe_build e)
                   (sv\<lparr>sv_cfg := apply_request (pe_known e) b (sv_cfg sv),
                       sv_sched := (if cq_IntervalSec b \<noteq> 0 then SetInterval (seconds (cq_IntervalSec b)) (sv_sched sv)
                                    else sv_sched sv)\<rparr>),
                 fs')))))"

definition handleSetInterval ::
  "int option \<Rightarrow> (string \<Rightarrow> string) \<Rightarrow> ('i, 'r) server \<Rightarrow> settings_reply \<times> ('i, 'r) server \<times> (string \<Rightarrow> string)" where
  "handleSetInterval body persist sv =
     (case body of
        None \<Rightarrow> (Rejected InvalidBody, sv, id)
      | Some n \<Rightarrow>
          if n < MinIntervalSec then (Rejected IntervalBelow, sv, id)
          else (Accepted,
            sv\<lparr>sv_cfg := (sv_cfg sv)\<lparr>cf_Interval := seconds n\<rparr>, sv_sched := SetInterval (seconds n) (sv_sched sv)\<rparr>,
            if sv_configPath sv \<noteq> [] then persist else id))"

text \<open>\<open>^interval_sec:\s*\d+\s*$\<close> in multi-line mode: what is left of the text after a match at its front.\<close>

definition re_space :: "char \<Rightarrow> bool" where
  "re_space c \<longleftrightarrow> (of_char c :: nat) \<in> {9, 10, 12, 13, 32}"

definition re_digit :: "char \<Rightarrow> bool" where
  "re_digit c \<longleftrightarrow> digit_val c \<noteq> None"

definition match_interval :: "string \<Rightarrow> string option" where
  "match_interval s =
     (if \<not> has_prefix s ''interval_sec:'' then None
      else (let r = dropWhile re_space (drop 13 s); t = dropWhile re_digit r;
                run = takeWhile re_space t; after = dropWhile re_space t in
        if r = t then None
        else if after = [] then Some []
        else if nl \<in> set run then Some (nl # rev (takeWhile (\<lambda>c. c \<noteq> nl) (rev run)) @ after)
        else None))"

lemma takeWhile_shorter: "x \<in> set xs \<Longrightarrow> length (takeWhile (\<lambda>c. c \<noteq> x) xs) < length xs"
  by (induction xs) auto

lemma match_interval_shorter: "match_interval s = Some r \<Longrightarrow> length r < length s"
proof -
  assume m: "match_interval s = Some r"
  let ?d = "dropWhile re_space (drop 13 s)"
  let ?t = "dropWhile re_digit ?d"
  let ?run = "takeWhile re_space ?t" and ?after = "dropWhile re_space ?t"
  have p: "has_prefix s ''interval_sec:''" using m by (auto simp: match_interval_def split: if_splits)
  then have "13 \<le> length s" by (auto simp: has_prefix_def dest!: arg_cong [where f = length])
  moreover have "length ?t \<le> length ?d" "length ?d \<le> length (drop 13 s)"
    by (rule length_dropWhile_le)+
  ultimately have t: "length ?t + 13 \<le> length s" by simp
  have split: "length ?t = length ?run + length ?after"
    by (metis length_append takeWhile_dropWhile_id)
  have "nl \<in> set ?run \<Longrightarrow> length (takeWhile (\<lambda>c. c \<noteq> nl) (rev ?run)) < length ?run"
    using takeWhile_shorter [of nl "rev ?run"] by simp
  then show ?thesis using m p t split
    by (auto simp: match_interval_def Let_def split: if_splits)
qed

function replace_interval :: "string \<Rightarrow> bool \<Rightarrow> string \<Rightarrow> string" where
  "replace_interval line bol [] = []"
| "replace_interval line bol (c # cs) =
     (case (if bol then match_interval (c # cs) else None) of
        Some r \<Rightarrow> line @ replace_interval line False r
      | None \<Rightarrow> c # replace_interval line (c = nl) cs)"
  by pat_completeness auto

termination
  by (relation "measure (\<lambda>(line, bol, s). length s)") (auto split: if_splits dest: match_interval_shorter)

fun has_interval :: "bool \<Rightarrow> string \<Rightarrow> bool" where
  "has_interval bol [] = False"
| "has_interval bol (c # cs) = (bol \<and> match_interval (c # cs) \<noteq> None \<or> has_interval (c = nl) cs)"

text \<open>The new text of the file from the old one; a missing file reads as an empty text.\<close>

definition persistInterval :: "int \<Rightarrow> string \<Rightarrow> string" where
  "persistInterval sec text =
     (let line = ''interval_sec: '' @ show_int sec in
      if has_interval True text then replace_interval line True text else text @ nl # line)"

subsection \<open>GET /v1/config\<close>

definition hasOAuthCreds :: "provider list \<Rightarrow> string \<Rightarrow> bool" where
  "hasOAuthCreds ps i = (case List.find (\<lambda>p. prov_ID p = i) ps of
       Some p \<Rightarrow> prov_Status p = ''ok'' \<or> prov_Status p = ''stale''
     | None \<Rightarrow> False)"

definition stored_key :: "(string \<Rightarrow> string option) \<Rightarrow> string \<Rightarrow> bool" where
  "stored_key keys i = (case keys i of Some k \<Rightarrow> k \<noteq> [] | None \<Rightarrow> False)"

definition keyState ::
  "(string \<Rightarrow> string) \<Rightarrow> (string \<Rightarrow> string option) \<Rightarrow> provider list \<Rightarrow> string \<Rightarrow> string \<Rightarrow> string" where
  "keyState env keys ps i keyEnv =
     (if keyEnv \<noteq> [] \<and> env keyEnv \<noteq> [] then ''set''
      else if stored_key keys i then ''set''
      else if keyEnv = [] \<and> hasOAuthCreds ps i then ''set''
      else ''not_set'')"

definition keySource ::
  "(string \<Rightarrow> string) \<Rightarrow> (string \<Rightarrow> string option) \<Rightarrow> provider list \<Rightarrow> string \<Rightarrow> string \<Rightarrow> string" where
  "keySource env keys ps i keyEnv =
     (if keyEnv \<noteq> [] \<and> env keyEnv \<noteq> [] then ''env:'' @ keyEnv
      else if keyEnv = [] \<and> i = ProviderClaude then (if hasOAuthCreds ps i then ''claude-code'' else ''none'')
      else if keyEnv = [] \<and> i = ProviderCodex then (if hasOAuthCreds ps i then ''codex'' else ''none'')
      else if stored_key keys i then ''keychain''
      else ''none'')"

definition plan_setting :: "planConfig \<Rightarrow> setting" where
  "plan_setting pl = SMap ([(''cost'', SFloat (pc_Cost pl)), (''currency'', SText (pc_Currency pl)),
     (''label'', SText (pc_Label pl))] @ (if pc_HasCostUSD pl then [(''cost_usd'', SFloat (pc_CostUSD pl))] else []))"

definition provider_entry ::
  "(string \<Rightarrow> string) \<Rightarrow> (string \<Rightarrow> string option) \<Rightarrow> provider list \<Rightarrow> effectiveProvider \<Rightarrow> (string \<times> setting) list" where
  "provider_entry env keys ps p =
     [(''id'', SText (ep_ID p)), (''enabled'', SFlag (ep_Enabled p)), (''label'', SText (ep_Label p)),
      (''key_state'', SText (keyState env keys ps (ep_ID p) (ep_KeyEnv p))),
      (''key_source'', SText (keySource env keys ps (ep_ID p) (ep_KeyEnv p)))] @
     (if ep_KeyEnv p \<noteq> [] then [(''key_env'', SText (ep_KeyEnv p))] else []) @
     [(''probe'', SFlag (ep_Probe p)), (''has_probe'', SFlag (ep_HasProbe p)), (''can_probe'', SFlag (ep_CanProbe p))] @
     (case ep_Plan p of None \<Rightarrow> [] | Some pl \<Rightarrow> [(''plan'', plan_setting pl)])"

text \<open>The answer: its scalar fields and, apart, the list of provider entries and the plan presets.\<close>

record config_answer =
  ca_fields :: "(string \<times> setting) list"
  ca_providers :: "(string \<times> setting) list list"
  ca_presets :: "(string \<times> setting list) list"

definition handleGetConfig ::
  "(string \<Rightarrow> string) \<Rightarrow> (string \<Rightarrow> string option) \<Rightarrow> ('i, 'r) server \<Rightarrow> config_answer" where
  "handleGetConfig env keys sv =
     (let c = sv_cfg sv; ps = snap_Providers (Current (sv_sched sv)) in
      \<lparr>ca_fields = [(''interval_sec'', SInt (interval_seconds (cf_Interval c))), (''listen'', SText (cf_Listen c)),
          (''tz'', SText (cf_TZ c)), (''provider_order'', SList (cf_ProviderOrder c)), (''alerts'', alert_settings c)],
       ca_providers = map (provider_entry env keys ps) (EffectiveProviders c),
       ca_presets = map (\<lambda>(i, pls). (i, map plan_setting pls)) PlanPresets\<rparr>)"

subsection \<open>What a save leaves behind\<close>

lemma handleSetConfig_all_or_nothing:
  "case handleSetConfig e sv fs of (r, sv', fs') \<Rightarrow>
     (case r of
        Accepted \<Rightarrow> \<exists>b. pe_body e = Some b \<and> check_request b = None \<and>
          (if sv_configPath sv = [] then fs' = fs
           else fs' (sv_configPath sv) = Some (Whole (SerializeYAML (pe_printer e) (saved_file b)))) \<and>
          sv_cfg sv' = apply_request (pe_known e) b (sv_cfg sv)
      | NoReply \<Rightarrow> sv' = sv \<and> (fs' (sv_configPath sv) = fs (sv_configPath sv) \<or>
          fs' (sv_configPath sv) = map_option (\<lambda>b. Whole (SerializeYAML (pe_printer e) (saved_file b))) (pe_body e))
      | _ \<Rightarrow> sv' = sv \<and> fs' (sv_configPath sv) = fs (sv_configPath sv))"
proof (cases "\<not> pe_read e \<or> rejectKeyValues (pe_top e) \<or> pe_body e = None \<or> check_request (the (pe_body e)) \<noteq> None")
  case True
  then show ?thesis by (auto simp: handleSetConfig_def split: option.splits)
next
  case False
  then obtain b where b: "pe_body e = Some b" "check_request b = None" "pe_read e" "\<not> rejectKeyValues (pe_top e)"
    by auto
  have cfg: "sv_cfg (rebuildFetchers f s) = sv_cfg s" for f and s :: "('i, 'r) server"
    by (simp add: rebuildFetchers_def split: option.split)
  show ?thesis
  proof (cases "sv_configPath sv = []")
    case True
    then show ?thesis using b by (simp add: handleSetConfig_def cfg)
  next
    case path: False
    let ?text = "SerializeYAML (pe_printer e) (saved_file b)"
    obtain fs' r where s: "saveConfigAtomic (sv_configPath sv) (pe_stamp e) (pe_pid e) (pe_save e) ?text fs = (fs', r)"
      by (cases "saveConfigAtomic (sv_configPath sv) (pe_stamp e) (pe_pid e) (pe_save e) ?text fs")
    show ?thesis
      using b path s saveConfigAtomic_laws [of "sv_configPath sv" "pe_stamp e" "pe_pid e" "pe_save e" ?text fs]
      by (cases r) (simp_all add: handleSetConfig_def cfg)
  qed
qed

text \<open>
  C20: saving the settings is all or nothing.  Whatever the body and however the system calls end, a
  refused request changes neither the running configuration nor the file, an accepted one has replaced
  the whole file, and a process that dies in between leaves the old file or the new one.
\<close>

theorem handleSetConfig_atomic:
  "case handleSetConfig e sv fs of (r, sv', fs') \<Rightarrow>
     (case r of
        Accepted \<Rightarrow> \<exists>b. pe_body e = Some b \<and> check_request b = None \<and>
          (if sv_configPath sv = [] then fs' = fs
           else fs' (sv_configPath sv) = Some (Whole (SerializeYAML (pe_printer e) (saved_file b)))) \<and>
          sv_cfg sv' = apply_request (pe_known e) b (sv_cfg sv)
      | NoReply \<Rightarrow> sv' = sv \<and> (fs' (sv_configPath sv) = fs (sv_configPath sv) \<or>
          fs' (sv_configPath sv) = map_option (\<lambda>b. Whole (SerializeYAML (pe_printer e) (saved_file b))) (pe_body e))
      | _ \<Rightarrow> sv' = sv \<and> fs' (sv_configPath sv) = fs (sv_configPath sv))"
  by (rule handleSetConfig_all_or_nothing)

subsection \<open>Saved settings after a restart\<close>

text \<open>The entry the file gets for a requested provider, if any.\<close>

definition override :: "yamlProvider \<Rightarrow> yamlProvider option" where
  "override p = (case defaultProviderByID (yp_ID p) of
       None \<Rightarrow> Some p
     | Some d \<Rightarrow> if providerEqual (mergeWithDefault p d) d then None else Some (mergeWithDefault p d))"

lemma OverridesOnly_overrides: "OverridesOnly ps = List.map_filter override ps"
  by (induction ps) (auto simp: override_def Let_def map_filter_simps split: option.splits)

lemma yp_ID_req [simp]: "yp_ID (provider_of_req q) = rq_ID q"
  by (simp add: provider_of_req_def)

text \<open>A map of providers as the handler builds it.\<close>

definition request_map :: "(string \<times> yamlProvider) list \<Rightarrow> bool" where
  "request_map m \<longleftrightarrow> (\<forall>i p. map_of m i = Some p \<longrightarrow> (\<exists>q. p = provider_of_req q \<and> rq_ID q = i))"

lemma request_map_update:
  "request_map m \<Longrightarrow> request_map (AList.update (rq_ID q) (provider_of_req q) m)"
  unfolding request_map_def by (auto simp: update_conv')

lemma request_map_requested: "request_map (requested_providers b)"
proof -
  have "request_map m \<Longrightarrow> request_map (fold (\<lambda>q. AList.update (rq_ID q) (provider_of_req q)) qs m)" for qs m
    by (induction qs arbitrary: m) (auto intro: request_map_update)
  from this [of "[]"] show ?thesis by (simp add: requested_providers_def request_map_def)
qed

lemma fold_update_by_id:
  assumes "\<And>i p. h i = Some p \<Longrightarrow> yp_ID p = i"
  shows "map_of (fold (\<lambda>p. AList.update (yp_ID p) p) (List.map_filter h xs) m) i =
    (if i \<in> set xs \<and> h i \<noteq> None then h i else map_of m i)"
proof (induction xs arbitrary: m)
  case (Cons x xs)
  show ?case
  proof (cases "h x")
    case None
    then show ?thesis using Cons.IH [of m] by (auto simp: map_filter_simps)
  next
    case (Some p)
    then show ?thesis using Cons.IH [of "AList.update (yp_ID p) p m"] assms [OF Some]
      by (auto simp: map_filter_simps update_conv')
  qed
qed (simp add: map_filter_simps)

lemma override_id: "override p = Some q \<Longrightarrow> yp_ID q = yp_ID p"
proof -
  assume o: "override p = Some q"
  have "defaultProviderByID i = Some d \<Longrightarrow> yp_ID d = i" for i d
    by (auto simp: defaultProviderByID_def find_Some_iff)
  with o show ?thesis
    by (auto simp: override_def mergeWithDefault_def Let_def split: option.splits if_splits)
qed

text \<open>The entry for a built-in provider after the file has been read again.\<close>

definition reread :: "(string \<times> yamlProvider) list \<Rightarrow> string \<Rightarrow> yamlProvider option" where
  "reread m i = Option.bind (map_of m i) (\<lambda>p. map_option provider_read (override p))"

lemma reread_map:
  assumes "request_map m"
  shows "map provider_read (OverridesOnly (buildYamlProviders m)) = List.map_filter (reread m) DefaultProviderOrder"
    and "reread m i = Some p \<Longrightarrow> yp_ID p = i"
proof -
  have f: "map g (List.map_filter u xs) = List.map_filter (\<lambda>x. map_option g (u x)) xs" for g :: "'b \<Rightarrow> 'c" and u :: "'a \<Rightarrow> 'b option" and xs
    by (induction xs) (auto simp: map_filter_simps split: option.splits)
  have g: "List.map_filter v (List.map_filter u xs) = List.map_filter (\<lambda>x. Option.bind (u x) v) xs"
    for v :: "'b \<Rightarrow> 'c option" and u :: "'a \<Rightarrow> 'b option" and xs
    by (induction xs) (auto simp: map_filter_simps split: option.splits)
  have e: "(\<lambda>x. map_option provider_read (Option.bind (map_of m x) override)) = reread m"
    by (rule ext) (simp add: reread_def split: bind_splits option.splits)
  show "map provider_read (OverridesOnly (buildYamlProviders m)) = List.map_filter (reread m) DefaultProviderOrder"
    by (simp add: OverridesOnly_overrides buildYamlProviders_def f g e)
  have "map_of m i = Some q \<Longrightarrow> yp_ID q = i" for i q
    using assms unfolding request_map_def by (metis yp_ID_req)
  then show "reread m i = Some p \<Longrightarrow> yp_ID p = i"
    by (auto simp: reread_def bind_eq_Some_conv provider_read_def dest: override_id)
qed

text \<open>Everything the user sees of a provider but the flag that says whether \<open>probe\<close> was given.\<close>

definition shown :: "effectiveProvider \<Rightarrow> effectiveProvider" where
  "shown e = e\<lparr>ep_HasProbe := False\<rparr>"

definition built_in :: "yamlProvider \<Rightarrow> bool" where
  "built_in d \<longleftrightarrow> defaultProviderByID (yp_ID d) = Some d \<and> \<not> yp_HasProbe d \<and> \<not> yp_Probe d \<and>
     (case yp_Plan d of None \<Rightarrow> True | Some pl \<Rightarrow> pc_HasCostUSD pl \<and> pc_CostUSD pl \<noteq> 0)"

lemma built_in_defaults: "list_all built_in DefaultProviders"
  by code_simp

lemma plan_read_request: "plan_read (plan_of_req q) = plan_of_req q"
  by (simp add: plan_read_def plan_of_req_def split: option.split)

lemma merge_fields [simp]:
  "yp_ID (mergeWithDefault p d) = yp_ID d"
  "yp_Enabled (mergeWithDefault p d) = yp_Enabled p"
  "yp_Label (mergeWithDefault p d) = (if yp_Label p \<noteq> [] then yp_Label p else yp_Label d)"
  "yp_KeyEnv (mergeWithDefault p d) = (if yp_KeyEnv p \<noteq> [] then yp_KeyEnv p else yp_KeyEnv d)"
  "yp_Probe (mergeWithDefault p d) = (if yp_HasProbe p then yp_Probe p else yp_Probe d)"
  "yp_HasProbe (mergeWithDefault p d) = (yp_HasProbe p \<or> yp_HasProbe d)"
  "yp_Plan (mergeWithDefault p d) = (case yp_Plan p of None \<Rightarrow> yp_Plan d | Some pl \<Rightarrow> Some pl)"
  by (simp_all add: mergeWithDefault_def Let_def split: option.split)

lemma effective_fields [simp]:
  "ep_ID (effective d (Some f)) = yp_ID d"
  "ep_Enabled (effective d (Some f)) = yp_Enabled f"
  "ep_Label (effective d (Some f)) = (if yp_Label f \<noteq> [] then yp_Label f else yp_Label d)"
  "ep_KeyEnv (effective d (Some f)) = (if yp_KeyEnv f \<noteq> [] then yp_KeyEnv f else yp_KeyEnv d)"
  "ep_Probe (effective d (Some f)) = (if yp_HasProbe f then yp_Probe f else yp_Probe d)"
  "ep_HasProbe (effective d (Some f)) = (yp_HasProbe f \<or> yp_HasProbe d)"
  "ep_CanProbe (effective d (Some f)) = (yp_ID d = ProviderGroq)"
  "ep_Plan (effective d (Some f)) = (case yp_Plan f of None \<Rightarrow> yp_Plan d | Some pl \<Rightarrow> Some pl)"
  by (simp_all add: effective_def Let_def split: option.split)

lemma effective_none [simp]:
  "effective d None = \<lparr>ep_ID = yp_ID d, ep_Enabled = yp_Enabled d, ep_Label = yp_Label d, ep_KeyEnv = yp_KeyEnv d,
     ep_Probe = yp_Probe d, ep_HasProbe = yp_HasProbe d, ep_CanProbe = (yp_ID d = ProviderGroq), ep_Plan = yp_Plan d\<rparr>"
  by (simp add: effective_def)

lemma provider_read_fields [simp]:
  "yp_ID (provider_read p) = yp_ID p" "yp_Enabled (provider_read p) = yp_Enabled p"
  "yp_Label (provider_read p) = yp_Label p" "yp_KeyEnv (provider_read p) = yp_KeyEnv p"
  "yp_Probe (provider_read p) = (yp_HasProbe p \<and> yp_Probe p)" "yp_HasProbe (provider_read p) = yp_HasProbe p"
  "yp_Plan (provider_read p) = map_option plan_read (yp_Plan p)"
  by (simp_all add: provider_read_def)

lemma plan_req [simp]: "yp_Plan (provider_of_req q) = map_option plan_of_req (rq_Plan q)"
  by (simp add: provider_of_req_def)

lemma built_in_plan: "built_in d \<Longrightarrow> map_option plan_read (yp_Plan d) = yp_Plan d"
  by (auto simp: built_in_def plan_read_def split: option.splits)

lemma shown_merged:
  assumes "built_in d" and "yp_ID d = rq_ID q"
  shows "effective d (Some (provider_read (mergeWithDefault (provider_of_req q) d))) = effective d (Some (provider_of_req q))"
proof (rule effectiveProvider.equality)
  have "\<not> yp_HasProbe d" "\<not> yp_Probe d" using assms(1) by (simp_all add: built_in_def)
  then show "ep_Probe (effective d (Some (provider_read (mergeWithDefault (provider_of_req q) d)))) =
      ep_Probe (effective d (Some (provider_of_req q)))"
    by simp
  show "ep_Plan (effective d (Some (provider_read (mergeWithDefault (provider_of_req q) d)))) =
      ep_Plan (effective d (Some (provider_of_req q)))"
    using built_in_plan [OF assms(1)]
    by (cases "rq_Plan q"; cases "yp_Plan d") (simp_all add: plan_read_request)
qed simp_all

lemma plan_equal_request:
  "pc_HasCostUSD pl \<Longrightarrow> pc_CostUSD pl \<noteq> 0 \<Longrightarrow> planEqual (Some (plan_of_req q)) (Some pl) \<Longrightarrow> plan_of_req q = pl"
  by (cases pl) (auto simp: planEqual_def plan_of_req_def split: option.splits)

lemma shown_dropped:
  assumes "built_in d" and "yp_ID d = rq_ID q" and "providerEqual (mergeWithDefault (provider_of_req q) d) d"
  shows "shown (effective d (Some (provider_of_req q))) = shown (effective d None)"
proof (rule effectiveProvider.equality)
  note eq = assms(3) [unfolded providerEqual_def merge_fields]
  show "ep_Plan (shown (effective d (Some (provider_of_req q)))) = ep_Plan (shown (effective d None))"
  proof (cases "rq_Plan q")
    case (Some r)
    then have p: "planEqual (Some (plan_of_req r)) (yp_Plan d)" using eq by simp
    then obtain pl where pl: "yp_Plan d = Some pl" by (cases "yp_Plan d") (simp_all add: planEqual_def)
    then have "plan_of_req r = pl" using assms(1) p by (intro plan_equal_request) (simp_all add: built_in_def)
    then show ?thesis using Some pl by (simp add: shown_def)
  qed (simp add: shown_def)
qed (use assms(3) in \<open>simp_all add: shown_def providerEqual_def\<close>)

lemma shown_reread:
  assumes "built_in d" and "request_map m"
  shows "shown (effective d (reread m (yp_ID d))) = shown (effective d (map_of m (yp_ID d)))"
proof (cases "map_of m (yp_ID d)")
  case (Some p)
  then obtain q where q: "p = provider_of_req q" "yp_ID d = rq_ID q"
    using assms(2) unfolding request_map_def by metis
  have "defaultProviderByID (yp_ID p) = Some d" using assms(1) q by (simp add: built_in_def provider_of_req_def)
  then show ?thesis
    using Some q shown_merged [OF assms(1) q(2)] shown_dropped [OF assms(1) q(2)]
    by (simp add: reread_def override_def)
qed (simp add: reread_def)

lemma shown_after_restart:
  assumes "request_map m" and "cf_ProviderConfigs c = m"
    and "cf_ProviderConfigs c' = fold (\<lambda>p. AList.update (yp_ID p) p)
      (map provider_read (OverridesOnly (buildYamlProviders m))) []"
  shows "map shown (EffectiveProviders c') = map shown (EffectiveProviders c)"
proof -
  have "map_of (cf_ProviderConfigs c') (yp_ID d) = reread m (yp_ID d)" if "d \<in> set DefaultProviders" for d
  proof -
    have "yp_ID d \<in> set DefaultProviderOrder"
      using that by (auto simp: DefaultProviders_def DefaultProviderOrder_def)
    then show ?thesis
      unfolding assms(3) reread_map(1) [OF assms(1)]
      by (subst fold_update_by_id [OF reread_map(2) [OF assms(1)]]) auto
  qed
  then show ?thesis
    using built_in_defaults shown_reread [OF _ assms(1)]
    by (auto simp: EffectiveProviders_def assms(2) list_all_iff)
qed

lemma set_alerts_fields [simp]:
  "cf_Listen (set_alerts m c) = cf_Listen c"
  "cf_Interval (set_alerts m c) = cf_Interval c"
  "cf_TZ (set_alerts m c) = cf_TZ c"
  "cf_ProviderConfigs (set_alerts m c) = cf_ProviderConfigs c"
  "cf_ProviderOrder (set_alerts m c) = cf_ProviderOrder c"
  "cf_GroqProbe (set_alerts m c) = cf_GroqProbe c"
  by (simp_all add: set_alerts_def Let_def split: option.split)

lemma apply_request_fields [simp]:
  "cf_Listen (apply_request known b c) = (if cq_Listen b \<noteq> [] then cq_Listen b else cf_Listen c)"
  "cf_Interval (apply_request known b c) = (if cq_IntervalSec b \<noteq> 0 then seconds (cq_IntervalSec b) else cf_Interval c)"
  "cf_TZ (apply_request known b c) = first_set [Option.bind (nonempty (cq_TZ b)) (load_location known)] (cf_TZ c)"
  "cf_ProviderConfigs (apply_request known b c) = requested_providers b"
  "cf_ProviderOrder (apply_request known b c) = (if cq_ProviderOrder b \<noteq> [] then cq_ProviderOrder b else cf_ProviderOrder c)"
  "cf_GroqProbe (apply_request known b c) = cf_GroqProbe c"
  by (simp_all add: apply_request_def Let_def nonempty_def split: option.split)

text \<open>The three thresholds a map sets, and that both routines set them alike.\<close>

definition thresholds :: "config \<Rightarrow> rat \<times> int \<times> int" where
  "thresholds c = (cf_AlertOpenRouterLowUSD c, cf_AlertQuotaWarn5hPct c, cf_AlertQuotaWarnWeeklyPct c)"

definition all_written :: "(string \<times> rat) list \<Rightarrow> bool" where
  "all_written m \<longleftrightarrow> list_all (\<lambda>k. map_of m k \<noteq> None) written_alerts"

lemma map_of_kept:
  "map_of (kept_alerts m) k = (if k \<in> set written_alerts then map_of m k else None)"
  by (simp add: kept_alerts_def written_alerts_def map_filter_simps split: option.split)

lemma thresholds_after_restart:
  assumes "all_written m"
  shows "thresholds (apply_alerts (kept_alerts m) c') = thresholds (set_alerts m c)"
proof -
  obtain x y z where m: "map_of m ''openrouter_low_usd'' = Some x" "map_of m ''quota_warn_5h_pct'' = Some y"
    "map_of m ''quota_warn_weekly_pct'' = Some z"
    using assms by (auto simp: all_written_def written_alerts_def)
  then have "map_of (kept_alerts m) ''openrouter_low_usd'' = Some x" "map_of (kept_alerts m) ''quota_warn_5h_pct'' = Some y"
    "map_of (kept_alerts m) ''quota_warn_weekly_pct'' = Some z" "map_of (kept_alerts m) ''quota_warn_pct'' = None"
    by (simp_all add: map_of_kept written_alerts_def)
  then show ?thesis using m by (simp add: thresholds_def apply_alerts_def set_alerts_def Let_def split: option.split)
qed

lemma thresholds_file: "thresholds (applyFileConfig known fc c) = thresholds (apply_alerts (fc_Alerts fc) c)"
  by (simp add: applyFileConfig_def thresholds_def apply_alerts_def Let_def split: option.split)

lemma thresholds_request: "thresholds (apply_request known b c) = thresholds (set_alerts (cq_Alerts b) c)"
  by (simp add: apply_request_def thresholds_def set_alerts_def Let_def split: option.split)


definition sample_provider_req :: providerReq where
  "sample_provider_req = \<lparr>rq_ID = ''groq'', rq_Enabled = None, rq_Label = ''Groq'', rq_KeyEnv = ''GROQ_API_KEY'',
     rq_Probe = Some False, rq_Plan = None\<rparr>"

definition sample_req :: configReq where
  "sample_req = \<lparr>cq_IntervalSec = 600, cq_Listen = ''127.0.0.1:8765'', cq_TZ = ''UTC'',
     cq_Alerts = [(''quota_warn_5h_pct'', 75)],
     cq_Providers = [sample_provider_req,
       sample_provider_req\<lparr>rq_ID := ''codex'', rq_Enabled := Some False, rq_KeyEnv := [], rq_Label := ''My plan'', rq_Probe := None\<rparr>],
     cq_ProviderOrder = [''groq'', ''codex'']\<rparr>"

definition sample_put :: put_env where
  "sample_put = \<lparr>pe_read = True, pe_top = Some [], pe_body = Some sample_req, pe_printer = sample_printer,
     pe_known = (\<lambda>z. z = ''America/Sao_Paulo''), pe_build = None, pe_stamp = ''20260910T120000'', pe_pid = ''77'',
     pe_save = (Done, True, Done, Done, Done, False)\<rparr>"

definition sample_server :: "(unit, unit) server" where
  "sample_server = \<lparr>sv_cfg = default_config (\<lambda>z. True), sv_configPath = ''/c.yaml'',
     sv_sched = NewScheduler () [] (900 * Second) ''/s.json''\<rparr>"


text \<open>
  A probe switched off on the settings page comes back after a restart.  \<open>providerEqual\<close> ignores
  whether \<open>probe\<close> was given, so an entry that only says \<open>probe: false\<close> is not written; with
  \<open>USAGED_GROQ_PROBE\<close> set the running service has the probe off and the restarted one has it on.
\<close>

theorem probe_off_is_lost:
  assumes "map_of (requested_providers b) ProviderGroq = Some p" and "yp_HasProbe p" and "\<not> yp_Probe p"
    and "defaultProviderByID ProviderGroq = Some d" and "providerEqual (mergeWithDefault p d) d"
    and "cf_GroqProbe c" and "cf_ProviderConfigs c = []"
  shows "\<not> GroqProbeEnabled (apply_request known b c) \<and>
    GroqProbeEnabled (applyFileConfig known (file_read (saved_file b)) c)"
proof -
  note r = request_map_requested [of b]
  have "yp_ID p = ProviderGroq" using r assms(1) unfolding request_map_def by (metis yp_ID_req)
  then have "reread (requested_providers b) ProviderGroq = None"
    using assms(1,4,5) by (simp add: reread_def override_def)
  then have "map_of (cf_ProviderConfigs (applyFileConfig known (file_read (saved_file b)) c)) ProviderGroq = None"
    using fold_update_by_id [OF reread_map(2) [OF r], where xs = DefaultProviderOrder and m = "[]" and i = ProviderGroq] reread_map(1) [OF r]
    by (simp add: applyFileConfig_fields assms(7) file_read_def saved_file_def)
  then show ?thesis
    using assms(1-3,6) by (simp add: GroqProbeEnabled_def applyFileConfig_fields)
qed

lemma probe_off_is_lost_witness:
  "\<not> GroqProbeEnabled (apply_request (\<lambda>z. True) sample_req ((default_config (\<lambda>z. True))\<lparr>cf_GroqProbe := True\<rparr>)) \<and>
   GroqProbeEnabled (applyFileConfig (\<lambda>z. True) (file_read (saved_file sample_req))
     ((default_config (\<lambda>z. True))\<lparr>cf_GroqProbe := True\<rparr>))"
proof (rule probe_off_is_lost [where p = "provider_of_req sample_provider_req" and d = "the (defaultProviderByID ProviderGroq)"])
  show "map_of (requested_providers sample_req) ProviderGroq = Some (provider_of_req sample_provider_req)" by code_simp
  show "yp_HasProbe (provider_of_req sample_provider_req)" by code_simp
  show "\<not> yp_Probe (provider_of_req sample_provider_req)" by code_simp
  show "defaultProviderByID ProviderGroq = Some (the (defaultProviderByID ProviderGroq))" by code_simp
  show "providerEqual (mergeWithDefault (provider_of_req sample_provider_req) (the (defaultProviderByID ProviderGroq)))
      (the (defaultProviderByID ProviderGroq))" by code_simp
qed (simp_all add: default_config_def)

text \<open>
  An interval of 9,223,372,037 to 18,446,744,073 seconds passes the check of both routes, wraps to a
  negative duration in the configuration and is ignored by the scheduler; the file then holds a value
  with which the next \<open>Load\<close> stops.
\<close>

theorem huge_interval_accepted:
  assumes "9223372037 \<le> n" and "n \<le> 18446744073"
  shows "fst (handleSetInterval (Some n) persist sv) = Accepted \<and>
    cf_Interval (sv_cfg (fst (snd (handleSetInterval (Some n) persist sv)))) < 0 \<and>
    sv_sched (fst (snd (handleSetInterval (Some n) persist sv))) = sv_sched sv \<and>
    check_config (applyFileConfig known (empty_file\<lparr>fc_IntervalSec := n\<rparr>) c) = Inl (IntervalTooShort (seconds n))"
proof -
  define r where "r = n * 1000000000 - 9223372036854775808"
  have "(n * 1000000000 + 9223372036854775808) mod 18446744073709551616 = (r + 18446744073709551616) mod 18446744073709551616"
    by (rule arg_cong [where f = "\<lambda>x. x mod 18446744073709551616"]) (simp add: r_def)
  also have "\<dots> = r"
  proof -
    have "0 \<le> r" "r < 18446744073709551616" using assms by (simp_all add: r_def)
    then show ?thesis by simp
  qed
  finally have "(n * 1000000000 + 9223372036854775808) mod 18446744073709551616 = r" .
  then have neg: "seconds n < 0"
    using assms by (simp add: seconds_def wrap64_def Second_def r_def)
  then have "\<not> MinIntervalSec * Second \<le> seconds n" by (simp add: MinIntervalSec_def Second_def)
  then show ?thesis
    using assms neg by (simp add: handleSetInterval_def SetInterval_def check_config_def applyFileConfig_fields MinIntervalSec_def)
qed

lemma huge_interval_accepted_witness:
  "fst (handleSetInterval (Some 10000000000) (\<lambda>t. t) sample_server) = Accepted"
  using huge_interval_accepted [of 10000000000 "\<lambda>t. t" sample_server] by simp

subsection \<open>Bodies that are accepted and saved, and cannot be loaded\<close>

text \<open>Only a field \<open>key\<close> is searched for key-shaped values, so a key pasted into \<open>key_env\<close> is stored.\<close>

lemma key_in_key_env_saved:
  defines "b \<equiv> sample_req\<lparr>cq_Providers := [sample_provider_req\<lparr>rq_KeyEnv := ''sk-live-1''\<rparr>]\<rparr>"
  shows "check_request b = None \<and> \<not> (\<exists>r. ParseYAML sample_pf (SerializeYAML sample_printer (saved_file b)) = Inr r)"
proof -
  have "fields_ok sample_pf sample_printer (saved_file b)" "\<not> file_loadable (saved_file b)" "check_request b = None"
    unfolding b_def by code_simp+
  then show ?thesis using loads_iff by blast
qed

text \<open>A plan of cost 0 without currency and label is an empty block.\<close>

lemma empty_plan_saved:
  defines "b \<equiv> sample_req\<lparr>cq_Providers := [sample_provider_req\<lparr>rq_Plan :=
     Some \<lparr>pq_Cost = 0, pq_Currency = [], pq_Label = [], pq_CostUSD = None\<rparr>\<rparr>]\<rparr>"
  shows "check_request b = None \<and> \<not> (\<exists>r. ParseYAML sample_pf (SerializeYAML sample_printer (saved_file b)) = Inr r)"
proof -
  have "fields_ok sample_pf sample_printer (saved_file b)" "\<not> file_loadable (saved_file b)" "check_request b = None"
    unfolding b_def by code_simp+
  then show ?thesis using loads_iff by blast
qed

end
