(* ===== verification/Stats_Model.thy ===== *)
theory Stats_Model
  imports Go_Float Go_Sort "HOL-Library.Word" "HOL-Library.AList" "HOL-Library.Char_ord" "HOL-Library.List_Lexorder"
begin

text \<open>
  internal/stats, model.go, prices.go and plan.go: token counts, the price table and what a plan is worth.
  An \<open>int64\<close> is a word of 64 bits.  A Go map is an association list; \<open>range\<close> goes through a map in an order
  of its own each time, so a loop whose result depends on it takes the order as an argument.
\<close>

subsection \<open>Tokens\<close>

datatype tokens = Tokens (tk_Input: "64 word") (tk_Output: "64 word") (tk_CacheRead: "64 word") (tk_CacheWrite: "64 word")

definition Add :: "tokens \<Rightarrow> tokens \<Rightarrow> tokens" where
  "Add a b = Tokens (tk_Input a + tk_Input b) (tk_Output a + tk_Output b)
     (tk_CacheRead a + tk_CacheRead b) (tk_CacheWrite a + tk_CacheWrite b)"

instantiation tokens :: comm_monoid_add
begin

definition zero_tokens :: tokens where
  "zero_tokens = Tokens 0 0 0 0"

definition plus_tokens :: "tokens \<Rightarrow> tokens \<Rightarrow> tokens" where
  "plus_tokens a b = Add a b"

instance
  by intro_classes (simp_all add: plus_tokens_def Add_def zero_tokens_def add.assoc add.commute)

end

definition IsZero :: "tokens \<Rightarrow> bool" where
  "IsZero t \<longleftrightarrow> tk_Input t = 0 \<and> tk_Output t = 0 \<and> tk_CacheRead t = 0 \<and> tk_CacheWrite t = 0"

definition Total :: "tokens \<Rightarrow> 64 word" where
  "Total t = tk_Input t + tk_Output t + tk_CacheRead t + tk_CacheWrite t"

lemma IsZero_iff [simp]: "IsZero t \<longleftrightarrow> t = 0"
  by (cases t) (simp add: IsZero_def zero_tokens_def)

lemma Total_add: "Total (a + b) = Total a + Total b"
  by (simp add: Total_def plus_tokens_def Add_def add.assoc add.left_commute)

lemma Total_zero [simp]: "Total 0 = 0"
  by (simp add: Total_def zero_tokens_def)

record totals =
  tt_Tokens :: tokens
  tt_Cost :: rat
  tt_Requests :: "64 word"

record model =
  md_Model :: string
  md_Tokens :: tokens
  md_Cost :: rat
  md_Requests :: "64 word"
  md_TokensToday :: tokens
  md_TokensMonth :: tokens
  md_CostMonth :: rat

record day =
  dy_Date :: string
  dy_Tokens :: tokens
  dy_Cost :: rat
  dy_ByModel :: "(string \<times> tokens) list"

record peak =
  pk_Date :: string
  pk_Tokens :: "64 word"

record planValue =
  pv_Cost :: rat
  pv_Currency :: string
  pv_CostUSD :: rat
  pv_Label :: string
  pv_Ratio :: rat
  pv_HasRatio :: bool
  pv_Warn :: bool

record source =
  sr_Today :: totals
  sr_Month :: totals
  sr_Models :: "model list"
  sr_Days :: "day list"
  sr_ActiveDays :: nat
  sr_Peak :: peak
  sr_UnpricedModels :: "string list"
  sr_Partial :: bool
  sr_UnpricedToday :: "string list"
  sr_UnpricedMonth :: "string list"
  sr_Billed :: bool
  sr_Plan :: string
  sr_PlanValue :: "planValue option"

record planParams =
  pp_Cost :: rat
  pp_Currency :: string
  pp_CostUSD :: rat
  pp_HasCostUSD :: bool
  pp_Label :: string

record planCost =
  co_PrimaryCurrency :: string
  co_PrimaryTotal :: rat
  co_SecondaryCurrency :: string
  co_SecondaryTotal :: rat
  co_ExchangeRate :: rat
  co_RateDisagrees :: bool
  co_OmittedPlans :: "string list"
  co_APICostToday :: rat
  co_APICostMonth :: rat
  co_APIPartial :: bool
  co_APIUnpricedModels :: "string list"
  co_APIUnpricedToday :: "string list"
  co_APIUnpricedMonth :: "string list"
  co_APIPartialToday :: bool
  co_APIPartialMonth :: bool

record report =
  rp_GeneratedAt :: int
  rp_Sources :: "(string \<times> source) list"
  rp_PlanCost :: "planCost option"

subsection \<open>prices.go\<close>

record price =
  pr_Input :: rat
  pr_Output :: rat
  pr_CacheRead :: rat
  pr_CacheWrite :: rat

text \<open>\<open>float64\<close> of an \<open>int64\<close>, and the cost with the roundings of its seven operations.\<close>

definition float_of :: "64 word \<Rightarrow> rat" where
  "float_of w = fl (of_int (sint w))"

definition Cost :: "price \<Rightarrow> tokens \<Rightarrow> rat" where
  "Cost p t = fl (fl (fl (fl (fl (float_of (tk_Input t) * pr_Input p) + fl (float_of (tk_Output t) * pr_Output p)) +
     fl (float_of (tk_CacheRead t) * pr_CacheRead p)) + fl (float_of (tk_CacheWrite t) * pr_CacheWrite p)) / 1000000)"

definition rate :: "rat \<Rightarrow> rat \<Rightarrow> rat \<Rightarrow> rat \<Rightarrow> price" where
  "rate i out r w = \<lparr>pr_Input = fl i, pr_Output = fl out, pr_CacheRead = fl r, pr_CacheWrite = fl w\<rparr>"

definition prices :: "(string \<times> price) list" where
  "prices =
     [(''claude-fable-5'', rate 10 50 1 (25/2)), (''claude-fable-5-1'', rate 10 50 (1/4) (25/2)),
      (''claude-opus-5'', rate 5 25 (1/2) (25/4)), (''claude-opus-4-8'', rate 5 25 (1/2) (25/4)),
      (''claude-sonnet-5'', rate 2 10 (1/5) (5/2)), (''claude-sonnet-4-20250514'', rate 3 15 (3/10) (15/4)),
      (''claude-sonnet-4-6'', rate 3 15 (3/10) (15/4)), (''claude-opus-4-20250514'', rate 15 75 (3/2) (75/4)),
      (''claude-3-7-sonnet-20250219'', rate 3 15 (3/10) (15/4)), (''claude-3-5-sonnet-20241022'', rate 3 15 (3/10) (15/4)),
      (''claude-3-5-haiku-20241022'', rate (4/5) 4 (2/25) 1), (''claude-haiku-4-5-20251001'', rate 1 5 (1/10) (5/4)),
      (''gpt-4.1'', rate 2 8 (1/2) 0), (''gpt-4.1-mini'', rate (2/5) (8/5) (1/10) 0), (''gpt-4o'', rate (5/2) 10 (5/4) 0),
      (''gpt-4o-mini'', rate (3/20) (3/5) (3/40) 0), (''o1'', rate 15 60 (15/2) 0), (''o1-preview'', rate 15 60 (15/2) 0),
      (''o1-mini'', rate 3 12 (3/2) 0), (''o3'', rate 6 24 (3/2) 0), (''o3-mini'', rate (3/2) 6 (3/4) 0),
      (''openai/gpt-5.5'', rate 5 30 (1/2) 0), (''openai/gpt-5.6-sol'', rate 4 20 (2/5) 5), (''openai/fugu-ultra'', rate 5 30 (1/2) 0),
      (''qwen/qwen-3-32b'', rate (1/5) (3/5) 0 0), (''meta-llama/llama-4-scout'', rate (9/50) (11/20) 0 0)]"

definition aliasModels :: "(string \<times> string) list" where
  "aliasModels =
     [(''opus'', ''claude-opus-5''), (''sonnet'', ''claude-sonnet-5''), (''gpt-5.5'', ''openai/gpt-5.5''),
      (''gpt-5.6-sol'', ''openai/gpt-5.6-sol''), (''fugu-ultra'', ''openai/fugu-ultra'')]"

definition LookupPrice :: "string \<Rightarrow> price option" where
  "LookupPrice model = (case map_of prices model of
       Some p \<Rightarrow> Some p
     | None \<Rightarrow> (case map_of aliasModels model of Some a \<Rightarrow> map_of prices a | None \<Rightarrow> None))"

definition IsPricedModel :: "string \<Rightarrow> bool" where
  "IsPricedModel model \<longleftrightarrow> model \<noteq> ''<synthetic>'' \<and> LookupPrice model \<noteq> None"

subsection \<open>plan.go\<close>

definition computePlanValue :: "rat \<Rightarrow> planParams \<Rightarrow> planValue" where
  "computePlanValue monthCost plan =
     (let usd = (if pp_Currency plan = ''USD'' then pp_Cost plan else pp_CostUSD plan);
          ratio = fl (monthCost / usd) in
      \<lparr>pv_Cost = pp_Cost plan, pv_Currency = pp_Currency plan, pv_CostUSD = pp_CostUSD plan, pv_Label = pp_Label plan,
       pv_Ratio = (if usd > 0 then ratio else 0), pv_HasRatio = (usd > 0), pv_Warn = (usd > 0 \<and> ratio < 1)\<rparr>)"

definition with_plan_value :: "(string \<times> planParams) list \<Rightarrow> string \<times> source \<Rightarrow> string \<times> source" where
  "with_plan_value plans ns = (case ns of (name, src) \<Rightarrow>
     (name, (case map_of plans name of
        None \<Rightarrow> src
      | Some plan \<Rightarrow> if pp_Cost plan = 0 then src
          else src\<lparr>sr_PlanValue := Some (computePlanValue (tt_Cost (sr_Month src)) plan)\<rparr>)))"

definition ApplyPlanValues :: "(string \<times> planParams) list \<Rightarrow> report \<Rightarrow> report" where
  "ApplyPlanValues plans r = r\<lparr>rp_Sources := map (with_plan_value plans) (rp_Sources r)\<rparr>"

text \<open>The number of plans of each currency, plans of cost 0 left out.\<close>

definition count_currency :: "(string \<times> nat) list \<Rightarrow> planParams \<Rightarrow> (string \<times> nat) list" where
  "count_currency m p = (if pp_Cost p = 0 then m
     else AList.update (pp_Currency p) (Suc (case map_of m (pp_Currency p) of None \<Rightarrow> 0 | Some n \<Rightarrow> n)) m)"

definition currency_counts :: "planParams list \<Rightarrow> (string \<times> nat) list" where
  "currency_counts ps = fold (\<lambda>p m. count_currency m p) ps []"

text \<open>The loops over the counts and over the plans, in the order \<open>range\<close> takes.\<close>

fun primary_currency :: "(string \<times> nat) list \<Rightarrow> (string \<times> nat) option \<Rightarrow> string" where
  "primary_currency [] best = (case best of None \<Rightarrow> [] | Some (c, _) \<Rightarrow> c)"
| "primary_currency ((c, n) # m) best =
     (case best of
        None \<Rightarrow> primary_currency m (Some (c, n))
      | Some (b, k) \<Rightarrow> primary_currency m (if b = [] \<or> n > k then Some (c, n) else best))"

definition secondary_currency :: "string \<Rightarrow> (string \<times> nat) list \<Rightarrow> string" where
  "secondary_currency primary m = (case List.find (\<lambda>(c, _). c \<noteq> primary) m of None \<Rightarrow> [] | Some (c, _) \<Rightarrow> c)"

definition rateTolerance :: rat where
  "rateTolerance = fl (1 / 100)"

fun derive_rate :: "string \<Rightarrow> planParams list \<Rightarrow> rat option \<Rightarrow> string list \<Rightarrow> rat option \<times> string list" where
  "derive_rate cur [] r om = (r, om)"
| "derive_rate cur (p # ps) r om =
     (if pp_Cost p = 0 \<or> pp_Currency p \<noteq> cur \<or> \<not> pp_HasCostUSD p \<or> pp_CostUSD p = 0 then derive_rate cur ps r om
      else (let pair = fl (pp_Cost p / pp_CostUSD p) in
        (case r of
           None \<Rightarrow> derive_rate cur ps (Some pair) om
         | Some x \<Rightarrow>
             derive_rate cur ps r (if fl (\<bar>fl (pair - x)\<bar> / x) > rateTolerance then om @ [pp_Label p] else om))))"

fun plan_totals :: "string \<Rightarrow> string \<Rightarrow> rat option \<Rightarrow> planParams list \<Rightarrow> rat \<Rightarrow> rat \<Rightarrow> rat \<times> rat" where
  "plan_totals pc sc conv [] a b = (a, b)"
| "plan_totals pc sc conv (p # ps) a b =
     (if pp_Cost p = 0 then plan_totals pc sc conv ps a b
      else if pp_Currency p = pc then
        plan_totals pc sc conv ps (fl (a + pp_Cost p)) (case conv of None \<Rightarrow> b | Some r \<Rightarrow> fl (b + fl (pp_Cost p / r)))
      else if pp_Currency p = sc then
        plan_totals pc sc conv ps (case conv of None \<Rightarrow> a | Some r \<Rightarrow> fl (a + fl (pp_Cost p * r))) (fl (b + pp_Cost p))
      else plan_totals pc sc conv ps a b)"

text \<open>The orders of the loops of one call.\<close>

record orders =
  od_first :: "(string \<times> nat) list"
  od_second :: "(string \<times> nat) list"
  od_rate :: "planParams list"
  od_omit :: "planParams list"
  od_sum :: "planParams list"
  od_sources :: "source list"

definition ComputePlanCost :: "orders \<Rightarrow> planParams list \<Rightarrow> planCost option" where
  "ComputePlanCost od plans =
     (if plans = [] \<or> currency_counts plans = [] then None
      else
        (let pc = primary_currency (od_first od) None;
             sc = secondary_currency pc (od_second od);
             (r, om) = (if sc = ''USD'' then derive_rate pc (od_rate od) None [] else (None, []));
             can = (r \<noteq> None \<and> om = []);
             blocked = (sc \<noteq> [] \<and> \<not> can \<and> om = []);
             omitted = (if blocked then map pp_Label (filter (\<lambda>p. pp_Cost p \<noteq> 0 \<and> pp_Currency p = sc) (od_omit od)) else om);
             (a, b) = plan_totals pc sc (if can then r else None) (od_sum od) 0 0;
             today = concat (map sr_UnpricedToday (od_sources od));
             month = concat (map sr_UnpricedMonth (od_sources od)) in
         Some \<lparr>co_PrimaryCurrency = pc, co_PrimaryTotal = a,
           co_SecondaryCurrency = (if can then sc else []), co_SecondaryTotal = (if can then b else 0),
           co_ExchangeRate = (if can then the r else 0), co_RateDisagrees = (om \<noteq> [] \<or> blocked),
           co_OmittedPlans = omitted,
           co_APICostToday = fold (\<lambda>s x. fl (x + tt_Cost (sr_Today s))) (od_sources od) 0,
           co_APICostMonth = fold (\<lambda>s x. fl (x + tt_Cost (sr_Month s))) (od_sources od) 0,
           co_APIPartial = list_ex sr_Partial (od_sources od),
           co_APIUnpricedModels = concat (map sr_UnpricedModels (filter sr_Partial (od_sources od))),
           co_APIUnpricedToday = sort today, co_APIUnpricedMonth = sort month,
           co_APIPartialToday = (today \<noteq> []), co_APIPartialMonth = (month \<noteq> [])\<rparr>))"

end
