(* ===== verification/Stats_Scan.thy ===== *)
theory Stats_Scan
  imports Stats_Model Go_Date Go_Files
begin

text \<open>
  internal/stats, scan.go and index.go: transcripts are read line by line into per-file results, these are
  cached in an index by size and modification time, and added up to the report of a source.  Decoding a
  JSON line is a parameter; a file is its bytes with what \<open>stat\<close> said of it.
\<close>

subsection \<open>The index\<close>

record dayAgg =
  da_Tokens :: tokens
  da_Reqs :: "64 word"
  da_ByModel :: "(string \<times> tokens) list"

record fileResult =
  fr_Models :: "(string \<times> (tokens \<times> 64 word)) list"
  fr_Days :: "(string \<times> dayAgg) list"

record fileIndex =
  fi_Size :: int
  fi_Mtime :: int
  fi_Lines :: "64 word"
  fi_Result :: "fileResult option"
  fi_LastModel :: string
  fi_LastDayKey :: string

type_synonym index = "(string \<times> fileIndex) list"

definition no_entry :: fileIndex where
  "no_entry = \<lparr>fi_Size = 0, fi_Mtime = 0, fi_Lines = 0, fi_Result = None, fi_LastModel = [], fi_LastDayKey = []\<rparr>"

definition index_entry :: "index \<Rightarrow> string \<Rightarrow> fileIndex" where
  "index_entry idx path = (case map_of idx path of None \<Rightarrow> no_entry | Some fi \<Rightarrow> fi)"

definition mergeIndex :: "index \<Rightarrow> index \<Rightarrow> index" where
  "mergeIndex dst src = fold (\<lambda>(k, v). AList.update k v) src dst"

definition indexSchemaVersion :: "64 word" where "indexSchemaVersion = 4"

definition indexVersionKey :: string where "indexVersionKey = ''__schema_version__''"

text \<open>What is on disk: nothing, something unreadable, or a decoded index.\<close>

datatype index_file = IndexMissing | IndexUnreadable | IndexStored index

definition LoadIndex :: "index_file \<Rightarrow> index \<times> bool" where
  "LoadIndex f = (case f of
       IndexMissing \<Rightarrow> ([], True)
     | IndexUnreadable \<Rightarrow> ([], False)
     | IndexStored idx \<Rightarrow>
         (case map_of idx indexVersionKey of
            None \<Rightarrow> ([], True)
          | Some fi \<Rightarrow> if fi_Lines fi \<noteq> indexSchemaVersion then ([], True)
              else (AList.delete indexVersionKey idx, True)))"

text \<open>The index with the stamp \<open>SaveIndex\<close> writes, which stays in the map of the caller.\<close>

definition stamped :: "index \<Rightarrow> index" where
  "stamped idx = AList.update indexVersionKey (no_entry\<lparr>fi_Lines := indexSchemaVersion\<rparr>) idx"

text \<open>On the file system of \<open>Go_Files\<close>: both files are written beside themselves and renamed; the map that
  \<open>SaveIndex\<close> was called with is the second result.\<close>

definition SaveIndex ::
  "index Go_Files.outcome \<times> index Go_Files.outcome \<times> index Go_Files.outcome \<times> bool \<Rightarrow> string \<Rightarrow> index \<Rightarrow> index fs \<Rightarrow>
     (index fs \<times> save_result) \<times> index" where
  "SaveIndex oc path idx fs = (atomic_save oc path (stamped idx) fs, stamped idx)"

definition index_file_of :: "index contents option \<Rightarrow> index_file" where
  "index_file_of c = (case c of None \<Rightarrow> IndexMissing | Some Torn \<Rightarrow> IndexUnreadable | Some (Whole idx) \<Rightarrow> IndexStored idx)"

definition SaveReport ::
  "report Go_Files.outcome \<times> report Go_Files.outcome \<times> report Go_Files.outcome \<times> bool \<Rightarrow> string \<Rightarrow> report option \<Rightarrow>
     report fs \<Rightarrow> report fs \<times> save_result" where
  "SaveReport oc path r fs = (case r of None \<Rightarrow> (fs, Saved) | Some r \<Rightarrow> atomic_save oc path r fs)"

definition LoadReport :: "string \<Rightarrow> report fs \<Rightarrow> load_error + report option" where
  "LoadReport path fs = (case fs path of None \<Rightarrow> Inr None | Some Torn \<Rightarrow> Inl Corrupt | Some (Whole r) \<Rightarrow> Inr (Some r))"

lemma saved_index_loads:
  assumes "snd (fst (SaveIndex oc path idx fs)) = Saved" and "map_of idx indexVersionKey = None"
  shows "LoadIndex (index_file_of (fst (fst (SaveIndex oc path idx fs)) path)) = (idx, True)"
proof -
  have "fst (fst (SaveIndex oc path idx fs)) path = Some (Whole (stamped idx))"
    using assms(1) by (auto simp: SaveIndex_def atomic_save_def rename_file_def Let_def split: prod.splits outcome.splits)
  moreover have "AList.delete k (AList.update k v m) = m" if "map_of m k = None" for k v and m :: index
    using that by (induction m) (auto simp: delete_conv')
  ultimately show ?thesis
    using assms(2) by (simp add: index_file_of_def LoadIndex_def stamped_def update_conv')
qed

subsection \<open>Adding up\<close>

definition val :: "('k \<times> 'v::zero) list \<Rightarrow> 'k \<Rightarrow> 'v" where
  "val m k = (case map_of m k of None \<Rightarrow> 0 | Some v \<Rightarrow> v)"

definition bump :: "'k \<Rightarrow> 'v::monoid_add \<Rightarrow> ('k \<times> 'v) list \<Rightarrow> ('k \<times> 'v) list" where
  "bump k v m = AList.update k (val m k + v) m"

definition bump_all :: "('k \<times> 'v::monoid_add) list \<Rightarrow> ('k \<times> 'v) list \<Rightarrow> ('k \<times> 'v) list" where
  "bump_all src dst = fold (\<lambda>(k, v). bump k v) src dst"

record dayAccum =
  ac_tokens :: tokens
  ac_reqs :: "64 word"
  ac_date :: string
  ac_byModel :: "(string \<times> tokens) list"

definition no_day :: dayAccum where
  "no_day = \<lparr>ac_tokens = 0, ac_reqs = 0, ac_date = [], ac_byModel = []\<rparr>"

definition day_of :: "(string \<times> dayAccum) list \<Rightarrow> string \<Rightarrow> dayAccum" where
  "day_of m k = (case map_of m k of None \<Rightarrow> no_day | Some d \<Rightarrow> d)"

record aggregates =
  ag_model :: "(string \<times> tokens) list"
  ag_reqs :: "(string \<times> 64 word) list"
  ag_order :: "string list"
  ag_days :: "(string \<times> dayAccum) list"

definition no_aggregates :: aggregates where
  "no_aggregates = \<lparr>ag_model = [], ag_reqs = [], ag_order = [], ag_days = []\<rparr>"

definition merge_model :: "string \<times> (tokens \<times> 64 word) \<Rightarrow> aggregates \<Rightarrow> aggregates" where
  "merge_model e ag = (case e of (m, tok, n) \<Rightarrow>
     ag\<lparr>ag_order := (if map_of (ag_model ag) m = None then ag_order ag @ [m] else ag_order ag),
        ag_model := bump m tok (ag_model ag), ag_reqs := bump m n (ag_reqs ag)\<rparr>)"

definition merge_day :: "string \<times> dayAgg \<Rightarrow> aggregates \<Rightarrow> aggregates" where
  "merge_day e ag = (case e of (k, da) \<Rightarrow>
     (let d = day_of (ag_days ag) k in
      ag\<lparr>ag_days := AList.update k
        \<lparr>ac_tokens = ac_tokens d + da_Tokens da, ac_reqs = ac_reqs d + da_Reqs da,
         ac_date = (if ac_date d = [] then k else ac_date d), ac_byModel = bump_all (da_ByModel da) (ac_byModel d)\<rparr>
        (ag_days ag)\<rparr>))"

definition mergeFileResult :: "fileResult \<Rightarrow> aggregates \<Rightarrow> aggregates" where
  "mergeFileResult fr ag = fold merge_day (fr_Days fr) (fold merge_model (fr_Models fr) ag)"

subsection \<open>One file\<close>

record fileAcc =
  fa_Models :: "(string \<times> tokens) list"
  fa_Reqs :: "(string \<times> 64 word) list"
  fa_DayTokens :: "(string \<times> tokens) list"
  fa_DayReqs :: "(string \<times> 64 word) list"
  fa_DayModels :: "(string \<times> (string \<times> tokens) list) list"

definition no_usage :: fileAcc where
  "no_usage = \<lparr>fa_Models = [], fa_Reqs = [], fa_DayTokens = [], fa_DayReqs = [], fa_DayModels = []\<rparr>"

definition day_models :: "(string \<times> (string \<times> tokens) list) list \<Rightarrow> string \<Rightarrow> (string \<times> tokens) list" where
  "day_models m k = (case map_of m k of None \<Rightarrow> [] | Some x \<Rightarrow> x)"

definition add_usage :: "string \<Rightarrow> string \<Rightarrow> tokens \<Rightarrow> fileAcc \<Rightarrow> fileAcc" where
  "add_usage m k tok a =
     \<lparr>fa_Models = bump m tok (fa_Models a), fa_Reqs = bump m 1 (fa_Reqs a),
      fa_DayTokens = bump k tok (fa_DayTokens a), fa_DayReqs = bump k 1 (fa_DayReqs a),
      fa_DayModels = AList.update k (bump m tok (day_models (fa_DayModels a) k)) (fa_DayModels a)\<rparr>"

definition file_result :: "fileAcc \<Rightarrow> fileResult" where
  "file_result a =
     \<lparr>fr_Models = map (\<lambda>(m, tok). (m, (tok, val (fa_Reqs a) m))) (fa_Models a),
      fr_Days = map (\<lambda>(k, tok). (k, \<lparr>da_Tokens = tok, da_Reqs = val (fa_DayReqs a) k,
        da_ByModel = day_models (fa_DayModels a) k\<rparr>)) (fa_DayTokens a)\<rparr>"

definition dayKeyFromTimestamp :: "location \<Rightarrow> string \<Rightarrow> string" where
  "dayKeyFromTimestamp tz ts = (case parse_rfc3339 ts of None \<Rightarrow> [] | Some t \<Rightarrow> format_date tz t)"

text \<open>A decoded line of a Claude transcript.\<close>

record claudeLine =
  cl_Type :: string
  cl_Timestamp :: string
  cl_RequestID :: string
  cl_ID :: string
  cl_Model :: string
  cl_Usage :: tokens

fun claude_lines ::
  "(string \<Rightarrow> claudeLine option) \<Rightarrow> location \<Rightarrow> string list \<Rightarrow> string list \<Rightarrow> fileAcc \<Rightarrow> fileAcc" where
  "claude_lines dec tz seen [] a = a"
| "claude_lines dec tz seen (raw # rest) a =
     (case dec raw of
        None \<Rightarrow> claude_lines dec tz seen rest a
      | Some l \<Rightarrow>
          if cl_Type l \<noteq> ''assistant'' \<or> cl_ID l = [] then claude_lines dec tz seen rest a
          else (let key = cl_ID l @ ''|'' @ cl_RequestID l in
            if key \<in> set seen then claude_lines dec tz seen rest a
            else claude_lines dec tz (key # seen) rest
              (add_usage (cl_Model l) (dayKeyFromTimestamp tz (cl_Timestamp l)) (cl_Usage l) a)))"

text \<open>A decoded line of a Codex rollout.\<close>

record codexLine =
  cx_Type :: string
  cx_Timestamp :: string
  cx_PayloadType :: string
  cx_Model :: string
  cx_SettingsModel :: string
  cx_InfoModel :: string
  cx_InputTokens :: "64 word"
  cx_CachedInputTokens :: "64 word"
  cx_OutputTokens :: "64 word"
  cx_ReasoningOutputTokens :: "64 word"

definition codex_tokens :: "codexLine \<Rightarrow> tokens" where
  "codex_tokens l = Tokens (cx_InputTokens l) (cx_OutputTokens l + cx_ReasoningOutputTokens l) (cx_CachedInputTokens l) 0"

definition codex_model :: "string \<Rightarrow> codexLine \<Rightarrow> string" where
  "codex_model current l =
     (let m = (if cx_InfoModel l = ''unknown'' \<or> cx_InfoModel l = [] then current else cx_InfoModel l) in
      if m = [] \<or> m = ''unknown'' then ''<unknown>'' else m)"

record codexState =
  cs_model :: string
  cs_day :: string
  cs_acc :: fileAcc

definition codex_context :: "location \<Rightarrow> codexLine \<Rightarrow> codexState \<Rightarrow> codexState" where
  "codex_context tz l s =
     s\<lparr>cs_model := (if cx_Model l \<noteq> [] then cx_Model l else cs_model s),
       cs_day := dayKeyFromTimestamp tz (cx_Timestamp l)\<rparr>"

definition codex_line :: "location \<Rightarrow> codexLine \<Rightarrow> codexState \<Rightarrow> codexState" where
  "codex_line tz l s =
     (if cx_Type l = ''turn_context'' then codex_context tz l s
      else if cx_Type l \<noteq> ''event_msg'' then s
      else if cx_PayloadType l = ''turn_context'' then codex_context tz l s
      else if cx_PayloadType l = ''thread_settings_applied'' then
        s\<lparr>cs_model := (if cx_SettingsModel l \<noteq> [] then cx_SettingsModel l else cs_model s),
          cs_day := (if cs_day s = [] then dayKeyFromTimestamp tz (cx_Timestamp l) else cs_day s)\<rparr>
      else if cx_PayloadType l \<noteq> ''token_count'' then s
      else s\<lparr>cs_acc := add_usage (codex_model (cs_model s) l)
              (if cs_day s = [] then dayKeyFromTimestamp tz (cx_Timestamp l) else cs_day s) (codex_tokens l) (cs_acc s)\<rparr>)"

fun codex_lines :: "(string \<Rightarrow> codexLine option) \<Rightarrow> location \<Rightarrow> string list \<Rightarrow> codexState \<Rightarrow> codexState" where
  "codex_lines dec tz [] s = s"
| "codex_lines dec tz (raw # rest) s =
     codex_lines dec tz rest (case dec raw of None \<Rightarrow> s | Some l \<Rightarrow> codex_line tz l s)"

text \<open>\<open>bufio.Scanner\<close> with \<open>ScanLines\<close>: the lines without their end, or an error when one does not fit.\<close>

definition maxScanLine :: int where "maxScanLine = 32 * 1024 * 1024"

definition drop_cr :: "string \<Rightarrow> string" where
  "drop_cr s = (if s \<noteq> [] \<and> last s = CHR 0x0D then butlast s else s)"

definition raw_lines :: "string \<Rightarrow> string list" where
  "raw_lines s = (let ls = split_char (CHR 0x0A) s in if last ls = [] then butlast ls else ls)"

definition scan_lines :: "string \<Rightarrow> string list option" where
  "scan_lines s =
     (if list_ex (\<lambda>l. maxScanLine \<le> int (length l)) (raw_lines s) then None else Some (map drop_cr (raw_lines s)))"

subsection \<open>The walk\<close>

text \<open>An entry of \<open>filepath.Walk\<close>: the error it reports, or a file with its \<open>stat\<close>, whether it can be
  opened, whether reading it succeeds, and its bytes.\<close>

record entry =
  en_error :: bool
  en_path :: string
  en_dir :: bool
  en_size :: int
  en_mtime :: int
  en_open :: bool
  en_read :: bool
  en_bytes :: string

text \<open>What differs between the two sources: how the lines of a chunk are read, given the entry of the index.\<close>

type_synonym reader = "fileIndex \<Rightarrow> string list \<Rightarrow> fileAcc \<times> string \<times> string"

definition read_claude :: "(string \<Rightarrow> claudeLine option) \<Rightarrow> location \<Rightarrow> reader" where
  "read_claude dec tz fi ls = (claude_lines dec tz [] ls no_usage, [], [])"

definition read_codex :: "(string \<Rightarrow> codexLine option) \<Rightarrow> location \<Rightarrow> reader" where
  "read_codex dec tz fi ls =
     (let s = codex_lines dec tz ls \<lparr>cs_model = fi_LastModel fi, cs_day = fi_LastDayKey fi, cs_acc = no_usage\<rparr> in
      (cs_acc s, cs_model s, cs_day s))"

record walk =
  wk_agg :: aggregates
  wk_index :: index
  wk_truncated :: nat

definition MaxAge :: int where "MaxAge = 200 * 24 * Hour"

definition start_offset :: "fileIndex \<Rightarrow> entry \<Rightarrow> int" where
  "start_offset fi e = (if fi_Size fi > 0 \<and> en_size e > fi_Size fi then fi_Size fi else 0)"

text \<open>\<open>None\<close> aborts the walk.\<close>

definition visit :: "reader \<Rightarrow> bool \<Rightarrow> int \<Rightarrow> index \<Rightarrow> entry \<Rightarrow> walk \<Rightarrow> walk option" where
  "visit rd skipOld now idx e w =
     (if en_error e then None
      else if en_dir e \<or> \<not> has_suffix (en_path e) ''.jsonl'' then Some w
      else if en_mtime e < now - MaxAge \<and> \<not> skipOld then Some w
      else
        (let fi = index_entry idx (en_path e) in
         (case (if fi_Size fi = en_size e \<and> fi_Mtime fi = to_unix (en_mtime e) then fi_Result fi else None) of
            Some r \<Rightarrow> Some (w\<lparr>wk_agg := mergeFileResult r (wk_agg w), wk_index := AList.update (en_path e) fi (wk_index w)\<rparr>)
          | None \<Rightarrow>
            if \<not> en_open e then None
            else
              (case (if en_read e then scan_lines (drop (nat (start_offset fi e)) (en_bytes e)) else None) of
                 None \<Rightarrow> Some (w\<lparr>wk_truncated := Suc (wk_truncated w)\<rparr>)
               | Some ls \<Rightarrow>
                  (let (acc, lastModel, lastDay) = rd fi ls; fr = file_result acc;
                       agg1 = (case fi_Result fi of None \<Rightarrow> wk_agg w | Some r \<Rightarrow> mergeFileResult r (wk_agg w)) in
                   Some (w\<lparr>wk_agg := mergeFileResult fr agg1,
                     wk_index := AList.update (en_path e)
                       \<lparr>fi_Size = en_size e, fi_Mtime = to_unix (en_mtime e),
                        fi_Lines = fi_Lines fi + of_nat (length ls), fi_Result = Some fr,
                        fi_LastModel = lastModel, fi_LastDayKey = lastDay\<rparr> (wk_index w)\<rparr>))))))"

text \<open>The state at the end, and whether the walk came to its end.\<close>

fun walk_files :: "reader \<Rightarrow> bool \<Rightarrow> int \<Rightarrow> index \<Rightarrow> entry list \<Rightarrow> walk \<Rightarrow> walk \<times> bool" where
  "walk_files rd skipOld now idx [] w = (w, True)"
| "walk_files rd skipOld now idx (e # es) w =
     (case visit rd skipOld now idx e w of
        None \<Rightarrow> (w, False)
      | Some w' \<Rightarrow> walk_files rd skipOld now idx es w')"

definition no_walk :: walk where
  "no_walk = \<lparr>wk_agg = no_aggregates, wk_index = [], wk_truncated = 0\<rparr>"

subsection \<open>The report of a source\<close>

text \<open>\<open>time.Date\<close> at midnight: the offset at the guess without one, then at the moment that gives.\<close>

definition midnight :: "location \<Rightarrow> int \<Rightarrow> int \<Rightarrow> int \<Rightarrow> int" where
  "midnight tz y m d = (let u = days_from_civil y m d * 86400 in u - tz (u - tz u))"

definition dayBoundary :: "location \<Rightarrow> int \<Rightarrow> int" where
  "dayBoundary tz t = (case civil_from_days (local_seconds tz t div 86400) of (y, m, d) \<Rightarrow> midnight tz y m d)"

definition monthBoundary :: "location \<Rightarrow> int \<Rightarrow> int" where
  "monthBoundary tz t = (case civil_from_days (local_seconds tz t div 86400) of (y, m, d) \<Rightarrow> midnight tz y m 1)"

definition parse_day :: "string \<Rightarrow> (int \<times> int \<times> int) option" where
  "parse_day s = do {
     (y, s) \<leftarrow> parse_year s;
     s \<leftarrow> expect (CHR ''-'') s;
     (m, s) \<leftarrow> getnum True s;
     in_range 1 12 m;
     s \<leftarrow> expect (CHR ''-'') s;
     (d, s) \<leftarrow> getnum True s;
     in_range 1 (days_in m y) d;
     (if s = [] then Some (y, m, d) else None)
   }"

definition dayBoundaryFromKey :: "location \<Rightarrow> string \<Rightarrow> int" where
  "dayBoundaryFromKey tz k = (case parse_day k of None \<Rightarrow> 0 | Some (y, m, d) \<Rightarrow> midnight tz y m d)"

type_synonym pricing = "string \<Rightarrow> price option"

definition priceOf :: "(string \<times> price) list option \<Rightarrow> pricing" where
  "priceOf own model = (case own of
       None \<Rightarrow> LookupPrice model
     | Some ps \<Rightarrow> (case map_of ps model of Some p \<Rightarrow> Some p | None \<Rightarrow> LookupPrice model))"

definition add_cost :: "pricing \<Rightarrow> (string \<times> tokens) list \<Rightarrow> rat \<Rightarrow> rat" where
  "add_cost pr ms c = fold (\<lambda>(m, tok) c. case pr m of None \<Rightarrow> c | Some p \<Rightarrow> fl (c + Cost p tok)) ms c"

record window =
  wi_totals :: totals
  wi_models :: "(string \<times> tokens) list"

definition no_window :: window where
  "no_window = \<lparr>wi_totals = \<lparr>tt_Tokens = 0, tt_Cost = 0, tt_Requests = 0\<rparr>, wi_models = []\<rparr>"

definition add_day :: "pricing \<Rightarrow> dayAccum \<Rightarrow> window \<Rightarrow> window" where
  "add_day pr d w =
     \<lparr>wi_totals = \<lparr>tt_Tokens = tt_Tokens (wi_totals w) + ac_tokens d,
        tt_Cost = add_cost pr (ac_byModel d) (tt_Cost (wi_totals w)),
        tt_Requests = tt_Requests (wi_totals w) + ac_reqs d\<rparr>,
      wi_models = bump_all (ac_byModel d) (wi_models w)\<rparr>"

definition window_of :: "pricing \<Rightarrow> location \<Rightarrow> int \<Rightarrow> (string \<times> dayAccum) list \<Rightarrow> window" where
  "window_of pr tz boundary days =
     fold (\<lambda>(k, d) w. if dayBoundaryFromKey tz k \<ge> boundary then add_day pr d w else w) days no_window"

definition model_entry :: "pricing \<Rightarrow> aggregates \<Rightarrow> window \<Rightarrow> window \<Rightarrow> string \<Rightarrow> model" where
  "model_entry pr ag today month m =
     \<lparr>md_Model = m, md_Tokens = val (ag_model ag) m,
      md_Cost = (case pr m of None \<Rightarrow> 0 | Some p \<Rightarrow> Cost p (val (ag_model ag) m)),
      md_Requests = val (ag_reqs ag) m, md_TokensToday = val (wi_models today) m, md_TokensMonth = val (wi_models month) m,
      md_CostMonth = (case pr m of None \<Rightarrow> 0 | Some p \<Rightarrow> Cost p (val (wi_models month) m))\<rparr>"

definition listed_models :: "aggregates \<Rightarrow> string list" where
  "listed_models ag = filter (\<lambda>m. m \<noteq> ''<synthetic>'') (ag_order ag)"

definition buildModelsList :: "pricing \<Rightarrow> aggregates \<Rightarrow> window \<Rightarrow> window \<Rightarrow> model list" where
  "buildModelsList pr ag today month = map (model_entry pr ag today month) (listed_models ag)"

definition unpriced :: "pricing \<Rightarrow> aggregates \<Rightarrow> string list" where
  "unpriced pr ag = filter (\<lambda>m. pr m = None) (listed_models ag)"

definition unpriced_in :: "pricing \<Rightarrow> aggregates \<Rightarrow> window \<Rightarrow> string list" where
  "unpriced_in pr ag w = filter (\<lambda>m. \<not> IsZero (val (wi_models w) m)) (unpriced pr ag)"

definition findPeak :: "(string \<times> dayAccum) list \<Rightarrow> peak" where
  "findPeak ds = fold (\<lambda>(k, d) p. if sint (Total (ac_tokens d)) > sint (pk_Tokens p)
     then \<lparr>pk_Date = ac_date d, pk_Tokens = Total (ac_tokens d)\<rparr> else p) ds \<lparr>pk_Date = [], pk_Tokens = 0\<rparr>"

definition day_list :: "location \<Rightarrow> int \<Rightarrow> (string \<times> dayAccum) list \<Rightarrow> (string \<times> dayAccum) list" where
  "day_list tz todayBoundary days =
     sort_key fst (filter (\<lambda>(k, d). dayBoundaryFromKey tz k \<ge> todayBoundary - 181 * 86400) days)"

definition source_of :: "pricing \<Rightarrow> location \<Rightarrow> int \<Rightarrow> string \<Rightarrow> walk \<Rightarrow> source" where
  "source_of pr tz now plan w =
     (let ag = wk_agg w;
          today = window_of pr tz (dayBoundary tz now) (ag_days ag);
          month = window_of pr tz (monthBoundary tz now) (ag_days ag);
          ds = day_list tz (dayBoundary tz now) (ag_days ag) in
      \<lparr>sr_Today = wi_totals today, sr_Month = wi_totals month,
       sr_Models = slice_stable (\<lambda>a b. sint (Total (md_TokensMonth a)) > sint (Total (md_TokensMonth b)))
         (buildModelsList pr ag today month),
       sr_Days = map (\<lambda>(k, d). \<lparr>dy_Date = ac_date d, dy_Tokens = ac_tokens d, dy_Cost = add_cost pr (ac_byModel d) 0,
         dy_ByModel = ac_byModel d\<rparr>) ds,
       sr_ActiveDays = length ds, sr_Peak = findPeak ds,
       sr_UnpricedModels = sort (unpriced pr ag), sr_Partial = (wk_truncated w > 0 \<or> unpriced pr ag \<noteq> []),
       sr_UnpricedToday = sort (unpriced_in pr ag today), sr_UnpricedMonth = sort (unpriced_in pr ag month),
       sr_Billed = False, sr_Plan = plan, sr_PlanValue = None\<rparr>)"

definition scan_source ::
  "reader \<Rightarrow> pricing \<Rightarrow> location \<Rightarrow> bool \<Rightarrow> int \<Rightarrow> string \<Rightarrow> index \<Rightarrow> entry list \<Rightarrow> source option \<times> index" where
  "scan_source rd pr tz skipOld now plan idx es =
     (case walk_files rd skipOld now idx es no_walk of
        (w, ended) \<Rightarrow> (if ended then Some (source_of pr tz now plan w) else None, wk_index w))"

text \<open>\<open>Scan\<close>: a directory that is not configured is \<open>None\<close>; the flag says whether every walk ended.\<close>

definition scan_dir ::
  "(index \<Rightarrow> entry list \<Rightarrow> source option \<times> index) \<Rightarrow> string \<Rightarrow> entry list option \<Rightarrow>
     report \<times> index \<times> bool \<Rightarrow> report \<times> index \<times> bool" where
  "scan_dir scan name files st = (case (files, st) of
       (None, _) \<Rightarrow> st
     | (Some es, (r, idx, ok)) \<Rightarrow>
         (case scan idx es of (src, idx') \<Rightarrow>
            (case src of
               None \<Rightarrow> (r, mergeIndex idx idx', False)
             | Some sr \<Rightarrow> (r\<lparr>rp_Sources := AList.update name sr (rp_Sources r)\<rparr>, mergeIndex idx idx', ok))))"

definition Scan ::
  "(string \<Rightarrow> claudeLine option) \<Rightarrow> (string \<Rightarrow> codexLine option) \<Rightarrow> (string \<times> price) list option \<Rightarrow> location \<Rightarrow>
     bool \<Rightarrow> int \<Rightarrow> entry list option \<Rightarrow> entry list option \<Rightarrow> index \<Rightarrow> report \<times> index \<times> bool" where
  "Scan dc dx own tz skipOld now claude codex idx =
     scan_dir (scan_source (read_codex dx tz) (priceOf own) tz skipOld now ''Plus'') ''codex'' codex
       (scan_dir (scan_source (read_claude dc tz) (priceOf own) tz skipOld now ''Max'') ''claude_code'' claude
         (\<lparr>rp_GeneratedAt = to_unix now, rp_Sources = [], rp_PlanCost = None\<rparr>, idx, True))"

end
