(* ===== verification/Stats_Facts.thy ===== *)
theory Stats_Facts
  imports Stats_Scan
begin

text \<open>
  What the scan of the transcripts adds up to: sums over maps, the totals of a merge, the balance of days
  and models, and what the cache of the index does to them.
\<close>

subsection \<open>Sums over maps\<close>

lemma val_simps [simp]:
  "val [] k = 0"
  "val ((j, v) # m) k = (if j = k then v else val m k)"
  by (simp_all add: val_def)

lemma val_bump: "val (bump k v m) j = (if j = k then val m k + v else val m j)"
  by (simp add: val_def bump_def update_conv')

lemma val_absent: "k \<notin> fst ` set m \<Longrightarrow> val m k = 0"
  by (simp add: val_def map_of_eq_None_iff [THEN iffD2])

lemma keys_bump [simp]: "fst ` set (bump k v m) = insert k (fst ` set m)"
  by (simp add: bump_def dom_update [unfolded dom_map_of_conv_image_fst])

lemma distinct_bump [simp]: "distinct (map fst m) \<Longrightarrow> distinct (map fst (bump k v m))"
  by (simp add: bump_def distinct_update)

lemma bump_all_simps [simp]:
  "bump_all [] m = m"
  "bump_all ((k, v) # s) m = bump_all s (bump k v m)"
  by (simp_all add: bump_all_def)

lemma keys_bump_all [simp]: "fst ` set (bump_all s m) = fst ` set s \<union> fst ` set m"
proof (induction s arbitrary: m)
  case (Cons x s)
  then show ?case by (cases x) (simp add: Cons.IH)
qed simp

lemma distinct_bump_all [simp]: "distinct (map fst m) \<Longrightarrow> distinct (map fst (bump_all s m))"
  by (induction s arbitrary: m) auto

lemma val_bump_all:
  fixes s :: "('k \<times> 'v::comm_monoid_add) list"
  shows "distinct (map fst s) \<Longrightarrow> val (bump_all s m) k = val m k + val s k"
proof (induction s arbitrary: m)
  case (Cons x s)
  obtain j v where x: "x = (j, v)" by (cases x)
  show ?case
  proof (cases "j = k")
    case True
    then have "val s k = 0" using Cons.prems by (intro val_absent) (auto simp: x)
    then show ?thesis using Cons.IH [of "bump j v m"] Cons.prems True by (simp add: x val_bump)
  qed (use Cons.IH [of "bump j v m"] Cons.prems in \<open>simp add: x val_bump\<close>)
qed simp

definition values_sum :: "('k \<times> 'v::comm_monoid_add) list \<Rightarrow> 'v" where
  "values_sum m = sum_list (map snd m)"

lemma values_sum_bump:
  "distinct (map fst m) \<Longrightarrow> values_sum (bump k v m) = values_sum m + (v :: 'v::comm_monoid_add)"
proof (induction m)
  case Nil
  show ?case by (simp add: values_sum_def bump_def)
next
  case (Cons x m)
  obtain j u where x: "x = (j, u)" by (cases x)
  show ?case
  proof (cases "j = k")
    case False
    then have "bump k v (x # m) = x # bump k v m" by (simp add: x bump_def)
    then show ?thesis using Cons by (simp add: values_sum_def add.assoc)
  qed (simp add: x bump_def values_sum_def ac_simps)
qed

lemma values_sum_bump_all:
  fixes s :: "('k \<times> 'v::comm_monoid_add) list"
  shows "distinct (map fst m) \<Longrightarrow> values_sum (bump_all s m) = values_sum m + values_sum s"
proof (induction s arbitrary: m)
  case (Cons x s)
  then show ?case
    by (cases x) (simp add: values_sum_bump, simp add: values_sum_def add.assoc)
qed (simp add: values_sum_def)

text \<open>The values, listed along any list of keys that has them all.\<close>

lemma values_sum_along:
  fixes m :: "('k \<times> 'v::comm_monoid_add) list"
  assumes "distinct ks" and "distinct (map fst m)" and "fst ` set m \<subseteq> set ks"
  shows "values_sum m = (\<Sum>k\<leftarrow>ks. val m k)"
proof -
  have "(\<Sum>k\<leftarrow>ks. val m k) = (\<Sum>k\<in>set ks. val m k)"
    using assms(1) by (simp add: sum_list_distinct_conv_sum_set)
  also have "\<dots> = (\<Sum>k\<in>fst ` set m. val m k)"
    using assms(3) by (intro sum.mono_neutral_right) (auto simp: val_absent)
  also have "\<dots> = (\<Sum>k\<leftarrow>map fst m. val m k)"
    using sum_list_distinct_conv_sum_set [OF assms(2), of "val m"] by (simp only: set_map)
  also have "\<dots> = values_sum m"
    using assms(2)
  proof (induction m)
    case (Cons x m)
    obtain j v where x: "x = (j, v)" by (cases x)
    have "map (val ((j, v) # m)) (map fst m) = map (val m) (map fst m)"
      using Cons.prems by (intro map_cong refl) (auto simp: x)
    then have "sum_list (map (val (x # m)) (map fst (x # m))) = v + sum_list (map (val m) (map fst m))"
      by (simp only: x list.map fst_conv sum_list.Cons val_simps simp_thms if_True)
    also have "v + sum_list (map (val m) (map fst m)) = values_sum (x # m)"
      using Cons by (simp add: x values_sum_def)
    finally show ?case .
  qed (simp add: values_sum_def)
  finally show ?thesis by simp
qed

subsection \<open>One file\<close>

definition acc_ok :: "fileAcc \<Rightarrow> bool" where
  "acc_ok a \<longleftrightarrow> distinct (map fst (fa_Models a)) \<and> distinct (map fst (fa_DayTokens a)) \<and>
     (\<forall>k. distinct (map fst (day_models (fa_DayModels a) k)) \<and>
       val (fa_DayTokens a) k = values_sum (day_models (fa_DayModels a) k) \<and>
       fst ` set (day_models (fa_DayModels a) k) \<subseteq> fst ` set (fa_Models a) \<and>
       (k \<notin> fst ` set (fa_DayTokens a) \<longrightarrow> day_models (fa_DayModels a) k = []))"

lemma acc_ok_empty [simp]: "acc_ok no_usage"
  by (simp add: acc_ok_def no_usage_def day_models_def values_sum_def)

lemma day_models_update:
  "day_models (AList.update k x m) j = (if j = k then x else day_models m j)"
  by (simp add: day_models_def update_conv')

lemma acc_ok_add: "acc_ok a \<Longrightarrow> acc_ok (add_usage m k tok a)"
  by (auto simp: acc_ok_def add_usage_def day_models_update val_bump values_sum_bump)

lemma acc_ok_claude: "acc_ok a \<Longrightarrow> acc_ok (claude_lines dec tz seen ls a)"
  by (induction ls arbitrary: seen a) (auto simp: Let_def acc_ok_add split: option.split)

lemma acc_ok_codex_line: "acc_ok (cs_acc s) \<Longrightarrow> acc_ok (cs_acc (codex_line tz l s))"
  by (simp add: codex_line_def codex_context_def acc_ok_add)

lemma acc_ok_codex: "acc_ok (cs_acc s) \<Longrightarrow> acc_ok (cs_acc (codex_lines dec tz ls s))"
  by (induction ls arbitrary: s) (auto simp: acc_ok_codex_line split: option.split)

text \<open>A reader adds up only what it reads.\<close>

definition reader_ok :: "reader \<Rightarrow> bool" where
  "reader_ok rd \<longleftrightarrow> (\<forall>fi ls. acc_ok (fst (rd fi ls)))"

lemma readers_ok [simp]: "reader_ok (read_claude dc tz)" "reader_ok (read_codex dx tz)"
  by (simp_all add: reader_ok_def read_claude_def read_codex_def acc_ok_claude acc_ok_codex Let_def)

definition result_ok :: "fileResult \<Rightarrow> bool" where
  "result_ok fr \<longleftrightarrow> distinct (map fst (fr_Models fr)) \<and> distinct (map fst (fr_Days fr)) \<and>
     (\<forall>(k, d) \<in> set (fr_Days fr). distinct (map fst (da_ByModel d)) \<and> da_Tokens d = values_sum (da_ByModel d) \<and>
       fst ` set (da_ByModel d) \<subseteq> fst ` set (fr_Models fr))"

lemma map_fst_file_result [simp]:
  "map fst (fr_Models (file_result a)) = map fst (fa_Models a)"
  "map fst (fr_Days (file_result a)) = map fst (fa_DayTokens a)"
  by (simp_all add: file_result_def split_beta comp_def)

lemma result_ok_file: "acc_ok a \<Longrightarrow> result_ok (file_result a)"
proof -
  assume a: "acc_ok a"
  have "da_Tokens d = values_sum (da_ByModel d) \<and> distinct (map fst (da_ByModel d)) \<and>
      fst ` set (da_ByModel d) \<subseteq> fst ` set (fr_Models (file_result a))"
    if "(k, d) \<in> set (fr_Days (file_result a))" for k d
  proof -
    from that obtain tok where "(k, tok) \<in> set (fa_DayTokens a)"
      and d: "d = \<lparr>da_Tokens = tok, da_Reqs = val (fa_DayReqs a) k, da_ByModel = day_models (fa_DayModels a) k\<rparr>"
      by (auto simp: file_result_def)
    then have "val (fa_DayTokens a) k = tok" using a by (simp add: acc_ok_def val_def)
    moreover have "fst ` set (fr_Models (file_result a)) = fst ` set (fa_Models a)"
      by (metis map_fst_file_result(1) set_map)
    ultimately show ?thesis using a by (simp add: d acc_ok_def)
  qed
  moreover have "distinct (map fst (fa_Models a))" "distinct (map fst (fa_DayTokens a))"
    using a by (simp_all add: acc_ok_def)
  ultimately show ?thesis unfolding result_ok_def map_fst_file_result by blast
qed

subsection \<open>The aggregates of a source\<close>

definition day_ok :: "string set \<Rightarrow> dayAccum \<Rightarrow> bool" where
  "day_ok ms d \<longleftrightarrow> distinct (map fst (ac_byModel d)) \<and> ac_tokens d = values_sum (ac_byModel d) \<and>
     fst ` set (ac_byModel d) \<subseteq> ms"

definition agg_ok :: "aggregates \<Rightarrow> bool" where
  "agg_ok ag \<longleftrightarrow> map fst (ag_model ag) = ag_order ag \<and> distinct (ag_order ag) \<and>
     distinct (map fst (ag_days ag)) \<and> (\<forall>(k, d) \<in> set (ag_days ag). day_ok (set (ag_order ag)) d)"

lemma agg_ok_empty [simp]: "agg_ok no_aggregates"
  by (simp add: agg_ok_def no_aggregates_def)

lemma map_fst_update:
  "map fst (AList.update k v m) = (if k \<in> fst ` set m then map fst m else map fst m @ [k])"
  by (induction m) auto

lemma day_ok_mono: "day_ok ms d \<Longrightarrow> ms \<subseteq> ns \<Longrightarrow> day_ok ns d"
  by (auto simp: day_ok_def)

lemma agg_ok_merge_model: "agg_ok ag \<Longrightarrow> agg_ok (merge_model e ag)"
proof -
  assume ok: "agg_ok ag"
  obtain m tok n where e: "e = (m, tok, n)" by (cases e)
  have k: "fst ` set (ag_model ag) = set (ag_order ag)" using ok unfolding agg_ok_def by (metis set_map)
  have "map fst (bump m tok (ag_model ag)) = (if m \<in> set (ag_order ag) then ag_order ag else ag_order ag @ [m])"
    using ok by (simp add: bump_def map_fst_update k agg_ok_def)
  moreover have "map_of (ag_model ag) m = None \<longleftrightarrow> m \<notin> set (ag_order ag)"
    by (simp add: map_of_eq_None_iff k)
  ultimately show ?thesis
    using ok by (auto simp: agg_ok_def merge_model_def e elim!: day_ok_mono dest!: bspec)
qed

lemma order_merge_model: "set (ag_order (merge_model e ag)) = insert (fst e) (set (ag_order ag))" if "agg_ok ag"
proof -
  have "fst ` set (ag_model ag) = set (ag_order ag)" using that unfolding agg_ok_def by (metis set_map)
  then show ?thesis
    by (cases e) (auto simp: merge_model_def map_of_eq_None_iff split: if_splits)
qed

lemma agg_ok_merge_models:
  "agg_ok ag \<Longrightarrow> agg_ok (fold merge_model es ag) \<and>
     set (ag_order (fold merge_model es ag)) = fst ` set es \<union> set (ag_order ag)"
proof (induction es arbitrary: ag)
  case (Cons e es)
  then show ?case
    using Cons.IH [OF agg_ok_merge_model [OF Cons.prems, of e]] order_merge_model [OF Cons.prems, of e] by auto
qed simp

lemma day_ok_of: "agg_ok ag \<Longrightarrow> day_ok (set (ag_order ag)) (day_of (ag_days ag) k)"
  by (auto simp: agg_ok_def day_of_def day_ok_def no_day_def values_sum_def split: option.split dest!: map_of_SomeD bspec)

lemma set_update_subset: "set (AList.update k v m) \<subseteq> insert (k, v) (set m)"
  by (induction m) auto

lemma agg_ok_merge_day:
  assumes "agg_ok ag" and "distinct (map fst (da_ByModel da))" and "da_Tokens da = values_sum (da_ByModel da)"
    and "fst ` set (da_ByModel da) \<subseteq> set (ag_order ag)"
  shows "agg_ok (merge_day (k, da) ag) \<and> ag_order (merge_day (k, da) ag) = ag_order ag"
proof -
  let ?d = "day_of (ag_days ag) k"
  let ?new = "\<lparr>ac_tokens = ac_tokens ?d + da_Tokens da, ac_reqs = ac_reqs ?d + da_Reqs da,
         ac_date = (if ac_date ?d = [] then k else ac_date ?d), ac_byModel = bump_all (da_ByModel da) (ac_byModel ?d)\<rparr>"
  have "day_ok (set (ag_order ag)) ?new"
    using assms(2-4) day_ok_of [OF assms(1), of k] by (auto simp: day_ok_def values_sum_bump_all)
  moreover have "set (AList.update k ?new (ag_days ag)) \<subseteq> insert (k, ?new) (set (ag_days ag))"
    by (rule set_update_subset)
  ultimately show ?thesis
    using assms(1) by (auto simp: agg_ok_def merge_day_def Let_def distinct_update)
qed

lemma agg_ok_merge:
  assumes "agg_ok ag" and "result_ok fr"
  shows "agg_ok (mergeFileResult fr ag)"
proof -
  let ?a = "fold merge_model (fr_Models fr) ag"
  have a: "agg_ok ?a" "fst ` set (fr_Models fr) \<subseteq> set (ag_order ?a)"
    using agg_ok_merge_models [OF assms(1), of "fr_Models fr"] by auto
  have "agg_ok (fold merge_day ds b)" if "agg_ok b" "fst ` set (fr_Models fr) \<subseteq> set (ag_order b)" "set ds \<subseteq> set (fr_Days fr)" for ds b
    using that
  proof (induction ds arbitrary: b)
    case (Cons x ds)
    obtain k da where x: "x = (k, da)" by (cases x)
    have "distinct (map fst (da_ByModel da)) \<and> da_Tokens da = values_sum (da_ByModel da) \<and>
      fst ` set (da_ByModel da) \<subseteq> fst ` set (fr_Models fr)"
      using assms(2) Cons.prems(3) by (auto simp: result_ok_def x dest!: bspec)
    then have "distinct (map fst (da_ByModel da))" "da_Tokens da = values_sum (da_ByModel da)"
      "fst ` set (da_ByModel da) \<subseteq> set (ag_order b)"
      using Cons.prems(2) by blast+
    from agg_ok_merge_day [OF Cons.prems(1) this, of k] show ?case
      using Cons.IH [of "merge_day x b"] Cons.prems by (simp add: x)
  qed simp
  from this [OF a order_refl] show ?thesis by (simp add: mergeFileResult_def)
qed

definition index_ok :: "index \<Rightarrow> bool" where
  "index_ok idx \<longleftrightarrow> (\<forall>(p, fi) \<in> set idx. pred_option result_ok (fi_Result fi))"

lemma index_ok_update: "index_ok idx \<Longrightarrow> pred_option result_ok (fi_Result fi) \<Longrightarrow> index_ok (AList.update p fi idx)"
  using set_update_subset [of p fi idx] by (auto simp: index_ok_def)

lemma index_ok_entry: "index_ok idx \<Longrightarrow> pred_option result_ok (fi_Result (index_entry idx p))"
  by (auto simp: index_ok_def index_entry_def no_entry_def split: option.split dest!: map_of_SomeD bspec)

definition walk_ok :: "walk \<Rightarrow> bool" where
  "walk_ok w \<longleftrightarrow> agg_ok (wk_agg w) \<and> index_ok (wk_index w)"

lemma visit_ok:
  assumes "reader_ok rd" and "index_ok idx" and "walk_ok w" and "visit rd so now idx e w = Some w'"
  shows "walk_ok w'"
proof -
  let ?fi = "index_entry idx (en_path e)"
  note entry = index_ok_entry [OF assms(2), of "en_path e"]
  have "result_ok (file_result (fst (rd ?fi ls)))" for ls
    using assms(1) by (simp add: reader_ok_def result_ok_file)
  moreover have "agg_ok (wk_agg w)" "index_ok (wk_index w)" using assms(3) by (simp_all add: walk_ok_def)
  ultimately show ?thesis
    using assms(4) entry
    by (auto simp: visit_def Let_def walk_ok_def split_beta agg_ok_merge index_ok_update split: if_splits option.splits)
qed

lemma walk_files_ok:
  "reader_ok rd \<Longrightarrow> index_ok idx \<Longrightarrow> walk_ok w \<Longrightarrow> walk_ok (fst (walk_files rd so now idx es w))"
  by (induction es arbitrary: w) (auto split: option.split intro: visit_ok)

subsection \<open>Windows\<close>

lemma window_sum:
  fixes P :: "string \<Rightarrow> bool" and pr :: pricing
  assumes "\<forall>(k, d) \<in> set ds. day_ok ms d" and "distinct (map fst (wi_models w))"
    and "tt_Tokens (wi_totals w) = values_sum (wi_models w)" and "fst ` set (wi_models w) \<subseteq> ms"
  defines "w' \<equiv> fold (\<lambda>(k, d) w. if P k then add_day pr d w else w) ds w"
  shows "distinct (map fst (wi_models w')) \<and> tt_Tokens (wi_totals w') = values_sum (wi_models w') \<and> fst ` set (wi_models w') \<subseteq> ms"
  using assms(1-4) unfolding w'_def
proof (induction ds arbitrary: w)
  case (Cons x ds)
  obtain k d where x: "x = (k, d)" by (cases x)
  have "day_ok ms d" using Cons.prems(1) by (simp add: x)
  then show ?case
    using Cons.prems Cons.IH [of "if P k then add_day pr d w else w"]
    by (auto simp: x add_day_def day_ok_def values_sum_bump_all)
qed simp

lemma window_balanced:
  assumes "agg_ok ag"
  shows "tt_Tokens (wi_totals (window_of pr tz b (ag_days ag))) =
    (\<Sum>m\<leftarrow>ag_order ag. val (wi_models (window_of pr tz b (ag_days ag))) m)"
proof -
  let ?w = "window_of pr tz b (ag_days ag)"
  have "\<forall>(k, d) \<in> set (ag_days ag). day_ok (set (ag_order ag)) d" using assms by (simp add: agg_ok_def)
  from window_sum [OF this, of no_window "\<lambda>k. dayBoundaryFromKey tz k \<ge> b" pr]
  have "distinct (map fst (wi_models ?w)) \<and> tt_Tokens (wi_totals ?w) = values_sum (wi_models ?w) \<and>
      fst ` set (wi_models ?w) \<subseteq> set (ag_order ag)"
    unfolding window_of_def by (simp add: no_window_def values_sum_def)
  moreover have "distinct (ag_order ag)" using assms by (simp add: agg_ok_def)
  ultimately show ?thesis by (simp add: values_sum_along)
qed

lemma sum_list_mset: "mset xs = mset ys \<Longrightarrow> sum_list (map f xs) = sum_list (map f ys :: 'v::comm_monoid_add list)"
  by (metis mset_map sum_mset_sum_list)

lemma sum_list_without:
  fixes f :: "'k \<Rightarrow> 'v::comm_monoid_add"
  shows "distinct ks \<Longrightarrow> s \<notin> set ks \<Longrightarrow> f s = 0 \<Longrightarrow> (\<Sum>k\<leftarrow>ks. f k) = (\<Sum>k\<leftarrow>filter (\<lambda>k. k \<noteq> s) ks. f k) + f s"
    and "distinct ks \<Longrightarrow> s \<in> set ks \<Longrightarrow> (\<Sum>k\<leftarrow>ks. f k) = (\<Sum>k\<leftarrow>filter (\<lambda>k. k \<noteq> s) ks. f k) + f s"
proof -
  show "distinct ks \<Longrightarrow> s \<notin> set ks \<Longrightarrow> f s = 0 \<Longrightarrow> (\<Sum>k\<leftarrow>ks. f k) = (\<Sum>k\<leftarrow>filter (\<lambda>k. k \<noteq> s) ks. f k) + f s"
    by (induction ks) (auto simp: add.assoc)
  show "distinct ks \<Longrightarrow> s \<in> set ks \<Longrightarrow> (\<Sum>k\<leftarrow>ks. f k) = (\<Sum>k\<leftarrow>filter (\<lambda>k. k \<noteq> s) ks. f k) + f s"
  proof (induction ks)
    case (Cons k ks)
    show ?case
    proof (cases "k = s")
      case True
      then have "filter (\<lambda>k. k \<noteq> s) ks = ks" using Cons.prems by (auto simp: filter_id_conv)
      then show ?thesis using True by (simp add: add.commute)
    qed (use Cons in \<open>auto simp: add.assoc\<close>)
  qed simp
qed

definition month_window :: "pricing \<Rightarrow> location \<Rightarrow> int \<Rightarrow> walk \<Rightarrow> window" where
  "month_window pr tz now w = window_of pr tz (monthBoundary tz now) (ag_days (wk_agg w))"

lemma source_balanced:
  assumes "walk_ok w"
  shows "tt_Tokens (sr_Month (source_of pr tz now plan w)) =
    (\<Sum>m\<leftarrow>sr_Models (source_of pr tz now plan w). md_TokensMonth m) + val (wi_models (month_window pr tz now w)) ''<synthetic>''"
proof -
  let ?ag = "wk_agg w" and ?win = "month_window pr tz now w"
  let ?v = "val (wi_models ?win)"
  have ok: "agg_ok ?ag" using assms by (simp add: walk_ok_def)
  have "(\<Sum>m\<leftarrow>sr_Models (source_of pr tz now plan w). md_TokensMonth m) = (\<Sum>m\<leftarrow>listed_models ?ag. ?v m)"
    by (subst sum_list_mset [where ys = "buildModelsList pr ?ag (window_of pr tz (dayBoundary tz now) (ag_days ?ag)) ?win"])
      (simp_all add: source_of_def Let_def month_window_def buildModelsList_def comp_def model_entry_def)
  moreover have "(\<Sum>m\<leftarrow>ag_order ?ag. ?v m) = (\<Sum>m\<leftarrow>listed_models ?ag. ?v m) + ?v ''<synthetic>''"
  proof (cases "''<synthetic>'' \<in> set (ag_order ?ag)")
    case True
    then show ?thesis using ok by (simp add: listed_models_def sum_list_without(2) agg_ok_def)
  next
    case False
    have "\<forall>(k, d) \<in> set (ag_days ?ag). day_ok (set (ag_order ?ag)) d" using ok by (simp add: agg_ok_def)
    from window_sum [OF this, of no_window "\<lambda>k. dayBoundaryFromKey tz k \<ge> monthBoundary tz now" pr]
    have "fst ` set (wi_models ?win) \<subseteq> set (ag_order ?ag)"
      unfolding month_window_def window_of_def by (simp add: no_window_def values_sum_def)
    then have "?v ''<synthetic>'' = 0" using False by (intro val_absent) auto
    then show ?thesis using ok False by (simp add: listed_models_def sum_list_without(1) agg_ok_def)
  qed
  ultimately show ?thesis
    using window_balanced [OF ok, of pr tz "monthBoundary tz now"]
    by (simp add: source_of_def Let_def month_window_def)
qed

text \<open>Two decoders and a small file, for the examples.\<close>

definition sample_claude :: "string \<Rightarrow> claudeLine option" where
  "sample_claude s = (if s = [] then None else
     Some \<lparr>cl_Type = ''assistant'', cl_Timestamp = [], cl_RequestID = [], cl_ID = s, cl_Model = ''opus'', cl_Usage = Tokens 5 7 0 0\<rparr>)"

definition sample_codex :: "string \<Rightarrow> codexLine option" where
  "sample_codex s =
     (if s = ''turn'' then Some \<lparr>cx_Type = ''turn_context'', cx_Timestamp = [], cx_PayloadType = [], cx_Model = ''o3'',
        cx_SettingsModel = [], cx_InfoModel = [], cx_InputTokens = 0, cx_CachedInputTokens = 0, cx_OutputTokens = 0,
        cx_ReasoningOutputTokens = 0\<rparr>
      else Some \<lparr>cx_Type = ''event_msg'', cx_Timestamp = [], cx_PayloadType = ''token_count'', cx_Model = [],
        cx_SettingsModel = [], cx_InfoModel = [], cx_InputTokens = 3, cx_CachedInputTokens = 1, cx_OutputTokens = 2,
        cx_ReasoningOutputTokens = 4\<rparr>)"

definition sample_entry :: "int \<Rightarrow> string \<Rightarrow> entry" where
  "sample_entry mtime bytes = \<lparr>en_error = False, en_path = ''a.jsonl'', en_dir = False, en_size = int (length bytes),
     en_mtime = mtime, en_open = True, en_read = True, en_bytes = bytes\<rparr>"

abbreviation line_end :: string where "line_end \<equiv> [CHR 0x0A]"

abbreviation two_lines :: string where "two_lines \<equiv> ''x'' @ line_end @ ''y'' @ line_end"

text \<open>
  C21: the tile and the table agree.  Whatever files and whatever balanced index a scan starts from, the
  tokens of the month are the sum of the month column of the model table plus those of the model
  \<open><synthetic>\<close>, which is not listed; and the index it leaves is balanced again.
\<close>

theorem month_equals_table:
  assumes "rd = read_claude dc loc \<or> rd = read_codex dx loc" and "index_ok idx"
    and "scan_source rd pr tz skipOld now plan idx es = (Some src, idx')"
  shows "index_ok idx' \<and> tt_Tokens (sr_Month src) = (\<Sum>m\<leftarrow>sr_Models src. md_TokensMonth m) +
    val (wi_models (month_window pr tz now (fst (walk_files rd skipOld now idx es no_walk)))) ''<synthetic>''"
proof -
  obtain w where w: "walk_files rd skipOld now idx es no_walk = (w, True)" "src = source_of pr tz now plan w" "idx' = wk_index w"
    using assms(3) by (auto simp: scan_source_def split: prod.splits if_splits)
  have "walk_ok (fst (walk_files rd skipOld now idx es no_walk))"
    using assms(1,2) by (intro walk_files_ok) (auto simp: walk_ok_def no_walk_def index_ok_def)
  then have "walk_ok w" by (simp add: w)
  then show ?thesis using source_balanced [of w pr tz now plan] by (simp add: w walk_ok_def)
qed

theorem month_equals_table_witness:
  defines "r \<equiv> scan_source (read_claude sample_claude (\<lambda>_. 0)) (\<lambda>_. None) (\<lambda>_. 0) False 0 ''Max'' [] [sample_entry 0 two_lines]"
  shows "index_ok (snd r) \<and> tt_Tokens (sr_Month (the (fst r))) = (\<Sum>m\<leftarrow>sr_Models (the (fst r)). md_TokensMonth m) +
    val (wi_models (month_window (\<lambda>_. None) (\<lambda>_. 0) 0
      (fst (walk_files (read_claude sample_claude (\<lambda>_. 0)) False 0 [] [sample_entry 0 two_lines] no_walk)))) ''<synthetic>''"
proof -
  have "\<not> Option.is_none (fst r)" unfolding r_def by code_simp
  then have "r = (Some (the (fst r)), snd r)" by (cases r) (auto simp: Option.is_none_def)
  then show ?thesis
    unfolding r_def by (intro month_equals_table [where dx = sample_codex and dc = sample_claude and loc = "\<lambda>_. 0"]) (simp_all add: index_ok_def)
qed

subsection \<open>Scanning again\<close>

text \<open>What the results of two files, or of two parts of one, add up to.\<close>

definition total_of :: "aggregates \<Rightarrow> string \<Rightarrow> tokens \<times> 64 word" where
  "total_of ag m = (val (ag_model ag) m, val (ag_reqs ag) m)"

lemma total_merge_model: "total_of (merge_model e ag) m =
    (if m = fst e then (fst (total_of ag m) + fst (snd e), snd (total_of ag m) + snd (snd e)) else total_of ag m)"
  by (cases e) (simp add: total_of_def merge_model_def val_bump)

lemma total_merge_day [simp]: "total_of (merge_day e ag) m = total_of ag m"
  by (cases e) (simp add: total_of_def merge_day_def Let_def)

lemma total_merge_days [simp]: "total_of (fold merge_day ds ag) m = total_of ag m"
  by (induction ds arbitrary: ag) simp_all

definition file_total :: "fileAcc \<Rightarrow> string \<Rightarrow> tokens \<times> 64 word" where
  "file_total a m = (val (fa_Models a) m, if m \<in> fst ` set (fa_Models a) then val (fa_Reqs a) m else 0)"

definition plus2 :: "tokens \<times> 64 word \<Rightarrow> tokens \<times> 64 word \<Rightarrow> tokens \<times> 64 word" where
  "plus2 x y = (fst x + fst y, snd x + snd y)"

lemma total_merge:
  assumes "acc_ok a"
  shows "total_of (mergeFileResult (file_result a) ag) m = plus2 (total_of ag m) (file_total a m)"
proof -
  have "distinct (map fst ms) \<Longrightarrow>
      total_of (fold merge_model (map (\<lambda>(m, tok). (m, (tok, r m))) ms) ag) m =
      plus2 (total_of ag m) (val ms m, if m \<in> fst ` set ms then r m else 0)" for ms r ag
  proof (induction ms arbitrary: ag)
    case Nil
    show ?case by (simp add: plus2_def)
  next
    case (Cons x ms)
    obtain k tok where x: "x = (k, tok)" by (cases x)
    show ?case
      using Cons.IH [of "merge_model (k, tok, r k) ag"] Cons.prems
      by (auto simp: x total_merge_model plus2_def val_absent)
  qed
  moreover have "distinct (map fst (fa_Models a))" using assms by (simp add: acc_ok_def)
  ultimately show ?thesis
    by (simp add: mergeFileResult_def file_result_def file_total_def)
qed

text \<open>A file that the walk reads, and the state after a walk over it alone.\<close>

definition readable :: "bool \<Rightarrow> int \<Rightarrow> entry \<Rightarrow> bool" where
  "readable so now e \<longleftrightarrow> \<not> en_error e \<and> \<not> en_dir e \<and> has_suffix (en_path e) ''.jsonl'' \<and>
     (now - MaxAge \<le> en_mtime e \<or> so) \<and> en_open e \<and> en_read e"

definition scan_one :: "reader \<Rightarrow> bool \<Rightarrow> int \<Rightarrow> index \<Rightarrow> entry \<Rightarrow> walk" where
  "scan_one rd so now idx e = fst (walk_files rd so now idx [e] no_walk)"

definition chunk :: "index \<Rightarrow> entry \<Rightarrow> string" where
  "chunk idx e = drop (nat (start_offset (index_entry idx (en_path e)) e)) (en_bytes e)"

lemma total_no_walk [simp]: "total_of (wk_agg no_walk) m = (0, 0)"
  by (simp add: no_walk_def no_aggregates_def total_of_def)

lemma scan_one_read:
  assumes "readable so now e" and "scan_lines (chunk idx e) = Some ls" and "reader_ok rd"
    and "\<not> (fi_Size (index_entry idx (en_path e)) = en_size e \<and> fi_Mtime (index_entry idx (en_path e)) = to_unix (en_mtime e)) \<or>
      fi_Result (index_entry idx (en_path e)) = None"
  defines "fi \<equiv> index_entry idx (en_path e)"
  defines "out \<equiv> rd fi ls"
  shows "total_of (wk_agg (scan_one rd so now idx e)) m =
      plus2 (case fi_Result fi of None \<Rightarrow> (0, 0) | Some r \<Rightarrow> total_of (mergeFileResult r no_aggregates) m)
        (file_total (fst out) m)"
    and "index_entry (wk_index (scan_one rd so now idx e)) (en_path e) =
      \<lparr>fi_Size = en_size e, fi_Mtime = to_unix (en_mtime e), fi_Lines = fi_Lines fi + of_nat (length ls),
       fi_Result = Some (file_result (fst out)), fi_LastModel = fst (snd out), fi_LastDayKey = snd (snd out)\<rparr>"
    and "wk_agg (scan_one rd so now idx e) = mergeFileResult (file_result (fst out))
      (case fi_Result fi of None \<Rightarrow> no_aggregates | Some r \<Rightarrow> mergeFileResult r no_aggregates)"
proof -
  have a: "acc_ok (fst out)" using assms(3) by (simp add: reader_ok_def out_def)
  have hit: "(if fi_Size fi = en_size e \<and> fi_Mtime fi = to_unix (en_mtime e) then fi_Result fi else None) = None"
    using assms(4) by (auto simp: fi_def)
  have v: "visit rd so now idx e no_walk = Some (no_walk\<lparr>
      wk_agg := mergeFileResult (file_result (fst out))
        (case fi_Result fi of None \<Rightarrow> wk_agg no_walk | Some r \<Rightarrow> mergeFileResult r (wk_agg no_walk)),
      wk_index := AList.update (en_path e) \<lparr>fi_Size = en_size e, fi_Mtime = to_unix (en_mtime e),
        fi_Lines = fi_Lines fi + of_nat (length ls), fi_Result = Some (file_result (fst out)),
        fi_LastModel = fst (snd out), fi_LastDayKey = snd (snd out)\<rparr> (wk_index no_walk)\<rparr>)"
    using assms(1,2) hit unfolding visit_def fi_def [symmetric]
    by (auto simp: readable_def chunk_def fi_def Let_def out_def split_beta)
  then have w: "scan_one rd so now idx e = the (visit rd so now idx e no_walk)"
    by (simp add: scan_one_def)
  have "wk_agg no_walk = no_aggregates" by (simp add: no_walk_def)
  then show "total_of (wk_agg (scan_one rd so now idx e)) m =
      plus2 (case fi_Result fi of None \<Rightarrow> (0, 0) | Some r \<Rightarrow> total_of (mergeFileResult r no_aggregates) m)
        (file_total (fst out) m)"
    by (simp add: w v total_merge [OF a] total_of_def [of no_aggregates] no_aggregates_def [THEN arg_cong [where f = ag_model]]
        no_aggregates_def [THEN arg_cong [where f = ag_reqs]] split: option.split)
  show "index_entry (wk_index (scan_one rd so now idx e)) (en_path e) =
      \<lparr>fi_Size = en_size e, fi_Mtime = to_unix (en_mtime e), fi_Lines = fi_Lines fi + of_nat (length ls),
       fi_Result = Some (file_result (fst out)), fi_LastModel = fst (snd out), fi_LastDayKey = snd (snd out)\<rparr>"
    by (simp add: w v index_entry_def update_conv')
  show "wk_agg (scan_one rd so now idx e) = mergeFileResult (file_result (fst out))
      (case fi_Result fi of None \<Rightarrow> no_aggregates | Some r \<Rightarrow> mergeFileResult r no_aggregates)"
    by (simp add: w v \<open>wk_agg no_walk = no_aggregates\<close> cong: option.case_cong)
qed

lemma index_entry_single [simp]: "index_entry [(p, fi)] p = fi"
  by (simp add: index_entry_def)

lemma scan_one_cached:
  assumes "readable so now e" and "fi_Result (index_entry idx (en_path e)) = Some r"
    and "fi_Size (index_entry idx (en_path e)) = en_size e" and "fi_Mtime (index_entry idx (en_path e)) = to_unix (en_mtime e)"
  shows "total_of (wk_agg (scan_one rd so now idx e)) m = total_of (mergeFileResult r no_aggregates) m"
    and "index_entry (wk_index (scan_one rd so now idx e)) (en_path e) = index_entry idx (en_path e)"
proof -
  have "visit rd so now idx e no_walk = Some (no_walk\<lparr>wk_agg := mergeFileResult r no_aggregates,
      wk_index := AList.update (en_path e) (index_entry idx (en_path e)) []\<rparr>)"
    using assms by (auto simp: visit_def readable_def Let_def no_walk_def)
  then have w: "scan_one rd so now idx e = no_walk\<lparr>wk_agg := mergeFileResult r no_aggregates,
      wk_index := AList.update (en_path e) (index_entry idx (en_path e)) []\<rparr>"
    by (simp add: scan_one_def)
  show "total_of (wk_agg (scan_one rd so now idx e)) m = total_of (mergeFileResult r no_aggregates) m"
    and "index_entry (wk_index (scan_one rd so now idx e)) (en_path e) = index_entry idx (en_path e)"
    by (simp_all add: w)
qed

text \<open>The bytes of a file that has grown by whole lines.\<close>

lemma raw_lines_append:
  assumes "last a = CHR 0x0A" and "a \<noteq> []"
  shows "raw_lines (a @ b) = raw_lines a @ raw_lines b"
proof -
  obtain c where a: "a = c @ [CHR 0x0A]" using assms by (metis append_butlast_last_id)
  have split: "split_char (CHR 0x0A) (c @ CHR 0x0A # t) = butlast (split_char (CHR 0x0A) (c @ [CHR 0x0A])) @ split_char (CHR 0x0A) t" for t
  proof (induction c)
    case (Cons x c)
    show ?case
    proof (cases "x = CHR 0x0A")
      case False
      obtain w ws where w: "split_char (CHR 0x0A) (c @ [CHR 0x0A]) = w # ws"
        by (cases "split_char (CHR 0x0A) (c @ [CHR 0x0A])") auto
      have "ws \<noteq> []"
      proof
        assume "ws = []"
        then have "join_char (CHR 0x0A) (split_char (CHR 0x0A) (c @ [CHR 0x0A])) = w" by (simp add: w)
        then have "w = c @ [CHR 0x0A]" by (simp add: join_split_char)
        moreover have "CHR 0x0A \<notin> set w"
        proof -
          have "\<forall>u \<in> set (split_char s t). s \<notin> set u" for s t
            by (induction t) (auto split: list.splits)
          then show ?thesis using w by (metis list.set_intros(1))
        qed
        ultimately show False by simp
      qed
      then show ?thesis using Cons.IH w False by simp
    qed (use Cons in simp)
  qed simp
  have l: "last (split_char (CHR 0x0A) (c @ [CHR 0x0A])) = []"
    using split [of "[]"] by (metis last_snoc split_char.simps(1))
  have n: "split_char (CHR 0x0A) b \<noteq> []" by simp
  show ?thesis
    using split [of b] l n by (auto simp: raw_lines_def a Let_def last_append butlast_append)
qed

lemma scan_lines_append:
  assumes "last a = CHR 0x0A" and "a \<noteq> []" and "scan_lines (a @ b) = Some ls"
  obtains la lb where "scan_lines a = Some la" and "scan_lines b = Some lb" and "ls = la @ lb"
  using assms(3) that raw_lines_append [OF assms(1,2), of b]
  by (auto simp: scan_lines_def split: if_splits)

text \<open>The first scan of a file, and the scan of a file that grew since it was cached.\<close>

lemma first_scan:
  assumes "readable so t e" "reader_ok rd" "scan_lines (en_bytes e) = Some ls"
  defines "out \<equiv> rd no_entry ls" and "w \<equiv> scan_one rd so t [] e"
  shows "wk_agg w = mergeFileResult (file_result (fst out)) no_aggregates"
    and "total_of (wk_agg w) m = file_total (fst out) m"
    and "index_entry (wk_index w) (en_path e) =
      \<lparr>fi_Size = en_size e, fi_Mtime = to_unix (en_mtime e), fi_Lines = of_nat (length ls),
       fi_Result = Some (file_result (fst out)), fi_LastModel = fst (snd out), fi_LastDayKey = snd (snd out)\<rparr>"
proof -
  have none: "index_entry [] p = no_entry" for p by (simp add: index_entry_def)
  have c: "scan_lines (chunk [] e) = Some ls"
    using assms(3) by (simp add: chunk_def start_offset_def none no_entry_def)
  have s: "\<not> (fi_Size (index_entry [] (en_path e)) = en_size e \<and> fi_Mtime (index_entry [] (en_path e)) = to_unix (en_mtime e)) \<or>
      fi_Result (index_entry [] (en_path e)) = None"
    by (simp add: none no_entry_def)
  note one = scan_one_read [OF assms(1) c assms(2) s, unfolded none, folded out_def w_def]
  show "wk_agg w = mergeFileResult (file_result (fst out)) no_aggregates" using one(3) by (simp add: no_entry_def)
  show "total_of (wk_agg w) m = file_total (fst out) m" using one(1) [of m] by (simp add: no_entry_def plus2_def)
  show "index_entry (wk_index w) (en_path e) =
      \<lparr>fi_Size = en_size e, fi_Mtime = to_unix (en_mtime e), fi_Lines = of_nat (length ls),
       fi_Result = Some (file_result (fst out)), fi_LastModel = fst (snd out), fi_LastDayKey = snd (snd out)\<rparr>"
    using one(2) by (simp add: no_entry_def)
qed

lemma grown_scan:
  assumes "readable so t e" "reader_ok rd" "en_bytes e = old @ tail" "old \<noteq> []" "scan_lines tail = Some ls"
    and "fi_Size (index_entry idx (en_path e)) = int (length old)" "int (length old) < en_size e"
    and "fi_Result (index_entry idx (en_path e)) = Some r"
  defines "out \<equiv> rd (index_entry idx (en_path e)) ls" and "w \<equiv> scan_one rd so t idx e"
  shows "wk_agg w = mergeFileResult (file_result (fst out)) (mergeFileResult r no_aggregates)"
    and "total_of (wk_agg w) m = plus2 (total_of (mergeFileResult r no_aggregates) m) (file_total (fst out) m)"
    and "index_entry (wk_index w) (en_path e) =
      \<lparr>fi_Size = en_size e, fi_Mtime = to_unix (en_mtime e),
       fi_Lines = fi_Lines (index_entry idx (en_path e)) + of_nat (length ls),
       fi_Result = Some (file_result (fst out)), fi_LastModel = fst (snd out), fi_LastDayKey = snd (snd out)\<rparr>"
proof -
  have "0 < int (length old)" using assms(4) by simp
  then have c: "scan_lines (chunk idx e) = Some ls" using assms(3,5-7) by (simp add: chunk_def start_offset_def)
  have s: "\<not> (fi_Size (index_entry idx (en_path e)) = en_size e \<and> fi_Mtime (index_entry idx (en_path e)) = to_unix (en_mtime e)) \<or>
      fi_Result (index_entry idx (en_path e)) = None"
    using assms(6,7) by simp
  note two = scan_one_read [OF assms(1) c assms(2) s, folded out_def w_def]
  show "wk_agg w = mergeFileResult (file_result (fst out)) (mergeFileResult r no_aggregates)"
    using two(3) by (simp add: assms(8))
  show "total_of (wk_agg w) m = plus2 (total_of (mergeFileResult r no_aggregates) m) (file_total (fst out) m)"
    using two(1) [of m] by (simp add: assms(8))
  show "index_entry (wk_index w) (en_path e) =
      \<lparr>fi_Size = en_size e, fi_Mtime = to_unix (en_mtime e),
       fi_Lines = fi_Lines (index_entry idx (en_path e)) + of_nat (length ls),
       fi_Result = Some (file_result (fst out)), fi_LastModel = fst (snd out), fi_LastDayKey = snd (snd out)\<rparr>"
    by (rule two(2))
qed

text \<open>
  C22: an appended transcript is forgotten.  When a file has grown by whole lines, the second scan counts
  what it counted before and the new part, but the index keeps the result of the new part only: the third
  scan, of the unchanged file, no longer counts anything of the first, for every model and both sources.
\<close>

theorem appended_file_forgotten:
  assumes "rd = read_claude dc tz \<or> rd = read_codex dx tz"
    and "readable so t1 e1" and "readable so t2 e2" and "readable so t3 e2" and "en_path e2 = en_path e1"
    and "en_size e1 = int (length (en_bytes e1))" and "en_bytes e1 \<noteq> []" and "last (en_bytes e1) = CHR 0x0A"
    and "en_bytes e2 = en_bytes e1 @ tail" and "en_size e1 < en_size e2" and "scan_lines (en_bytes e2) \<noteq> None"
  defines "w1 \<equiv> scan_one rd so t1 [] e1"
  defines "w2 \<equiv> scan_one rd so t2 (wk_index w1) e2"
  defines "w3 \<equiv> scan_one rd so t3 (wk_index w2) e2"
  shows "total_of (wk_agg w2) m = plus2 (total_of (wk_agg w1) m) (total_of (wk_agg w3) m)"
proof -
  have rd: "reader_ok rd" using assms(1) by auto
  obtain la lb where l: "scan_lines (en_bytes e1) = Some la" "scan_lines tail = Some lb"
    using assms(7,8,9,11) scan_lines_append [of "en_bytes e1" tail] by (metis not_Some_eq)
  let ?o1 = "rd no_entry la"
  note one = first_scan [OF assms(2) rd l(1), folded w1_def]
  define fi1 where "fi1 = index_entry (wk_index w1) (en_path e2)"
  have fi1: "fi_Size fi1 = int (length (en_bytes e1))" "fi_Result fi1 = Some (file_result (fst ?o1))"
    using one(3) assms(6) by (simp_all add: fi1_def assms(5))
  let ?o2 = "rd fi1 lb"
  note two = grown_scan [OF assms(3) rd assms(9,7) l(2), of "wk_index w1", folded fi1_def w2_def,
      OF fi1(1) assms(10) [unfolded assms(6)] fi1(2)]
  have ok: "acc_ok (fst ?o1)" "acc_ok (fst ?o2)" using rd by (simp_all add: reader_ok_def)
  have zero: "total_of no_aggregates m = (0, 0)" by (simp add: total_of_def no_aggregates_def)
  have t1: "total_of (wk_agg w1) m = file_total (fst ?o1) m" by (rule one(2))
  have t2: "total_of (wk_agg w2) m = plus2 (file_total (fst ?o1) m) (file_total (fst ?o2) m)"
    using two(2) [of m] by (simp add: total_merge [OF ok(1)] zero plus2_def)
  have "total_of (wk_agg w3) m = total_of (mergeFileResult (file_result (fst ?o2)) no_aggregates) m"
    using scan_one_cached(1) [OF assms(4), of "wk_index w2" "file_result (fst ?o2)" rd m] two(3) by (simp add: w3_def)
  then have "total_of (wk_agg w3) m = file_total (fst ?o2) m"
    by (simp add: total_merge [OF ok(2)] zero plus2_def)
  with t1 t2 show ?thesis by simp
qed

theorem appended_file_forgotten_witness:
  defines "rd \<equiv> read_claude sample_claude (\<lambda>_. 0)"
  defines "w1 \<equiv> scan_one rd False 1 [] (sample_entry 0 (''x'' @ line_end))"
  defines "w2 \<equiv> scan_one rd False 3 (wk_index w1) (sample_entry 2 two_lines)"
  defines "w3 \<equiv> scan_one rd False 4 (wk_index w2) (sample_entry 2 two_lines)"
  shows "total_of (wk_agg w2) ''opus'' = plus2 (total_of (wk_agg w1) ''opus'') (total_of (wk_agg w3) ''opus'') \<and>
    total_of (wk_agg w1) ''opus'' = (Tokens 5 7 0 0, 1)"
proof
  show "total_of (wk_agg w2) ''opus'' = plus2 (total_of (wk_agg w1) ''opus'') (total_of (wk_agg w3) ''opus'')"
    unfolding w3_def w2_def w1_def rd_def
  proof (rule appended_file_forgotten [where tail = "''y'' @ line_end" and dx = sample_codex and dc = sample_claude and tz = "\<lambda>_. 0"])
    show "readable False 1 (sample_entry 0 (''x'' @ line_end))" "readable False 3 (sample_entry 2 two_lines)"
      "readable False 4 (sample_entry 2 two_lines)" "scan_lines (en_bytes (sample_entry 2 two_lines)) \<noteq> None"
      by (simp_all add: readable_def sample_entry_def MaxAge_def Hour_def Minute_def Second_def scan_lines_def raw_lines_def maxScanLine_def has_suffix_def)
  qed (simp_all add: sample_entry_def)
  show "total_of (wk_agg w1) ''opus'' = (Tokens 5 7 0 0, 1)" unfolding w1_def rd_def by code_simp
qed

text \<open>
  A touched transcript counts twice.  A Claude file whose bytes are the same but whose modification
  time has changed is read again from its start, and the cached result is added to it all the same.
\<close>

theorem touched_file_counted_twice:
  fixes dc :: "string \<Rightarrow> claudeLine option" and tz :: location
  assumes "readable so t1 e1" and "readable so t2 e2" and "en_path e2 = en_path e1" and "en_bytes e2 = en_bytes e1"
    and "en_size e2 = en_size e1" and "to_unix (en_mtime e2) \<noteq> to_unix (en_mtime e1)" and "scan_lines (en_bytes e1) \<noteq> None"
  defines "w1 \<equiv> scan_one (read_claude dc tz) so t1 [] e1"
  defines "w2 \<equiv> scan_one (read_claude dc tz) so t2 (wk_index w1) e2"
  shows "total_of (wk_agg w2) m = plus2 (total_of (wk_agg w1) m) (total_of (wk_agg w1) m)"
proof -
  let ?rd = "read_claude dc tz"
  obtain la where l: "scan_lines (en_bytes e1) = Some la" using assms(7) by auto
  have none: "index_entry [] p = no_entry" for p by (simp add: index_entry_def)
  have c1: "scan_lines (chunk [] e1) = Some la" using l by (simp add: chunk_def start_offset_def none no_entry_def)
  have s1: "\<not> (fi_Size (index_entry [] (en_path e1)) = en_size e1 \<and> fi_Mtime (index_entry [] (en_path e1)) = to_unix (en_mtime e1)) \<or>
      fi_Result (index_entry [] (en_path e1)) = None"
    by (simp add: none no_entry_def)
  have rd: "reader_ok ?rd" by simp
  note one = scan_one_read [OF assms(1) c1 rd s1, folded w1_def, unfolded none]
  define fi1 where "fi1 = index_entry (wk_index w1) (en_path e2)"
  let ?a = "fst (?rd no_entry la)"
  have fi1: "fi_Size fi1 = en_size e1" "fi_Mtime fi1 = to_unix (en_mtime e1)" "fi_Result fi1 = Some (file_result ?a)"
    using one(2) by (simp_all add: fi1_def assms(3))
  have c2: "scan_lines (chunk (wk_index w1) e2) = Some la"
    using l fi1(1) assms(4,5) by (simp add: chunk_def start_offset_def fi1_def)
  have s2: "\<not> (fi_Size (index_entry (wk_index w1) (en_path e2)) = en_size e2 \<and>
        fi_Mtime (index_entry (wk_index w1) (en_path e2)) = to_unix (en_mtime e2)) \<or>
      fi_Result (index_entry (wk_index w1) (en_path e2)) = None"
    using fi1(2) assms(6) by (simp add: fi1_def)
  note two = scan_one_read [OF assms(2) c2 rd s2, folded w2_def fi1_def]
  have same: "fst (?rd fi1 la) = ?a" by (simp add: read_claude_def)
  have ok: "acc_ok ?a" using rd by (simp add: reader_ok_def)
  have zero: "total_of no_aggregates m = (0, 0)" by (simp add: total_of_def no_aggregates_def)
  have "total_of (wk_agg w1) m = file_total ?a m" using one(1) [of m] by (simp add: no_entry_def plus2_def)
  moreover have "total_of (wk_agg w2) m = plus2 (file_total ?a m) (file_total ?a m)"
    using two(1) [of m] by (simp add: fi1(3) same total_merge [OF ok] zero plus2_def)
  ultimately show ?thesis by simp
qed

theorem touched_file_counted_twice_witness:
  defines "w1 \<equiv> scan_one (read_claude sample_claude (\<lambda>_. 0)) False 1 [] (sample_entry 0 two_lines)"
  defines "w2 \<equiv> scan_one (read_claude sample_claude (\<lambda>_. 0)) False 3 (wk_index w1) (sample_entry Second two_lines)"
  shows "total_of (wk_agg w2) ''opus'' = plus2 (total_of (wk_agg w1) ''opus'') (total_of (wk_agg w1) ''opus'') \<and>
    total_of (wk_agg w1) ''opus'' = (Tokens 10 14 0 0, 2)"
proof
  show "total_of (wk_agg w2) ''opus'' = plus2 (total_of (wk_agg w1) ''opus'') (total_of (wk_agg w1) ''opus'')"
    unfolding w2_def w1_def
  proof (rule touched_file_counted_twice)
    show "readable False 1 (sample_entry 0 two_lines)" "readable False 3 (sample_entry Second two_lines)"
      "scan_lines (en_bytes (sample_entry 0 two_lines)) \<noteq> None"
      by (simp_all add: readable_def sample_entry_def MaxAge_def Hour_def Minute_def Second_def scan_lines_def raw_lines_def maxScanLine_def has_suffix_def)
  qed (simp_all add: sample_entry_def to_unix_def Second_def)
  show "total_of (wk_agg w1) ''opus'' = (Tokens 10 14 0 0, 2)" unfolding w1_def by code_simp
qed

subsection \<open>Codex: reading on where the last scan stopped\<close>

definition day_total :: "aggregates \<Rightarrow> string \<Rightarrow> string \<Rightarrow> tokens" where
  "day_total ag k m = val (ac_byModel (day_of (ag_days ag) k)) m"

definition file_day_total :: "fileAcc \<Rightarrow> string \<Rightarrow> string \<Rightarrow> tokens" where
  "file_day_total a k m = val (day_models (fa_DayModels a) k) m"

lemma day_total_merge_model [simp]: "day_total (fold merge_model es ag) k m = day_total ag k m"
proof -
  have "ag_days (fold merge_model es ag) = ag_days ag"
    by (induction es arbitrary: ag) (simp_all add: merge_model_def split_beta)
  then show ?thesis by (simp add: day_total_def)
qed

lemma day_total_merge_day:
  "distinct (map fst (da_ByModel da)) \<Longrightarrow>
     day_total (merge_day (j, da) ag) k m = (if j = k then day_total ag k m + val (da_ByModel da) m else day_total ag k m)"
  by (simp add: day_total_def merge_day_def Let_def day_of_def update_conv' val_bump_all)

lemma day_total_merge:
  assumes "acc_ok a"
  shows "day_total (mergeFileResult (file_result a) ag) k m = day_total ag k m + file_day_total a k m"
proof -
  let ?da = "\<lambda>k tok. \<lparr>da_Tokens = tok, da_Reqs = val (fa_DayReqs a) k, da_ByModel = day_models (fa_DayModels a) k\<rparr>"
  have d: "distinct (map fst (day_models (fa_DayModels a) k))" for k using assms by (simp add: acc_ok_def)
  have "distinct (map fst ds) \<Longrightarrow> day_total (fold merge_day (map (\<lambda>(k, tok). (k, ?da k tok)) ds) b) k m =
      day_total b k m + (if k \<in> fst ` set ds then file_day_total a k m else 0)" for ds b
  proof (induction ds arbitrary: b)
    case (Cons x ds)
    obtain j tok where x: "x = (j, tok)" by (cases x)
    show ?case
      using Cons.IH [of "merge_day (j, ?da j tok) b"] Cons.prems d [of j]
      by (auto simp: x day_total_merge_day file_day_total_def)
  qed simp
  moreover have "k \<notin> fst ` set (fa_DayTokens a) \<Longrightarrow> file_day_total a k m = 0"
    using assms by (simp add: acc_ok_def file_day_total_def)
  moreover have "distinct (map fst (fa_DayTokens a))" using assms by (simp add: acc_ok_def)
  ultimately show ?thesis by (auto simp: mergeFileResult_def file_result_def)
qed

text \<open>One accumulator holds what two others hold together.\<close>

definition adds :: "fileAcc \<Rightarrow> fileAcc \<Rightarrow> fileAcc \<Rightarrow> bool" where
  "adds a b c \<longleftrightarrow> (\<forall>m. val (fa_Models c) m = val (fa_Models a) m + val (fa_Models b) m) \<and>
     (\<forall>m. val (fa_Reqs c) m = val (fa_Reqs a) m + val (fa_Reqs b) m) \<and>
     (\<forall>k m. file_day_total c k m = file_day_total a k m + file_day_total b k m)"

lemma adds_start: "adds a no_usage a"
  by (simp add: adds_def no_usage_def file_day_total_def day_models_def)

lemma adds_usage: "adds a b c \<Longrightarrow> adds a (add_usage m k tok b) (add_usage m k tok c)"
  by (auto simp: adds_def add_usage_def val_bump file_day_total_def day_models_update add.assoc)

definition same_context :: "codexState \<Rightarrow> codexState \<Rightarrow> bool" where
  "same_context s t \<longleftrightarrow> cs_model s = cs_model t \<and> cs_day s = cs_day t"

lemma codex_lines_adds:
  "same_context s t \<Longrightarrow> adds a (cs_acc s) (cs_acc t) \<Longrightarrow>
     adds a (cs_acc (codex_lines dec tz ls s)) (cs_acc (codex_lines dec tz ls t))"
proof (induction ls arbitrary: s t)
  case (Cons raw ls)
  have "same_context (codex_line tz l s) (codex_line tz l t) \<and> adds a (cs_acc (codex_line tz l s)) (cs_acc (codex_line tz l t))" for l
    using Cons.prems by (simp add: codex_line_def codex_context_def same_context_def adds_usage)
  then show ?case using Cons by (auto split: option.split)
qed simp

lemma codex_lines_append: "codex_lines dec tz (xs @ ys) s = codex_lines dec tz ys (codex_lines dec tz xs s)"
  by (induction xs arbitrary: s) simp_all

definition req_keys :: "fileAcc \<Rightarrow> bool" where
  "req_keys a \<longleftrightarrow> fst ` set (fa_Reqs a) = fst ` set (fa_Models a)"

lemma req_keys_codex: "req_keys (cs_acc s) \<Longrightarrow> req_keys (cs_acc (codex_lines dec tz ls s))"
proof (induction ls arbitrary: s)
  case (Cons raw ls)
  have "req_keys (cs_acc (codex_line tz l s))" for l
    using Cons.prems by (simp add: codex_line_def codex_context_def req_keys_def add_usage_def)
  then show ?case using Cons by (auto split: option.split)
qed simp

lemma file_total_req_keys: "req_keys a \<Longrightarrow> file_total a m = (val (fa_Models a) m, val (fa_Reqs a) m)"
  by (simp add: file_total_def req_keys_def val_absent)

lemma req_keys_read: "req_keys (fst (read_codex dx tz fi ls))"
proof -
  have "req_keys no_usage" by (simp add: req_keys_def no_usage_def)
  then show ?thesis by (simp add: read_codex_def Let_def req_keys_codex)
qed

text \<open>
  C24: reading on is as good as reading again.  When a Codex rollout has grown by whole lines, the scan of
  the appended part, started with the model and the day the first scan ended with, gives with the cached
  result the same tokens per model, requests per model and tokens per day and model as a first scan of
  the whole file.
\<close>

theorem codex_append_exact:
  fixes dx :: "string \<Rightarrow> codexLine option" and tz :: location
  assumes "readable so t1 e1" and "readable so t2 e2" and "en_path e2 = en_path e1"
    and "en_size e1 = int (length (en_bytes e1))" and "en_bytes e1 \<noteq> []" and "last (en_bytes e1) = CHR 0x0A"
    and "en_bytes e2 = en_bytes e1 @ tail" and "en_size e1 < en_size e2" and "scan_lines (en_bytes e2) \<noteq> None"
  defines "w1 \<equiv> scan_one (read_codex dx tz) so t1 [] e1"
  defines "resumed \<equiv> wk_agg (scan_one (read_codex dx tz) so t2 (wk_index w1) e2)"
  defines "fresh \<equiv> wk_agg (scan_one (read_codex dx tz) so t2 [] e2)"
  shows "total_of resumed m = total_of fresh m \<and> day_total resumed k m = day_total fresh k m"
proof -
  let ?rd = "read_codex dx tz"
  have rd: "reader_ok ?rd" by simp
  obtain la lb where l: "scan_lines (en_bytes e1) = Some la" "scan_lines tail = Some lb" "scan_lines (en_bytes e2) = Some (la @ lb)"
    using assms(5-7,9) scan_lines_append [of "en_bytes e1" tail] by (metis not_Some_eq)
  let ?s0 = "\<lparr>cs_model = [], cs_day = [], cs_acc = no_usage\<rparr>"
  let ?s1 = "codex_lines dx tz la ?s0"
  let ?a1 = "cs_acc ?s1" and ?a2 = "cs_acc (codex_lines dx tz lb (?s1\<lparr>cs_acc := no_usage\<rparr>))"
  let ?a = "cs_acc (codex_lines dx tz (la @ lb) ?s0)"
  have reads: "?rd no_entry ls = (cs_acc (codex_lines dx tz ls ?s0), cs_model (codex_lines dx tz ls ?s0), cs_day (codex_lines dx tz ls ?s0))" for ls
    by (simp add: read_codex_def no_entry_def Let_def)
  define fi1 where "fi1 = index_entry (wk_index w1) (en_path e2)"
  have fi1: "fi_Size fi1 = int (length (en_bytes e1))" "fi_Result fi1 = Some (file_result ?a1)" "fi_LastModel fi1 = cs_model ?s1"
    "fi_LastDayKey fi1 = cs_day ?s1"
    using first_scan(3) [OF assms(1) rd l(1), folded w1_def, unfolded reads] assms(4) by (simp_all add: fi1_def assms(3))
  have a2: "fst (?rd fi1 lb) = ?a2"
    using fi1(3,4) by (cases ?s1) (simp add: read_codex_def Let_def)
  have res: "resumed = mergeFileResult (file_result ?a2) (mergeFileResult (file_result ?a1) no_aggregates)"
    using grown_scan(1) [OF assms(2) rd assms(7,5) l(2), of "wk_index w1", folded fi1_def, OF fi1(1) assms(8) [unfolded assms(4)] fi1(2)]
    by (simp add: resumed_def a2)
  have fre: "fresh = mergeFileResult (file_result ?a) no_aggregates"
    using first_scan(1) [OF assms(2) rd l(3), unfolded reads] by (simp add: fresh_def)
  have ok: "acc_ok ?a1" "acc_ok ?a2" "acc_ok ?a" by (simp_all add: acc_ok_codex)
  have nu: "req_keys no_usage" by (simp add: req_keys_def no_usage_def)
  have keys: "req_keys ?a1" "req_keys ?a2" "req_keys ?a"
    using req_keys_codex [of ?s0] req_keys_codex [of "?s1\<lparr>cs_acc := no_usage\<rparr>"] by (simp_all add: nu)
  have "adds ?a1 ?a2 ?a"
    unfolding codex_lines_append by (rule codex_lines_adds) (simp_all add: same_context_def adds_start)
  moreover have "total_of no_aggregates m = (0, 0)" "day_total no_aggregates k m = 0"
    by (simp_all add: total_of_def day_total_def no_aggregates_def day_of_def no_day_def)
  ultimately show ?thesis
    by (simp add: res fre total_merge ok day_total_merge file_total_req_keys keys plus2_def adds_def)
qed

theorem codex_append_exact_witness:
  defines "rd \<equiv> read_codex sample_codex (\<lambda>_. 0)"
  defines "w1 \<equiv> scan_one rd False 1 [] (sample_entry 0 (''turn'' @ line_end))"
  defines "resumed \<equiv> wk_agg (scan_one rd False 3 (wk_index w1) (sample_entry 2 (''turn'' @ line_end @ ''use'' @ line_end)))"
  defines "fresh \<equiv> wk_agg (scan_one rd False 3 [] (sample_entry 2 (''turn'' @ line_end @ ''use'' @ line_end)))"
  shows "total_of resumed ''o3'' = total_of fresh ''o3'' \<and> day_total resumed [] ''o3'' = day_total fresh [] ''o3''"
  unfolding resumed_def fresh_def w1_def rd_def
proof (rule codex_append_exact [where tail = "''use'' @ line_end"])
  show "readable False 1 (sample_entry 0 (''turn'' @ line_end))"
    "readable False 3 (sample_entry 2 (''turn'' @ line_end @ ''use'' @ line_end))"
    "scan_lines (en_bytes (sample_entry 2 (''turn'' @ line_end @ ''use'' @ line_end))) \<noteq> None"
    by (simp_all add: readable_def sample_entry_def MaxAge_def Hour_def Minute_def Second_def scan_lines_def raw_lines_def maxScanLine_def has_suffix_def)
qed (simp_all add: sample_entry_def)

subsection \<open>The currency of the plans\<close>

lemma primary_currency_best:
  "[] \<notin> fst ` set m \<Longrightarrow> b \<noteq> [] \<Longrightarrow>
     \<exists>n. (primary_currency m (Some (b, k)), n) \<in> insert (b, k) (set m) \<and> (\<forall>(d, j) \<in> insert (b, k) (set m). j \<le> n)"
proof (induction m arbitrary: b k)
  case (Cons x m)
  obtain c n where x: "x = (c, n)" by (cases x)
  show ?case
  proof (cases "n > k")
    case True
    then show ?thesis using Cons.IH [of c n] Cons.prems by (fastforce simp: x)
  next
    case False
    then show ?thesis using Cons.IH [of b k] Cons.prems by (fastforce simp: x)
  qed
qed simp

lemma primary_currency_first:
  "b \<noteq> [] \<Longrightarrow> \<forall>(d, j) \<in> set m. j \<le> k \<Longrightarrow> primary_currency m (Some (b, k)) = b"
  by (induction m) auto

text \<open>
  The primary currency is one with most plans, and any of them.  Over the orders in which the counts
  can be gone through, the currencies chosen are exactly those that no other currency outnumbers: with
  one plan in each of two currencies the report changes its currency from call to call.
\<close>

theorem primary_currency_any_majority:
  assumes "counts \<noteq> []" and "[] \<notin> fst ` set counts"
  shows "c \<in> (\<lambda>m. primary_currency m None) ` {m. mset m = mset counts} \<longleftrightarrow>
    (\<exists>n. (c, n) \<in> set counts \<and> (\<forall>(d, k) \<in> set counts. k \<le> n))"
proof
  assume "c \<in> (\<lambda>m. primary_currency m None) ` {m. mset m = mset counts}"
  then obtain m where m: "mset m = mset counts" "c = primary_currency m None" by auto
  then have s: "set m = set counts" by (metis set_mset_mset)
  then obtain b k m' where x: "m = (b, k) # m'" using assms(1) by (cases m) auto
  show "\<exists>n. (c, n) \<in> set counts \<and> (\<forall>(d, k) \<in> set counts. k \<le> n)"
    using primary_currency_best [of m' b k] assms(2) m(2) unfolding s [symmetric] x by auto
next
  assume "\<exists>n. (c, n) \<in> set counts \<and> (\<forall>(d, k) \<in> set counts. k \<le> n)"
  then obtain n where n: "(c, n) \<in> set counts" "\<forall>(d, k) \<in> set counts. k \<le> n" by auto
  let ?m = "(c, n) # remove1 (c, n) counts"
  have "c \<noteq> []" using n(1) assms(2) by force
  moreover have "\<forall>(d, j) \<in> set (remove1 (c, n) counts). j \<le> n"
    using n(2) by (meson in_mono set_remove1_subset)
  ultimately have "primary_currency ?m None = c" by (simp add: primary_currency_first)
  moreover have "mset ?m = mset counts" using n(1) by simp
  ultimately show "c \<in> (\<lambda>m. primary_currency m None) ` {m. mset m = mset counts}" by (metis (mono_tags) image_eqI mem_Collect_eq)
qed

theorem primary_currency_any_majority_witness:
  "''BRL'' \<in> (\<lambda>m. primary_currency m None) ` {m. mset m = mset [(''USD'', 1), (''BRL'', 1)]}"
  using primary_currency_any_majority [of "[(''USD'', 1), (''BRL'', 1)]" "''BRL''"] by simp
end
