(* ===== verification/Api_Setup.thy ===== *)
theory Api_Setup
  imports Api_Settings Api_Auth Ble_Wire
begin

text \<open>
  internal/api/setup.go: the channel behind the setup card.  A scan or a provisioning run is started by a
  request and goes on in a goroutine of its own; \<open>gen\<close> tells which goroutine the channel still listens to.
  The provisioner is outside: what it finds, reports and returns are arguments.  Of an error the model has
  what \<open>errors.As\<close> and \<open>errors.Is\<close> find in it.
\<close>

subsection \<open>Types\<close>

record foundDevice =
  fd_Addr :: string
  fd_Name :: string
  fd_RSSI :: int
  fd_MAC :: string
  fd_Provisioned :: bool
  fd_Version :: int
  fd_Capacity :: int

record provisionFailure =
  pf_DeviceCode :: int
  pf_Stage :: string

record prov_error =
  er_failure :: "provisionFailure option"
  er_coded :: "int option"
  er_canceled :: bool
  er_deadline :: bool

definition StepConnecting :: string where "StepConnecting = ''connecting''"
definition StepReadingInfo :: string where "StepReadingInfo = ''reading_info''"
definition StepPairing :: string where "StepPairing = ''pairing''"
definition StepSending :: string where "StepSending = ''sending''"
definition StepApplying :: string where "StepApplying = ''applying''"

lemmas step_consts = StepConnecting_def StepReadingInfo_def StepPairing_def StepSending_def StepApplying_def

definition StageScan :: string where "StageScan = ''scan''"
definition StageConnect :: string where "StageConnect = ''connect''"
definition StagePair :: string where "StagePair = ''pair''"
definition StageTransfer :: string where "StageTransfer = ''transfer''"
definition StageApply :: string where "StageApply = ''apply''"
definition stageTimeout :: string where "stageTimeout = ''timeout''"

lemmas stage_consts = StageScan_def StageConnect_def StagePair_def StageTransfer_def StageApply_def stageTimeout_def

datatype setupPhase = SetupIdle | SetupScanning | SetupProvisioning

datatype setupRunState = RunRunning | RunApplied | RunFailed | RunCancelled

definition setupScanTimeout :: int where "setupScanTimeout = 12 * Second"
definition setupProvisionTimeout :: int where "setupProvisionTimeout = 3 * Minute"
definition setupScanTTL :: int where "setupScanTTL = 3 * Minute"
definition setupMaxFound :: nat where "setupMaxFound = 16"
definition setupMaxNameLen :: nat where "setupMaxNameLen = 40"
definition setupMaxSteps :: nat where "setupMaxSteps = 24"
definition setupScansPerMinute :: nat where "setupScansPerMinute = 10"
definition setupProvisionsPerMinute :: nat where "setupProvisionsPerMinute = 5"

record setupReadiness =
  rd_ProvidersReady :: nat
  rd_ProvidersTotal :: nat

record setupScan =
  sc_Found :: "foundDevice list"
  sc_Reason :: string
  sc_Next :: string
  sc_At :: int

record setupRun =
  rn_Addr :: string
  rn_Name :: string
  rn_State :: setupRunState
  rn_Step :: string
  rn_Steps :: "string list"
  rn_StepAt :: "int list"
  rn_Reason :: string
  rn_Next :: string
  rn_DeviceCode :: int
  rn_StartedAt :: int
  rn_EndedAt :: int

text \<open>\<open>su_cancel\<close> holds the generation whose context the function would cancel.\<close>

record setupState =
  su_phase :: setupPhase
  su_scan :: "setupScan option"
  su_run :: "setupRun option"
  su_gen :: int
  su_cancel :: "int option"
  su_prov :: bool
  su_scanLimit :: rateLimiter
  su_provisionLimit :: rateLimiter

definition newSetup :: "bool \<Rightarrow> setupState" where
  "newSetup prov =
     \<lparr>su_phase = SetupIdle, su_scan = None, su_run = None, su_gen = 0, su_cancel = None, su_prov = prov,
      su_scanLimit = newRateLimiter setupScansPerMinute Minute,
      su_provisionLimit = newRateLimiter setupProvisionsPerMinute Minute\<rparr>"

subsection \<open>Sentences\<close>

definition ellipsis :: string where "ellipsis = [CHR 0xE2, CHR 0x80, CHR 0xA6]"

definition setupStepText :: "string \<Rightarrow> string" where
  "setupStepText step =
     (if step = StepConnecting then ''Connecting to the device'' @ ellipsis
      else if step = StepReadingInfo then ''Reading what the device says about itself'' @ ellipsis
      else if step = StepPairing then
        ''Pairing '' @ dash @ '' if macOS asks for a passkey, the six digits are on the device's screen.''
      else if step = StepSending then ''Sending your Wi-Fi and this Mac's address to the device'' @ ellipsis
      else if step = StepApplying then ''The device is saving the settings and joining your Wi-Fi'' @ ellipsis
      else [])"

definition setupGenericReason :: string where "setupGenericReason = ''Setup did not finish.''"

definition setupGenericNext :: string where
  "setupGenericNext = ''Press the blue button on the device to wake it, then try again.''"

definition stage_reason :: "string \<Rightarrow> string" where
  "stage_reason st =
     (if st = StageScan then ''This Mac could not scan for devices.''
      else if st = StageConnect then ''Could not connect to the device.''
      else if st = StagePair then ''Pairing did not complete.''
      else if st = StageTransfer then ''The settings did not reach the device.''
      else if st = StageApply then ''The device took the settings but never confirmed it applied them.''
      else if st = stageTimeout then ''Setup ran out of time.''
      else setupGenericReason)"

definition provisionReason :: "provisionFailure \<Rightarrow> string" where
  "provisionReason f = (let c = pf_DeviceCode f in
     if c = 0 then stage_reason (pf_Stage f)
     else if c \<in> {3, 14} then
       ''This device's firmware is older than usaged and does not understand the settings it was sent.''
     else if c \<in> {5, 17} then ''The settings did not fit this device.''
     else if c \<in> {16, 21, 22} then ''This Mac is not on a Wi-Fi network it can share with the device.''
     else if c = 18 then ''Your network name or password contains a character the device cannot store.''
     else if c = 19 then
       ''Your Wi-Fi password is shorter than 8 characters, which the device's radio refuses outright.''
     else if c = 23 then ''The device could not save the settings to its own storage.''
     else if c = 24 then
       ''The device could not join your Wi-Fi '' @ dash @ '' the password was wrong, or the device is too far from the router.''
     else if c \<in> {6, 8, 10, 12} then ''The settings did not arrive intact.''
     else ''usaged sent something this device refused. That is a bug in usaged, not in your network.'')"

definition stage_next :: "string \<Rightarrow> string" where
  "stage_next st =
     (if st = StageScan then ''Turn Bluetooth on in System Settings, then look again.''
      else if st = StageConnect then
        ''Press the blue button to wake the device, keep it within a few metres of this Mac, and try again.''
      else if st = StagePair then
        ''Try again. macOS asks for a 6-digit passkey and those digits are on the device's screen '' @ dash @ '' type them exactly.''
      else if st = StageTransfer then
        ''Try again '' @ dash @ '' setup starts over from the beginning, which is normal and takes a few seconds.''
      else if st = StageApply then ''Look at the device screen: it will say whether it joined. Then try again.''
      else if st = stageTimeout then
        ''Press the blue button to wake the device and try again, and answer the macOS passkey prompt when it appears.''
      else setupGenericNext)"

definition provisionNext :: "provisionFailure \<Rightarrow> string" where
  "provisionNext f = (let c = pf_DeviceCode f in
     if c = 0 then stage_next (pf_Stage f)
     else if c \<in> {3, 14} then ''Update the device's firmware, then set it up again.''
     else if c \<in> {16, 21, 22} then ''Join this Mac to the Wi-Fi network you want the device on, then look again.''
     else if c = 18 then ''Check the network name and password on this Mac for stray characters, then try again.''
     else if c = 19 then ''The device needs a network whose password is 8 characters or longer, or an open network.''
     else if c = 23 then ''Try again. If it keeps failing, the device's storage is faulty and it needs re-flashing.''
     else if c = 24 then
       ''Check that this Mac is on the network you want the device on, move the device closer to the router, and try again.''
     else if c \<in> {6, 8, 10, 12} then ''Try again '' @ dash @ '' setup starts over from the beginning, which is normal.''
     else ''Nothing on your network needs changing. Please report this, with the code above.'')"

subsection \<open>What the radio says is cleaned\<close>

text \<open>\<open>for _, r := range\<close> reads an invalid byte as U+FFFD, which \<open>WriteRune\<close> writes in three bytes.\<close>

definition rune_bytes :: "string \<Rightarrow> string" where
  "rune_bytes s = (if rune_size s = 1 \<and> 0x80 \<le> (of_char (hd s) :: nat) then [CHR 0xEF, CHR 0xBF, CHR 0xBD] else take (rune_size s) s)"

definition control_rune :: "string \<Rightarrow> bool" where
  "control_rune s \<longleftrightarrow> (of_char (hd s) :: nat) < 0x20 \<or> (of_char (hd s) :: nat) = 0x7F"

function clean_runes :: "nat \<Rightarrow> nat \<Rightarrow> string \<Rightarrow> string" where
  "clean_runes mx n s =
     (if s = [] then []
      else if control_rune s then clean_runes mx n (drop (rune_size s) s)
      else if n + length (rune_bytes s) > mx then []
      else rune_bytes s @ clean_runes mx (n + length (rune_bytes s)) (drop (rune_size s) s))"
  by pat_completeness auto
termination
  by (relation "measure (\<lambda>(mx, n, s). length s)") (auto simp: rune_size_pos)

declare clean_runes.simps [simp del]

definition netcfgClean :: "string \<Rightarrow> nat \<Rightarrow> string" where
  "netcfgClean s mx = clean_runes mx 0 (trim_space s)"

definition cleaned :: "foundDevice \<Rightarrow> foundDevice" where
  "cleaned d = d\<lparr>fd_Addr := sanitizePairID (fd_Addr d), fd_Name := netcfgClean (fd_Name d) setupMaxNameLen,
     fd_MAC := sanitizePairID (fd_MAC d)\<rparr>"

fun clean_devices :: "string list \<Rightarrow> nat \<Rightarrow> foundDevice list \<Rightarrow> foundDevice list" where
  "clean_devices seen n [] = []"
| "clean_devices seen n (d # ds) =
     (let addr = sanitizePairID (fd_Addr d) in
      if addr = [] \<or> addr \<in> set seen then clean_devices seen n ds
      else cleaned d # (if n = 1 then [] else clean_devices (addr # seen) (n - 1) ds))"

definition device_before :: "foundDevice \<Rightarrow> foundDevice \<Rightarrow> bool" where
  "device_before a b =
     (if fd_Provisioned a \<noteq> fd_Provisioned b then \<not> fd_Provisioned a
      else if fd_RSSI a \<noteq> fd_RSSI b then fd_RSSI a > fd_RSSI b
      else fd_Addr a < fd_Addr b)"

definition cleanFound :: "foundDevice list \<Rightarrow> foundDevice list" where
  "cleanFound ds = slice_stable device_before (clean_devices [] setupMaxFound ds)"

definition candidates :: "foundDevice list \<Rightarrow> foundDevice list" where
  "candidates ds = filter (\<lambda>d. \<not> fd_Provisioned d) ds"

definition classifyFailure :: "prov_error \<Rightarrow> string \<Rightarrow> provisionFailure" where
  "classifyFailure e fallback =
     (case er_failure e of
        Some f \<Rightarrow> f
      | None \<Rightarrow>
        (case er_coded e of
           Some c \<Rightarrow> \<lparr>pf_DeviceCode = c, pf_Stage = fallback\<rparr>
         | None \<Rightarrow> \<lparr>pf_DeviceCode = 0, pf_Stage = (if er_deadline e then stageTimeout else fallback)\<rparr>))"

subsection \<open>The view\<close>

definition setupNotice :: string where
  "setupNotice = ''Set this Mac up first. usaged must be running and your AI providers '' @
     ''configured here BEFORE you set the stick up '' @ dash @ '' the stick is a mirror: it only ever '' @
     ''shows what this Mac already reports.''"

definition setupPasskeyNotice :: string where
  "setupPasskeyNotice = ''If macOS asks for a 6-digit passkey, those six digits are on the '' @
     ''device's own screen. Type them exactly; nothing has to be typed anywhere else.''"

definition setupUnavailableText :: string where
  "setupUnavailableText = ''Bluetooth setup is not available in this build of usaged.''"

definition setupOfferHeadline :: string where
  "setupOfferHeadline = ''New StickS3 found '' @ dash @ '' set it up?''"

definition setup_stale :: "int \<Rightarrow> setupState \<Rightarrow> bool" where
  "setup_stale now s = (case su_scan s of None \<Rightarrow> True | Some sc \<Rightarrow> time_sub now (sc_At sc) > setupScanTTL)"

definition setup_device :: "string \<Rightarrow> setupState \<Rightarrow> foundDevice option" where
  "setup_device addr s = (case su_scan s of None \<Rightarrow> None | Some sc \<Rightarrow> List.find (\<lambda>d. fd_Addr d = addr) (sc_Found sc))"

definition setup_offer :: "int \<Rightarrow> setupState \<Rightarrow> foundDevice option" where
  "setup_offer now s =
     (if su_phase s \<noteq> SetupIdle \<or> setup_stale now s then None
      else (case candidates (sc_Found (the (su_scan s))) of [] \<Rightarrow> None | d # _ \<Rightarrow> Some d))"

definition setup_headline :: "int \<Rightarrow> setupState \<Rightarrow> string" where
  "setup_headline now s =
     (if \<not> su_prov s then setupUnavailableText
      else (case su_phase s of
        SetupScanning \<Rightarrow> ''Looking for a StickS3 nearby'' @ ellipsis
      | SetupProvisioning \<Rightarrow>
          (case su_run s of
             Some r \<Rightarrow> if rn_Name r \<noteq> [] then ''Setting up '' @ rn_Name r @ ellipsis else ''Setting the device up'' @ ellipsis
           | None \<Rightarrow> ''Setting the device up'' @ ellipsis)
      | SetupIdle \<Rightarrow>
          (case su_scan s of
             None \<Rightarrow> ''Press the blue button on a new StickS3 so it wakes up, then look for it.''
           | Some sc \<Rightarrow>
               if sc_Reason sc \<noteq> [] then sc_Reason sc
               else if setup_stale now s then
                 ''That scan is a few minutes old '' @ dash @ '' look again before setting a device up.''
               else (let c = candidates (sc_Found sc) in
                 if length c = 1 then setupOfferHeadline
                 else if length c > 1 then
                   ''More than one new StickS3 is nearby '' @ dash @ '' pick the one you are holding.''
                 else if sc_Found sc \<noteq> [] then
                   ''The StickS3 nearby is already set up. Hold its blue button to let it be set up again.''
                 else ''No new StickS3 nearby. Press the blue button on the device and look again.''))))"

definition run_message :: "setupRun \<Rightarrow> string" where
  "run_message r =
     (case rn_State r of
        RunRunning \<Rightarrow> (if setupStepText (rn_Step r) \<noteq> [] then setupStepText (rn_Step r) else ''Setting the device up'' @ ellipsis)
      | RunApplied \<Rightarrow> ''Done. The device joined your Wi-Fi, has a token of its own, and is '' @ ''fetching from this Mac now.''
      | RunCancelled \<Rightarrow> ''Stopped. The device was left as it was; you can set it up again.''
      | RunFailed \<Rightarrow> rn_Reason r)"

definition run_elapsed :: "int \<Rightarrow> setupRun \<Rightarrow> int" where
  "run_elapsed now r =
     (let d = time_sub (if is_zero (rn_EndedAt r) then now else rn_EndedAt r) (rn_StartedAt r) in
      if d < 0 then 0 else quot d Second)"

record scan_view =
  vs_at :: int
  vs_seconds_since :: int
  vs_stale :: bool
  vs_found :: "(foundDevice \<times> string option \<times> (int \<times> int) option) list"
  vs_candidates :: nat
  vs_error :: "(string \<times> string) option"

definition device_entry :: "foundDevice \<Rightarrow> foundDevice \<times> string option \<times> (int \<times> int) option" where
  "device_entry d =
     (d, if fd_MAC d \<noteq> [] then Some (fd_MAC d) else None,
      if fd_Capacity d > 0 then Some (fd_Version d, fd_Capacity d) else None)"

definition scan_view_of :: "int \<Rightarrow> setupState \<Rightarrow> scan_view option" where
  "scan_view_of now s = map_option (\<lambda>sc.
     \<lparr>vs_at = to_unix (sc_At sc), vs_seconds_since = trunc (duration_seconds (time_sub now (sc_At sc))),
      vs_stale = setup_stale now s, vs_found = map device_entry (sc_Found sc),
      vs_candidates = length (candidates (sc_Found sc)),
      vs_error = (if sc_Reason sc \<noteq> [] then Some (sc_Reason sc, sc_Next sc) else None)\<rparr>) (su_scan s)"

record run_view =
  vr_addr :: string
  vr_name :: string
  vr_state :: setupRunState
  vr_started_at :: int
  vr_elapsed_sec :: int
  vr_message :: string
  vr_steps :: "(string \<times> string \<times> int option) list"
  vr_step :: "(string \<times> string) option"
  vr_finished_at :: "int option"
  vr_error :: "(string \<times> string \<times> int option) option"

definition run_view_of :: "int \<Rightarrow> setupRun \<Rightarrow> run_view" where
  "run_view_of now r =
     \<lparr>vr_addr = rn_Addr r, vr_name = rn_Name r, vr_state = rn_State r, vr_started_at = to_unix (rn_StartedAt r),
      vr_elapsed_sec = run_elapsed now r, vr_message = run_message r,
      vr_steps = map (\<lambda>(i, st). (st, setupStepText st,
        if i < length (rn_StepAt r) then Some (to_unix (rn_StepAt r ! i)) else None)) (enumerate 0 (rn_Steps r)),
      vr_step = (if rn_Step r \<noteq> [] then Some (rn_Step r, setupStepText (rn_Step r)) else None),
      vr_finished_at = (if is_zero (rn_EndedAt r) then None else Some (to_unix (rn_EndedAt r))),
      vr_error = (if rn_State r = RunFailed
        then Some (rn_Reason r, rn_Next r, if rn_DeviceCode r > 0 then Some (rn_DeviceCode r) else None) else None)\<rparr>"

record status_view =
  vw_available :: bool
  vw_state :: setupPhase
  vw_headline :: string
  vw_scan_ttl_sec :: int
  vw_scan_timeout_sec :: int
  vw_provision_timeout_sec :: int
  vw_providers_ready :: nat
  vw_providers_total :: nat
  vw_ready :: bool
  vw_scan :: "scan_view option"
  vw_run :: "run_view option"
  vw_offer :: "(string \<times> string \<times> string) option"

definition whole_seconds :: "int \<Rightarrow> int" where
  "whole_seconds d = trunc (duration_seconds d)"

definition status_view_of :: "setupReadiness \<Rightarrow> int \<Rightarrow> setupState \<Rightarrow> status_view" where
  "status_view_of ready now s =
     \<lparr>vw_available = su_prov s, vw_state = su_phase s, vw_headline = setup_headline now s,
      vw_scan_ttl_sec = whole_seconds setupScanTTL, vw_scan_timeout_sec = whole_seconds setupScanTimeout,
      vw_provision_timeout_sec = whole_seconds setupProvisionTimeout,
      vw_providers_ready = rd_ProvidersReady ready, vw_providers_total = rd_ProvidersTotal ready,
      vw_ready = (rd_ProvidersReady ready > 0), vw_scan = scan_view_of now s,
      vw_run = map_option (run_view_of now) (su_run s),
      vw_offer = map_option (\<lambda>d. (fd_Addr d, fd_Name d, setupOfferHeadline)) (setup_offer now s)\<rparr>"

text \<open>The network of the Mac is shown when the provisioner can tell it and it is not empty.\<close>

definition setup_status :: "setupReadiness \<Rightarrow> (string \<times> bool) option \<Rightarrow> int \<Rightarrow> setupState \<Rightarrow> status_view \<times> (string \<times> bool) option" where
  "setup_status ready net now s =
     (status_view_of ready now s,
      (case net of Some (ssid, confident) \<Rightarrow> if ssid \<noteq> [] then Some (ssid, confident) else None | None \<Rightarrow> None))"

text \<open>\<open>providerReadiness\<close>: a provider counts once for each of its blocks in the snapshot.\<close>

definition providerReadiness :: "config \<Rightarrow> snapshot \<Rightarrow> setupReadiness" where
  "providerReadiness cfg snap =
     (let enabled = map ep_ID (filter ep_Enabled (EffectiveProviders cfg)) in
      \<lparr>rd_ProvidersReady = length (filter (\<lambda>p. prov_ID p \<in> set enabled \<and> (prov_Status p = ''ok'' \<or> prov_Status p = ''stale''))
         (snap_Providers snap)),
       rd_ProvidersTotal = length enabled\<rparr>)"

end
