(* ===== verification/Api_Setup_Run.thy ===== *)
theory Api_Setup_Run
  imports Api_Setup
begin

text \<open>
  internal/api/setup.go: the handlers, the goroutines they start and the channel as a transition system.
  The mutex makes each handler, each report and each end of a goroutine one step.
\<close>

subsection \<open>Handlers\<close>

text \<open>A goroutine: its generation, and the address it provisions (\<open>None\<close> for a scan).\<close>

record job =
  jb_gen :: int
  jb_addr :: "string option"

datatype setup_reply =
    SetupUnavailable
  | SetupRateLimited
  | SetupBadBody
  | SetupBadAddr
  | SetupBusy setupPhase
  | NoRecentScan setupPhase
  | NotInScan setupPhase
  | NothingRunning setupPhase
  | SetupAccepted status_view
  | SetupStopped status_view

definition setup_status_code :: "setup_reply \<Rightarrow> nat" where
  "setup_status_code r = (case r of
       SetupUnavailable \<Rightarrow> 503 | SetupRateLimited \<Rightarrow> 429 | SetupBadBody \<Rightarrow> 400 | SetupBadAddr \<Rightarrow> 400
     | SetupAccepted _ \<Rightarrow> 202 | SetupStopped _ \<Rightarrow> 200 | _ \<Rightarrow> 409)"

definition start_scan :: "setupState \<Rightarrow> setupState" where
  "start_scan s = s\<lparr>su_phase := SetupScanning, su_cancel := Some (su_gen s + 1), su_gen := su_gen s + 1\<rparr>"

definition handleScan :: "setupReadiness \<Rightarrow> int \<Rightarrow> setupState \<Rightarrow> setupState \<times> setup_reply \<times> job option" where
  "handleScan ready now s =
     (if \<not> su_prov s then (s, SetupUnavailable, None)
      else (case allow now (su_scanLimit s) of (rl, ok) \<Rightarrow>
        (let s = s\<lparr>su_scanLimit := rl\<rparr> in
         if \<not> ok then (s, SetupRateLimited, None)
         else if su_phase s \<noteq> SetupIdle then (s, SetupBusy (su_phase s), None)
         else (let s = start_scan s in
           (s, SetupAccepted (status_view_of ready now s), Some \<lparr>jb_gen = su_gen s, jb_addr = None\<rparr>)))))"

definition pairMaxBodyBytes :: nat where "pairMaxBodyBytes = 4096"

text \<open>The body cut at its limit; reading it can fail.  The decoder gives \<open>addr\<close>, empty when there is none.\<close>

definition decodeSetupBody :: "(string \<Rightarrow> string option) \<Rightarrow> string option \<Rightarrow> string option" where
  "decodeSetupBody dec raw = (case raw of
       None \<Rightarrow> None
     | Some b \<Rightarrow> if take pairMaxBodyBytes b = [] then Some [] else dec (take pairMaxBodyBytes b))"

definition new_run :: "int \<Rightarrow> foundDevice \<Rightarrow> setupRun" where
  "new_run now d =
     \<lparr>rn_Addr = fd_Addr d, rn_Name = fd_Name d, rn_State = RunRunning, rn_Step = [], rn_Steps = [], rn_StepAt = [],
      rn_Reason = [], rn_Next = [], rn_DeviceCode = 0, rn_StartedAt = now, rn_EndedAt = zero_time\<rparr>"

definition start_run :: "int \<Rightarrow> foundDevice \<Rightarrow> setupState \<Rightarrow> setupState" where
  "start_run now d s =
     s\<lparr>su_phase := SetupProvisioning, su_cancel := Some (su_gen s + 1), su_gen := su_gen s + 1, su_run := Some (new_run now d)\<rparr>"

definition handleProvision ::
  "(string \<Rightarrow> string option) \<Rightarrow> setupReadiness \<Rightarrow> int \<Rightarrow> string option \<Rightarrow> setupState \<Rightarrow> setupState \<times> setup_reply \<times> job option" where
  "handleProvision dec ready now raw s =
     (if \<not> su_prov s then (s, SetupUnavailable, None)
      else (case allow now (su_provisionLimit s) of (rl, ok) \<Rightarrow>
        (let s = s\<lparr>su_provisionLimit := rl\<rparr> in
         if \<not> ok then (s, SetupRateLimited, None)
         else (case decodeSetupBody dec raw of
           None \<Rightarrow> (s, SetupBadBody, None)
         | Some body \<Rightarrow>
           (let addr = sanitizePairID body in
            if addr = [] then (s, SetupBadAddr, None)
            else if su_phase s \<noteq> SetupIdle then (s, SetupBusy (su_phase s), None)
            else if su_scan s = None \<or> setup_stale now s then (s, NoRecentScan (su_phase s), None)
            else (case setup_device addr s of
              None \<Rightarrow> (s, NotInScan (su_phase s), None)
            | Some d \<Rightarrow>
                (let s = start_run now d s in
                 (s, SetupAccepted (status_view_of ready now s), Some \<lparr>jb_gen = su_gen s, jb_addr = Some (fd_Addr d)\<rparr>))))))))"

definition handleStop :: "setupReadiness \<Rightarrow> int \<Rightarrow> setupState \<Rightarrow> setupState \<times> setup_reply" where
  "handleStop ready now s =
     (if su_phase s = SetupIdle \<or> su_cancel s = None then (s, NothingRunning (su_phase s))
      else
        (let run = (if su_phase s = SetupProvisioning
               then map_option (\<lambda>r. if rn_State r = RunRunning then r\<lparr>rn_State := RunCancelled, rn_EndedAt := now\<rparr> else r) (su_run s)
               else su_run s);
             s = s\<lparr>su_cancel := None, su_phase := SetupIdle, su_gen := su_gen s + 1, su_run := run\<rparr> in
         (s, SetupStopped (status_view_of ready now s))))"

subsection \<open>Goroutines\<close>

definition runScan :: "int \<Rightarrow> int \<Rightarrow> prov_error + foundDevice list \<Rightarrow> setupState \<Rightarrow> setupState" where
  "runScan now gen res s =
     (if su_gen s \<noteq> gen then s
      else
        (let s = s\<lparr>su_phase := SetupIdle, su_cancel := None\<rparr> in
         (case res of
            Inl e \<Rightarrow> (let f = classifyFailure e StageScan in
              s\<lparr>su_scan := Some \<lparr>sc_Found = [], sc_Reason = provisionReason f, sc_Next = provisionNext f, sc_At = now\<rparr>\<rparr>)
          | Inr found \<Rightarrow>
              s\<lparr>su_scan := Some \<lparr>sc_Found = cleanFound found, sc_Reason = [], sc_Next = [], sc_At = now\<rparr>\<rparr>)))"

text \<open>What a call of the provisioner does: it returns, or it panics and the panic becomes an error.\<close>

datatype prov_result = ProvOk | ProvErr prov_error | ProvPanic

definition failure_error :: "provisionFailure \<Rightarrow> prov_error" where
  "failure_error f = \<lparr>er_failure = Some f, er_coded = None, er_canceled = False, er_deadline = False\<rparr>"

definition callProvisioner :: "prov_result \<Rightarrow> prov_error option" where
  "callProvisioner r = (case r of
       ProvOk \<Rightarrow> None | ProvErr e \<Rightarrow> Some e | ProvPanic \<Rightarrow> Some (failure_error \<lparr>pf_DeviceCode = 0, pf_Stage = StageApply\<rparr>))"

definition end_run :: "int \<Rightarrow> prov_error option \<Rightarrow> setupRun \<Rightarrow> setupRun" where
  "end_run now e r =
     (case e of
        None \<Rightarrow> r\<lparr>rn_EndedAt := now, rn_State := RunApplied\<rparr>
      | Some e \<Rightarrow>
          if er_canceled e then r\<lparr>rn_EndedAt := now, rn_State := RunCancelled\<rparr>
          else (let f = classifyFailure e [] in
            r\<lparr>rn_EndedAt := now, rn_State := RunFailed, rn_Reason := provisionReason f, rn_Next := provisionNext f,
              rn_DeviceCode := pf_DeviceCode f\<rparr>))"

definition runProvision :: "int \<Rightarrow> int \<Rightarrow> prov_result \<Rightarrow> setupState \<Rightarrow> setupState" where
  "runProvision now gen res s =
     (case su_run s of
        None \<Rightarrow> s
      | Some r \<Rightarrow>
          if su_gen s \<noteq> gen then s
          else s\<lparr>su_phase := SetupIdle, su_cancel := None, su_run := Some (end_run now (callProvisioner res) r)\<rparr>)"

definition recordStep :: "int \<Rightarrow> int \<Rightarrow> string \<Rightarrow> setupState \<Rightarrow> setupState" where
  "recordStep now gen step s =
     (if setupStepText step = [] then s
      else (case su_run s of
        None \<Rightarrow> s
      | Some r \<Rightarrow>
          if su_gen s \<noteq> gen \<or> rn_State r \<noteq> RunRunning then s
          else s\<lparr>su_run := Some (r\<lparr>rn_Step := step,
            rn_Steps := (if length (rn_Steps r) < setupMaxSteps then rn_Steps r @ [step] else rn_Steps r),
            rn_StepAt := (if length (rn_Steps r) < setupMaxSteps then rn_StepAt r @ [now] else rn_StepAt r)\<rparr>)\<rparr>))"

subsection \<open>The channel as a transition system\<close>

text \<open>The channel with the goroutines that have not returned yet.\<close>

record setup_world =
  sw_setup :: setupState
  sw_jobs :: "job list"

definition setup_start :: "bool \<Rightarrow> setup_world" where
  "setup_start prov = \<lparr>sw_setup = newSetup prov, sw_jobs = []\<rparr>"

definition with_job :: "job option \<Rightarrow> job list \<Rightarrow> job list" where
  "with_job j js = (case j of None \<Rightarrow> js | Some j \<Rightarrow> j # js)"

inductive setup_step :: "setup_world \<Rightarrow> setup_world \<Rightarrow> bool" where
  scan_request:
    "handleScan ready now s = (s', rep, j) \<Longrightarrow>
     setup_step \<lparr>sw_setup = s, sw_jobs = js\<rparr> \<lparr>sw_setup = s', sw_jobs = with_job j js\<rparr>"
| provision_request:
    "handleProvision dec ready now raw s = (s', rep, j) \<Longrightarrow>
     setup_step \<lparr>sw_setup = s, sw_jobs = js\<rparr> \<lparr>sw_setup = s', sw_jobs = with_job j js\<rparr>"
| stop_request:
    "handleStop ready now s = (s', rep) \<Longrightarrow>
     setup_step \<lparr>sw_setup = s, sw_jobs = js\<rparr> \<lparr>sw_setup = s', sw_jobs = js\<rparr>"
| progress:
    "j \<in> set js \<Longrightarrow> jb_addr j \<noteq> None \<Longrightarrow>
     setup_step \<lparr>sw_setup = s, sw_jobs = js\<rparr> \<lparr>sw_setup = recordStep now (jb_gen j) step s, sw_jobs = js\<rparr>"
| scan_ends:
    "j \<in> set js \<Longrightarrow> jb_addr j = None \<Longrightarrow>
     setup_step \<lparr>sw_setup = s, sw_jobs = js\<rparr> \<lparr>sw_setup = runScan now (jb_gen j) res s, sw_jobs = remove1 j js\<rparr>"
| run_ends:
    "j \<in> set js \<Longrightarrow> jb_addr j \<noteq> None \<Longrightarrow>
     setup_step \<lparr>sw_setup = s, sw_jobs = js\<rparr> \<lparr>sw_setup = runProvision now (jb_gen j) out s, sw_jobs = remove1 j js\<rparr>"

inductive_cases setup_stepE: "setup_step v w"

abbreviation setup_reaches :: "setup_world \<Rightarrow> setup_world \<Rightarrow> bool" where
  "setup_reaches \<equiv> setup_step\<^sup>*\<^sup>*"

text \<open>The handlers with the limiter out of the way.\<close>

lemma handleScan_cases:
  assumes "handleScan ready now s = (s', rep, j)"
  obtains (refused) rl where "s' = s\<lparr>su_scanLimit := rl\<rparr>" and "j = None"
  | (started) rl where "su_phase s = SetupIdle" and "s' = start_scan (s\<lparr>su_scanLimit := rl\<rparr>)"
      and "j = Some \<lparr>jb_gen = su_gen s + 1, jb_addr = None\<rparr>"
proof (cases "su_prov s")
  case False
  then have "s' = s\<lparr>su_scanLimit := su_scanLimit s\<rparr>" "j = None" using assms by (simp_all add: handleScan_def)
  then show ?thesis by (rule refused)
next
  case True
  obtain rl ok where a: "allow now (su_scanLimit s) = (rl, ok)" by (cases "allow now (su_scanLimit s)")
  let ?t = "s\<lparr>su_scanLimit := rl\<rparr>"
  show ?thesis
  proof (cases "ok \<and> su_phase s = SetupIdle")
    case True
    then have "s' = start_scan ?t" "j = Some \<lparr>jb_gen = su_gen s + 1, jb_addr = None\<rparr>"
      using assms \<open>su_prov s\<close> a by (auto simp: handleScan_def Let_def start_scan_def)
    then show ?thesis using started True by blast
  next
    case False
    then have "s' = ?t" "j = None" using assms \<open>su_prov s\<close> a by (auto simp: handleScan_def Let_def split: if_splits)
    then show ?thesis by (rule refused)
  qed
qed

lemma handleProvision_cases:
  assumes "handleProvision dec ready now raw s = (s', rep, j)"
  obtains (refused) rl where "s' = s\<lparr>su_provisionLimit := rl\<rparr>" and "j = None"
  | (started) rl d sc where "su_phase s = SetupIdle" and "su_scan s = Some sc" and "time_sub now (sc_At sc) \<le> setupScanTTL"
      and "d \<in> set (sc_Found sc)" and "s' = start_run now d (s\<lparr>su_provisionLimit := rl\<rparr>)"
      and "j = Some \<lparr>jb_gen = su_gen s + 1, jb_addr = Some (fd_Addr d)\<rparr>"
proof (cases "su_prov s")
  case False
  then have "s' = s\<lparr>su_provisionLimit := su_provisionLimit s\<rparr>" "j = None" using assms by (simp_all add: handleProvision_def)
  then show ?thesis by (rule refused)
next
  case True
  obtain rl ok where a: "allow now (su_provisionLimit s) = (rl, ok)" by (cases "allow now (su_provisionLimit s)")
  let ?t = "s\<lparr>su_provisionLimit := rl\<rparr>"
  have t: "su_phase ?t = su_phase s" "su_scan ?t = su_scan s" "su_gen ?t = su_gen s" "setup_stale now ?t = setup_stale now s"
    "setup_device a ?t = setup_device a s" for a
    by (simp_all add: setup_stale_def setup_device_def)
  show ?thesis
  proof (cases j)
    case None
    have "s' = ?t"
      using assms \<open>su_prov s\<close> a None unfolding handleProvision_def Let_def
      by (auto split: if_splits option.splits)
    then show ?thesis using None by (rule refused)
  next
    case (Some i)
    obtain body d where p: "su_phase s = SetupIdle" "su_scan s \<noteq> None" "\<not> setup_stale now s"
        "setup_device (sanitizePairID body) s = Some d" "s' = start_run now d ?t"
        "i = \<lparr>jb_gen = su_gen (start_run now d ?t), jb_addr = Some (fd_Addr d)\<rparr>"
      using assms \<open>su_prov s\<close> a Some unfolding handleProvision_def Let_def
      by (auto simp: t split: if_splits option.splits)
    obtain sc where sc: "su_scan s = Some sc" using p(2) by auto
    have "List.find (\<lambda>d. fd_Addr d = sanitizePairID body) (sc_Found sc) = Some d"
      using p(4) sc by (simp add: setup_device_def)
    then have "d \<in> set (sc_Found sc)" by (auto simp: find_Some_iff)
    moreover have "j = Some \<lparr>jb_gen = su_gen s + 1, jb_addr = Some (fd_Addr d)\<rparr>"
      using Some p(6) by (simp add: start_run_def)
    ultimately show ?thesis
      using started [of sc d rl] p sc by (simp add: setup_stale_def)
  qed
qed

end
