(* ===== verification/Api_Setup_Facts.thy ===== *)
theory Api_Setup_Facts
  imports Api_Setup_Run
begin

text \<open>
  The setup channel: its invariant, one operation at a time, its return to idle, and what a stopped run
  says of the device.
\<close>

subsection \<open>What is put on the page\<close>

definition control_char :: "char \<Rightarrow> bool" where
  "control_char c \<longleftrightarrow> (of_char c :: nat) < 0x20 \<or> (of_char c :: nat) = 0x7F"

lemma wide_rune_nat:
  assumes "rune_size_nat bs > 1" and "b \<in> set (take (rune_size_nat bs) bs)"
  shows "0x80 \<le> b"
proof (cases bs)
  case (Cons b0 r)
  note bs = this
  show ?thesis
  proof (cases "0xC2 \<le> b0 \<and> b0 \<le> 0xDF")
    case True
    then show ?thesis using assms by (cases r) (auto simp: bs rune_size_nat_def cont_byte_def numeral_2_eq_2 split: if_splits)
  next
    case no2: False
    show ?thesis
    proof (cases "0xE0 \<le> b0 \<and> b0 \<le> 0xEF")
      case True
      then obtain b1 b2 q where "r = b1 # b2 # q" "rune_size_nat bs = 3" "0x80 \<le> b1" "0x80 \<le> b2"
        using assms(1) no2 by (cases r; cases "tl r") (auto simp: bs rune_size_nat_def cont_byte_def split: if_splits)
      then show ?thesis using assms(2) True by (auto simp: bs numeral_3_eq_3)
    next
      case no3: False
      then obtain b1 b2 b3 q where "r = b1 # b2 # b3 # q" "rune_size_nat bs = 4" "0x80 \<le> b1" "0x80 \<le> b2" "0x80 \<le> b3" "0x80 \<le> b0"
        using assms(1) no2
        by (cases r; cases "tl r"; cases "tl (tl r)") (auto simp: bs rune_size_nat_def cont_byte_def split: if_splits)
      then show ?thesis using assms(2) by (auto simp: bs take_Cons')
    qed
  qed
qed (use assms in simp)

lemma rune_size_le_4: "rune_size s \<le> 4"
  by (auto simp: rune_size_def rune_size_nat_def split: list.splits)

lemma wide_rune_bytes:
  assumes "rune_size s > 1" and "c \<in> set (take (rune_size s) s)"
  shows "0x80 \<le> (of_char c :: nat)"
proof (rule wide_rune_nat)
  have "take (rune_size s) s = take (rune_size s) (take 4 s)"
    using rune_size_le_4 [of s] by (simp add: min_absorb1)
  then show "(of_char c :: nat) \<in> set (take (rune_size_nat (map of_char (take 4 s))) (map of_char (take 4 s)))"
    using assms(2) by (simp add: take_map rune_size_def)
qed (use assms(1) in \<open>simp add: rune_size_def\<close>)

lemma rune_bytes_no_control:
  assumes "s \<noteq> []" and "\<not> control_rune s"
  shows "\<forall>c \<in> set (rune_bytes s). \<not> control_char c"
proof (cases "rune_size s > 1")
  case True
  then show ?thesis
    using wide_rune_bytes [OF True] by (force simp: rune_bytes_def control_char_def)
next
  case False
  then have "rune_size s = 1" using rune_size_pos [OF assms(1)] by simp
  then show ?thesis
    using assms by (cases s) (auto simp: rune_bytes_def control_rune_def control_char_def)
qed

lemma clean_runes_ok:
  "n \<le> mx \<Longrightarrow> n + length (clean_runes mx n s) \<le> mx \<and> (\<forall>c \<in> set (clean_runes mx n s). \<not> control_char c)"
proof (induction mx n s rule: clean_runes.induct)
  case (1 mx n s)
  show ?case
    using 1 rune_bytes_no_control [of s] by (subst (1 2) clean_runes.simps) auto
qed

lemma netcfgClean_ok: "length (netcfgClean s mx) \<le> mx \<and> (\<forall>c \<in> set (netcfgClean s mx). \<not> control_char c)"
  using clean_runes_ok [of 0 mx "trim_space s"] by (simp add: netcfgClean_def)

definition device_ok :: "foundDevice \<Rightarrow> bool" where
  "device_ok d \<longleftrightarrow> fd_Addr d \<noteq> [] \<and> length (fd_Addr d) \<le> pairMaxIDLen \<and> list_all pair_id_char (fd_Addr d) \<and>
     length (fd_Name d) \<le> setupMaxNameLen \<and> (\<forall>c \<in> set (fd_Name d). \<not> control_char c)"

definition found_ok :: "foundDevice list \<Rightarrow> bool" where
  "found_ok ds \<longleftrightarrow> length ds \<le> setupMaxFound \<and> distinct (map fd_Addr ds) \<and> list_all device_ok ds \<and>
     sorted_wrt (\<lambda>a b. \<not> device_before b a) ds"

lemma cleaned_ok: "sanitizePairID (fd_Addr d) \<noteq> [] \<Longrightarrow> device_ok (cleaned d)"
  using netcfgClean_ok [of "fd_Name d" setupMaxNameLen]
  by (auto simp: device_ok_def cleaned_def sanitizePairID_def Let_def split: if_splits)

lemma clean_devices_ok:
  "0 < n \<Longrightarrow> length (clean_devices seen n ds) \<le> n \<and> list_all device_ok (clean_devices seen n ds) \<and>
     distinct (map fd_Addr (clean_devices seen n ds)) \<and> set (map fd_Addr (clean_devices seen n ds)) \<inter> set seen = {}"
proof (induction seen n ds rule: clean_devices.induct)
  case (2 seen n d ds)
  let ?a = "sanitizePairID (fd_Addr d)"
  show ?case
  proof (cases "?a = [] \<or> ?a \<in> set seen")
    case True
    then show ?thesis using 2 by (simp add: Let_def)
  next
    case False
    then have "device_ok (cleaned d)" "fd_Addr (cleaned d) = ?a" by (simp_all add: cleaned_ok) (simp add: cleaned_def)
    moreover have "n \<noteq> 1 \<Longrightarrow> length (clean_devices (?a # seen) (n - 1) ds) \<le> n - 1 \<and>
        list_all device_ok (clean_devices (?a # seen) (n - 1) ds) \<and>
        distinct (map fd_Addr (clean_devices (?a # seen) (n - 1) ds)) \<and>
        set (map fd_Addr (clean_devices (?a # seen) (n - 1) ds)) \<inter> set (?a # seen) = {}"
      using 2(2) [OF refl False] 2(3) by simp
    ultimately show ?thesis using False 2(3) by (auto simp: Let_def)
  qed
qed simp

interpretation device_order: strict_weak_order device_before
  by unfold_locales (auto simp: device_before_def split: if_splits)

lemma found_ok_cleanFound: "found_ok (cleanFound ds)"
proof -
  let ?c = "clean_devices [] setupMaxFound ds"
  have c: "length ?c \<le> setupMaxFound" "list_all device_ok ?c" "distinct (map fd_Addr ?c)"
    using clean_devices_ok [of setupMaxFound "[]" ds] by (simp_all add: setupMaxFound_def)
  have "distinct (map fd_Addr (cleanFound ds))"
    unfolding cleanFound_def by (rule distinct_map_mset_eq [OF _ c(3)]) simp
  moreover have "sorted_wrt (\<lambda>a b. \<not> device_before b a) (cleanFound ds)"
    using device_order.in_order_slice_stable [of ?c] by (simp add: cleanFound_def device_order.in_order_def)
  ultimately show ?thesis
    using c(1,2) by (simp add: found_ok_def cleanFound_def list_all_iff)
qed

definition run_ok :: "setupRun \<Rightarrow> bool" where
  "run_ok r \<longleftrightarrow> list_all (\<lambda>st. setupStepText st \<noteq> []) (rn_Steps r) \<and> length (rn_StepAt r) = length (rn_Steps r) \<and>
     length (rn_Steps r) \<le> setupMaxSteps \<and>
     (rn_State r = RunFailed \<longrightarrow>
       (\<exists>f. rn_Reason r = provisionReason f \<and> rn_Next r = provisionNext f \<and> rn_DeviceCode r = pf_DeviceCode f))"

definition scan_ok :: "setupScan \<Rightarrow> bool" where
  "scan_ok sc \<longleftrightarrow> found_ok (sc_Found sc) \<and>
     (sc_Reason sc = [] \<or> sc_Found sc = [] \<and> (\<exists>f. sc_Reason sc = provisionReason f \<and> sc_Next sc = provisionNext f))"

subsection \<open>The invariant\<close>

definition one_operation :: "setup_world \<Rightarrow> bool" where
  "one_operation w \<longleftrightarrow>
     distinct (map jb_gen (sw_jobs w)) \<and> (\<forall>j \<in> set (sw_jobs w). jb_gen j \<le> su_gen (sw_setup w)) \<and>
     (case su_phase (sw_setup w) of
        SetupIdle \<Rightarrow> su_cancel (sw_setup w) = None \<and> (\<forall>j \<in> set (sw_jobs w). jb_gen j \<noteq> su_gen (sw_setup w)) \<and>
          (\<forall>r. su_run (sw_setup w) = Some r \<longrightarrow> rn_State r \<noteq> RunRunning)
      | SetupScanning \<Rightarrow> su_cancel (sw_setup w) = Some (su_gen (sw_setup w)) \<and>
          \<lparr>jb_gen = su_gen (sw_setup w), jb_addr = None\<rparr> \<in> set (sw_jobs w) \<and>
          (\<forall>r. su_run (sw_setup w) = Some r \<longrightarrow> rn_State r \<noteq> RunRunning)
      | SetupProvisioning \<Rightarrow> su_cancel (sw_setup w) = Some (su_gen (sw_setup w)) \<and>
          (\<exists>r. su_run (sw_setup w) = Some r \<and> rn_State r = RunRunning \<and>
            \<lparr>jb_gen = su_gen (sw_setup w), jb_addr = Some (rn_Addr r)\<rparr> \<in> set (sw_jobs w)))"

definition world_ok :: "setup_world \<Rightarrow> bool" where
  "world_ok w \<longleftrightarrow> one_operation w \<and> pred_option scan_ok (su_scan (sw_setup w)) \<and> pred_option run_ok (su_run (sw_setup w))"

lemma world_ok_start: "world_ok (setup_start prov)"
  by (simp add: world_ok_def one_operation_def setup_start_def newSetup_def)

lemma run_ok_new [simp]: "run_ok (new_run now d)"
  by (simp add: run_ok_def new_run_def)

lemma run_ok_end: "run_ok r \<Longrightarrow> run_ok (end_run now e r)"
  by (auto simp: run_ok_def end_run_def Let_def split: option.splits)

lemma end_run_not_running: "rn_State (end_run now e r) \<noteq> RunRunning"
  by (simp add: end_run_def Let_def split: option.split)

lemma job_same_gen:
  "distinct (map jb_gen js) \<Longrightarrow> i \<in> set js \<Longrightarrow> j \<in> set js \<Longrightarrow> jb_gen i = jb_gen j \<Longrightarrow> i = j"
  by (meson distinct_map inj_onD)

lemma distinct_gen_remove1: "distinct (map jb_gen js) \<Longrightarrow> distinct (map jb_gen (remove1 j js))"
  by (metis distinct_map distinct_remove1 inj_on_subset set_remove1_subset)

lemma removed_gen:
  "distinct (map jb_gen js) \<Longrightarrow> j \<in> set js \<Longrightarrow> i \<in> set (remove1 j js) \<Longrightarrow> jb_gen i \<noteq> jb_gen j"
  by (metis Diff_iff distinct_map inj_onD insertI1 set_remove1_eq)

lemma one_operation_limits [simp]:
  "one_operation \<lparr>sw_setup = s\<lparr>su_scanLimit := rl\<rparr>, sw_jobs = js\<rparr> = one_operation \<lparr>sw_setup = s, sw_jobs = js\<rparr>"
  "one_operation \<lparr>sw_setup = s\<lparr>su_provisionLimit := rl\<rparr>, sw_jobs = js\<rparr> = one_operation \<lparr>sw_setup = s, sw_jobs = js\<rparr>"
  by (simp_all add: one_operation_def split: setupPhase.split)

text \<open>A goroutine the channel no longer listens to may return.\<close>

lemma one_operation_drop:
  assumes "one_operation \<lparr>sw_setup = s, sw_jobs = js\<rparr>" and "jb_gen j \<noteq> su_gen s"
  shows "one_operation \<lparr>sw_setup = s, sw_jobs = remove1 j js\<rparr>"
proof -
  have keep: "k \<in> set js \<Longrightarrow> jb_gen k = su_gen s \<Longrightarrow> k \<in> set (remove1 j js)" for k
    using assms(2) by (metis in_set_remove1)
  have d: "distinct (map jb_gen (remove1 j js))"
    using assms(1) by (simp add: one_operation_def distinct_gen_remove1)
  have sub: "set (remove1 j js) \<subseteq> set js" by (rule set_remove1_subset)
  have le: "\<forall>k \<in> set (remove1 j js). jb_gen k \<le> su_gen s"
    using assms(1) sub by (simp add: one_operation_def) blast
  show ?thesis
  proof (cases "su_phase s")
    case SetupIdle
    then have "\<forall>k \<in> set (remove1 j js). jb_gen k \<noteq> su_gen s"
      using assms(1) sub by (simp add: one_operation_def) blast
    then show ?thesis using assms(1) SetupIdle d le by (simp add: one_operation_def)
  next
    case SetupScanning
    then have "\<lparr>jb_gen = su_gen s, jb_addr = None\<rparr> \<in> set (remove1 j js)"
      using assms(1) by (intro keep) (simp_all add: one_operation_def)
    then show ?thesis using assms(1) SetupScanning d le by (simp add: one_operation_def)
  next
    case SetupProvisioning
    then obtain r where r: "su_run s = Some r" "\<lparr>jb_gen = su_gen s, jb_addr = Some (rn_Addr r)\<rparr> \<in> set js"
      using assms(1) by (auto simp: one_operation_def)
    then have "\<lparr>jb_gen = su_gen s, jb_addr = Some (rn_Addr r)\<rparr> \<in> set (remove1 j js)"
      by (intro keep) simp_all
    then show ?thesis using assms(1) SetupProvisioning d le r(1) by (simp add: one_operation_def)
  qed
qed

text \<open>What the goroutine the channel listens to does.\<close>

lemma current_job:
  assumes "one_operation \<lparr>sw_setup = s, sw_jobs = js\<rparr>" and "j \<in> set js" and "jb_gen j = su_gen s"
  shows "if jb_addr j = None then su_phase s = SetupScanning
    else su_phase s = SetupProvisioning \<and> (\<exists>r. su_run s = Some r \<and> rn_State r = RunRunning \<and> jb_addr j = Some (rn_Addr r))"
proof -
  have d: "distinct (map jb_gen js)" using assms(1) by (simp add: one_operation_def)
  note same = job_same_gen [OF d assms(2)]
  show ?thesis
  proof (cases "su_phase s")
    case SetupIdle
    then show ?thesis using assms by (simp add: one_operation_def)
  next
    case SetupScanning
    then have "j = \<lparr>jb_gen = su_gen s, jb_addr = None\<rparr>"
      using assms by (intro same) (simp_all add: one_operation_def)
    then show ?thesis using SetupScanning by simp
  next
    case SetupProvisioning
    then obtain r where r: "su_run s = Some r" "rn_State r = RunRunning" "\<lparr>jb_gen = su_gen s, jb_addr = Some (rn_Addr r)\<rparr> \<in> set js"
      using assms(1) by (auto simp: one_operation_def)
    then have "j = \<lparr>jb_gen = su_gen s, jb_addr = Some (rn_Addr r)\<rparr>"
      using assms by (intro same) simp_all
    then show ?thesis using SetupProvisioning r by simp
  qed
qed

lemma one_operation_idle:
  assumes "one_operation \<lparr>sw_setup = s, sw_jobs = js\<rparr>" and "j \<in> set js" and "jb_gen j = su_gen s"
    and "su_gen t = su_gen s" and "su_phase t = SetupIdle" and "su_cancel t = None"
    and "\<forall>r. su_run t = Some r \<longrightarrow> rn_State r \<noteq> RunRunning"
  shows "one_operation \<lparr>sw_setup = t, sw_jobs = remove1 j js\<rparr>"
proof -
  have d: "distinct (map jb_gen js)" "\<forall>k \<in> set js. jb_gen k \<le> su_gen s"
    using assms(1) by (simp_all add: one_operation_def)
  have "\<forall>k \<in> set (remove1 j js). jb_gen k \<noteq> su_gen s \<and> jb_gen k \<le> su_gen s"
    using removed_gen [OF d(1) assms(2)] assms(3) d(2) by (metis in_mono set_remove1_subset)
  then show ?thesis
    using distinct_gen_remove1 [OF d(1), of j] assms(4-7) by (simp add: one_operation_def)
qed

lemma one_operation_runScan:
  assumes "one_operation \<lparr>sw_setup = s, sw_jobs = js\<rparr>" and "j \<in> set js" and "jb_addr j = None"
  shows "one_operation \<lparr>sw_setup = runScan now (jb_gen j) res s, sw_jobs = remove1 j js\<rparr>"
proof (cases "su_gen s = jb_gen j")
  case False
  then show ?thesis using one_operation_drop [OF assms(1), of j] by (simp add: runScan_def)
next
  case True
  then have "su_phase s = SetupScanning" using current_job [OF assms(1,2)] assms(3) by simp
  then have "\<forall>r. su_run s = Some r \<longrightarrow> rn_State r \<noteq> RunRunning" using assms(1) by (simp add: one_operation_def)
  then show ?thesis
    using True by (intro one_operation_idle [OF assms(1,2)]) (auto simp: runScan_def Let_def split: sum.split)
qed

lemma one_operation_runProvision:
  assumes "one_operation \<lparr>sw_setup = s, sw_jobs = js\<rparr>" and "j \<in> set js" and "jb_addr j \<noteq> None"
  shows "one_operation \<lparr>sw_setup = runProvision now (jb_gen j) out s, sw_jobs = remove1 j js\<rparr>"
proof (cases "su_gen s = jb_gen j")
  case False
  then show ?thesis using one_operation_drop [OF assms(1), of j] by (simp add: runProvision_def split: option.split)
next
  case True
  then obtain r where "su_run s = Some r" using current_job [OF assms(1,2)] assms(3) by (auto split: if_splits)
  then show ?thesis
    using True by (intro one_operation_idle [OF assms(1,2)]) (auto simp: runProvision_def end_run_not_running)
qed

lemma one_operation_recordStep:
  assumes "one_operation \<lparr>sw_setup = s, sw_jobs = js\<rparr>"
  shows "one_operation \<lparr>sw_setup = recordStep now gen step s, sw_jobs = js\<rparr>"
  using assms by (cases "su_phase s") (auto simp: recordStep_def one_operation_def split: option.splits)

lemma gens_below: "one_operation \<lparr>sw_setup = s, sw_jobs = js\<rparr> \<Longrightarrow> j \<in> set js \<Longrightarrow> jb_gen j < su_gen s + 1"
  by (simp add: one_operation_def zless_imp_add1_zle)

lemma one_operation_handleStop:
  assumes "one_operation \<lparr>sw_setup = s, sw_jobs = js\<rparr>"
  shows "one_operation \<lparr>sw_setup = fst (handleStop ready now s), sw_jobs = js\<rparr>"
proof (cases "su_phase s = SetupIdle \<or> su_cancel s = None")
  case True
  then show ?thesis using assms by (simp add: handleStop_def)
next
  case False
  define t where "t = fst (handleStop ready now s)"
  have t: "su_phase t = SetupIdle" "su_cancel t = None" "su_gen t = su_gen s + 1"
    using False by (simp_all add: t_def handleStop_def Let_def)
  have "rn_State r \<noteq> RunRunning" if "su_run t = Some r" for r
    using that assms False by (cases "su_phase s"; cases "su_run s") (auto simp: t_def handleStop_def Let_def one_operation_def split: if_splits)
  moreover have "\<forall>j \<in> set js. jb_gen j \<noteq> su_gen s + 1 \<and> jb_gen j \<le> su_gen s + 1"
    using gens_below [OF assms] by fastforce
  moreover have "distinct (map jb_gen js)" using assms by (simp add: one_operation_def)
  ultimately show ?thesis unfolding t_def [symmetric] by (simp add: one_operation_def t)
qed

lemma one_operation_start:
  assumes "one_operation \<lparr>sw_setup = s, sw_jobs = js\<rparr>" and "su_phase s = SetupIdle"
  shows "one_operation \<lparr>sw_setup = start_scan s, sw_jobs = \<lparr>jb_gen = su_gen s + 1, jb_addr = None\<rparr> # js\<rparr>"
    and "one_operation \<lparr>sw_setup = start_run now d s, sw_jobs = \<lparr>jb_gen = su_gen s + 1, jb_addr = Some (fd_Addr d)\<rparr> # js\<rparr>"
proof -
  have "\<forall>j \<in> set js. jb_gen j \<noteq> su_gen s + 1 \<and> jb_gen j \<le> su_gen s + 1"
    using gens_below [OF assms(1)] by fastforce
  then have b: "su_gen s + 1 \<notin> jb_gen ` set js" "\<forall>j \<in> set js. jb_gen j \<le> su_gen s + 1" by (auto simp: image_iff)
  have d: "distinct (map jb_gen js)" "\<forall>r. su_run s = Some r \<longrightarrow> rn_State r \<noteq> RunRunning"
    using assms by (simp_all add: one_operation_def)
  show "one_operation \<lparr>sw_setup = start_scan s, sw_jobs = \<lparr>jb_gen = su_gen s + 1, jb_addr = None\<rparr> # js\<rparr>"
    using b d by (simp add: one_operation_def start_scan_def)
  show "one_operation \<lparr>sw_setup = start_run now d s, sw_jobs = \<lparr>jb_gen = su_gen s + 1, jb_addr = Some (fd_Addr d)\<rparr> # js\<rparr>"
    using b d by (simp add: one_operation_def start_run_def new_run_def)
qed

lemma scan_ok_runScan:
  "pred_option scan_ok (su_scan s) \<Longrightarrow> pred_option scan_ok (su_scan (runScan now gen res s))"
  by (cases res) (auto simp: runScan_def Let_def scan_ok_def found_ok_cleanFound, simp_all add: found_ok_def)

lemma run_ok_handleStop: "pred_option run_ok (su_run s) \<Longrightarrow> pred_option run_ok (su_run (fst (handleStop ready now s)))"
  by (cases "su_run s") (simp_all add: handleStop_def Let_def run_ok_def)

lemma run_ok_recordStep: "pred_option run_ok (su_run s) \<Longrightarrow> pred_option run_ok (su_run (recordStep now gen step s))"
  by (cases "su_run s") (auto simp: recordStep_def run_ok_def)

lemma run_ok_runProvision: "pred_option run_ok (su_run s) \<Longrightarrow> pred_option run_ok (su_run (runProvision now gen out s))"
  by (cases "su_run s") (simp_all add: runProvision_def run_ok_end)

lemma setup_frame [simp]:
  "su_run (runScan now gen res s) = su_run s"
  "su_scan (recordStep now gen step s) = su_scan s"
  "su_scan (runProvision now gen out s) = su_scan s"
  "su_scan (fst (handleStop ready now s)) = su_scan s"
  by (simp_all add: runScan_def Let_def recordStep_def runProvision_def handleStop_def split: sum.split option.split)

lemma world_ok_step:
  assumes "setup_step v w" and "world_ok v"
  shows "world_ok w"
  using assms(1)
proof (cases rule: setup_step.cases)
  case (scan_request ready now s s' rep j js)
  note v = assms(2) [unfolded scan_request(1)]
  from scan_request(3) show ?thesis
  proof (cases rule: handleScan_cases)
    case (refused rl)
    then show ?thesis using v by (simp add: scan_request(2) world_ok_def with_job_def)
  next
    case (started rl)
    then show ?thesis
      using v one_operation_start(1) [of "s\<lparr>su_scanLimit := rl\<rparr>" js]
      by (simp add: scan_request(2) world_ok_def with_job_def) (simp add: start_scan_def)
  qed
next
  case (provision_request dec ready now raw s s' rep j js)
  note v = assms(2) [unfolded provision_request(1)]
  from provision_request(3) show ?thesis
  proof (cases rule: handleProvision_cases)
    case (refused rl)
    then show ?thesis using v by (simp add: provision_request(2) world_ok_def with_job_def)
  next
    case (started rl d sc)
    then show ?thesis
      using v one_operation_start(2) [of "s\<lparr>su_provisionLimit := rl\<rparr>" js now d]
      by (simp add: provision_request(2) world_ok_def with_job_def) (simp add: start_run_def)
  qed
next
  case (stop_request ready now s s' rep js)
  then have "s' = fst (handleStop ready now s)" by simp
  then show ?thesis
    using assms(2) one_operation_handleStop [of s js ready now] run_ok_handleStop [of s ready now]
    by (simp add: stop_request(1,2) world_ok_def)
next
  case (progress j js s now step)
  then show ?thesis
    using assms(2) one_operation_recordStep run_ok_recordStep by (simp add: world_ok_def)
next
  case (scan_ends j js s now res)
  then show ?thesis
    using assms(2) one_operation_runScan scan_ok_runScan by (simp add: world_ok_def)
next
  case (run_ends j js s now out)
  then show ?thesis
    using assms(2) one_operation_runProvision run_ok_runProvision by (simp add: world_ok_def)
qed

lemma world_ok_reached: "setup_reaches (setup_start prov) w \<Longrightarrow> world_ok w"
  by (induction rule: rtranclp_induct) (auto intro: world_ok_start world_ok_step)

subsection \<open>Properties\<close>

text \<open>A small channel, for the examples: one device was seen, and a run against it is on.\<close>

definition sample_found :: foundDevice where
  "sample_found = \<lparr>fd_Addr = ''A1'', fd_Name = ''usaged'', fd_RSSI = - 50, fd_MAC = [], fd_Provisioned = False,
     fd_Version = 0, fd_Capacity = 0\<rparr>"

definition sample_ready :: setupReadiness where
  "sample_ready = \<lparr>rd_ProvidersReady = 1, rd_ProvidersTotal = 6\<rparr>"

definition scanning_world :: setup_world where
  "scanning_world = (case handleScan sample_ready 0 (newSetup True) of (s, _, j) \<Rightarrow> \<lparr>sw_setup = s, sw_jobs = with_job j []\<rparr>)"

definition scanned_world :: setup_world where
  "scanned_world = \<lparr>sw_setup = runScan 1 1 (Inr [sample_found]) (sw_setup scanning_world), sw_jobs = []\<rparr>"

definition running_world :: setup_world where
  "running_world = (case handleProvision Some sample_ready 2 (Some ''A1'') (sw_setup scanned_world) of
     (s, _, j) \<Rightarrow> \<lparr>sw_setup = s, sw_jobs = with_job j []\<rparr>)"

lemma scanning_world_step: "setup_step (setup_start True) scanning_world"
proof -
  obtain s r j where "handleScan sample_ready 0 (newSetup True) = (s, r, j)" by (cases "handleScan sample_ready 0 (newSetup True)")
  then show ?thesis unfolding setup_start_def scanning_world_def by (auto intro: scan_request)
qed

lemma scanning_world_jobs: "sw_jobs scanning_world = [\<lparr>jb_gen = 1, jb_addr = None\<rparr>]"
  by (simp add: scanning_world_def handleScan_def newSetup_def allow_def newRateLimiter_def is_zero_def Let_def start_scan_def with_job_def)

lemma scanned_world_step: "setup_step scanning_world scanned_world"
proof -
  have "scanning_world = \<lparr>sw_setup = sw_setup scanning_world, sw_jobs = [\<lparr>jb_gen = 1, jb_addr = None\<rparr>]\<rparr>"
    using scanning_world_jobs by (cases scanning_world) simp
  moreover have "setup_step \<lparr>sw_setup = s, sw_jobs = [\<lparr>jb_gen = 1, jb_addr = None\<rparr>]\<rparr>
      \<lparr>sw_setup = runScan 1 1 (Inr [sample_found]) s, sw_jobs = []\<rparr>" for s
    using scan_ends [of "\<lparr>jb_gen = 1, jb_addr = None\<rparr>" "[\<lparr>jb_gen = 1, jb_addr = None\<rparr>]" s 1 "Inr [sample_found]"] by simp
  ultimately show ?thesis unfolding scanned_world_def by metis
qed

lemma running_world_step: "setup_step scanned_world running_world"
proof -
  obtain s r j where h: "handleProvision Some sample_ready 2 (Some ''A1'') (sw_setup scanned_world) = (s, r, j)"
    by (cases "handleProvision Some sample_ready 2 (Some ''A1'') (sw_setup scanned_world)")
  have "scanned_world = \<lparr>sw_setup = sw_setup scanned_world, sw_jobs = []\<rparr>" by (simp add: scanned_world_def)
  then show ?thesis using provision_request [OF h, of "[]"] by (simp add: running_world_def h)
qed

lemma sanitize_sample: "sanitizePairID ''A1'' = ''A1''" "netcfgClean ''usaged'' setupMaxNameLen = ''usaged''" "sanitizePairID [] = []"
  by code_simp+

lemma running_world_phase: "su_phase (sw_setup running_world) = SetupProvisioning"
proof -
  have "cleaned sample_found = sample_found" by (simp add: cleaned_def sample_found_def sanitize_sample)
  then have "cleanFound [sample_found] = [sample_found]"
    by (simp add: cleanFound_def setupMaxFound_def) (simp add: sample_found_def sanitize_sample)
  then have "sw_setup scanned_world = (newSetup True)\<lparr>su_scanLimit := fst (allow 0 (newRateLimiter setupScansPerMinute Minute)),
      su_gen := 1, su_scan := Some \<lparr>sc_Found = [sample_found], sc_Reason = [], sc_Next = [], sc_At = 1\<rparr>\<rparr>"
    by (simp add: scanned_world_def scanning_world_def handleScan_def newSetup_def allow_def newRateLimiter_def is_zero_def
        Let_def start_scan_def runScan_def)
  then show ?thesis
    by (simp add: running_world_def handleProvision_def newSetup_def allow_def newRateLimiter_def is_zero_def Let_def start_run_def
        decodeSetupBody_def pairMaxBodyBytes_def sanitize_sample setup_stale_def setup_device_def time_sub_def setupScanTTL_def
        max_duration_def min_duration_def duration_units sample_found_def)
qed

lemma running_world_reached: "setup_reaches (setup_start True) running_world"
  using scanning_world_step scanned_world_step running_world_step by (meson converse_rtranclp_into_rtranclp r_into_rtranclp)

text \<open>
  C11: one operation at a time.  In every state the channel can reach, a goroutine it still listens to
  exists exactly when it is not idle, and does what the phase says; a run is shown as running exactly
  during a provisioning phase.  What is on the page is clean: at most 16 devices with distinct, sanitised
  addresses and printable names, at most 24 known steps with their times, and of a failure only the fixed
  sentences of its classification.
\<close>

theorem setup_invariant: "setup_reaches (setup_start prov) w \<Longrightarrow> world_ok w"
  by (rule world_ok_reached)

theorem setup_invariant_witness: "world_ok running_world"
  by (rule setup_invariant [OF running_world_reached])

text \<open>
  A run starts only against a device that was seen.  A request starts a run exactly when a provisioner
  is there, the limiter lets it through, the channel is idle, and the address it names, once sanitised, is
  that of a device of the last scan, which is no more than three minutes old.
\<close>

theorem provision_starts_iff:
  "(\<exists>j. snd (snd (handleProvision dec ready now raw s)) = Some j \<and> jb_addr j = Some a) \<longleftrightarrow>
     su_prov s \<and> snd (allow now (su_provisionLimit s)) \<and> su_phase s = SetupIdle \<and>
     (\<exists>body sc. decodeSetupBody dec raw = Some body \<and> sanitizePairID body = a \<and> a \<noteq> [] \<and> su_scan s = Some sc \<and>
       time_sub now (sc_At sc) \<le> setupScanTTL \<and> a \<in> fd_Addr ` set (sc_Found sc))"
proof -
  obtain rl ok where al: "allow now (su_provisionLimit s) = (rl, ok)" by (cases "allow now (su_provisionLimit s)")
  have f: "setup_device b (s\<lparr>su_provisionLimit := rl\<rparr>) = setup_device b s" "setup_stale now (s\<lparr>su_provisionLimit := rl\<rparr>) = setup_stale now s" for b
    by (simp_all add: setup_device_def setup_stale_def)
  have found: "List.find (\<lambda>d. fd_Addr d = b) ds = Some d \<Longrightarrow> d \<in> set ds \<and> fd_Addr d = b" for b ds d
    by (auto simp: find_Some_iff)
  have none: "List.find (\<lambda>d. fd_Addr d = b) ds = None \<longleftrightarrow> b \<notin> fd_Addr ` set ds" for b ds
    by (auto simp: find_None_iff image_iff)
  show ?thesis
  proof (cases "su_prov s \<and> ok \<and> su_phase s = SetupIdle \<and> decodeSetupBody dec raw \<noteq> None \<and> su_scan s \<noteq> None \<and> \<not> setup_stale now s")
    case False
    then show ?thesis
      by (auto simp: handleProvision_def al Let_def f setup_stale_def split: option.splits)
  next
    case True
    then obtain body sc where b: "decodeSetupBody dec raw = Some body" "su_scan s = Some sc" by auto
    show ?thesis
    proof (cases "setup_device (sanitizePairID body) s")
      case None
      then have n: "List.find (\<lambda>d. fd_Addr d = sanitizePairID body) (sc_Found sc) = None" using b by (simp add: setup_device_def)
      then show ?thesis
        using True b None none [of "sanitizePairID body" "sc_Found sc"] by (auto simp: handleProvision_def al Let_def f)
    next
      case (Some d)
      then have "sanitizePairID body \<in> fd_Addr ` set (sc_Found sc)"
        using found [of "sanitizePairID body" "sc_Found sc" d] b by (auto simp: setup_device_def image_iff intro: bexI [of _ d])
      then show ?thesis
        using True b Some found [of "sanitizePairID body" "sc_Found sc" d]
        by (auto simp: handleProvision_def al Let_def f setup_device_def setup_stale_def)
    qed
  qed
qed

text \<open>
  A stopped run may have set the device up.  When the owner stops a run, the page says from then on
  that the device was left as it was, whatever the provisioner goes on to do: also when it returns that
  the device applied the record.
\<close>

theorem stopped_run_says_untouched:
  assumes "setup_reaches (setup_start prov) w" and "su_phase (sw_setup w) = SetupProvisioning"
  shows "\<exists>r. su_run (fst (handleStop ready now (sw_setup w))) = Some r \<and>
    run_message r = ''Stopped. The device was left as it was; you can set it up again.'' \<and>
    runProvision later (su_gen (sw_setup w)) ProvOk (fst (handleStop ready now (sw_setup w))) = fst (handleStop ready now (sw_setup w))"
proof -
  obtain s js where w: "w = \<lparr>sw_setup = s, sw_jobs = js\<rparr>" by (cases w)
  obtain r c where "su_run s = Some r" "rn_State r = RunRunning" "su_cancel s = Some c" "su_phase s = SetupProvisioning"
    using world_ok_reached [OF assms(1)] assms(2) by (auto simp: world_ok_def one_operation_def w)
  then show ?thesis by (simp add: w handleStop_def Let_def run_message_def runProvision_def)
qed

theorem stopped_run_says_untouched_witness:
  "\<exists>r. su_run (fst (handleStop sample_ready 5 (sw_setup running_world))) = Some r \<and>
    run_message r = ''Stopped. The device was left as it was; you can set it up again.'' \<and>
    runProvision 6 (su_gen (sw_setup running_world)) ProvOk (fst (handleStop sample_ready 5 (sw_setup running_world))) =
      fst (handleStop sample_ready 5 (sw_setup running_world))"
  by (rule stopped_run_says_untouched [OF running_world_reached running_world_phase])

subsection \<open>Back to idle\<close>

lemma busy_step:
  assumes "setup_step v w" and "su_phase (sw_setup v) \<noteq> SetupIdle" and "world_ok v" and "su_phase (sw_setup w) \<noteq> SetupIdle"
  shows "su_gen (sw_setup w) = su_gen (sw_setup v) \<and> set (sw_jobs w) \<subseteq> set (sw_jobs v)"
  using assms(1)
proof (cases rule: setup_step.cases)
  case (scan_request ready now s s' rep j js)
  from scan_request(3) show ?thesis
    by (cases rule: handleScan_cases) (use assms(2) scan_request in \<open>auto simp: with_job_def\<close>)
next
  case (provision_request dec ready now raw s s' rep j js)
  from provision_request(3) show ?thesis
    by (cases rule: handleProvision_cases) (use assms(2) provision_request in \<open>auto simp: with_job_def\<close>)
next
  case (stop_request ready now s s' rep js)
  have "su_cancel s \<noteq> None"
    using assms(2,3) by (cases "su_phase s") (auto simp: world_ok_def one_operation_def stop_request(1))
  then have "su_phase s' = SetupIdle"
    using stop_request assms(2) by (auto simp: handleStop_def Let_def split: if_splits)
  then show ?thesis using assms(4) by (simp add: stop_request(2))
next
  case (progress j js s now step)
  then show ?thesis by (auto simp: recordStep_def split: option.split)
next
  case (scan_ends j js s now res)
  then show ?thesis using set_remove1_subset [of j js] by (auto simp: runScan_def Let_def split: sum.split)
next
  case (run_ends j js s now out)
  then show ?thesis using set_remove1_subset [of j js] by (auto simp: runProvision_def split: option.split)
qed

lemma current_exists:
  assumes "world_ok w" and "su_phase (sw_setup w) \<noteq> SetupIdle"
  shows "\<exists>j \<in> set (sw_jobs w). jb_gen j = su_gen (sw_setup w)"
  using assms by (cases "su_phase (sw_setup w)") (force simp: world_ok_def one_operation_def)+

text \<open>
  C12: the channel comes back to idle.  In every infinite run of the channel in which each goroutine
  returns in the end, whatever it returns and whatever requests come in meanwhile, the channel is idle
  again and again: no scan or run blocks the card for good.
\<close>

theorem setup_idle_again:
  fixes w :: "nat \<Rightarrow> setup_world"
  assumes "w 0 = setup_start prov" and "\<And>n. setup_step (w n) (w (Suc n)) \<or> w (Suc n) = w n"
    and "\<And>n j. j \<in> set (sw_jobs (w n)) \<Longrightarrow> \<exists>m \<ge> n. j \<notin> set (sw_jobs (w m))"
  shows "\<exists>m \<ge> n. su_phase (sw_setup (w m)) = SetupIdle"
proof (rule ccontr)
  assume "\<nexists>m. m \<ge> n \<and> su_phase (sw_setup (w m)) = SetupIdle"
  then have busy: "su_phase (sw_setup (w m)) \<noteq> SetupIdle" if "m \<ge> n" for m using that by blast
  have "setup_reaches (setup_start prov) (w k)" for k
  proof (induction k)
    case (Suc k)
    then show ?case using assms(2) [of k] by (metis rtranclp.rtrancl_into_rtrancl)
  qed (simp add: assms(1))
  then have ok: "world_ok (w k)" for k by (rule world_ok_reached)
  have same: "su_gen (sw_setup (w m)) = su_gen (sw_setup (w n)) \<and> set (sw_jobs (w m)) \<subseteq> set (sw_jobs (w n))" if "m \<ge> n" for m
    using that
  proof (induction m rule: dec_induct)
    case (step m)
    then show ?case
      using assms(2) [of m] busy_step [OF _ busy ok busy, of m "Suc m"] by (metis le_Suc_eq order_trans)
  qed simp
  obtain j where j: "j \<in> set (sw_jobs (w n))" "jb_gen j = su_gen (sw_setup (w n))"
    using current_exists [OF ok busy [OF order_refl]] by blast
  obtain m where m: "m \<ge> n" "j \<notin> set (sw_jobs (w m))" using assms(3) [OF j(1)] by blast
  obtain i where i: "i \<in> set (sw_jobs (w m))" "jb_gen i = su_gen (sw_setup (w m))"
    using current_exists [OF ok busy [OF m(1)]] by blast
  have "distinct (map jb_gen (sw_jobs (w n)))" using ok [of n] by (simp add: world_ok_def one_operation_def)
  then have "i = j" using job_same_gen [of "sw_jobs (w n)" i j] i j same [OF m(1)] by auto
  then show False using i m by simp
qed

text \<open>A run with a scan that finds a device, seen from the moment it is on.\<close>

theorem setup_idle_again_witness:
  defines "w \<equiv> \<lambda>n :: nat. if n = 0 then setup_start True else if n = 1 then scanning_world else scanned_world"
  shows "\<exists>m \<ge> 1. su_phase (sw_setup (w m)) = SetupIdle"
proof (rule setup_idle_again [where w = w and prov = True and n = 1])
  show "w 0 = setup_start True" by (simp add: w_def)
  show "setup_step (w n) (w (Suc n)) \<or> w (Suc n) = w n" for n
    using scanning_world_step scanned_world_step by (cases "n \<le> 1") (auto simp: w_def le_Suc_eq)
  show "\<exists>m \<ge> n. j \<notin> set (sw_jobs (w m))" for n j
    by (rule exI [of _ "n + 2"]) (simp add: w_def scanned_world_def)
qed

text \<open>Two goroutines can hold the provisioner at once: \<open>Stop\<close> makes the channel idle before the first returns.\<close>

lemma stop_leaves_goroutine:
  "setup_reaches (setup_start True) \<lparr>sw_setup = fst (handleStop sample_ready 3 (sw_setup scanning_world)), sw_jobs = sw_jobs scanning_world\<rparr> \<and>
   su_phase (fst (handleStop sample_ready 3 (sw_setup scanning_world))) = SetupIdle \<and>
   snd (snd (handleScan sample_ready 4 (fst (handleStop sample_ready 3 (sw_setup scanning_world))))) = Some \<lparr>jb_gen = 3, jb_addr = None\<rparr> \<and>
   sw_jobs scanning_world = [\<lparr>jb_gen = 1, jb_addr = None\<rparr>]"
proof -
  let ?s = "sw_setup scanning_world"
  have s: "?s = (newSetup True)\<lparr>su_scanLimit := fst (allow 0 (newRateLimiter setupScansPerMinute Minute)),
      su_phase := SetupScanning, su_cancel := Some 1, su_gen := 1\<rparr>"
    by (simp add: scanning_world_def handleScan_def newSetup_def allow_def newRateLimiter_def is_zero_def Let_def start_scan_def)
  have "setup_step scanning_world \<lparr>sw_setup = fst (handleStop sample_ready 3 ?s), sw_jobs = sw_jobs scanning_world\<rparr>"
    using stop_request [of sample_ready 3 ?s "fst (handleStop sample_ready 3 ?s)" "snd (handleStop sample_ready 3 ?s)" "sw_jobs scanning_world"]
      setup_world.surjective [of scanning_world] by (metis prod.collapse unit_eq)
  then have "setup_reaches (setup_start True) \<lparr>sw_setup = fst (handleStop sample_ready 3 ?s), sw_jobs = sw_jobs scanning_world\<rparr>"
    using scanning_world_step by (meson converse_rtranclp_into_rtranclp r_into_rtranclp)
  moreover have "su_phase (fst (handleStop sample_ready 3 ?s)) = SetupIdle" by (simp add: s handleStop_def Let_def)
  moreover have "snd (snd (handleScan sample_ready 4 (fst (handleStop sample_ready 3 ?s)))) = Some \<lparr>jb_gen = 3, jb_addr = None\<rparr>"
    by (simp add: s handleStop_def Let_def handleScan_def newSetup_def allow_def newRateLimiter_def is_zero_def zero_time_def
        duration_units time_sub_def max_duration_def min_duration_def setupScansPerMinute_def start_scan_def)
  ultimately show ?thesis by (simp add: scanning_world_jobs)
qed

end
