(* ===== verification/Mdns_Wire.thy ===== *)
theory Mdns_Wire
  imports Go_Prelude
begin

unbundle bit_operations_syntax

text \<open>
  internal/mdns/wire.go: DNS messages, packed without compression and unpacked with it.  A datagram is a
  list of bytes and an offset a natural number; \<open>append\<close> to a buffer is appending to the list.
\<close>

subsection \<open>Constants and types\<close>

definition typeA :: "16 word" where "typeA = 1"
definition typePTR :: "16 word" where "typePTR = 12"
definition typeTXT :: "16 word" where "typeTXT = 16"
definition typeAAAA :: "16 word" where "typeAAAA = 28"
definition typeSRV :: "16 word" where "typeSRV = 33"
definition typeANY :: "16 word" where "typeANY = 255"
definition classIN :: "16 word" where "classIN = 1"
definition classANY :: "16 word" where "classANY = 255"
definition classFlag :: "16 word" where "classFlag = 0x8000"
definition classMask :: "16 word" where "classMask = 0x7fff"
definition flagResponse :: "16 word" where "flagResponse = 0x8000"
definition flagAuthoritative :: "16 word" where "flagAuthoritative = 0x0400"
definition opcodeMask :: "16 word" where "opcodeMask = 0x7800"
definition headerLen :: nat where "headerLen = 12"
definition maxName :: nat where "maxName = 255"
definition maxLabel :: nat where "maxLabel = 63"
definition maxTXTString :: nat where "maxTXTString = 255"
definition maxPointerJumps :: nat where "maxPointerJumps = 16"

lemmas rr_types = typeA_def typePTR_def typeTXT_def typeAAAA_def typeSRV_def typeANY_def
lemmas name_limits = maxName_def maxLabel_def maxTXTString_def maxPointerJumps_def

datatype mdns_error = ShortMessage | BadName | NameTooLong | BadRecord

record question =
  qn_name :: string
  qn_qtype :: "16 word"
  qn_class :: "16 word"

record dns_record =
  rr_name :: string
  rr_rtype :: "16 word"
  rr_class :: "16 word"
  rr_ttl :: "32 word"
  rr_ip :: bytes
  rr_target :: string
  rr_prio :: "16 word"
  rr_weight :: "16 word"
  rr_port :: "16 word"
  rr_txt :: "string list"
  rr_rdata :: bytes

record message =
  ms_id :: "16 word"
  ms_flags :: "16 word"
  ms_questions :: "question list"
  ms_answers :: "dns_record list"
  ms_authority :: "dns_record list"
  ms_additional :: "dns_record list"

subsection \<open>Big-endian numbers\<close>

definition be16 :: "16 word \<Rightarrow> bytes" where
  "be16 v = [ucast (drop_bit 8 v), ucast v]"

definition be32 :: "32 word \<Rightarrow> bytes" where
  "be32 v = [ucast (drop_bit 24 v), ucast (drop_bit 16 v), ucast (drop_bit 8 v), ucast v]"

definition get16 :: "bytes \<Rightarrow> nat \<Rightarrow> 16 word" where
  "get16 b i = push_bit 8 (ucast (b ! i)) OR ucast (b ! (i + 1))"

definition get32 :: "bytes \<Rightarrow> nat \<Rightarrow> 32 word" where
  "get32 b i = push_bit 24 (ucast (b ! i)) OR push_bit 16 (ucast (b ! (i + 1))) OR
     push_bit 8 (ucast (b ! (i + 2))) OR ucast (b ! (i + 3))"

subsection \<open>Encoding\<close>

fun append_labels :: "bytes \<Rightarrow> string list \<Rightarrow> mdns_error + bytes" where
  "append_labels b [] = Inr b"
| "append_labels b (l # ls) =
     (if l = [] \<or> length l > maxLabel then Inl BadName
      else append_labels (b @ word_of_nat (length l) # to_bytes l) ls)"

definition appendName :: "bytes \<Rightarrow> string \<Rightarrow> mdns_error + bytes" where
  "appendName b name =
     (if name = [] \<or> name = ''.'' then Inr (b @ [0])
      else bind_result (append_labels b (split_char (CHR ''.'') (trim_suffix name ''.'')))
        (\<lambda>c. if length (c @ [0]) - length b > maxName then Inl NameTooLong else Inr (c @ [0])))"

text \<open>\<open>IP.To4\<close>.\<close>

definition To4 :: "bytes \<Rightarrow> bytes option" where
  "To4 ip = (if length ip = 4 then Some ip
     else if length ip = 16 \<and> take 12 ip = replicate 10 0 @ [0xFF, 0xFF] then Some (drop 12 ip) else None)"

fun pack_txt :: "string list \<Rightarrow> mdns_error + bytes" where
  "pack_txt [] = Inr []"
| "pack_txt (s # ss) =
     (if length s > maxTXTString then Inl BadRecord
      else bind_result (pack_txt ss) (\<lambda>b. Inr (word_of_nat (length s) # to_bytes s @ b)))"

definition packRDATA :: "dns_record \<Rightarrow> mdns_error + bytes" where
  "packRDATA r =
     (if rr_rtype r = typeA then (case To4 (rr_ip r) of None \<Rightarrow> Inl BadRecord | Some ip4 \<Rightarrow> Inr ip4)
      else if rr_rtype r = typePTR then appendName [] (rr_target r)
      else if rr_rtype r = typeSRV then appendName (be16 (rr_prio r) @ be16 (rr_weight r) @ be16 (rr_port r)) (rr_target r)
      else if rr_rtype r = typeTXT then (if rr_txt r = [] then Inr [0] else pack_txt (rr_txt r))
      else Inr (rr_rdata r))"

definition appendRecord :: "bytes \<Rightarrow> dns_record \<Rightarrow> mdns_error + bytes" where
  "appendRecord b r =
     bind_result (appendName b (rr_name r)) (\<lambda>b.
     bind_result (packRDATA r) (\<lambda>rdata.
       Inr (b @ be16 (rr_rtype r) @ be16 (rr_class r) @ be32 (rr_ttl r) @ be16 (word_of_nat (length rdata)) @ rdata)))"

definition appendQuestion :: "bytes \<Rightarrow> question \<Rightarrow> mdns_error + bytes" where
  "appendQuestion b q =
     bind_result (appendName b (qn_name q)) (\<lambda>b. Inr (b @ be16 (qn_qtype q) @ be16 (qn_class q)))"

fun append_all :: "(bytes \<Rightarrow> 'a \<Rightarrow> mdns_error + bytes) \<Rightarrow> bytes \<Rightarrow> 'a list \<Rightarrow> mdns_error + bytes" where
  "append_all f b [] = Inr b"
| "append_all f b (x # xs) = bind_result (f b x) (\<lambda>b. append_all f b xs)"

definition pack_header :: "message \<Rightarrow> bytes" where
  "pack_header m =
     be16 (ms_id m) @ be16 (ms_flags m) @ be16 (word_of_nat (length (ms_questions m))) @
     be16 (word_of_nat (length (ms_answers m))) @ be16 (word_of_nat (length (ms_authority m))) @
     be16 (word_of_nat (length (ms_additional m)))"

definition pack :: "message \<Rightarrow> mdns_error + bytes" where
  "pack m =
     bind_result (append_all appendQuestion (pack_header m) (ms_questions m)) (\<lambda>b.
       append_all appendRecord b (ms_answers m @ ms_authority m @ ms_additional m))"

subsection \<open>Decoding\<close>

text \<open>The loop of \<open>decodeName\<close>: \<open>nxt\<close> is where the record goes on once a pointer was followed.\<close>

function decode_from :: "bytes \<Rightarrow> nat \<Rightarrow> nat \<Rightarrow> nat option \<Rightarrow> string \<Rightarrow> mdns_error + (string \<times> nat)" where
  "decode_from msg jumps off nxt sb =
     (if off \<ge> length msg then Inl ShortMessage
      else
        (let n = msg ! off in
         if n = 0 then Inr (if sb = [] then ''.'' else sb, case nxt of None \<Rightarrow> off + 1 | Some k \<Rightarrow> k)
         else if n AND 0xC0 = 0xC0 then
           (if off + 1 \<ge> length msg then Inl ShortMessage
            else
              (let ptr = unat (get16 msg off AND 0x3FFF) in
               if ptr \<ge> off then Inl BadName
               else if jumps + 1 > maxPointerJumps then Inl BadName
               else decode_from msg (jumps + 1) ptr (Some (case nxt of None \<Rightarrow> off + 2 | Some k \<Rightarrow> k)) sb))
         else if n AND 0xC0 \<noteq> 0 then Inl BadName
         else if off + 1 + unat n > length msg then Inl ShortMessage
         else
           (let sb = sb @ of_bytes (take (unat n) (drop (off + 1) msg)) @ ''.'' in
            if length sb > maxName then Inl NameTooLong else decode_from msg jumps (off + 1 + unat n) nxt sb)))"
  by pat_completeness auto
termination
  by (relation "measures [\<lambda>(msg, jumps, off, nxt, sb). maxPointerJumps - jumps, \<lambda>(msg, jumps, off, nxt, sb). length msg - off]")
    auto

declare decode_from.simps [simp del]

definition decodeName :: "bytes \<Rightarrow> nat \<Rightarrow> mdns_error + (string \<times> nat)" where
  "decodeName msg off = decode_from msg 0 off None []"

function unpack_txt :: "bytes \<Rightarrow> nat \<Rightarrow> nat \<Rightarrow> mdns_error + string list" where
  "unpack_txt msg p e =
     (if p \<ge> e then Inr []
      else if p + 1 + unat (msg ! p) > e then Inl BadRecord
      else bind_result (unpack_txt msg (p + 1 + unat (msg ! p)) e)
        (\<lambda>ss. Inr (of_bytes (take (unat (msg ! p)) (drop (p + 1) msg)) # ss)))"
  by pat_completeness auto
termination
  by (relation "measure (\<lambda>(msg, p, e). e - p)") auto

declare unpack_txt.simps [simp del]

definition unpackRDATA :: "bytes \<Rightarrow> dns_record \<Rightarrow> nat \<Rightarrow> nat \<Rightarrow> mdns_error + dns_record" where
  "unpackRDATA msg r off n =
     (if off + n > length msg then Inl ShortMessage
      else if rr_rtype r = typeA then
        (if n \<noteq> 4 then Inl BadRecord else Inr (r\<lparr>rr_ip := take n (drop off msg)\<rparr>))
      else if rr_rtype r = typePTR then
        bind_result (decodeName msg off) (\<lambda>(target, _). Inr (r\<lparr>rr_target := target\<rparr>))
      else if rr_rtype r = typeSRV then
        (if n < 7 then Inl BadRecord
         else bind_result (decodeName msg (off + 6)) (\<lambda>(target, _).
           Inr (r\<lparr>rr_prio := get16 msg off, rr_weight := get16 msg (off + 2), rr_port := get16 msg (off + 4), rr_target := target\<rparr>)))
      else if rr_rtype r = typeTXT then
        bind_result (unpack_txt msg off (off + n)) (\<lambda>ss. Inr (r\<lparr>rr_txt := ss\<rparr>))
      else Inr (r\<lparr>rr_rdata := take n (drop off msg)\<rparr>))"

definition no_record :: dns_record where
  "no_record = \<lparr>rr_name = [], rr_rtype = 0, rr_class = 0, rr_ttl = 0, rr_ip = [], rr_target = [], rr_prio = 0,
     rr_weight = 0, rr_port = 0, rr_txt = [], rr_rdata = []\<rparr>"

definition unpackRecord :: "bytes \<Rightarrow> nat \<Rightarrow> mdns_error + (dns_record \<times> nat)" where
  "unpackRecord msg off =
     bind_result (decodeName msg off) (\<lambda>(name, off).
       if off + 10 > length msg then Inl ShortMessage
       else
         (let r = no_record\<lparr>rr_name := name, rr_rtype := get16 msg off, rr_class := get16 msg (off + 2),
                rr_ttl := get32 msg (off + 4)\<rparr>;
              n = unat (get16 msg (off + 8)) in
          if off + 10 + n > length msg then Inl ShortMessage
          else bind_result (unpackRDATA msg r (off + 10) n) (\<lambda>r. Inr (r, off + 10 + n))))"

definition unpackQuestion :: "bytes \<Rightarrow> nat \<Rightarrow> mdns_error + (question \<times> nat)" where
  "unpackQuestion msg off =
     bind_result (decodeName msg off) (\<lambda>(name, off).
       if off + 4 > length msg then Inl ShortMessage
       else Inr (\<lparr>qn_name = name, qn_qtype = get16 msg off, qn_class = get16 msg (off + 2)\<rparr>, off + 4))"

fun unpack_all :: "(bytes \<Rightarrow> nat \<Rightarrow> mdns_error + ('a \<times> nat)) \<Rightarrow> bytes \<Rightarrow> nat \<Rightarrow> nat \<Rightarrow> mdns_error + ('a list \<times> nat)" where
  "unpack_all f msg 0 off = Inr ([], off)"
| "unpack_all f msg (Suc n) off =
     bind_result (f msg off) (\<lambda>(x, off). bind_result (unpack_all f msg n off) (\<lambda>(xs, off). Inr (x # xs, off)))"

definition unpack :: "bytes \<Rightarrow> mdns_error + message" where
  "unpack buf =
     (if length buf < headerLen then Inl ShortMessage
      else
        bind_result (unpack_all unpackQuestion buf (unat (get16 buf 4)) headerLen) (\<lambda>(qs, off).
        bind_result (unpack_all unpackRecord buf (unat (get16 buf 6)) off) (\<lambda>(an, off).
        bind_result (unpack_all unpackRecord buf (unat (get16 buf 8)) off) (\<lambda>(au, off).
        bind_result (unpack_all unpackRecord buf (unat (get16 buf 10)) off) (\<lambda>(ad, off).
          Inr \<lparr>ms_id = get16 buf 0, ms_flags = get16 buf 2, ms_questions = qs, ms_answers = an, ms_authority = au,
               ms_additional = ad\<rparr>)))))"

end
