(* ===== verification/Mdns_Codec.thy ===== *)
theory Mdns_Codec
  imports Mdns_Wire
begin

unbundle bit_operations_syntax

text \<open>
  The DNS codec: what is packed is read back, whatever stands before and after it, and what is read from
  an arbitrary datagram is bounded.
\<close>

subsection \<open>Numbers\<close>

lemma be_lengths [simp]: "length (be16 v) = 2" "length (be32 w) = 4"
  by (simp_all add: be16_def be32_def)

lemma nth_past [simp]: "(pre @ x # xs) ! length pre = x" "(pre @ x # y # xs) ! Suc (length pre) = y"
  by (simp_all add: nth_append)

lemma get16_be16 [simp]: "get16 (pre @ be16 v @ post) (length pre) = v"
  unfolding get16_def be16_def by (rule bit_word_eqI) (auto simp: nth_append bit_simps)

lemma get32_be32 [simp]: "get32 (pre @ be32 v @ post) (length pre) = v"
proof (rule bit_word_eqI)
  fix n assume "n < LENGTH(32)"
  then consider "n < 8" | "8 \<le> n" "n < 16" | "16 \<le> n" "n < 24" | "24 \<le> n" "n < 32"
    by fastforce
  then show "bit (get32 (pre @ be32 v @ post) (length pre)) n = bit v n"
    unfolding get32_def be32_def by cases (auto simp: nth_append bit_simps)
qed

lemma get16_at: "msg = pre @ be16 v @ post \<Longrightarrow> off = length pre \<Longrightarrow> get16 msg off = v"
  by simp

lemma get32_at: "msg = pre @ be32 v @ post \<Longrightarrow> off = length pre \<Longrightarrow> get32 msg off = v"
  by simp

lemma bit_C0: "n < 8 \<Longrightarrow> bit (0xC0 :: int) n \<longleftrightarrow> 6 \<le> n"
proof -
  assume "n < 8"
  then consider "n = 0" | "n = 1" | "n = 2" | "n = 3" | "n = 4" | "n = 5" | "n = 6" | "n = 7" by linarith
  then show ?thesis by cases simp_all
qed

text \<open>The length byte of a label has its top two bits clear.\<close>

lemma label_byte:
  assumes "l \<le> 63"
  shows "unat (word_of_nat l :: byte) = l" and "(word_of_nat l :: byte) AND 0xC0 = 0"
proof -
  show u: "unat (word_of_nat l :: byte) = l" using assms by (simp add: unat_of_nat take_bit_eq_mod)
  have "unat (take_bit 6 (word_of_nat l :: byte)) = unat (word_of_nat l :: byte)"
    using assms by (simp only: unsigned_take_bit_eq u) (simp add: take_bit_nat_eq_self)
  then have "take_bit 6 (word_of_nat l :: byte) = word_of_nat l" by (simp only: word_unat_eq_iff)
  moreover have "take_bit 6 w AND (0xC0 :: byte) = 0" for w :: byte
    by (rule bit_word_eqI) (auto simp: bit_simps bit_C0)
  ultimately show "(word_of_nat l :: byte) AND 0xC0 = 0" by metis
qed

lemma small_byte: "w AND 0xC0 = 0 \<Longrightarrow> unat (w :: byte) \<le> 63"
proof -
  assume a: "w AND 0xC0 = 0"
  have "w = take_bit 6 w"
  proof (rule bit_word_eqI)
    fix n assume n: "n < LENGTH(8)"
    have "bit (w AND 0xC0) n = (bit w n \<and> bit (0xC0 :: byte) n)" by (simp only: bit_and_iff)
    then have "bit w n \<Longrightarrow> n < 6" using n a bit_C0 [of n] by simp
    then show "bit w n = bit (take_bit 6 w) n" by (auto simp: bit_take_bit_iff)
  qed
  then have "unat w = take_bit 6 (unat w)" by (metis unsigned_take_bit_eq)
  moreover have "take_bit 6 (unat w) < 2 ^ 6" by (rule take_bit_nat_less_exp)
  ultimately have "unat w < 2 ^ 6" by simp
  then show ?thesis by simp
qed

subsection \<open>Names\<close>

definition label_ok :: "string \<Rightarrow> bool" where
  "label_ok l \<longleftrightarrow> l \<noteq> [] \<and> length l \<le> maxLabel \<and> CHR ''.'' \<notin> set l"

definition dotted :: "string list \<Rightarrow> string" where
  "dotted ls = concat (map (\<lambda>l. l @ ''.'') ls)"

definition enc_labels :: "string list \<Rightarrow> bytes" where
  "enc_labels ls = concat (map (\<lambda>l. word_of_nat (length l) # to_bytes l) ls)"

lemma dotted_simps [simp]: "dotted [] = []" "dotted (l # ls) = l @ ''.'' @ dotted ls"
  by (simp_all add: dotted_def)

lemma enc_labels_simps [simp]: "enc_labels [] = []" "enc_labels (l # ls) = word_of_nat (length l) # to_bytes l @ enc_labels ls"
  by (simp_all add: enc_labels_def)

lemma length_enc_labels: "length (enc_labels ls) = length (dotted ls)"
  by (induction ls) simp_all

text \<open>The root, or labels each followed by a dot, short enough for the limit.\<close>

definition labels_of :: "string \<Rightarrow> string list" where
  "labels_of nm = split_char (CHR ''.'') (butlast nm)"

definition name_ok :: "string \<Rightarrow> bool" where
  "name_ok nm \<longleftrightarrow> nm = ''.'' \<or> nm \<noteq> [] \<and> last nm = CHR ''.'' \<and> list_all label_ok (labels_of nm) \<and> length nm < maxName"

definition enc_name :: "string \<Rightarrow> bytes" where
  "enc_name nm = (if nm = ''.'' then [0] else enc_labels (labels_of nm) @ [0])"

lemma join_dotted: "ls \<noteq> [] \<Longrightarrow> join_char (CHR ''.'') ls @ ''.'' = dotted ls"
  by (induction ls rule: induct_list012) simp_all

lemma dotted_labels_of: "nm \<noteq> [] \<Longrightarrow> last nm = CHR ''.'' \<Longrightarrow> dotted (labels_of nm) = nm"
proof -
  assume "nm \<noteq> []" and "last nm = CHR ''.''"
  then have "butlast nm @ ''.'' = nm" by (metis append_butlast_last_id)
  moreover have "dotted (labels_of nm) = butlast nm @ ''.''"
    using join_dotted [of "labels_of nm"] by (simp add: labels_of_def join_split_char)
  ultimately show ?thesis by simp
qed

lemma append_labels_ok: "list_all label_ok ls \<Longrightarrow> append_labels b ls = Inr (b @ enc_labels ls)"
  by (induction ls arbitrary: b) (simp_all add: label_ok_def)

lemma trim_suffix_dot: "nm \<noteq> [] \<Longrightarrow> last nm = CHR ''.'' \<Longrightarrow> trim_suffix nm ''.'' = butlast nm"
proof -
  assume "nm \<noteq> []" and "last nm = CHR ''.''"
  then obtain c where "nm = c @ ''.''" by (metis append_butlast_last_id)
  then show ?thesis by (simp add: trim_suffix_def has_suffix_def)
qed

lemma appendName_ok: "name_ok nm \<Longrightarrow> appendName b nm = Inr (b @ enc_name nm)"
proof (cases "nm = ''.''")
  case False
  assume "name_ok nm"
  then have n: "nm \<noteq> []" "last nm = CHR ''.''" "list_all label_ok (labels_of nm)" "length nm < maxName"
    using False by (simp_all add: name_ok_def)
  have "length (enc_labels (labels_of nm)) = length nm"
    using dotted_labels_of [OF n(1,2)] by (simp add: length_enc_labels)
  then show ?thesis
    using n append_labels_ok [OF n(3), of b] False
    by (simp add: appendName_def trim_suffix_dot labels_of_def [symmetric] enc_name_def)
qed (simp add: appendName_def enc_name_def)

lemma decode_labels:
  assumes "list_all label_ok ls" and "length sb + length (dotted ls) \<le> maxName"
  shows "decode_from (pre @ enc_labels ls @ 0 # post) j (length pre) nxt sb =
    Inr (if sb @ dotted ls = [] then ''.'' else sb @ dotted ls,
      case nxt of None \<Rightarrow> length pre + length (enc_labels ls) + 1 | Some k \<Rightarrow> k)"
  using assms
proof (induction ls arbitrary: pre sb)
  case Nil
  show ?case by (subst decode_from.simps) (simp split: option.split)
next
  case (Cons l ls)
  let ?msg = "pre @ enc_labels (l # ls) @ 0 # post"
  have l: "l \<noteq> []" "length l \<le> 63" using Cons.prems(1) by (simp_all add: label_ok_def maxLabel_def)
  note b = label_byte [OF l(2)]
  have "word_of_nat (length l) \<noteq> (0 :: byte)" using b(1) l(1) by (metis length_0_conv unat_0)
  moreover have "\<not> length (sb @ l @ ''.'') > maxName" using Cons.prems(2) by simp
  moreover have "take (length l) (drop (length pre + 1) ?msg) = to_bytes l" by simp
  ultimately have "decode_from ?msg j (length pre) nxt sb = decode_from ?msg j (length pre + 1 + length l) nxt (sb @ l @ ''.'')"
    by (subst decode_from.simps) (simp add: b)
  also have "\<dots> = decode_from ((pre @ word_of_nat (length l) # to_bytes l) @ enc_labels ls @ 0 # post) j
      (length (pre @ word_of_nat (length l) # to_bytes l)) nxt (sb @ l @ ''.'')"
    by simp
  also have "\<dots> = Inr (if (sb @ l @ ''.'') @ dotted ls = [] then ''.'' else (sb @ l @ ''.'') @ dotted ls,
      case nxt of None \<Rightarrow> length (pre @ word_of_nat (length l) # to_bytes l) + length (enc_labels ls) + 1 | Some k \<Rightarrow> k)"
    using Cons.prems by (intro Cons.IH) simp_all
  finally show ?case by (simp split: option.split)
qed

lemma decode_enc_name:
  assumes "name_ok nm"
  shows "decodeName (pre @ enc_name nm @ post) (length pre) = Inr (nm, length pre + length (enc_name nm))"
proof (cases "nm = ''.''")
  case True
  then show ?thesis using decode_labels [of "[]" "[]" pre post 0 None] by (simp add: decodeName_def enc_name_def)
next
  case False
  then have n: "nm \<noteq> []" "last nm = CHR ''.''" "list_all label_ok (labels_of nm)" "length nm < maxName"
    using assms by (simp_all add: name_ok_def)
  note d = dotted_labels_of [OF n(1,2)]
  show ?thesis
    using decode_labels [of "labels_of nm" "[]" pre post 0 None] n d False by (simp add: decodeName_def enc_name_def)
qed

lemma decode_name_at:
  "name_ok nm \<Longrightarrow> msg = pre @ enc_name nm @ post \<Longrightarrow> off = length pre \<Longrightarrow> decodeName msg off = Inr (nm, off + length (enc_name nm))"
  by (simp add: decode_enc_name)

subsection \<open>Lists of things that are packed and unpacked one after the other\<close>

locale wire_codec =
  fixes append_one :: "bytes \<Rightarrow> 'a \<Rightarrow> mdns_error + bytes"
    and read_one :: "bytes \<Rightarrow> nat \<Rightarrow> mdns_error + ('a \<times> nat)"
    and enc :: "'a \<Rightarrow> bytes"
    and ok :: "'a \<Rightarrow> bool"
  assumes append_enc: "ok x \<Longrightarrow> append_one b x = Inr (b @ enc x)"
    and read_enc: "ok x \<Longrightarrow> read_one (pre @ enc x @ post) (length pre) = Inr (x, length pre + length (enc x))"
begin

definition enc_all :: "'a list \<Rightarrow> bytes" where
  "enc_all xs = concat (map enc xs)"

lemma append_all_enc: "list_all ok xs \<Longrightarrow> append_all append_one b xs = Inr (b @ enc_all xs)"
  by (induction xs arbitrary: b) (simp_all add: append_enc enc_all_def)

lemma read_all_enc:
  "list_all ok xs \<Longrightarrow> unpack_all read_one (pre @ enc_all xs @ post) (length xs) (length pre) =
     Inr (xs, length pre + length (enc_all xs))"
proof (induction xs arbitrary: pre)
  case (Cons x xs)
  have "pre @ enc_all (x # xs) @ post = pre @ enc x @ enc_all xs @ post" by (simp add: enc_all_def)
  then have "read_one (pre @ enc_all (x # xs) @ post) (length pre) = Inr (x, length pre + length (enc x))"
    using read_enc [of x pre "enc_all xs @ post"] Cons.prems by simp
  moreover have "unpack_all read_one (pre @ enc_all (x # xs) @ post) (length xs) (length pre + length (enc x)) =
      Inr (xs, length pre + length (enc x) + length (enc_all xs))"
    using Cons.IH [of "pre @ enc x"] Cons.prems by (simp add: enc_all_def)
  ultimately show ?case by (simp add: enc_all_def)
qed (simp add: enc_all_def)

lemma read_all_at:
  "list_all ok xs \<Longrightarrow> msg = pre @ enc_all xs @ post \<Longrightarrow> off = length pre \<Longrightarrow> n = length xs \<Longrightarrow>
     unpack_all read_one msg n off = Inr (xs, off + length (enc_all xs))"
  by (simp add: read_all_enc)

end

subsection \<open>Questions and records\<close>

definition question_ok :: "question \<Rightarrow> bool" where
  "question_ok q \<longleftrightarrow> name_ok (qn_name q)"

definition enc_question :: "question \<Rightarrow> bytes" where
  "enc_question q = enc_name (qn_name q) @ be16 (qn_qtype q) @ be16 (qn_class q)"

lemma read_question:
  assumes "question_ok q"
  shows "unpackQuestion (pre @ enc_question q @ post) (length pre) = Inr (q, length pre + length (enc_question q))"
proof -
  let ?n = "enc_name (qn_name q)" and ?msg = "pre @ enc_question q @ post"
  have "decodeName ?msg (length pre) = Inr (qn_name q, length pre + length ?n)"
    using assms by (intro decode_name_at [where pre = pre]) (simp_all add: question_ok_def enc_question_def)
  moreover have "get16 ?msg (length pre + length ?n) = qn_qtype q"
    by (rule get16_at [where pre = "pre @ ?n"]) (simp_all add: enc_question_def)
  moreover have "get16 ?msg (length pre + length ?n + 2) = qn_class q"
    by (rule get16_at [where pre = "pre @ ?n @ be16 (qn_qtype q)"]) (simp_all add: enc_question_def)
  ultimately show ?thesis by (simp add: unpackQuestion_def) (simp add: enc_question_def)
qed

interpretation questions: wire_codec appendQuestion unpackQuestion enc_question question_ok
proof unfold_locales
  show "question_ok q \<Longrightarrow> appendQuestion b q = Inr (b @ enc_question q)" for b q
    by (simp add: appendQuestion_def appendName_ok question_ok_def enc_question_def)
qed (rule read_question)

definition enc_txt :: "string list \<Rightarrow> bytes" where
  "enc_txt ss = concat (map (\<lambda>s. word_of_nat (length s) # to_bytes s) ss)"

definition enc_rdata :: "dns_record \<Rightarrow> bytes" where
  "enc_rdata r =
     (if rr_rtype r = typeA then rr_ip r
      else if rr_rtype r = typePTR then enc_name (rr_target r)
      else if rr_rtype r = typeSRV then be16 (rr_prio r) @ be16 (rr_weight r) @ be16 (rr_port r) @ enc_name (rr_target r)
      else if rr_rtype r = typeTXT then enc_txt (rr_txt r)
      else rr_rdata r)"

definition record_head :: "dns_record \<Rightarrow> dns_record" where
  "record_head r = no_record\<lparr>rr_name := rr_name r, rr_rtype := rr_rtype r, rr_class := rr_class r, rr_ttl := rr_ttl r\<rparr>"

text \<open>A record with the fields of its type only, each within the limits of the format.\<close>

definition rr_ok :: "dns_record \<Rightarrow> bool" where
  "rr_ok r \<longleftrightarrow> name_ok (rr_name r) \<and> length (enc_rdata r) < 65536 \<and>
     (if rr_rtype r = typeA then length (rr_ip r) = 4 \<and> r = (record_head r)\<lparr>rr_ip := rr_ip r\<rparr>
      else if rr_rtype r = typePTR then name_ok (rr_target r) \<and> r = (record_head r)\<lparr>rr_target := rr_target r\<rparr>
      else if rr_rtype r = typeSRV then name_ok (rr_target r) \<and>
        r = (record_head r)\<lparr>rr_prio := rr_prio r, rr_weight := rr_weight r, rr_port := rr_port r, rr_target := rr_target r\<rparr>
      else if rr_rtype r = typeTXT then rr_txt r \<noteq> [] \<and> list_all (\<lambda>s. length s \<le> maxTXTString) (rr_txt r) \<and>
        r = (record_head r)\<lparr>rr_txt := rr_txt r\<rparr>
      else r = (record_head r)\<lparr>rr_rdata := rr_rdata r\<rparr>)"

definition enc_rr :: "dns_record \<Rightarrow> bytes" where
  "enc_rr r = enc_name (rr_name r) @ be16 (rr_rtype r) @ be16 (rr_class r) @ be32 (rr_ttl r) @
     be16 (word_of_nat (length (enc_rdata r))) @ enc_rdata r"

lemma pack_txt_ok: "list_all (\<lambda>s. length s \<le> maxTXTString) ss \<Longrightarrow> pack_txt ss = Inr (enc_txt ss)"
  by (induction ss) (simp_all add: enc_txt_def)

lemma packRDATA_ok: "rr_ok r \<Longrightarrow> packRDATA r = Inr (enc_rdata r)"
  by (simp add: rr_ok_def packRDATA_def enc_rdata_def To4_def appendName_ok pack_txt_ok split: if_splits)

lemma appendRecord_ok: "rr_ok r \<Longrightarrow> appendRecord b r = Inr (b @ enc_rr r)"
  by (simp add: appendRecord_def packRDATA_ok enc_rr_def) (simp add: rr_ok_def appendName_ok)

lemma unpack_txt_enc:
  "list_all (\<lambda>s. length s \<le> maxTXTString) ss \<Longrightarrow>
     unpack_txt (pre @ enc_txt ss @ post) (length pre) (length pre + length (enc_txt ss)) = Inr ss"
proof (induction ss arbitrary: pre)
  case Nil
  show ?case by (subst unpack_txt.simps) (simp add: enc_txt_def)
next
  case (Cons s ss)
  let ?msg = "pre @ enc_txt (s # ss) @ post"
  have l: "unat (word_of_nat (length s) :: byte) = length s"
    using Cons.prems by (simp add: unat_of_nat take_bit_eq_mod maxTXTString_def)
  have e: "enc_txt (s # ss) = word_of_nat (length s) # to_bytes s @ enc_txt ss" by (simp add: enc_txt_def)
  have "unpack_txt ?msg (length pre + 1 + length s) (length pre + length (enc_txt (s # ss))) = Inr ss"
    using Cons.IH [of "pre @ word_of_nat (length s) # to_bytes s"] Cons.prems by (simp add: e add.assoc [symmetric])
  then have "unpack_txt ?msg (length pre + 1 + unat (?msg ! length pre)) (length pre + length (enc_txt (s # ss))) = Inr ss"
    by (simp add: e l)
  moreover have "?msg ! length pre = word_of_nat (length s)" "of_bytes (take (length s) (drop (length pre + 1) ?msg)) = s"
    by (simp_all add: e)
  ultimately show ?case by (subst unpack_txt.simps) (simp only: l, simp add: e)
qed

lemma unpack_txt_at:
  "list_all (\<lambda>s. length s \<le> maxTXTString) ss \<Longrightarrow> msg = pre @ enc_txt ss @ post \<Longrightarrow> p = length pre \<Longrightarrow>
     e = length pre + length (enc_txt ss) \<Longrightarrow> unpack_txt msg p e = Inr ss"
  by (simp add: unpack_txt_enc)

lemma unpackRDATA_ok:
  assumes "rr_ok r" and "msg = pre @ enc_rdata r @ post" and "off = length pre"
  shows "unpackRDATA msg (record_head r) off (length (enc_rdata r)) = Inr r"
proof -
  have t: "rr_rtype (record_head r) = rr_rtype r" by (simp add: record_head_def no_record_def)
  have len: "\<not> off + length (enc_rdata r) > length msg" using assms(2,3) by simp
  consider "rr_rtype r = typeA" | "rr_rtype r = typePTR" | "rr_rtype r = typeSRV" | "rr_rtype r = typeTXT"
    | "rr_rtype r \<noteq> typeA" "rr_rtype r \<noteq> typePTR" "rr_rtype r \<noteq> typeSRV" "rr_rtype r \<noteq> typeTXT" by blast
  then show ?thesis
  proof cases
    case 1
    then show ?thesis using assms len by (simp add: unpackRDATA_def t rr_ok_def enc_rdata_def)
  next
    case 2
    then have n: "name_ok (rr_target r)" "r = (record_head r)\<lparr>rr_target := rr_target r\<rparr>" "enc_rdata r = enc_name (rr_target r)"
      using assms(1) by (simp_all add: rr_ok_def enc_rdata_def rr_types)
    have "decodeName msg off = Inr (rr_target r, off + length (enc_name (rr_target r)))"
      using n(1) assms(2,3) by (intro decode_name_at [where pre = pre]) (simp_all add: n(3))
    then show ?thesis using 2 len n(2) by (simp add: unpackRDATA_def t) (simp add: rr_types)
  next
    case 3
    then have n: "name_ok (rr_target r)"
      "r = (record_head r)\<lparr>rr_prio := rr_prio r, rr_weight := rr_weight r, rr_port := rr_port r, rr_target := rr_target r\<rparr>"
      "enc_rdata r = be16 (rr_prio r) @ be16 (rr_weight r) @ be16 (rr_port r) @ enc_name (rr_target r)"
      using assms(1) by (simp_all add: rr_ok_def enc_rdata_def rr_types)
    have d: "decodeName msg (off + 6) = Inr (rr_target r, off + 6 + length (enc_name (rr_target r)))"
      using n(1) assms(2,3)
      by (intro decode_name_at [where pre = "pre @ be16 (rr_prio r) @ be16 (rr_weight r) @ be16 (rr_port r)"]) (simp_all add: n(3))
    have g: "get16 msg off = rr_prio r" "get16 msg (off + 2) = rr_weight r" "get16 msg (off + 4) = rr_port r"
      using assms(2,3) get16_at [of msg pre "rr_prio r" _ off] get16_at [of msg "pre @ be16 (rr_prio r)" "rr_weight r" _ "off + 2"]
        get16_at [of msg "pre @ be16 (rr_prio r) @ be16 (rr_weight r)" "rr_port r" _ "off + 4"]
      by (simp_all add: n(3))
    have g': "get16 msg (Suc (Suc off)) = rr_weight r" using g(2) by (simp only: add_2_eq_Suc')
    have "enc_name (rr_target r) \<noteq> []" by (simp add: enc_name_def)
    then have "\<not> length (enc_rdata r) < 7" by (cases "enc_name (rr_target r)") (simp_all add: n(3))
    then show ?thesis using 3 len n(2) by (simp add: unpackRDATA_def t d g g') (simp add: rr_types)
  next
    case 4
    then have n: "list_all (\<lambda>s. length s \<le> maxTXTString) (rr_txt r)" "r = (record_head r)\<lparr>rr_txt := rr_txt r\<rparr>"
      "enc_rdata r = enc_txt (rr_txt r)"
      using assms(1) by (simp_all add: rr_ok_def enc_rdata_def rr_types)
    have "unpack_txt msg off (off + length (enc_rdata r)) = Inr (rr_txt r)"
      using n(1) assms(2,3) by (intro unpack_txt_at [where pre = pre and post = post]) (simp_all add: n(3))
    then show ?thesis using 4 len n(2) by (simp add: unpackRDATA_def t) (simp add: rr_types)
  next
    case 5
    then have "r = (record_head r)\<lparr>rr_rdata := rr_rdata r\<rparr>" "enc_rdata r = rr_rdata r"
      using assms(1) by (simp_all add: rr_ok_def enc_rdata_def)
    then show ?thesis using 5 len assms(2,3) by (simp add: unpackRDATA_def t)
  qed
qed

lemma read_record:
  assumes "rr_ok r"
  shows "unpackRecord (pre @ enc_rr r @ post) (length pre) = Inr (r, length pre + length (enc_rr r))"
proof -
  let ?n = "enc_name (rr_name r)" and ?d = "enc_rdata r" and ?msg = "pre @ enc_rr r @ post"
  let ?off = "length pre + length ?n"
  have l: "unat (word_of_nat (length ?d) :: 16 word) = length ?d"
    using assms by (simp add: rr_ok_def unat_of_nat take_bit_eq_mod)
  have "decodeName ?msg (length pre) = Inr (rr_name r, ?off)"
    using assms by (intro decode_name_at [where pre = pre]) (simp_all add: rr_ok_def enc_rr_def)
  moreover have "get16 ?msg ?off = rr_rtype r" by (rule get16_at [where pre = "pre @ ?n"]) (simp_all add: enc_rr_def)
  moreover have "get16 ?msg (?off + 2) = rr_class r"
    by (rule get16_at [where pre = "pre @ ?n @ be16 (rr_rtype r)"]) (simp_all add: enc_rr_def)
  moreover have "get32 ?msg (?off + 4) = rr_ttl r"
    by (rule get32_at [where pre = "pre @ ?n @ be16 (rr_rtype r) @ be16 (rr_class r)"]) (simp_all add: enc_rr_def)
  moreover have "get16 ?msg (?off + 8) = word_of_nat (length ?d)"
    by (rule get16_at [where pre = "pre @ ?n @ be16 (rr_rtype r) @ be16 (rr_class r) @ be32 (rr_ttl r)"]) (simp_all add: enc_rr_def)
  moreover have "unpackRDATA ?msg (record_head r) (?off + 10) (length ?d) = Inr r"
    using assms by (rule unpackRDATA_ok [where pre = "pre @ ?n @ be16 (rr_rtype r) @ be16 (rr_class r) @ be32 (rr_ttl r) @ be16 (word_of_nat (length ?d))"])
      (simp_all add: enc_rr_def)
  ultimately show ?thesis
    by (simp add: unpackRecord_def Let_def l record_head_def) (simp add: enc_rr_def)
qed

interpretation records: wire_codec appendRecord unpackRecord enc_rr rr_ok
  by unfold_locales (simp_all add: appendRecord_ok read_record)

subsection \<open>Messages\<close>

definition message_ok :: "message \<Rightarrow> bool" where
  "message_ok m \<longleftrightarrow> list_all question_ok (ms_questions m) \<and>
     list_all rr_ok (ms_answers m) \<and> list_all rr_ok (ms_authority m) \<and> list_all rr_ok (ms_additional m) \<and>
     length (ms_questions m) < 65536 \<and> length (ms_answers m) < 65536 \<and> length (ms_authority m) < 65536 \<and>
     length (ms_additional m) < 65536"

definition enc_message :: "message \<Rightarrow> bytes" where
  "enc_message m = pack_header m @ questions.enc_all (ms_questions m) @ records.enc_all (ms_answers m) @
     records.enc_all (ms_authority m) @ records.enc_all (ms_additional m)"

lemma pack_ok: "message_ok m \<Longrightarrow> pack m = Inr (enc_message m)"
proof -
  assume m: "message_ok m"
  have "list_all rr_ok (ms_answers m @ ms_authority m @ ms_additional m)" using m by (simp add: message_ok_def)
  then show ?thesis
    using m by (simp add: pack_def questions.append_all_enc records.append_all_enc message_ok_def enc_message_def records.enc_all_def)
qed

lemma length_pack_header [simp]: "length (pack_header m) = 12"
  by (simp add: pack_header_def)

lemma header_fields:
  "get16 (pack_header m @ b) 0 = ms_id m" "get16 (pack_header m @ b) 2 = ms_flags m"
  "get16 (pack_header m @ b) 4 = word_of_nat (length (ms_questions m))"
  "get16 (pack_header m @ b) 6 = word_of_nat (length (ms_answers m))"
  "get16 (pack_header m @ b) 8 = word_of_nat (length (ms_authority m))"
  "get16 (pack_header m @ b) 10 = word_of_nat (length (ms_additional m))"
proof -
  let ?q = "be16 (word_of_nat (length (ms_questions m)))" and ?an = "be16 (word_of_nat (length (ms_answers m)))"
    and ?au = "be16 (word_of_nat (length (ms_authority m)))"
  show "get16 (pack_header m @ b) 0 = ms_id m"
    by (rule get16_at [where pre = "[]"]) (simp_all add: pack_header_def)
  show "get16 (pack_header m @ b) 2 = ms_flags m"
    by (rule get16_at [where pre = "be16 (ms_id m)"]) (simp_all add: pack_header_def)
  show "get16 (pack_header m @ b) 4 = word_of_nat (length (ms_questions m))"
    by (rule get16_at [where pre = "be16 (ms_id m) @ be16 (ms_flags m)"]) (simp_all add: pack_header_def)
  show "get16 (pack_header m @ b) 6 = word_of_nat (length (ms_answers m))"
    by (rule get16_at [where pre = "be16 (ms_id m) @ be16 (ms_flags m) @ ?q"]) (simp_all add: pack_header_def)
  show "get16 (pack_header m @ b) 8 = word_of_nat (length (ms_authority m))"
    by (rule get16_at [where pre = "be16 (ms_id m) @ be16 (ms_flags m) @ ?q @ ?an"]) (simp_all add: pack_header_def)
  show "get16 (pack_header m @ b) 10 = word_of_nat (length (ms_additional m))"
    by (rule get16_at [where pre = "be16 (ms_id m) @ be16 (ms_flags m) @ ?q @ ?an @ ?au"]) (simp_all add: pack_header_def)
qed

lemma unat_count: "n < 65536 \<Longrightarrow> unat (word_of_nat n :: 16 word) = n"
  by (simp add: unat_of_nat take_bit_eq_mod)

lemma unpack_enc:
  assumes "message_ok m"
  shows "unpack (enc_message m) = Inr m"
proof -
  let ?h = "pack_header m" and ?q = "questions.enc_all (ms_questions m)" and ?an = "records.enc_all (ms_answers m)"
    and ?au = "records.enc_all (ms_authority m)" and ?ad = "records.enc_all (ms_additional m)"
  let ?msg = "enc_message m"
  have c: "unat (get16 ?msg 4) = length (ms_questions m)" "unat (get16 ?msg 6) = length (ms_answers m)"
    "unat (get16 ?msg 8) = length (ms_authority m)" "unat (get16 ?msg 10) = length (ms_additional m)"
    "get16 ?msg 0 = ms_id m" "get16 ?msg 2 = ms_flags m"
    using assms by (simp_all add: message_ok_def enc_message_def header_fields unat_count)
  have "unpack_all unpackQuestion ?msg (length (ms_questions m)) 12 = Inr (ms_questions m, 12 + length ?q)"
    using assms by (intro questions.read_all_at [where pre = ?h]) (simp_all add: message_ok_def enc_message_def)
  moreover have "unpack_all unpackRecord ?msg (length (ms_answers m)) (12 + length ?q) = Inr (ms_answers m, 12 + length ?q + length ?an)"
    using assms by (intro records.read_all_at [where pre = "?h @ ?q"]) (simp_all add: message_ok_def enc_message_def)
  moreover have "unpack_all unpackRecord ?msg (length (ms_authority m)) (12 + length ?q + length ?an) =
      Inr (ms_authority m, 12 + length ?q + length ?an + length ?au)"
    using assms by (intro records.read_all_at [where pre = "?h @ ?q @ ?an"]) (simp_all add: message_ok_def enc_message_def)
  moreover have "unpack_all unpackRecord ?msg (length (ms_additional m)) (12 + length ?q + length ?an + length ?au) =
      Inr (ms_additional m, 12 + length ?q + length ?an + length ?au + length ?ad)"
    using assms by (intro records.read_all_at [where pre = "?h @ ?q @ ?an @ ?au"]) (simp_all add: message_ok_def enc_message_def)
  ultimately show ?thesis
    by (simp add: unpack_def c headerLen_def) (simp add: enc_message_def)
qed

subsection \<open>What an arbitrary datagram gives\<close>

lemma decode_from_bounds:
  "decode_from msg jumps off nxt sb = Inr (nm, k) \<Longrightarrow> length sb \<le> maxName \<Longrightarrow>
     nm \<noteq> [] \<and> length nm \<le> maxName \<and> (case nxt of None \<Rightarrow> off < k \<and> k \<le> length msg | Some j \<Rightarrow> k = j)"
proof (induction msg jumps off nxt sb rule: decode_from.induct)
  case (1 msg jumps off nxt sb)
  let ?n = "msg ! off"
  have off: "off < length msg" using 1(3) by (subst (asm) decode_from.simps) (simp split: if_splits)
  consider (zero) "?n = 0" | (ptr) "?n \<noteq> 0" "?n AND 0xC0 = 0xC0" | (bad) "?n \<noteq> 0" "?n AND 0xC0 \<noteq> 0xC0" "?n AND 0xC0 \<noteq> 0"
    | (lab) "?n \<noteq> 0" "?n AND 0xC0 = 0" by (cases "?n AND 0xC0 = 0") auto
  then show ?case
  proof cases
    case zero
    then show ?thesis
      using 1(3,4) off by (subst (asm) decode_from.simps) (auto simp: maxName_def split: option.splits if_splits)
  next
    case ptr
    let ?ptr = "unat (get16 msg off AND 0x3FFF)"
    have g: "\<not> off + 1 \<ge> length msg" "\<not> ?ptr \<ge> off" "\<not> jumps + 1 > maxPointerJumps"
      and d: "decode_from msg (jumps + 1) ?ptr (Some (case nxt of None \<Rightarrow> off + 2 | Some k \<Rightarrow> k)) sb = Inr (nm, k)"
      using 1(3) off ptr by (subst (asm) decode_from.simps, simp add: Let_def split: if_splits)+
    show ?thesis
      using 1(1) [OF _ refl ptr g(1) refl g(2,3) d 1(4)] off g(1) by (simp split: option.splits)
  next
    case bad
    then show ?thesis using 1(3) off by (subst (asm) decode_from.simps) (simp add: Let_def)
  next
    case lab
    have c: "?n AND 0xC0 \<noteq> 0xC0" using lab by simp
    let ?sb = "sb @ of_bytes (take (unat ?n) (drop (off + 1) msg)) @ ''.''"
    have g: "\<not> off + 1 + unat ?n > length msg" "\<not> length ?sb > maxName"
      and d: "decode_from msg jumps (off + 1 + unat ?n) nxt ?sb = Inr (nm, k)"
      using 1(3) off lab c by (subst (asm) decode_from.simps, simp add: Let_def split: if_splits)+
    have "length ?sb \<le> maxName" using g(2) by simp
    then show ?thesis
      using 1(2) [OF _ refl lab(1) c _ g(1) refl g(2) d] lab(2) off by (simp split: option.splits)
  qed
qed

lemma decodeName_bounds:
  "decodeName msg off = Inr (nm, k) \<Longrightarrow> nm \<noteq> [] \<and> length nm \<le> maxName \<and> off < k \<and> k \<le> length msg"
  using decode_from_bounds [of msg 0 off None "[]" nm k] by (simp add: decodeName_def)

lemma unpack_all_bounds:
  assumes "\<And>off x k. f msg off = Inr (x, k) \<Longrightarrow> P x \<and> off + c \<le> k \<and> k \<le> length msg"
  shows "unpack_all f msg n off = Inr (xs, k) \<Longrightarrow> length xs = n \<and> list_all P xs \<and> off + c * n \<le> k \<and> (k \<le> length msg \<or> k = off)"
proof (induction n arbitrary: off xs)
  case (Suc n)
  then obtain x j ys where x: "f msg off = Inr (x, j)" "unpack_all f msg n j = Inr (ys, k)" "xs = x # ys"
    by (auto simp: bind_result_Inr_iff)
  from assms [OF x(1)] Suc.IH [OF x(2)] x(3) show ?case by auto
qed simp

definition short_names :: "dns_record \<Rightarrow> bool" where
  "short_names r \<longleftrightarrow> length (rr_name r) \<le> maxName \<and> length (rr_target r) \<le> maxName"

lemma unpackQuestion_bounds:
  "unpackQuestion msg off = Inr (q, k) \<Longrightarrow> length (qn_name q) \<le> maxName \<and> off + 5 \<le> k \<and> k \<le> length msg"
  by (auto simp: unpackQuestion_def bind_result_Inr_iff dest!: decodeName_bounds split: if_splits prod.splits)

lemma unpackRDATA_names:
  "unpackRDATA msg r off n = Inr r' \<Longrightarrow> length (rr_target r) \<le> maxName \<Longrightarrow>
     rr_name r' = rr_name r \<and> length (rr_target r') \<le> maxName"
  by (auto simp: unpackRDATA_def bind_result_Inr_iff dest!: decodeName_bounds split: if_splits prod.splits)

lemma unpackRecord_bounds:
  assumes "unpackRecord msg off = Inr (r, k)"
  shows "short_names r \<and> off + 11 \<le> k \<and> k \<le> length msg"
proof -
  obtain name j where d: "decodeName msg off = Inr (name, j)"
    using assms by (auto simp: unpackRecord_def bind_result_Inr_iff)
  define n where "n = unat (get16 msg (j + 8))"
  define r0 where "r0 = no_record\<lparr>rr_name := name, rr_rtype := get16 msg j, rr_class := get16 msg (j + 2), rr_ttl := get32 msg (j + 4)\<rparr>"
  have u: "unpackRDATA msg r0 (j + 10) n = Inr r" "k = j + 10 + n" "j + 10 + n \<le> length msg"
    using assms unfolding unpackRecord_def d bind_result_simps prod.case Let_def n_def [symmetric] r0_def [symmetric]
    by (auto simp: bind_result_Inr_iff split: if_splits)
  have "rr_name r0 = name" "rr_target r0 = []" by (simp_all add: r0_def no_record_def)
  with decodeName_bounds [OF d] unpackRDATA_names [OF u(1)] u show ?thesis by (simp add: short_names_def)
qed

text \<open>
  A datagram cannot make the parser do more than it pays for.  Of any bytes whatever, \<open>unpack\<close> ends
  with an error or with a message whose names are at most 255 bytes, and which has at most one question
  for five bytes and one record for eleven of the datagram, however large the counts in its header and
  however its compression pointers are set.
\<close>

theorem unpack_bounded:
  assumes "unpack buf = Inr m"
  shows "list_all (\<lambda>q. length (qn_name q) \<le> maxName) (ms_questions m) \<and>
    list_all short_names (ms_answers m @ ms_authority m @ ms_additional m) \<and>
    12 + 5 * length (ms_questions m) + 11 * length (ms_answers m @ ms_authority m @ ms_additional m) \<le> length buf"
proof -
  obtain qs an au ad o1 o2 o3 o4 where len: "12 \<le> length buf"
    and q: "unpack_all unpackQuestion buf (unat (get16 buf 4)) 12 = Inr (qs, o1)"
    and a: "unpack_all unpackRecord buf (unat (get16 buf 6)) o1 = Inr (an, o2)"
    and b: "unpack_all unpackRecord buf (unat (get16 buf 8)) o2 = Inr (au, o3)"
    and c: "unpack_all unpackRecord buf (unat (get16 buf 10)) o3 = Inr (ad, o4)"
    and m: "ms_questions m = qs" "ms_answers m = an" "ms_authority m = au" "ms_additional m = ad"
    using assms by (auto simp: unpack_def bind_result_Inr_iff headerLen_def split: if_splits prod.splits)
  note Q = unpack_all_bounds [of unpackQuestion buf "\<lambda>q. length (qn_name q) \<le> maxName" 5, OF unpackQuestion_bounds q]
  note A = unpack_all_bounds [of unpackRecord buf short_names 11, OF unpackRecord_bounds a]
  note B = unpack_all_bounds [of unpackRecord buf short_names 11, OF unpackRecord_bounds b]
  note C = unpack_all_bounds [of unpackRecord buf short_names 11, OF unpackRecord_bounds c]
  show ?thesis
    using len Q A B C by (auto simp: m)
qed

text \<open>A query for the host, as a resolver sends it.\<close>

definition sample_query :: message where
  "sample_query = \<lparr>ms_id = 7, ms_flags = 0, ms_questions = [\<lparr>qn_name = ''ai-usage.local.'', qn_qtype = typeA, qn_class = classIN\<rparr>],
     ms_answers = [], ms_authority = [], ms_additional = []\<rparr>"

lemma sample_query_ok: "message_ok sample_query"
  by (simp add: message_ok_def sample_query_def question_ok_def name_ok_def labels_of_def label_ok_def name_limits)

theorem unpack_bounded_witness:
  "12 + 5 * length (ms_questions sample_query) \<le> length (enc_message sample_query)"
  using unpack_bounded [OF unpack_enc [OF sample_query_ok]] by simp

text \<open>
  C25: what is packed is unpacked.  A message whose names, strings and data fit the format is packed
  without error, and unpacking the packet gives the same message, field by field.
\<close>

theorem message_roundtrip:
  assumes "message_ok m"
  shows "\<exists>b. pack m = Inr b \<and> unpack b = Inr m"
  using pack_ok [OF assms] unpack_enc [OF assms] by blast

theorem message_roundtrip_witness: "\<exists>b. pack sample_query = Inr b \<and> unpack b = Inr sample_query"
  by (rule message_roundtrip [OF sample_query_ok])

end
