(* ===== verification/Mdns_Service.thy ===== *)
theory Mdns_Service
  imports Mdns_Codec
begin

text \<open>
  internal/mdns/service.go: the records this agent publishes and how it answers one query.  The Unicode
  tables behind \<open>strings.ToLower\<close> and \<open>strings.EqualFold\<close> are a parameter, used for names that are not
  ASCII only.
\<close>

record case_tables =
  uni_lower :: "string \<Rightarrow> string"
  uni_fold :: "string \<Rightarrow> string \<Rightarrow> bool"

definition to_lower :: "case_tables \<Rightarrow> string \<Rightarrow> string" where
  "to_lower u s = (if ascii s then map lower_char s else uni_lower u s)"

definition EqualFold :: "case_tables \<Rightarrow> string \<Rightarrow> string \<Rightarrow> bool" where
  "EqualFold u s t = (if ascii s \<and> ascii t then map lower_char s = map lower_char t else uni_fold u s t)"

subsection \<open>The service and its records\<close>

definition HostLabel :: string where "HostLabel = ''ai-usage''"
definition ServiceType :: string where "ServiceType = ''_ai-usage._tcp''"
definition serviceEnumName :: string where "serviceEnumName = ''_services._dns-sd._udp.local.''"
definition hostTTL :: "32 word" where "hostTTL = 120"
definition serviceTTL :: "32 word" where "serviceTTL = 4500"
definition legacyTTL :: "32 word" where "legacyTTL = 10"
definition usagePath :: string where "usagePath = ''/v1/usage''"

definition defaultTXT :: "string list" where
  "defaultTXT = [''txtvers=1'', ''path='' @ usagePath]"

record service =
  sv_host :: string
  sv_instance :: string
  sv_type :: string
  sv_port :: "16 word"
  sv_txt :: "string list"

definition hostName :: "service \<Rightarrow> string" where
  "hostName s = sv_host s @ ''.local.''"

definition typeName :: "service \<Rightarrow> string" where
  "typeName s = sv_type s @ ''.local.''"

definition instanceName :: "service \<Rightarrow> string" where
  "instanceName s = sv_instance s @ ''.'' @ sv_type s @ ''.local.''"

definition aRecord :: "service \<Rightarrow> bytes \<Rightarrow> dns_record option" where
  "aRecord s ip = (case To4 ip of None \<Rightarrow> None
     | Some ip4 \<Rightarrow> Some (no_record\<lparr>rr_name := hostName s, rr_rtype := typeA, rr_class := classIN OR classFlag,
         rr_ttl := hostTTL, rr_ip := ip4\<rparr>))"

definition srvRecord :: "service \<Rightarrow> dns_record" where
  "srvRecord s = no_record\<lparr>rr_name := instanceName s, rr_rtype := typeSRV, rr_class := classIN OR classFlag,
     rr_ttl := hostTTL, rr_target := hostName s, rr_port := sv_port s\<rparr>"

definition txtRecord :: "service \<Rightarrow> dns_record" where
  "txtRecord s = no_record\<lparr>rr_name := instanceName s, rr_rtype := typeTXT, rr_class := classIN OR classFlag,
     rr_ttl := hostTTL, rr_txt := sv_txt s\<rparr>"

definition ptrRecord :: "service \<Rightarrow> dns_record" where
  "ptrRecord s = no_record\<lparr>rr_name := typeName s, rr_rtype := typePTR, rr_class := classIN, rr_ttl := serviceTTL,
     rr_target := instanceName s\<rparr>"

definition enumRecord :: "service \<Rightarrow> dns_record" where
  "enumRecord s = no_record\<lparr>rr_name := serviceEnumName, rr_rtype := typePTR, rr_class := classIN, rr_ttl := serviceTTL,
     rr_target := typeName s\<rparr>"

definition opt_list :: "'a option \<Rightarrow> 'a list" where
  "opt_list x = (case x of None \<Rightarrow> [] | Some y \<Rightarrow> [y])"

definition all_records :: "service \<Rightarrow> bytes \<Rightarrow> dns_record list" where
  "all_records s ip = [ptrRecord s, srvRecord s, txtRecord s] @ opt_list (aRecord s ip)"

definition no_message :: message where
  "no_message = \<lparr>ms_id = 0, ms_flags = 0, ms_questions = [], ms_answers = [], ms_authority = [], ms_additional = []\<rparr>"

definition announcement :: "service \<Rightarrow> bytes \<Rightarrow> message" where
  "announcement s ip = no_message\<lparr>ms_flags := flagResponse OR flagAuthoritative, ms_answers := all_records s ip\<rparr>"

definition goodbye :: "service \<Rightarrow> bytes \<Rightarrow> message" where
  "goodbye s ip = (let m = announcement s ip in m\<lparr>ms_answers := map (\<lambda>r. r\<lparr>rr_ttl := 0\<rparr>) (ms_answers m)\<rparr>)"

subsection \<open>Answering\<close>

definition containsRecord :: "case_tables \<Rightarrow> dns_record list \<Rightarrow> dns_record \<Rightarrow> bool" where
  "containsRecord u rs r = list_ex (\<lambda>e. rr_rtype e = rr_rtype r \<and> EqualFold u (rr_name e) (rr_name r)) rs"

fun appendUnique :: "case_tables \<Rightarrow> dns_record list \<Rightarrow> dns_record list \<Rightarrow> dns_record list" where
  "appendUnique u dst [] = dst"
| "appendUnique u dst (r # rs) = appendUnique u (if containsRecord u dst r then dst else dst @ [r]) rs"

definition answer :: "case_tables \<Rightarrow> service \<Rightarrow> question \<Rightarrow> bytes \<Rightarrow> dns_record list \<times> dns_record list" where
  "answer u s qn ip =
     (let name = to_lower u (qn_name qn); t = qn_qtype qn; addr = opt_list (aRecord s ip) in
      if name = to_lower u (hostName s) then
        (if t = typeA \<or> t = typeANY then (addr, []) else ([], []))
      else if name = to_lower u (typeName s) then
        (if t = typePTR \<or> t = typeANY then ([ptrRecord s], [srvRecord s, txtRecord s] @ addr) else ([], []))
      else if name = to_lower u (instanceName s) then
        (if t = typeSRV then ([srvRecord s], addr)
         else if t = typeTXT then ([txtRecord s], [])
         else if t = typeANY then ([srvRecord s, txtRecord s], addr)
         else ([], []))
      else if name = serviceEnumName then
        (if t = typePTR \<or> t = typeANY then ([enumRecord s], []) else ([], []))
      else ([], []))"

definition legacy_record :: "dns_record \<Rightarrow> dns_record" where
  "legacy_record r = r\<lparr>rr_class := rr_class r AND classMask, rr_ttl := (if rr_ttl r > legacyTTL then legacyTTL else rr_ttl r)\<rparr>"

definition makeLegacy :: "dns_record list \<Rightarrow> dns_record list" where
  "makeLegacy rs = map legacy_record rs"

text \<open>One pass of the loop over the questions.\<close>

definition class_ok :: "question \<Rightarrow> bool" where
  "class_ok qn \<longleftrightarrow> qn_class qn AND classMask = classIN \<or> qn_class qn AND classMask = classANY"

definition respond_one ::
  "case_tables \<Rightarrow> service \<Rightarrow> bytes \<Rightarrow> question \<Rightarrow> bool \<times> dns_record list \<times> dns_record list \<Rightarrow>
     bool \<times> dns_record list \<times> dns_record list"
where
  "respond_one u s ip qn = (\<lambda>(unicast, an, ad).
     let unicast = unicast \<or> qn_class qn AND classFlag \<noteq> 0 in
     if \<not> class_ok qn then (unicast, an, ad)
     else (let (a, d) = answer u s qn ip in (unicast, appendUnique u an a, appendUnique u ad d)))"

definition respond ::
  "case_tables \<Rightarrow> service \<Rightarrow> message option \<Rightarrow> bytes \<Rightarrow> bool \<Rightarrow> message option \<times> bool"
where
  "respond u s mq ip legacy =
     (case mq of None \<Rightarrow> (None, False)
      | Some q \<Rightarrow>
        if ms_flags q AND flagResponse \<noteq> 0 \<or> ms_flags q AND opcodeMask \<noteq> 0 then (None, False)
        else
          (let (unicast, answers, additional) = fold (respond_one u s ip) (ms_questions q) (legacy, [], []) in
           if answers = [] then (None, False)
           else
             (let extra = filter (\<lambda>r. \<not> containsRecord u answers r) additional;
                  m = no_message\<lparr>ms_flags := flagResponse OR flagAuthoritative, ms_answers := answers, ms_additional := extra\<rparr>;
                  m = (if legacy then m\<lparr>ms_id := ms_id q, ms_questions := ms_questions q,
                         ms_answers := makeLegacy answers, ms_additional := makeLegacy extra\<rparr> else m)
              in (Some m, unicast))))"

subsection \<open>One pass over the questions\<close>

text \<open>Records are compared by type and name, without regard to case.\<close>

definition rr_key :: "dns_record \<Rightarrow> 16 word \<times> string" where
  "rr_key r = (rr_rtype r, map lower_char (rr_name r))"

definition sv_ascii :: "service \<Rightarrow> bool" where
  "sv_ascii s \<longleftrightarrow> ascii (sv_host s) \<and> ascii (sv_type s) \<and> ascii (sv_instance s)"

text \<open>The records a service can ever send.\<close>

definition own_records :: "service \<Rightarrow> bytes \<Rightarrow> dns_record list" where
  "own_records s ip = all_records s ip @
     (if map lower_char (typeName s) = serviceEnumName then [] else [enumRecord s])"

definition standard_query :: "message \<Rightarrow> bool" where
  "standard_query q \<longleftrightarrow> ms_flags q AND flagResponse = 0 \<and> ms_flags q AND opcodeMask = 0"

lemmas record_defs = aRecord_def srvRecord_def txtRecord_def ptrRecord_def enumRecord_def no_record_def

lemma ascii_append [simp]: "ascii (s @ t) \<longleftrightarrow> ascii s \<and> ascii t"
  by (auto simp: ascii_def)

lemma ascii_names:
  assumes "sv_ascii s"
  shows "ascii (hostName s)" "ascii (typeName s)" "ascii (instanceName s)" "ascii serviceEnumName"
proof -
  have "ascii ''.local.''" "ascii ''.''" "ascii serviceEnumName" by code_simp+
  then show "ascii (hostName s)" "ascii (typeName s)" "ascii (instanceName s)" "ascii serviceEnumName"
    using assms ascii_append [of "''.''" "sv_type s @ ''.local.''"]
    by (simp_all add: sv_ascii_def hostName_def typeName_def instanceName_def)
qed

lemma own_names: "sv_ascii s \<Longrightarrow> r \<in> set (own_records s ip) \<Longrightarrow> ascii (rr_name r)"
  by (auto simp: own_records_def all_records_def record_defs opt_list_def ascii_names split: option.splits if_splits)

lemma own_cases:
  assumes "r \<in> set (own_records s ip)"
  shows "rr_rtype r = typeSRV \<and> r = srvRecord s \<or> rr_rtype r = typeTXT \<and> r = txtRecord s \<or>
    rr_rtype r = typeA \<and> aRecord s ip = Some r \<or> rr_rtype r = typePTR \<and> r = ptrRecord s \<or>
    rr_rtype r = typePTR \<and> r = enumRecord s \<and> map lower_char (typeName s) \<noteq> serviceEnumName"
proof -
  have "rr_rtype (srvRecord s) = typeSRV" "rr_rtype (txtRecord s) = typeTXT" "rr_rtype (ptrRecord s) = typePTR"
    "rr_rtype (enumRecord s) = typePTR" by (simp_all add: record_defs)
  moreover have "aRecord s ip = Some r \<Longrightarrow> rr_rtype r = typeA" by (auto simp: aRecord_def split: option.splits)
  ultimately show ?thesis
    using assms by (auto simp: own_records_def all_records_def opt_list_def split: option.splits if_splits)
qed

lemma ptr_names: "rr_name (ptrRecord s) = typeName s" "map lower_char (rr_name (enumRecord s)) = serviceEnumName"
  by (simp add: ptrRecord_def, simp add: enumRecord_def, code_simp)

definition key_record :: "service \<Rightarrow> bytes \<Rightarrow> 16 word \<times> string \<Rightarrow> dns_record" where
  "key_record s ip k =
     (if fst k = typeSRV then srvRecord s else if fst k = typeTXT then txtRecord s
      else if fst k = typeA then the (aRecord s ip)
      else if snd k = map lower_char (typeName s) then ptrRecord s else enumRecord s)"

lemma key_record_own: "r \<in> set (own_records s ip) \<Longrightarrow> key_record s ip (rr_key r) = r"
proof (drule own_cases, elim disjE conjE)
  assume "r = ptrRecord s" "rr_rtype r = typePTR"
  then show ?thesis using ptr_names(1) [of s] by (simp add: key_record_def rr_key_def rr_types)
next
  assume "r = enumRecord s" "rr_rtype r = typePTR" "map lower_char (typeName s) \<noteq> serviceEnumName"
  then show ?thesis using ptr_names(2) [of s] by (simp add: key_record_def rr_key_def rr_types)
qed (simp_all add: key_record_def rr_key_def rr_types)

lemma own_keys:
  "r \<in> set (own_records s ip) \<Longrightarrow> r' \<in> set (own_records s ip) \<Longrightarrow> rr_key r = rr_key r' \<Longrightarrow> r = r'"
  using key_record_own by metis

lemma answer_own:
  assumes "sv_ascii s"
  shows "set (fst (answer u s qn ip)) \<subseteq> set (own_records s ip)" "set (snd (answer u s qn ip)) \<subseteq> set (own_records s ip)"
proof -
  have e: "to_lower u (typeName s) = map lower_char (typeName s)"
    by (simp add: to_lower_def ascii_names [OF assms])
  have o: "{ptrRecord s, srvRecord s, txtRecord s} \<subseteq> set (own_records s ip)"
    "set (opt_list (aRecord s ip)) \<subseteq> set (own_records s ip)"
    "map lower_char (typeName s) \<noteq> serviceEnumName \<Longrightarrow> enumRecord s \<in> set (own_records s ip)"
    by (auto simp: own_records_def all_records_def)
  show "set (fst (answer u s qn ip)) \<subseteq> set (own_records s ip)" "set (snd (answer u s qn ip)) \<subseteq> set (own_records s ip)"
    using o unfolding answer_def Let_def e by (simp_all split: if_split)
qed

lemma containsRecord_key:
  assumes "sv_ascii s" "set rs \<subseteq> set (own_records s ip)" "r \<in> set (own_records s ip)"
  shows "containsRecord u rs r \<longleftrightarrow> r \<in> set rs"
proof -
  have "EqualFold u (rr_name e) (rr_name r) \<longleftrightarrow> map lower_char (rr_name e) = map lower_char (rr_name r)" if "e \<in> set rs" for e
    using own_names [OF assms(1)] assms(2,3) that by (auto simp: EqualFold_def)
  then have "containsRecord u rs r \<longleftrightarrow> (\<exists>e \<in> set rs. rr_key e = rr_key r)"
    by (auto simp: containsRecord_def list_ex_iff rr_key_def)
  also have "\<dots> \<longleftrightarrow> r \<in> set rs"
    using own_keys assms(2,3) by blast
  finally show ?thesis .
qed

lemma appendUnique_own:
  assumes "sv_ascii s"
  shows "set dst \<subseteq> set (own_records s ip) \<Longrightarrow> set rs \<subseteq> set (own_records s ip) \<Longrightarrow> distinct dst \<Longrightarrow>
    set (appendUnique u dst rs) = set dst \<union> set rs \<and> distinct (appendUnique u dst rs)"
  by (induction rs arbitrary: dst) (auto simp: containsRecord_key [OF assms])

definition wanted :: "(dns_record list \<times> dns_record list \<Rightarrow> dns_record list) \<Rightarrow> case_tables \<Rightarrow> service \<Rightarrow> bytes \<Rightarrow> question list \<Rightarrow> dns_record set" where
  "wanted part u s ip qns = (\<Union>qn \<in> {qn \<in> set qns. class_ok qn}. set (part (answer u s qn ip)))"

lemma wanted_simps [simp]:
  "wanted part u s ip [] = {}"
  "wanted part u s ip (qn # qns) = (if class_ok qn then set (part (answer u s qn ip)) else {}) \<union> wanted part u s ip qns"
  by (auto simp: wanted_def)

lemma wanted_own:
  assumes "sv_ascii s"
  shows "wanted fst u s ip qns \<subseteq> set (own_records s ip)" "wanted snd u s ip qns \<subseteq> set (own_records s ip)"
  unfolding wanted_def using answer_own [OF assms] by blast+

lemma respond_one_simp:
  "answer u s qn ip = (a, d) \<Longrightarrow> respond_one u s ip qn (uc, an, ad) =
     (if class_ok qn then (uc \<or> qn_class qn AND classFlag \<noteq> 0, appendUnique u an a, appendUnique u ad d)
      else (uc \<or> qn_class qn AND classFlag \<noteq> 0, an, ad))"
  by (simp add: respond_one_def Let_def)

lemma respond_fold:
  assumes "sv_ascii s"
  shows "set an \<subseteq> set (own_records s ip) \<Longrightarrow> set ad \<subseteq> set (own_records s ip) \<Longrightarrow> distinct an \<Longrightarrow> distinct ad \<Longrightarrow>
    fold (respond_one u s ip) qns (uc, an, ad) = (uc', an', ad') \<Longrightarrow>
    set an' = set an \<union> wanted fst u s ip qns \<and> set ad' = set ad \<union> wanted snd u s ip qns \<and> distinct an' \<and> distinct ad' \<and>
    uc' = (uc \<or> list_ex (\<lambda>qn. qn_class qn AND classFlag \<noteq> 0) qns)"
proof (induction qns arbitrary: uc an ad)
  case (Cons qn qns)
  obtain a d where ans: "answer u s qn ip = (a, d)" by force
  have own: "set a \<subseteq> set (own_records s ip)" "set d \<subseteq> set (own_records s ip)"
    using answer_own [OF assms, of u qn ip] by (simp_all add: ans)
  note A = appendUnique_own [OF assms Cons.prems(1) own(1) Cons.prems(3), of u]
  note D = appendUnique_own [OF assms Cons.prems(2) own(2) Cons.prems(4), of u]
  show ?case
  proof (cases "class_ok qn")
    case True
    with Cons.prems(5) have step: "fold (respond_one u s ip) qns
        (uc \<or> qn_class qn AND classFlag \<noteq> 0, appendUnique u an a, appendUnique u ad d) = (uc', an', ad')"
      by (simp add: respond_one_simp [OF ans])
    have "set (appendUnique u an a) \<subseteq> set (own_records s ip)" "set (appendUnique u ad d) \<subseteq> set (own_records s ip)"
      using A D own Cons.prems(1,2) by simp_all
    from Cons.IH [OF this _ _ step] A D True show ?thesis by (simp add: ans Un_assoc)
  next
    case False
    with Cons.prems(5) have "fold (respond_one u s ip) qns (uc \<or> qn_class qn AND classFlag \<noteq> 0, an, ad) = (uc', an', ad')"
      by (simp add: respond_one_simp [OF ans])
    from Cons.IH [OF Cons.prems(1-4) this] False show ?thesis by simp
  qed
qed auto

subsection \<open>What is answered\<close>

lemma distinct_keys:
  "set rs \<subseteq> set (own_records s ip) \<Longrightarrow> distinct rs \<Longrightarrow> distinct (map rr_key rs)"
  unfolding distinct_map inj_on_def using own_keys by blast

lemma rr_key_legacy [simp]: "rr_key (legacy_record r) = rr_key r"
  by (simp add: rr_key_def legacy_record_def)

lemma map_key_legacy [simp]: "map rr_key (makeLegacy rs) = map rr_key rs"
  by (simp add: makeLegacy_def)

text \<open>Every reply has the response bit, so no responder answers it.\<close>

lemma respond_reply:
  assumes "respond u s (Some q) ip legacy = (Some m, b)"
  shows "standard_query q" "ms_flags m = flagResponse OR flagAuthoritative" "ms_authority m = []"
    "ms_id m = (if legacy then ms_id q else 0)" "ms_questions m = (if legacy then ms_questions q else [])"
  using assms
  by (auto simp: respond_def standard_query_def Let_def no_message_def split: prod.splits if_splits)

lemma response_not_answered: "ms_flags m AND flagResponse \<noteq> 0 \<Longrightarrow> respond u s (Some m) ip legacy = (None, False)"
  by (simp add: respond_def)

lemma reply_flags: "(flagResponse OR flagAuthoritative) AND flagResponse \<noteq> 0"
  by (simp add: flagResponse_def flagAuthoritative_def)

lemma set_makeLegacy: "set (makeLegacy rs) = legacy_record ` set rs"
  by (simp add: makeLegacy_def)

lemma respond_sections:
  assumes "sv_ascii s" "standard_query q"
  shows "case respond u s (Some q) ip legacy of
      (None, b) \<Rightarrow> wanted fst u s ip (ms_questions q) = {} \<and> \<not> b
    | (Some m, b) \<Rightarrow> wanted fst u s ip (ms_questions q) \<noteq> {} \<and>
        set (ms_answers m) = (if legacy then legacy_record else id) ` wanted fst u s ip (ms_questions q) \<and>
        set (ms_additional m) = (if legacy then legacy_record else id) `
          (wanted snd u s ip (ms_questions q) - wanted fst u s ip (ms_questions q)) \<and>
        distinct (map rr_key (ms_answers m @ ms_additional m)) \<and>
        b = (legacy \<or> list_ex (\<lambda>qn. qn_class qn AND classFlag \<noteq> 0) (ms_questions q))"
proof -
  obtain uc an ad where f: "fold (respond_one u s ip) (ms_questions q) (legacy, [], []) = (uc, an, ad)"
    by (metis prod_cases3)
  let ?W = "wanted fst u s ip (ms_questions q)" and ?A = "wanted snd u s ip (ms_questions q)"
  have r: "set an = ?W" "set ad = ?A" "distinct an" "distinct ad"
      "uc = (legacy \<or> list_ex (\<lambda>qn. qn_class qn AND classFlag \<noteq> 0) (ms_questions q))"
    using respond_fold [OF assms(1) _ _ _ _ f] by simp_all
  have own: "set an \<subseteq> set (own_records s ip)" "set ad \<subseteq> set (own_records s ip)"
    unfolding r using wanted_own [OF assms(1)] by blast+
  define ex where "ex = filter (\<lambda>r. \<not> containsRecord u an r) ad"
  have ex: "set ex = ?A - ?W" "distinct ex"
    using containsRecord_key [OF assms(1) own(1)] own(2) r by (auto simp: ex_def)
  have keys: "distinct (map rr_key (an @ ex))"
    using distinct_keys [of "an @ ex" s ip] own ex r by auto
  show ?thesis
  proof (cases "an = []")
    case True
    then show ?thesis using assms(2) f r by (simp add: respond_def standard_query_def)
  next
    case False
    then have "?W \<noteq> {}" using r by auto
    with False show ?thesis
      using assms(2) f r ex keys
      by (simp add: respond_def standard_query_def no_message_def ex_def [symmetric] set_makeLegacy)
  qed
qed

subsection \<open>Every reply can be packed\<close>

definition service_ok :: "service \<Rightarrow> bool" where
  "service_ok s \<longleftrightarrow> sv_ascii s \<and> name_ok (hostName s) \<and> name_ok (typeName s) \<and> name_ok (instanceName s) \<and>
     sv_txt s \<noteq> [] \<and> list_all (\<lambda>t. length t \<le> maxTXTString) (sv_txt s) \<and> length (enc_txt (sv_txt s)) < 65536"

lemma name_ok_short: "name_ok nm \<Longrightarrow> length (enc_name nm) < 256"
  by (auto simp: name_ok_def enc_name_def length_enc_labels dotted_labels_of name_limits)

lemma enum_name_ok: "name_ok serviceEnumName"
  by (simp add: name_ok_def labels_of_def label_ok_def serviceEnumName_def name_limits)

lemma rr_ok_retimed [simp]: "rr_ok (r\<lparr>rr_ttl := t\<rparr>) = rr_ok r" "rr_ok (r\<lparr>rr_class := c\<rparr>) = rr_ok r"
  "rr_ok (r\<lparr>rr_class := c, rr_ttl := t\<rparr>) = rr_ok r"
  by (cases r; simp add: rr_ok_def record_head_def no_record_def enc_rdata_def)+

lemma rr_ok_legacy [simp]: "rr_ok (legacy_record r) = rr_ok r"
  by (simp add: legacy_record_def)

lemma enc_rdata_types:
  "enc_rdata (ptrRecord s) = enc_name (instanceName s)" "enc_rdata (enumRecord s) = enc_name (typeName s)"
  "enc_rdata (srvRecord s) = be16 0 @ be16 0 @ be16 (sv_port s) @ enc_name (hostName s)"
  "enc_rdata (txtRecord s) = enc_txt (sv_txt s)"
  by (simp_all add: enc_rdata_def record_defs rr_types)

lemma own_ok:
  assumes "service_ok s" "r \<in> set (own_records s ip)"
  shows "rr_ok r"
proof -
  have n: "name_ok (hostName s)" "name_ok (typeName s)" "name_ok (instanceName s)" using assms(1) by (simp_all add: service_ok_def)
  note short = n [THEN name_ok_short]
  have "rr_ok (ptrRecord s)"
    unfolding rr_ok_def enc_rdata_types using n short by (simp add: ptrRecord_def rr_types record_head_def no_record_def)
  moreover have "rr_ok (enumRecord s)"
    unfolding rr_ok_def enc_rdata_types using n short enum_name_ok
    by (simp add: enumRecord_def rr_types record_head_def no_record_def)
  moreover have "rr_ok (srvRecord s)"
    unfolding rr_ok_def enc_rdata_types using n short by (simp add: srvRecord_def rr_types record_head_def no_record_def)
  moreover have "rr_ok (txtRecord s)"
    unfolding rr_ok_def enc_rdata_types using n assms(1)
    by (simp add: service_ok_def txtRecord_def rr_types record_head_def no_record_def)
  moreover have "rr_ok a" if "aRecord s ip = Some a" for a
    using that n by (auto simp: rr_ok_def aRecord_def To4_def rr_types record_head_def no_record_def enc_rdata_def
        split: option.splits if_splits)
  ultimately show ?thesis using own_cases [OF assms(2)] by blast
qed

lemma own_length: "length (own_records s ip) \<le> 5"
  by (simp add: own_records_def all_records_def opt_list_def split: option.split)

lemma reply_ok:
  assumes s: "service_ok s" and r: "respond u s (Some q) ip legacy = (Some m, b)"
    and q: "legacy \<longrightarrow> list_all question_ok (ms_questions q) \<and> length (ms_questions q) < 65536"
  shows "message_ok m"
proof -
  have a: "sv_ascii s" using s by (simp add: service_ok_def)
  let ?own = "(if legacy then legacy_record else id) ` set (own_records s ip)"
  have w: "set (ms_answers m) = (if legacy then legacy_record else id) ` wanted fst u s ip (ms_questions q)"
      "set (ms_additional m) = (if legacy then legacy_record else id) `
         (wanted snd u s ip (ms_questions q) - wanted fst u s ip (ms_questions q))"
    and d: "distinct (map rr_key (ms_answers m @ ms_additional m))"
    using respond_sections [OF a respond_reply(1) [OF r], of u ip legacy, unfolded r prod.case option.case]
    by blast+
  have sub: "set (ms_answers m) \<subseteq> ?own" "set (ms_additional m) \<subseteq> ?own"
    unfolding w using wanted_own [OF a, of u ip "ms_questions q"] by blast+
  have "finite ?own" "card ?own \<le> 5"
    using own_length [of s ip] card_image_le [of "set (own_records s ip)"] card_length [of "own_records s ip"]
    by (auto intro: order_trans)
  moreover have "distinct (ms_answers m)" "distinct (ms_additional m)"
    using d by (simp_all add: distinct_map)
  ultimately have "length (ms_answers m) \<le> 5" "length (ms_additional m) \<le> 5"
    using sub card_mono by (metis distinct_card order_trans)+
  moreover have "list_all rr_ok (ms_answers m)" "list_all rr_ok (ms_additional m)"
    using sub own_ok [OF s] by (auto simp: list_all_iff split: if_splits)
  ultimately show ?thesis
    using respond_reply [OF r] q by (simp add: message_ok_def)
qed

lemma announcement_ok:
  assumes "service_ok s"
  shows "message_ok (announcement s ip)" "message_ok (goodbye s ip)"
proof -
  have "rr_ok r" if "r \<in> set (all_records s ip)" for r
    using own_ok [OF assms, of r ip] that by (simp add: own_records_def)
  moreover have "length (all_records s ip) \<le> 4" by (simp add: all_records_def opt_list_def split: option.split)
  ultimately show "message_ok (announcement s ip)" "message_ok (goodbye s ip)"
    by (auto simp: message_ok_def announcement_def goodbye_def no_message_def list_all_iff)
qed

subsection \<open>The contract of a reply\<close>

text \<open>
  What a query is answered with.  To a standard query the reply has, in some order and each record
  once over both sections, the records that \<open>answer\<close> gives for its questions of class IN or ANY, and as
  additional records those it suggests which are not answers already; there is no reply exactly when there
  is no answer.  It goes to the sender alone if he is an ordinary resolver, who gets his identifier and his
  questions back and records that live ten seconds at most and do not flush caches, or if some question
  asks for it; otherwise to the group, with identifier 0 and no question.
\<close>

theorem respond_contract:
  assumes "sv_ascii s" "standard_query q"
  shows "case respond u s (Some q) ip legacy of
      (None, b) \<Rightarrow> wanted fst u s ip (ms_questions q) = {} \<and> \<not> b
    | (Some m, b) \<Rightarrow> wanted fst u s ip (ms_questions q) \<noteq> {} \<and>
        set (ms_answers m) = (if legacy then legacy_record else id) ` wanted fst u s ip (ms_questions q) \<and>
        set (ms_additional m) = (if legacy then legacy_record else id) `
          (wanted snd u s ip (ms_questions q) - wanted fst u s ip (ms_questions q)) \<and>
        distinct (map rr_key (ms_answers m @ ms_additional m)) \<and>
        b = (legacy \<or> list_ex (\<lambda>qn. qn_class qn AND classFlag \<noteq> 0) (ms_questions q)) \<and>
        ms_id m = (if legacy then ms_id q else 0) \<and> ms_questions m = (if legacy then ms_questions q else []) \<and>
        (legacy \<longrightarrow> list_all (\<lambda>r. rr_ttl r \<le> 10 \<and> rr_class r AND classFlag = 0) (ms_answers m @ ms_additional m))"
proof (cases "respond u s (Some q) ip legacy")
  case (Pair mo b)
  note S = respond_sections [OF assms, of u ip legacy, unfolded Pair prod.case]
  show ?thesis
  proof (cases mo)
    case None
    then show ?thesis using S Pair by simp
  next
    case (Some m)
    have "rr_ttl (legacy_record r) \<le> 10 \<and> rr_class (legacy_record r) AND classFlag = 0" for r
      by (simp add: legacy_record_def legacyTTL_def classMask_def classFlag_def and.assoc not_less)
    then have "legacy \<longrightarrow> list_all (\<lambda>r. rr_ttl r \<le> 10 \<and> rr_class r AND classFlag = 0) (ms_answers m @ ms_additional m)"
      using S [unfolded Some option.case] by (auto simp: list_all_iff)
    then show ?thesis
      using S [unfolded Some option.case] respond_reply(4,5) [OF Pair [unfolded Some]]
      unfolding Pair Some prod.case option.case by blast
  qed
qed

text \<open>
  Two responders never answer each other.  Whatever one of them replies, the other, or the same one on
  hearing itself, says nothing to it; nor to anything unpacked from the packet it was sent as.
\<close>

theorem reply_never_answered:
  assumes "respond u s (Some q) ip legacy = (Some m, b)"
  shows "respond u' s' (Some m) ip' legacy' = (None, False)"
  using respond_reply(2) [OF assms] reply_flags by (simp add: response_not_answered)

definition plain_tables :: case_tables where
  "plain_tables = \<lparr>uni_lower = id, uni_fold = (=)\<rparr>"

definition sample_service :: service where
  "sample_service = \<lparr>sv_host = HostLabel, sv_instance = ''ai-usage-mac'', sv_type = ServiceType, sv_port = 8765, sv_txt = defaultTXT\<rparr>"

definition browse_query :: message where
  "browse_query = no_message\<lparr>ms_id := 9, ms_questions := [\<lparr>qn_name = ''_ai-usage._tcp.local.'', qn_qtype = typePTR, qn_class = 0x8001\<rparr>]\<rparr>"

lemma sample_ascii: "sv_ascii sample_service" "standard_query browse_query"
  by code_simp+

lemma sample_respond: "\<exists>m. respond u sample_service (Some browse_query) [10, 0, 0, 7] False = (Some m, True)"
proof -
  have "wanted fst u sample_service [10, 0, 0, 7] (ms_questions browse_query) \<noteq> {}"
  proof -
    have "ascii ''_ai-usage._tcp.local.''" "ascii ''ai-usage.local.''" by code_simp+
    then show ?thesis
      by (simp add: browse_query_def no_message_def class_ok_def classIN_def classMask_def answer_def to_lower_def sample_service_def
          HostLabel_def ServiceType_def hostName_def typeName_def lower_char_def)
  qed
  moreover have "list_ex (\<lambda>qn. qn_class qn AND classFlag \<noteq> 0) (ms_questions browse_query)"
    by (simp add: browse_query_def classFlag_def)
  ultimately show ?thesis
    using respond_sections [OF sample_ascii, of u "[10, 0, 0, 7]" False]
    by (cases "respond u sample_service (Some browse_query) [10, 0, 0, 7] False") (auto split: option.splits)
qed

theorem respond_contract_witness:
  "case respond plain_tables sample_service (Some browse_query) [10, 0, 0, 7] True of (None, b) \<Rightarrow> \<not> b | (Some m, b) \<Rightarrow> b \<and> ms_id m = 9"
  using respond_contract [OF sample_ascii, of plain_tables "[10, 0, 0, 7]" True]
  by (auto simp: browse_query_def split: prod.splits option.splits)

theorem reply_never_answered_witness:
  "\<exists>m. fst (respond plain_tables sample_service (Some browse_query) [10, 0, 0, 7] False) = Some m \<and>
     respond plain_tables sample_service (Some m) [10, 0, 0, 8] False = (None, False)"
proof -
  obtain m where m: "respond plain_tables sample_service (Some browse_query) [10, 0, 0, 7] False = (Some m, True)"
    using sample_respond by blast
  show ?thesis using reply_never_answered [OF m] m by auto
qed

end
