(* ===== verification/Mdns_Responder.thy ===== *)
theory Mdns_Responder
  imports Mdns_Service Go_Net Go_Date "HOL-Library.Sublist"
begin

text \<open>
  internal/mdns/responder.go: which interfaces are answered on, under which name, the loop that reads
  datagrams, and the life of the goroutines from \<open>Start\<close> to the end of \<open>Close\<close>.  The interfaces, their
  addresses, the host name of the machine and whether a group can be joined are arguments.
\<close>

subsection \<open>Addresses and interfaces\<close>

datatype net_addr = IPNet bytes | IPAddr bytes | OtherAddr

record net_iface =
  if_name :: string
  if_up :: bool
  if_loopback :: bool
  if_multicast :: bool
  if_addrs :: "net_addr list option"

definition v4_prefix :: bytes where
  "v4_prefix = replicate 10 0 @ [0xFF, 0xFF]"

definition ip_Equal :: "bytes \<Rightarrow> bytes \<Rightarrow> bool" where
  "ip_Equal a b =
     (if length a = length b then a = b
      else if length a = 4 \<and> length b = 16 then take 12 b = v4_prefix \<and> a = drop 12 b
      else if length a = 16 \<and> length b = 4 then take 12 a = v4_prefix \<and> drop 12 a = b
      else False)"

definition ip_IsUnspecified :: "bytes \<Rightarrow> bool" where
  "ip_IsUnspecified ip \<longleftrightarrow> ip_Equal ip (v4_prefix @ [0, 0, 0, 0]) \<or> ip_Equal ip (replicate 16 0)"

definition ip_IsLoopback :: "bytes \<Rightarrow> bool" where
  "ip_IsLoopback ip = (case To4 ip of Some ip4 \<Rightarrow> ip4 ! 0 = 127 | None \<Rightarrow> ip_Equal ip (replicate 15 0 @ [1]))"

definition ip_IsLinkLocalUnicast :: "bytes \<Rightarrow> bool" where
  "ip_IsLinkLocalUnicast ip = (case To4 ip of Some ip4 \<Rightarrow> ip4 ! 0 = 169 \<and> ip4 ! 1 = 254
     | None \<Rightarrow> length ip = 16 \<and> ip ! 0 = 0xFE \<and> ip ! 1 AND 0xC0 = 0x80)"

definition addr_ip :: "net_addr \<Rightarrow> bytes option" where
  "addr_ip a = (case a of IPNet ip \<Rightarrow> Some ip | IPAddr ip \<Rightarrow> Some ip | OtherAddr \<Rightarrow> None)"

definition usableIPv4 :: "net_addr \<Rightarrow> bytes option" where
  "usableIPv4 a = (case addr_ip a of None \<Rightarrow> None
     | Some ip \<Rightarrow> (case To4 ip of None \<Rightarrow> None
         | Some ip4 \<Rightarrow> if ip_IsUnspecified ip4 \<or> ip_IsLoopback ip4 \<or> ip_IsLinkLocalUnicast ip4 then None else Some ip4))"

text \<open>The sixteen bytes of \<open>net.ParseIP\<close>.\<close>

definition parse_ip :: "string \<Rightarrow> bytes option" where
  "parse_ip s = map_option (map word_of_nat) (ParseIP s)"

datatype start_error = BadListenAddress | BadListenPort | LoopbackOnly | ListInterfaces | NoInterface | NoMulticast

definition splitListen :: "string \<Rightarrow> start_error + (string \<times> 16 word)" where
  "splitListen listen =
     (case SplitHostPort (trim_space listen) of None \<Rightarrow> Inl BadListenAddress
      | Some (h, p) \<Rightarrow>
          (case atoi p of None \<Rightarrow> Inl BadListenPort
           | Some n \<Rightarrow> if n \<le> 0 \<or> n > 65535 then Inl BadListenPort else Inr (h, word_of_int n)))"

text \<open>The first usable address of an interface, if the server answers on it.\<close>

fun pick_addr :: "bytes option \<Rightarrow> net_addr list \<Rightarrow> bytes option" where
  "pick_addr want [] = None"
| "pick_addr want (a # as) =
     (case usableIPv4 a of None \<Rightarrow> pick_addr want as
      | Some ip \<Rightarrow>
          (case want of None \<Rightarrow> Some ip
           | Some w \<Rightarrow> if \<not> ip_Equal w ip then pick_addr want as else Some ip))"

fun pick_targets :: "bytes option \<Rightarrow> net_iface list \<Rightarrow> (net_iface \<times> bytes) list" where
  "pick_targets want [] = []"
| "pick_targets want (ifi # ifs) =
     (if \<not> if_up ifi \<or> if_loopback ifi \<or> \<not> if_multicast ifi then pick_targets want ifs
      else (case if_addrs ifi of None \<Rightarrow> pick_targets want ifs
         | Some addrs \<Rightarrow>
             (case pick_addr want addrs of None \<Rightarrow> pick_targets want ifs
              | Some ip \<Rightarrow> (ifi, ip) # pick_targets want ifs)))"

definition targets :: "string \<Rightarrow> net_iface list option \<Rightarrow> start_error + (net_iface \<times> bytes) list" where
  "targets host ifs =
     (let want = parse_ip (trim_space host) in
      if (case want of Some w \<Rightarrow> ip_IsLoopback w | None \<Rightarrow> False) then Inl LoopbackOnly
      else
        (let specific = (case want of Some w \<Rightarrow> if ip_IsUnspecified w then None else Some w | None \<Rightarrow> None) in
         case ifs of None \<Rightarrow> Inl ListInterfaces
         | Some l \<Rightarrow> (let out = pick_targets specific l in if out = [] then Inl NoInterface else Inr out)))"

subsection \<open>The instance label\<close>

definition alnum :: "char \<Rightarrow> bool" where
  "alnum c = (let n = of_char c :: nat in 97 \<le> n \<and> n \<le> 122 \<or> 65 \<le> n \<and> n \<le> 90 \<or> 48 \<le> n \<and> n \<le> 57)"

text \<open>
  The loop of \<open>sanitizeLabel\<close>.  It is written over the bytes: a rune outside ASCII is a run of bytes none
  of which is a letter or a digit, and a run gives one hyphen at most.
\<close>

fun sanitize_from :: "nat \<Rightarrow> bool \<Rightarrow> string \<Rightarrow> string \<Rightarrow> string" where
  "sanitize_from mx lastHyphen b [] = b"
| "sanitize_from mx lastHyphen b (c # cs) =
     (let (b, lastHyphen) =
            (if alnum c then (b @ [c], False) else if \<not> lastHyphen then (b @ ''-'', True) else (b, lastHyphen)) in
      if length b \<ge> mx then b else sanitize_from mx lastHyphen b cs)"

definition sanitizeLabel :: "string \<Rightarrow> nat \<Rightarrow> string" where
  "sanitizeLabel s mx =
     (let out = trim_right_char (CHR ''-'') (trim_left_char (CHR ''-'') (sanitize_from mx True [] s)) in
      if length out > mx then trim_right_char (CHR ''-'') (take mx out) else out)"

definition instanceLabel :: "string option \<Rightarrow> string" where
  "instanceLabel hostname =
     (case hostname of None \<Rightarrow> HostLabel
      | Some h \<Rightarrow>
          (let suffix = sanitizeLabel (trim_suffix (trim_suffix h ''.'') ''.local'') (maxLabel - length HostLabel - 1) in
           if suffix = [] then HostLabel else HostLabel @ ''-'' @ suffix))"

subsection \<open>Start\<close>

definition start_responder ::
  "string option \<Rightarrow> net_iface list option \<Rightarrow> (net_iface \<Rightarrow> bool) \<Rightarrow> string \<Rightarrow> start_error + (service \<times> (string \<times> bytes) list)"
where
  "start_responder hostname ifs joins listen =
     bind_result (splitListen listen) (\<lambda>(host, port).
     bind_result (targets host ifs) (\<lambda>ts.
       (let conns = map (\<lambda>(ifi, ip). (if_name ifi, ip)) (filter (\<lambda>(ifi, ip). joins ifi) ts) in
        if conns = [] then Inl NoMulticast
        else Inr (\<lparr>sv_host = HostLabel, sv_instance = instanceLabel hostname, sv_type = ServiceType, sv_port = port,
                   sv_txt = defaultTXT\<rparr>, conns))))"

subsection \<open>The read loop\<close>

definition mdnsPort :: nat where "mdnsPort = 5353"
definition maxPacket :: nat where "maxPacket = 9000"
definition maxReadErrors :: nat where "maxReadErrors = 10"

record udp_addr =
  ua_ip :: bytes
  ua_port :: nat

text \<open>What \<open>ReadFromUDP\<close> returns: a datagram and its source, or an error, with \<open>done\<close> closed or not.\<close>

datatype read_event = Datagram bytes "udp_addr option" | ReadFailed bool

datatype loop_end = Reading nat | Shutdown | GaveUp

text \<open>A packet to one address, or to the group.\<close>

type_synonym sent = "bytes \<times> udp_addr option"

definition handle_datagram :: "case_tables \<Rightarrow> service \<Rightarrow> bytes \<Rightarrow> bytes \<Rightarrow> udp_addr option \<Rightarrow> sent list" where
  "handle_datagram u svc ip b src =
     (case unpack (take maxPacket b) of Inl _ \<Rightarrow> []
      | Inr q \<Rightarrow>
          (case respond u svc (Some q) ip (case src of None \<Rightarrow> False | Some a \<Rightarrow> ua_port a \<noteq> mdnsPort) of
             (None, _) \<Rightarrow> []
           | (Some reply, unicast) \<Rightarrow>
               (case pack reply of Inl _ \<Rightarrow> []
                | Inr out \<Rightarrow> if unicast then [(out, src)] else [(out, None)])))"

fun readLoop :: "case_tables \<Rightarrow> service \<Rightarrow> bytes \<Rightarrow> nat \<Rightarrow> read_event list \<Rightarrow> sent list \<times> loop_end" where
  "readLoop u svc ip errCount [] = ([], Reading errCount)"
| "readLoop u svc ip errCount (ReadFailed done # es) =
     (if done then ([], Shutdown)
      else if errCount + 1 \<ge> maxReadErrors then ([], GaveUp)
      else readLoop u svc ip (errCount + 1) es)"
| "readLoop u svc ip errCount (Datagram b src # es) =
     (let (out, e) = readLoop u svc ip 0 es in (handle_datagram u svc ip b src @ out, e))"

subsection \<open>The service that is started\<close>

lemma usable_addr:
  "usableIPv4 a = Some ip \<Longrightarrow> length ip = 4 \<and> To4 ip = Some ip \<and> \<not> ip_IsUnspecified ip \<and> \<not> ip_IsLoopback ip \<and> \<not> ip_IsLinkLocalUnicast ip"
  by (auto simp: usableIPv4_def To4_def split: option.splits if_splits)

definition answers_on :: "bytes option \<Rightarrow> net_iface \<Rightarrow> bytes \<Rightarrow> bool" where
  "answers_on want ifi ip \<longleftrightarrow> if_up ifi \<and> \<not> if_loopback ifi \<and> if_multicast ifi \<and>
     (case if_addrs ifi of None \<Rightarrow> False
      | Some as \<Rightarrow> list_ex (\<lambda>a. usableIPv4 a = Some ip) as) \<and> (case want of None \<Rightarrow> True | Some w \<Rightarrow> ip_Equal w ip)"

lemma pick_addr_sound:
  "pick_addr want as = Some ip \<Longrightarrow> list_ex (\<lambda>a. usableIPv4 a = Some ip) as \<and> (case want of None \<Rightarrow> True | Some w \<Rightarrow> ip_Equal w ip)"
  by (induction want as rule: pick_addr.induct) (auto split: option.splits if_splits)

lemma pick_addr_None:
  "pick_addr want as = None \<Longrightarrow> list_ex (\<lambda>a. usableIPv4 a = Some ip) as \<Longrightarrow> \<exists>w. want = Some w \<and> \<not> ip_Equal w ip"
  by (induction want as rule: pick_addr.induct) (auto split: option.splits if_splits)

definition target_ip :: "bytes option \<Rightarrow> net_iface \<Rightarrow> bytes option" where
  "target_ip want ifi =
     (if \<not> if_up ifi \<or> if_loopback ifi \<or> \<not> if_multicast ifi then None else Option.bind (if_addrs ifi) (pick_addr want))"

lemma pick_targets_eq:
  "pick_targets want ifs = map (\<lambda>i. (i, the (target_ip want i))) (filter (\<lambda>i. target_ip want i \<noteq> None) ifs)"
  by (induction want ifs rule: pick_targets.induct) (auto simp: target_ip_def split: option.splits)

lemma target_ip_sound: "target_ip want ifi = Some ip \<Longrightarrow> answers_on want ifi ip"
  by (auto simp: target_ip_def answers_on_def dest: pick_addr_sound split: if_splits Option.bind_splits)

lemma target_ip_None: "target_ip want ifi = None \<Longrightarrow> \<not> answers_on want ifi ip"
  by (auto simp: target_ip_def answers_on_def dest!: pick_addr_None split: if_splits Option.bind_splits option.splits)

lemma pick_targets_sound: "(ifi, ip) \<in> set (pick_targets want ifs) \<Longrightarrow> ifi \<in> set ifs \<and> answers_on want ifi ip"
  by (auto simp: pick_targets_eq intro!: target_ip_sound)

lemma alnum_char: "alnum c \<Longrightarrow> (of_char c :: nat) < 128 \<and> c \<noteq> CHR ''.'' \<and> c \<noteq> CHR ''-''"
  by (auto simp: alnum_def Let_def)

definition label_char :: "char \<Rightarrow> bool" where
  "label_char c \<longleftrightarrow> alnum c \<or> c = CHR ''-''"

lemma sanitize_from_ok:
  "list_all label_char b \<Longrightarrow> length b < mx \<Longrightarrow>
     list_all label_char (sanitize_from mx lh b s) \<and> length (sanitize_from mx lh b s) \<le> mx"
  by (induction mx lh b s rule: sanitize_from.induct) (auto simp: label_char_def Let_def split: if_splits prod.splits)

lemma trim_right_char_edge: "trim_right_char c s \<noteq> [] \<Longrightarrow> last (trim_right_char c s) \<noteq> c"
  unfolding trim_right_char_def using hd_dropWhile [of "\<lambda>d. d = c" "rev s"] by (simp add: last_rev)

lemma set_trim: "set (trim_right_char c s) \<subseteq> set s" "set (trim_left_char c s) \<subseteq> set s"
  by (auto simp: trim_right_char_def dest: set_dropWhileD)

lemma length_trim: "length (trim_right_char c s) \<le> length s" "length (trim_left_char c s) \<le> length s"
  by (simp_all add: trim_right_char_def length_dropWhile_le)
    (metis length_dropWhile_le length_rev)

lemma trim_hd:
  assumes "trim_right_char c (trim_left_char c s) \<noteq> []"
  shows "hd (trim_right_char c (trim_left_char c s)) \<noteq> c"
proof -
  let ?t = "trim_left_char c s"
  have "prefix (trim_right_char c ?t) ?t"
    using suffix_dropWhile [of "\<lambda>d. d = c" "rev ?t"] by (simp add: trim_right_char_def suffix_to_prefix)
  then obtain z where "?t = trim_right_char c ?t @ z" by (auto simp: prefix_def)
  then have "hd (trim_right_char c ?t) = hd ?t" "?t \<noteq> []" using assms by (metis hd_append2, metis append_is_Nil_conv)
  then show ?thesis using hd_dropWhile [of "\<lambda>d. d = c" s] by simp
qed

lemma sanitizeLabel_ok:
  assumes "0 < mx"
  shows "list_all label_char (sanitizeLabel s mx)" "length (sanitizeLabel s mx) \<le> mx"
    "sanitizeLabel s mx \<noteq> [] \<Longrightarrow> hd (sanitizeLabel s mx) \<noteq> CHR ''-'' \<and> last (sanitizeLabel s mx) \<noteq> CHR ''-''"
proof -
  let ?b = "sanitize_from mx True [] s"
  let ?o = "trim_right_char (CHR ''-'') (trim_left_char (CHR ''-'') ?b)"
  have b: "list_all label_char ?b" "length ?b \<le> mx" using sanitize_from_ok [of "[]" mx True s] assms by simp_all
  have o: "length ?o \<le> mx" using length_trim b(2) order_trans by metis
  then have e: "sanitizeLabel s mx = ?o" by (simp add: sanitizeLabel_def del: trim_left_char.simps)
  show "length (sanitizeLabel s mx) \<le> mx" using o e by simp
  show "list_all label_char (sanitizeLabel s mx)"
    unfolding e using b(1) set_trim by (metis list_all_iff subsetD)
  show "hd (sanitizeLabel s mx) \<noteq> CHR ''-'' \<and> last (sanitizeLabel s mx) \<noteq> CHR ''-''" if "sanitizeLabel s mx \<noteq> []"
    using that trim_hd trim_right_char_edge unfolding e by blast
qed

lemma label_chars: "list_all label_char l \<Longrightarrow> ascii l \<and> CHR ''.'' \<notin> set l"
proof -
  have "label_char c \<Longrightarrow> (of_char c :: nat) < 128 \<and> c \<noteq> CHR ''.''" for c
    using alnum_char [of c] by (cases "c = CHR ''-''") (simp_all add: label_char_def)
  then show "list_all label_char l \<Longrightarrow> ascii l \<and> CHR ''.'' \<notin> set l"
    unfolding list_all_iff ascii_def by blast
qed

lemma instanceLabel_ok:
  "list_all label_char (instanceLabel h)" "instanceLabel h \<noteq> []" "length (instanceLabel h) \<le> maxLabel"
proof -
  let ?mx = "maxLabel - length HostLabel - 1"
  have mx: "0 < ?mx" "length HostLabel + 1 + ?mx = maxLabel" by (simp_all add: maxLabel_def HostLabel_def)
  have hl: "list_all label_char HostLabel" by code_simp
  have d: "label_char CHR ''-''" by (simp add: label_char_def)
  show "list_all label_char (instanceLabel h)"
  proof (cases h)
    case None
    then show ?thesis using hl by (simp add: instanceLabel_def)
  next
    case (Some n)
    have "list_all label_char (sanitizeLabel (trim_suffix (trim_suffix n ''.'') ''.local'') ?mx)"
      by (rule sanitizeLabel_ok(1) [OF mx(1)])
    then show ?thesis using hl d by (simp add: Some instanceLabel_def Let_def)
  qed
  show "instanceLabel h \<noteq> []" by (simp add: instanceLabel_def Let_def HostLabel_def split: option.split)
  show "length (instanceLabel h) \<le> maxLabel"
  proof (cases h)
    case None
    then show ?thesis by (simp add: instanceLabel_def HostLabel_def maxLabel_def)
  next
    case (Some n)
    have "length (sanitizeLabel (trim_suffix (trim_suffix n ''.'') ''.local'') ?mx) \<le> ?mx"
      by (rule sanitizeLabel_ok(2) [OF mx(1)])
    then show ?thesis using mx(2) by (simp add: Some instanceLabel_def Let_def)
  qed
qed

text \<open>The service \<open>Start\<close> publishes, whatever the machine is called.\<close>

definition started_service :: "string option \<Rightarrow> 16 word \<Rightarrow> service" where
  "started_service hostname port = \<lparr>sv_host = HostLabel, sv_instance = instanceLabel hostname, sv_type = ServiceType,
     sv_port = port, sv_txt = defaultTXT\<rparr>"

lemma started_service_ok: "service_ok (started_service h port)"
proof -
  let ?s = "started_service h port" and ?l = "instanceLabel h"
  have l: "ascii ?l" "CHR ''.'' \<notin> set ?l" "?l \<noteq> []" "length ?l \<le> 63"
    using label_chars instanceLabel_ok [of h] by (auto simp: maxLabel_def)
  have "labels_of (instanceName ?s) = [?l, ''_ai-usage'', ''_tcp'', ''local'']"
    using l(2) split_char_append_sep [of "CHR ''.''" ?l "''_ai-usage._tcp.local''"]
    by (simp add: labels_of_def instanceName_def started_service_def ServiceType_def butlast_append)
  then have "name_ok (instanceName ?s)"
    using l by (simp add: name_ok_def label_ok_def name_limits) (simp add: instanceName_def started_service_def ServiceType_def)
  moreover have "name_ok (hostName ?s)" "name_ok (typeName ?s)"
    by (simp_all add: name_ok_def labels_of_def label_ok_def name_limits hostName_def typeName_def started_service_def
        HostLabel_def ServiceType_def)
  moreover have "sv_ascii ?s"
  proof -
    have "ascii HostLabel" "ascii ServiceType" by code_simp+
    then show ?thesis using l by (simp add: sv_ascii_def started_service_def)
  qed
  moreover have "sv_txt ?s \<noteq> []" "list_all (\<lambda>t. length t \<le> maxTXTString) (sv_txt ?s)" "length (enc_txt (sv_txt ?s)) < 65536"
    by (simp_all add: started_service_def defaultTXT_def usagePath_def name_limits enc_txt_def)
  ultimately show ?thesis by (simp add: service_ok_def)
qed

lemma start_responder_Inr:
  "start_responder hostname ifs joins listen = Inr (svc, conns) \<longleftrightarrow>
     (\<exists>host port ts. splitListen listen = Inr (host, port) \<and> targets host ifs = Inr ts \<and>
        svc = started_service hostname port \<and> conns \<noteq> [] \<and>
        conns = map (\<lambda>(ifi, ip). (if_name ifi, ip)) (filter (\<lambda>(ifi, ip). joins ifi) ts))"
  by (auto simp: start_responder_def bind_result_Inr_iff Let_def started_service_def)

text \<open>The address the server is bound to, if it is bound to one.\<close>

definition bound_to :: "string \<Rightarrow> bytes option" where
  "bound_to host = (case parse_ip (trim_space host) of None \<Rightarrow> None | Some w \<Rightarrow> if ip_IsUnspecified w then None else Some w)"

lemma targets_Inr:
  assumes "targets host ifs = Inr ts"
  obtains l where "ifs = Some l" "ts = pick_targets (bound_to host) l" "ts \<noteq> []"
    "case parse_ip (trim_space host) of Some w \<Rightarrow> \<not> ip_IsLoopback w | None \<Rightarrow> True"
  using assms by (auto simp: targets_def bound_to_def Let_def split: option.splits if_splits)

lemma start_sound:
  assumes "start_responder hostname ifs joins listen = Inr (svc, conns)"
  shows "conns \<noteq> [] \<and> service_ok svc \<and>
    (\<exists>host port l. splitListen listen = Inr (host, port) \<and> sv_port svc = port \<and> ifs = Some l \<and>
       (\<forall>(name, ip) \<in> set conns. \<exists>ifi \<in> set l. if_name ifi = name \<and> joins ifi \<and> answers_on (bound_to host) ifi ip))"
proof -
  obtain host port ts where h: "splitListen listen = Inr (host, port)" "targets host ifs = Inr ts"
      "svc = started_service hostname port" "conns \<noteq> []"
      "conns = map (\<lambda>(ifi, ip). (if_name ifi, ip)) (filter (\<lambda>(ifi, ip). joins ifi) ts)"
    using assms unfolding start_responder_Inr by blast
  obtain l where l: "ifs = Some l" "ts = pick_targets (bound_to host) l" by (rule targets_Inr [OF h(2)])
  have "\<forall>(name, ip) \<in> set conns. \<exists>ifi \<in> set l. if_name ifi = name \<and> joins ifi \<and> answers_on (bound_to host) ifi ip"
    using pick_targets_sound [of _ _ "bound_to host" l] unfolding h(5) l(2) by fastforce
  then show ?thesis
    using h(1,3,4) l(1) started_service_ok by (auto simp: started_service_def)
qed

subsection \<open>From the datagram of a device to the reply\<close>

lemma handle_enc:
  assumes "service_ok svc" "message_ok q" "length (enc_message q) \<le> maxPacket"
    "respond u svc (Some q) ip (case src of None \<Rightarrow> False | Some a \<Rightarrow> ua_port a \<noteq> mdnsPort) = (Some m, b)"
  shows "handle_datagram u svc ip (enc_message q) src = [(enc_message m, if b then src else None)]" "unpack (enc_message m) = Inr m"
proof -
  have "message_ok m" using reply_ok [OF assms(1,4)] assms(2) by (auto simp: message_ok_def)
  then show "handle_datagram u svc ip (enc_message q) src = [(enc_message m, if b then src else None)]" "unpack (enc_message m) = Inr m"
    using assms by (simp_all add: handle_datagram_def unpack_enc pack_ok)
qed

lemma distinct_singleton: "distinct (map f xs) \<Longrightarrow> set xs = {x} \<Longrightarrow> xs = [x]"
  by (cases xs) (auto simp: subset_singleton_iff)

lemma host_query:
  assumes s: "service_ok s" and std: "standard_query q" and qn: "ms_questions q = [qn]"
    and name: "ascii (qn_name qn)" "map lower_char (qn_name qn) = map lower_char (hostName s)"
    and t: "qn_qtype qn = typeA" "class_ok qn" and ip: "To4 ip = Some ip4"
  obtains m r where "respond u s (Some q) ip legacy = (Some m, legacy \<or> qn_class qn AND classFlag \<noteq> 0)"
    "ms_answers m = [r]" "ms_additional m = []" "rr_name r = hostName s" "rr_rtype r = typeA" "rr_ip r = ip4"
    "rr_ttl r = (if legacy then legacyTTL else hostTTL)"
proof -
  have a: "sv_ascii s" using s by (simp add: service_ok_def)
  obtain r0 where r0: "aRecord s ip = Some r0" "rr_name r0 = hostName s" "rr_rtype r0 = typeA" "rr_ip r0 = ip4" "rr_ttl r0 = hostTTL"
    using ip by (simp add: aRecord_def)
  have ans: "answer u s qn ip = ([r0], [])"
    using name ascii_names(1) [OF a] by (simp add: answer_def to_lower_def t r0 opt_list_def)
  have W: "wanted fst u s ip (ms_questions q) = {r0}" "wanted snd u s ip (ms_questions q) = {}"
    by (simp_all add: qn t ans)
  obtain mo b where mo: "respond u s (Some q) ip legacy = (mo, b)" by force
  note S = respond_sections [OF a std, of u ip legacy, unfolded mo prod.case W]
  then obtain m where m: "mo = Some m" by (cases mo) auto
  let ?r = "(if legacy then legacy_record else id) r0"
  have "set (ms_answers m) = {?r}" "set (ms_additional m) = {}" "distinct (map rr_key (ms_answers m))"
      "b = (legacy \<or> qn_class qn AND classFlag \<noteq> 0)"
    using S by (simp_all add: m qn)
  then show thesis
    using that [of m ?r] mo m r0 distinct_singleton [of rr_key "ms_answers m" ?r]
    by (simp add: legacy_record_def hostTTL_def legacyTTL_def)
qed

subsection \<open>The loop as a whole\<close>

lemma readLoop_append:
  "snd (readLoop u svc ip n es) = Reading k \<Longrightarrow>
     readLoop u svc ip n (es @ fs) = (fst (readLoop u svc ip n es) @ fst (readLoop u svc ip k fs), snd (readLoop u svc ip k fs))"
  by (induction u svc ip n es rule: readLoop.induct) (auto simp: Let_def split: prod.splits if_splits)

text \<open>It handles every datagram it reads, and gives up only after ten failures in a row.\<close>

lemma readLoop_reading:
  "snd (readLoop u svc ip n es) = Reading k \<Longrightarrow>
     fst (readLoop u svc ip n es) = concat (map (\<lambda>e. case e of Datagram b src \<Rightarrow> handle_datagram u svc ip b src | ReadFailed _ \<Rightarrow> []) es)"
  by (induction u svc ip n es rule: readLoop.induct) (auto simp: Let_def split: prod.splits if_splits)

lemma readLoop_gave_up:
  "snd (readLoop u svc ip n es) = GaveUp \<Longrightarrow> n < maxReadErrors \<Longrightarrow>
     (\<exists>post. es = replicate (maxReadErrors - n) (ReadFailed False) @ post) \<or>
     (\<exists>pre post. es = pre @ replicate maxReadErrors (ReadFailed False) @ post)"
proof (induction u svc ip n es rule: readLoop.induct)
  case (2 u svc ip n dn es)
  show ?case
  proof (cases "n + 1 \<ge> maxReadErrors")
    case True
    then have "maxReadErrors - n = 1" using 2(3) by simp
    then show ?thesis using 2(2) by (simp split: if_splits)
  next
    case False
    then have nd: "\<not> dn" "snd (readLoop u svc ip (n + 1) es) = GaveUp" using 2(2) by (auto split: if_splits)
    have k: "maxReadErrors - n = Suc (maxReadErrors - (n + 1))" "n + 1 < maxReadErrors" using False by simp_all
    from 2(1) [OF nd(1) False nd(2) k(2)]
    consider (now) post where "es = replicate (maxReadErrors - (n + 1)) (ReadFailed False) @ post"
      | (later) pre post where "es = pre @ replicate maxReadErrors (ReadFailed False) @ post" by blast
    then show ?thesis
    proof cases
      case now
      then have "ReadFailed dn # es = replicate (maxReadErrors - n) (ReadFailed False) @ post" using nd(1) k(1) by simp
      then show ?thesis by blast
    next
      case later
      then have "ReadFailed dn # es = (ReadFailed dn # pre) @ replicate maxReadErrors (ReadFailed False) @ post" by simp
      then show ?thesis by blast
    qed
  qed
next
  case (3 u svc ip n b src es)
  then have "snd (readLoop u svc ip 0 es) = GaveUp" by (simp add: Let_def split: prod.splits)
  from 3(1) [OF this] obtain pre post where "es = pre @ replicate maxReadErrors (ReadFailed False) @ post"
    by (auto simp: maxReadErrors_def intro: that [of "[]"])
  then have "Datagram b src # es = (Datagram b src # pre) @ replicate maxReadErrors (ReadFailed False) @ post" by simp
  then show ?case by blast
qed simp

text \<open>
  C16: a device finds this agent.  Once \<open>Start\<close> answers on an interface, a read loop that has not ended
  answers the device's address query for the host name, in whatever case, with one packet: to the group or,
  when the query asks for it or came from an ordinary resolver, to the sender.  The packet unpacks to one
  answer, the address of that very interface, and nothing else.
\<close>

theorem device_finds_agent:
  assumes start: "start_responder hostname ifs joins listen = Inr (svc, conns)" and c: "(name, ip) \<in> set conns"
    and loop: "snd (readLoop u svc ip 0 es) = Reading k"
    and q: "message_ok q" "standard_query q" "length (enc_message q) \<le> maxPacket" "ms_questions q = [qn]"
    and qn: "ascii (qn_name qn)" "map lower_char (qn_name qn) = ''ai-usage.local.''" "qn_qtype qn = typeA" "class_ok qn"
  shows "\<exists>out m r. pack q = Inr (enc_message q) \<and>
    fst (readLoop u svc ip 0 (es @ [Datagram (enc_message q) (Some src)])) =
      fst (readLoop u svc ip 0 es) @ [(out, if ua_port src \<noteq> mdnsPort \<or> qn_class qn AND classFlag \<noteq> 0 then Some src else None)] \<and>
    unpack out = Inr m \<and> ms_answers m = [r] \<and> ms_additional m = [] \<and>
    rr_name r = ''ai-usage.local.'' \<and> rr_rtype r = typeA \<and> rr_ip r = ip"
proof -
  from start_sound [OF start] c obtain host ifi where s: "service_ok svc" and on: "answers_on (bound_to host) ifi ip"
    by fastforce
  have ip: "To4 ip = Some ip"
    using on usable_addr by (auto simp: answers_on_def list_ex_iff split: option.splits)
  have hn: "hostName svc = ''ai-usage.local.''"
    using start unfolding start_responder_Inr by (auto simp: started_service_def hostName_def HostLabel_def)
  have low: "map lower_char (qn_name qn) = map lower_char (hostName svc)"
    unfolding hn qn(2) by (simp add: lower_char_def)
  obtain m r where R: "respond u svc (Some q) ip (ua_port src \<noteq> mdnsPort) = (Some m, ua_port src \<noteq> mdnsPort \<or> qn_class qn AND classFlag \<noteq> 0)"
      "ms_answers m = [r]" "ms_additional m = []" "rr_name r = hostName svc" "rr_rtype r = typeA" "rr_ip r = ip"
    by (rule host_query [OF s q(2) q(4) qn(1) low qn(3,4) ip])
  have "handle_datagram u svc ip (enc_message q) (Some src) =
      [(enc_message m, if ua_port src \<noteq> mdnsPort \<or> qn_class qn AND classFlag \<noteq> 0 then Some src else None)]"
    and "unpack (enc_message m) = Inr m"
    using handle_enc [OF s q(1,3), of u ip "Some src", unfolded option.case, OF R(1)] by simp_all
  then show ?thesis
    using R(2-6) pack_ok [OF q(1)] by (auto simp: readLoop_append [OF loop] hn)
qed

definition home_ifaces :: "net_iface list" where
  "home_ifaces =
     [\<lparr>if_name = ''lo0'', if_up = True, if_loopback = True, if_multicast = True, if_addrs = Some [IPNet [127, 0, 0, 1]]\<rparr>,
      \<lparr>if_name = ''en0'', if_up = True, if_loopback = False, if_multicast = True,
       if_addrs = Some [IPNet (0xFE # 0x80 # replicate 14 1), IPNet [169, 254, 3, 4], IPNet [192, 168, 1, 20]]\<rparr>]"

definition home_query :: message where
  "home_query = no_message\<lparr>ms_id := 7, ms_questions := [\<lparr>qn_name = ''AI-usage.LOCAL.'', qn_qtype = typeA, qn_class = classIN\<rparr>]\<rparr>"

lemma home_start:
  "start_responder None (Some home_ifaces) (\<lambda>_. True) ''0.0.0.0:8765'' = Inr (started_service None 8765, [(''en0'', [192, 168, 1, 20])])"
  by code_simp

theorem device_finds_agent_witness:
  "\<exists>out m r. unpack out = Inr m \<and> ms_answers m = [r] \<and> rr_ip r = [192, 168, 1, 20] \<and>
     fst (readLoop plain_tables (started_service None 8765) [192, 168, 1, 20] 0
       ([ReadFailed False] @ [Datagram (enc_message home_query) (Some \<lparr>ua_ip = [192, 168, 1, 9], ua_port = 5353\<rparr>)])) = [(out, None)]"
proof -
  have q: "message_ok home_query" "standard_query home_query"
    "ms_questions home_query = [\<lparr>qn_name = ''AI-usage.LOCAL.'', qn_qtype = typeA, qn_class = classIN\<rparr>]"
    by (simp_all add: home_query_def no_message_def message_ok_def question_ok_def name_ok_def labels_of_def label_ok_def
        name_limits standard_query_def)
  have len: "length (enc_message home_query) \<le> maxPacket"
    by (simp add: home_query_def no_message_def enc_message_def questions.enc_all_def records.enc_all_def enc_question_def
        enc_name_def labels_of_def maxPacket_def)
  have n: "ascii ''AI-usage.LOCAL.''" "map lower_char ''AI-usage.LOCAL.'' = ''ai-usage.local.''" by code_simp+
  show ?thesis
    using device_finds_agent [OF home_start _ _ q(1,2) len q(3), of "''en0''" "[192, 168, 1, 20]" plain_tables "[ReadFailed False]" 1
        "\<lparr>ua_ip = [192, 168, 1, 9], ua_port = 5353\<rparr>"] n
    by (auto simp: class_ok_def classIN_def classMask_def classFlag_def maxReadErrors_def mdnsPort_def)
qed

text \<open>
  The agent advertises addresses its server does not answer on.  With the listen address
  \<open>localhost:8765\<close> the server is bound to the loopback interface only, but \<open>targets\<close> recognises literal
  addresses only and picks the same interfaces and addresses as for \<open>0.0.0.0\<close>, where the literal
  \<open>127.0.0.1\<close> is refused.
\<close>

theorem localhost_is_advertised:
  "targets ''localhost'' ifs = targets ''0.0.0.0'' ifs \<and> targets ''127.0.0.1'' ifs = Inl LoopbackOnly"
proof -
  have "parse_ip (trim_space ''localhost'') = None" "parse_ip (trim_space ''0.0.0.0'') = Some (v4_prefix @ [0, 0, 0, 0])"
    "parse_ip (trim_space ''127.0.0.1'') = Some (v4_prefix @ [127, 0, 0, 1])" by code_simp+
  moreover have "\<not> ip_IsLoopback (v4_prefix @ [0, 0, 0, 0])" "ip_IsUnspecified (v4_prefix @ [0, 0, 0, 0])"
    "ip_IsLoopback (v4_prefix @ [127, 0, 0, 1])" by code_simp+
  ultimately show ?thesis by (simp add: targets_def)
qed

end
