(* ===== verification/Mdns_Life.thy ===== *)
theory Mdns_Life
  imports Mdns_Responder
begin

text \<open>
  The goroutines of internal/mdns/responder.go: on every joined connection one that reads and one that
  announces, and \<open>Close\<close>, which says goodbye on every connection, closes the sockets and waits.  One step
  is what one goroutine does between two points where another may run; the order is the scheduler's.  That
  packing succeeds in each of them is \<open>announcement_ok\<close> and \<open>reply_ok\<close> of \<open>Mdns_Service\<close>.
\<close>

subsection \<open>States and steps\<close>

datatype packet_kind = Announcement | Goodbye | Answered

text \<open>Where \<open>Close\<close> is; the index is the connection it turns to next.\<close>

datatype close_at = NotClosed | SayingGoodbye nat | ClosingSocket nat | WaitingFor | Closed

text \<open>
  \<open>announcer\<close> is the index into \<open>announceDelays\<close> of the packet the goroutine sends next, \<open>None\<close> once it
  has ended.
\<close>

record conn =
  announcer :: "nat option"
  reading :: bool
  sock_open :: bool
  sent_log :: "packet_kind list"

record life =
  closer :: close_at
  done_closed :: bool
  conns_of :: "conn list"

definition announceDelays :: "int list" where
  "announceDelays = [0, 1000000000, 2000000000]"

definition fresh_conn :: conn where
  "fresh_conn = \<lparr>announcer = Some 0, reading = True, sock_open = True, sent_log = []\<rparr>"

definition started_life :: "nat \<Rightarrow> life" where
  "started_life n = \<lparr>closer = NotClosed, done_closed = False, conns_of = replicate n fresh_conn\<rparr>"

text \<open>Writing to a closed socket fails, and the failure is only logged.\<close>

definition send_packet :: "packet_kind \<Rightarrow> conn \<Rightarrow> conn" where
  "send_packet k c = (if sock_open c then c\<lparr>sent_log := sent_log c @ [k]\<rparr> else c)"

definition next_announcement :: "nat \<Rightarrow> nat option" where
  "next_announcement k = (if k + 1 < length announceDelays then Some (k + 1) else None)"

text \<open>
  What a goroutine of one connection does.  With a delay of 0 the announcer does not look at \<open>done\<close>; with a
  positive one it may go on or, once \<open>done\<close> is closed, end.  The reader answers a query, or ends: at the
  tenth failure in a row, or at a failed read with \<open>done\<close> closed.
\<close>

inductive conn_step :: "bool \<Rightarrow> conn \<Rightarrow> conn \<Rightarrow> bool" for dn :: bool where
  announce: "announcer c = Some k \<Longrightarrow>
    conn_step dn c ((send_packet Announcement c)\<lparr>announcer := next_announcement k\<rparr>)"
| announce_stop: "announcer c = Some k \<Longrightarrow> 0 < announceDelays ! k \<Longrightarrow> dn \<Longrightarrow> conn_step dn c (c\<lparr>announcer := None\<rparr>)"
| answer_query: "reading c \<Longrightarrow> sock_open c \<Longrightarrow> conn_step dn c (send_packet Answered c)"
| reader_stop: "reading c \<Longrightarrow> dn \<or> sock_open c \<Longrightarrow> conn_step dn c (c\<lparr>reading := False\<rparr>)"

text \<open>The body of \<open>once.Do\<close> in \<open>Close\<close>.\<close>

inductive close_step :: "life \<Rightarrow> life \<Rightarrow> bool" where
  begin_close: "closer s = NotClosed \<Longrightarrow> close_step s (s\<lparr>closer := SayingGoodbye 0, done_closed := True\<rparr>)"
| say_goodbye: "closer s = SayingGoodbye i \<Longrightarrow> i < length (conns_of s) \<Longrightarrow>
    close_step s (s\<lparr>closer := SayingGoodbye (i + 1), conns_of := (conns_of s)[i := send_packet Goodbye (conns_of s ! i)]\<rparr>)"
| goodbyes_said: "closer s = SayingGoodbye i \<Longrightarrow> i \<ge> length (conns_of s) \<Longrightarrow> close_step s (s\<lparr>closer := ClosingSocket 0\<rparr>)"
| close_socket: "closer s = ClosingSocket i \<Longrightarrow> i < length (conns_of s) \<Longrightarrow>
    close_step s (s\<lparr>closer := ClosingSocket (i + 1), conns_of := (conns_of s)[i := (conns_of s ! i)\<lparr>sock_open := False\<rparr>]\<rparr>)"
| sockets_closed: "closer s = ClosingSocket i \<Longrightarrow> i \<ge> length (conns_of s) \<Longrightarrow> close_step s (s\<lparr>closer := WaitingFor\<rparr>)"
| waited: "closer s = WaitingFor \<Longrightarrow> list_all (\<lambda>c. announcer c = None \<and> \<not> reading c) (conns_of s) \<Longrightarrow>
    close_step s (s\<lparr>closer := Closed\<rparr>)"

inductive life_step :: "life \<Rightarrow> life \<Rightarrow> bool" where
  of_conn: "i < length (conns_of s) \<Longrightarrow> conn_step (done_closed s) (conns_of s ! i) c \<Longrightarrow>
    life_step s (s\<lparr>conns_of := (conns_of s)[i := c]\<rparr>)"
| of_close: "close_step s s' \<Longrightarrow> life_step s s'"

inductive reach_life :: "nat \<Rightarrow> life \<Rightarrow> bool" for n :: nat where
  reach_start: "reach_life n (started_life n)"
| reach_step: "reach_life n s \<Longrightarrow> life_step s s' \<Longrightarrow> reach_life n s'"

inductive_simps conn_step_iff: "conn_step dn c c'"
inductive_simps close_step_iff: "close_step s s'"
inductive_cases conn_stepE: "conn_step dn c c'"
inductive_cases close_stepE: "close_step s s'"
inductive_cases life_stepE: "life_step s s'"

subsection \<open>The invariant\<close>

text \<open>Whether \<open>Close\<close> is past the goodbye, and past the socket, of connection \<open>i\<close>.\<close>

fun said :: "close_at \<Rightarrow> nat \<Rightarrow> bool" where
  "said NotClosed i \<longleftrightarrow> False"
| "said (SayingGoodbye j) i \<longleftrightarrow> i < j"
| "said ph i \<longleftrightarrow> True"

fun shut :: "close_at \<Rightarrow> nat \<Rightarrow> bool" where
  "shut NotClosed i \<longleftrightarrow> False"
| "shut (SayingGoodbye j) i \<longleftrightarrow> False"
| "shut (ClosingSocket j) i \<longleftrightarrow> i < j"
| "shut ph i \<longleftrightarrow> True"

definition conn_inv :: "close_at \<Rightarrow> nat \<Rightarrow> conn \<Rightarrow> bool" where
  "conn_inv ph i c \<longleftrightarrow> sock_open c = (\<not> shut ph i) \<and> count_list (sent_log c) Goodbye = (if said ph i then 1 else 0) \<and>
     (case announcer c of None \<Rightarrow> count_list (sent_log c) Announcement \<le> 3
      | Some k \<Rightarrow> k < 3 \<and> count_list (sent_log c) Announcement \<le> k) \<and>
     (ph = Closed \<longrightarrow> announcer c = None \<and> \<not> reading c)"

definition life_inv :: "nat \<Rightarrow> life \<Rightarrow> bool" where
  "life_inv n s \<longleftrightarrow> length (conns_of s) = n \<and> done_closed s = (closer s \<noteq> NotClosed) \<and>
     (\<forall>i < n. conn_inv (closer s) i (conns_of s ! i))"

lemma conn_inv_start: "conn_inv NotClosed i fresh_conn"
  by (simp add: conn_inv_def fresh_conn_def)

lemma conn_inv_step: "conn_step dn c c' \<Longrightarrow> conn_inv ph i c \<Longrightarrow> conn_inv ph i c'"
  by (erule conn_step.cases)
    (auto simp: conn_inv_def send_packet_def next_announcement_def announceDelays_def split: if_splits option.splits)

lemma life_inv_conn:
  assumes "life_inv n s" "j < n" "\<And>i. i < n \<Longrightarrow> i \<noteq> j \<Longrightarrow> conn_inv (closer s) i (conns_of s ! i) \<Longrightarrow> conn_inv ph i (conns_of s ! i)"
    "conn_inv (closer s) j (conns_of s ! j) \<Longrightarrow> conn_inv ph j c" "done_closed s = (ph \<noteq> NotClosed)"
  shows "life_inv n (s\<lparr>closer := ph, conns_of := (conns_of s)[j := c]\<rparr>)"
  using assms by (auto simp: life_inv_def nth_list_update)

lemma life_inv_close: "close_step s s' \<Longrightarrow> life_inv n s \<Longrightarrow> life_inv n s'"
proof (induction rule: close_step.induct)
  case (say_goodbye s i)
  then have "i < n" "done_closed s" by (simp_all add: life_inv_def)
  then show ?case
    using say_goodbye by (intro life_inv_conn) (auto simp: conn_inv_def send_packet_def split: option.splits)
next
  case (close_socket s i)
  then have "i < n" "done_closed s" by (simp_all add: life_inv_def)
  then show ?case
    using close_socket by (intro life_inv_conn) (auto simp: conn_inv_def split: option.splits)
next
  case (waited s)
  then show ?case by (auto simp: life_inv_def conn_inv_def list_all_length)
qed (auto simp: life_inv_def conn_inv_def)

lemma life_inv_step: "life_step s s' \<Longrightarrow> life_inv n s \<Longrightarrow> life_inv n s'"
proof (induction rule: life_step.induct)
  case (of_conn i s c)
  then show ?case using conn_inv_step by (auto simp: life_inv_def nth_list_update)
next
  case (of_close s s')
  then show ?case using life_inv_close by blast
qed

lemma reach_inv: "reach_life n s \<Longrightarrow> life_inv n s"
proof (induction rule: reach_life.induct)
  case reach_start
  show ?case by (simp add: life_inv_def started_life_def conn_inv_start)
next
  case (reach_step s s')
  then show ?case using life_inv_step by blast
qed


subsection \<open>A run\<close>

text \<open>One connection, with \<open>Close\<close> at \<open>cl\<close>.\<close>

definition one_conn :: "close_at \<Rightarrow> nat option \<Rightarrow> bool \<Rightarrow> bool \<Rightarrow> packet_kind list \<Rightarrow> life" where
  "one_conn cl an rd op w =
     \<lparr>closer = cl, done_closed = (cl \<noteq> NotClosed), conns_of = [\<lparr>announcer = an, reading = rd, sock_open = op, sent_log = w\<rparr>]\<rparr>"

lemma one_conn_steps:
  "reach_life 1 (one_conn NotClosed (Some 0) True True [])"
  "reach_life 1 (one_conn NotClosed an rd op w) \<Longrightarrow> reach_life 1 (one_conn (SayingGoodbye 0) an rd op w)"
  "reach_life 1 (one_conn (SayingGoodbye 0) an rd True w) \<Longrightarrow> reach_life 1 (one_conn (ClosingSocket 0) an rd True (w @ [Goodbye]))"
  "reach_life 1 (one_conn (ClosingSocket 0) an rd op w) \<Longrightarrow> reach_life 1 (one_conn WaitingFor an rd False w)"
  "reach_life 1 (one_conn cl (Some k) rd True w) \<Longrightarrow> reach_life 1 (one_conn cl (next_announcement k) rd True (w @ [Announcement]))"
  "reach_life 1 (one_conn WaitingFor (Some 1) True op w) \<Longrightarrow> reach_life 1 (one_conn Closed None False op w)"
proof -
  show "reach_life 1 (one_conn NotClosed (Some 0) True True [])"
    using reach_start [of 1] by (simp add: started_life_def one_conn_def fresh_conn_def)
next
  assume "reach_life 1 (one_conn NotClosed an rd op w)"
  from reach_step [OF this of_close, OF begin_close] show "reach_life 1 (one_conn (SayingGoodbye 0) an rd op w)"
    by (simp add: one_conn_def)
next
  assume "reach_life 1 (one_conn (SayingGoodbye 0) an rd True w)"
  from reach_step [OF this of_close, OF say_goodbye]
  have "reach_life 1 (one_conn (SayingGoodbye 1) an rd True (w @ [Goodbye]))"
    by (simp add: one_conn_def send_packet_def)
  from reach_step [OF this of_close, OF goodbyes_said]
  show "reach_life 1 (one_conn (ClosingSocket 0) an rd True (w @ [Goodbye]))" by (simp add: one_conn_def)
next
  assume "reach_life 1 (one_conn (ClosingSocket 0) an rd op w)"
  from reach_step [OF this of_close, OF close_socket]
  have "reach_life 1 (one_conn (ClosingSocket 1) an rd False w)" by (simp add: one_conn_def)
  from reach_step [OF this of_close, OF sockets_closed]
  show "reach_life 1 (one_conn WaitingFor an rd False w)" by (simp add: one_conn_def)
next
  assume "reach_life 1 (one_conn cl (Some k) rd True w)"
  from reach_step [OF this of_conn, of 0, OF _ announce]
  show "reach_life 1 (one_conn cl (next_announcement k) rd True (w @ [Announcement]))"
    by (simp add: one_conn_def send_packet_def)
next
  assume "reach_life 1 (one_conn WaitingFor (Some 1) True op w)"
  from reach_step [OF this of_conn, of 0, OF _ announce_stop]
  have "reach_life 1 (one_conn WaitingFor None True op w)" by (simp add: one_conn_def announceDelays_def)
  from reach_step [OF this of_conn, of 0, OF _ reader_stop]
  have "reach_life 1 (one_conn WaitingFor None False op w)" by (simp add: one_conn_def)
  from reach_step [OF this of_close, OF waited]
  show "reach_life 1 (one_conn Closed None False op w)" by (simp add: one_conn_def)
qed

lemma overtaken_run: "reach_life 1 (one_conn Closed None False False [Goodbye, Announcement])"
proof -
  have "reach_life 1 (one_conn (ClosingSocket 0) (Some 0) True True [Goodbye])"
    using one_conn_steps(3) [OF one_conn_steps(2) [OF one_conn_steps(1)]] by simp
  from one_conn_steps(5) [OF this] have "reach_life 1 (one_conn (ClosingSocket 0) (Some 1) True True [Goodbye, Announcement])"
    by (simp add: next_announcement_def announceDelays_def)
  from one_conn_steps(6) [OF one_conn_steps(4) [OF this]] show ?thesis .
qed

text \<open>
  The goodbye is not always the last word.  \<open>announce\<close> sends its first packet without looking at
  \<open>done\<close>, and \<open>Close\<close> says goodbye before it closes the sockets, so a schedule exists in which \<open>Close\<close>
  returns and the last packet on the wire was an announcement: listeners then keep the records of an agent
  that is gone until their time to live runs out.
\<close>

theorem announcement_after_goodbye:
  "\<exists>s. reach_life 1 s \<and> closer s = Closed \<and> sent_log (conns_of s ! 0) = [Goodbye, Announcement]"
  using overtaken_run by (intro exI [of _ "one_conn Closed None False False [Goodbye, Announcement]"]) (simp add: one_conn_def)


end
