(* ===== verification/Ble_Central.thy ===== *)
theory Ble_Central
  imports Ble_Wire Go_Sort "HOL-Library.AList"
begin

text \<open>
  internal/bleprov/central.go: the conversation with a device over the radio.  The Bluetooth library is
  outside: a \<open>radio\<close> says how each of its calls comes back, by a value, an error text or a panic, and
  which status notifications arrived before it did.  Of a run the model keeps what was done to the device,
  what was reported, and the last status.
\<close>

subsection \<open>What the radio answers\<close>

datatype 'a call = Returns 'a | Fails string | CallPanics

datatype ctx_error = CtxCanceled | CtxDeadline

record sub_attempt =
  sa_result :: "unit call"
  sa_notes :: "bytes list"
  sa_ctx :: "ctx_error option"
  sa_late :: bool

text \<open>What \<open>awaitTerminal\<close> is woken by.\<close>

datatype wake = WakeCtx ctx_error | WakeDeadline | WakeNote bytes | WakePoll "bytes call"

record radio =
  rd_lower :: "string \<Rightarrow> string"
  rd_busy :: bool
  rd_enable :: "unit call"
  rd_addr :: "string \<Rightarrow> string"
  rd_connect :: "bool call"
  rd_services :: "nat call"
  rd_chars :: "nat call"
  rd_info :: "bytes call"
  rd_mtu :: "int call"
  rd_subscribe :: "sub_attempt list"
  rd_write :: "nat \<Rightarrow> unit call \<times> bytes list"
  rd_ctx :: "nat \<Rightarrow> ctx_error option"
  rd_await :: "wake list"
  rd_abort :: "unit call"

datatype central_error =
    WireError wire_error
  | ErrBusy
  | ErrAdapterUnavailable string
  | UnknownAddress string
  | ConnectFailed string
  | ErrBondLost
  | NoSetupService
  | IncompleteService
  | ReadInfoFailed string
  | ErrDeviceVersion byte
  | CapacityTooSmall nat "16 word"
  | CtxEnded ctx_error
  | ErrPairingTimeout
  | WriteFailed string
  | InChunk nat nat central_error
  | DeviceError byte Status
  | NeverReported
  | ErrPanicked
  | ScanFailed string

datatype phase = PhaseConnecting | PhaseIdentifying | PhasePairing | PhaseSending | PhaseCommitting | PhaseApplying | PhaseDone

record progress =
  pg_Phase :: phase
  pg_Note :: string
  pg_Sent :: nat
  pg_Total :: nat
  pg_Info :: "Info option"
  pg_Status :: "Status option"

record prov_result =
  pv_Info :: Info
  pv_Status :: Status
  pv_ChunkData :: int
  pv_Chunks :: nat
  pv_Stream :: nat

subsection \<open>A run, step by step\<close>

text \<open>What is done to the device: a try to subscribe and whether it succeeded, writes, disconnecting.\<close>

datatype gatt = Subscribe bool | WriteControl bytes | WriteData bytes | Disconnect

record crun =
  cr_trace :: "gatt list"
  cr_progress :: "progress list"
  cr_last :: "Status option"

definition no_run :: crun where
  "no_run = \<lparr>cr_trace = [], cr_progress = [], cr_last = None\<rparr>"

datatype 'a flow = Go 'a | Fail central_error | Panicking

type_synonym 'a step = "crun \<Rightarrow> 'a flow \<times> crun"

definition next_do :: "'a step \<Rightarrow> ('a \<Rightarrow> 'b step) \<Rightarrow> 'b step" where
  "next_do m f s = (case m s of (Go x, s') \<Rightarrow> f x s' | (Fail e, s') \<Rightarrow> (Fail e, s') | (Panicking, s') \<Rightarrow> (Panicking, s'))"

definition give :: "'a \<Rightarrow> 'a step" where
  "give x s = (Go x, s)"

definition stop :: "central_error \<Rightarrow> 'a step" where
  "stop e s = (Fail e, s)"

definition report :: "progress \<Rightarrow> unit step" where
  "report p s = (Go (), s\<lparr>cr_progress := cr_progress s @ [p]\<rparr>)"

definition gatt_do :: "gatt \<Rightarrow> unit step" where
  "gatt_do g s = (Go (), s\<lparr>cr_trace := cr_trace s @ [g]\<rparr>)"

text \<open>\<open>statusWatch\<close>: the last notification that parses is kept.\<close>

definition watch_update :: "bytes \<Rightarrow> crun \<Rightarrow> crun" where
  "watch_update b s = (case ParseStatus b of Inl _ \<Rightarrow> s | Inr st \<Rightarrow> s\<lparr>cr_last := Some st\<rparr>)"

definition watch_all :: "bytes list \<Rightarrow> unit step" where
  "watch_all bs s = (Go (), fold watch_update bs s)"

definition StateApplied :: byte where "StateApplied = 4"
definition StateFailed :: byte where "StateFailed = 5"

definition deviceError :: "crun \<Rightarrow> central_error option" where
  "deviceError s = (case cr_last s of None \<Rightarrow> None
     | Some st \<Rightarrow> if Stat_State st = StateFailed then Some (DeviceError (Stat_Error st) st) else None)"

definition stop_if_failed :: "unit step" where
  "stop_if_failed s = (case deviceError s of Some e \<Rightarrow> (Fail e, s) | None \<Rightarrow> (Go (), s))"

definition terminal :: "crun \<Rightarrow> Status option" where
  "terminal s = (case cr_last s of None \<Rightarrow> None | Some st \<Rightarrow> if Terminal (Stat_State st) then Some st else None)"

definition auth_needles :: "string list" where
  "auth_needles = [''insufficient authentication'', ''authentication is insufficient'', ''insufficient encryption'',
     ''encryption is insufficient'', ''not permitted'', ''authorization'']"

definition isAuthError :: "(string \<Rightarrow> string) \<Rightarrow> string \<Rightarrow> bool" where
  "isAuthError low msg =
     (let m = (if ascii msg then map lower_char msg else low msg) in list_ex (\<lambda>n. str_contains m n) auth_needles)"

definition call_or :: "'a call \<Rightarrow> (string \<Rightarrow> central_error) \<Rightarrow> 'a step" where
  "call_or c err s = (case c of Returns x \<Rightarrow> (Go x, s) | Fails m \<Rightarrow> (Fail (err m), s) | CallPanics \<Rightarrow> (Panicking, s))"

text \<open>The \<open>i\<close>th write of the run, to the control or the data characteristic.\<close>

definition writeCharacteristic :: "radio \<Rightarrow> nat \<Rightarrow> gatt \<Rightarrow> unit step" where
  "writeCharacteristic rd i g =
     next_do (gatt_do g) (\<lambda>_.
     next_do (watch_all (snd (rd_write rd i))) (\<lambda>_.
       call_or (fst (rd_write rd i)) (\<lambda>m. if isAuthError (rd_lower rd) m then ErrBondLost else WriteFailed m)))"

definition discover :: "radio \<Rightarrow> unit step" where
  "discover rd =
     next_do (call_or (rd_services rd) (\<lambda>_. NoSetupService)) (\<lambda>n.
     if n \<noteq> 1 then stop NoSetupService
     else next_do (call_or (rd_chars rd) (\<lambda>_. IncompleteService)) (\<lambda>k.
       if k \<noteq> 4 then stop IncompleteService else give ()))"

definition of_wire :: "wire_error + 'a \<Rightarrow> 'a step" where
  "of_wire r s = (case r of Inl e \<Rightarrow> (Fail (WireError e), s) | Inr x \<Rightarrow> (Go x, s))"

definition readInfo :: "radio \<Rightarrow> Info step" where
  "readInfo rd = next_do (call_or (rd_info rd) ReadInfoFailed) (\<lambda>b. of_wire (ParseInfo (take InfoLen b)))"

text \<open>
  \<open>subscribe\<close>: the attempts until the deadline.  After the last of the list the deadline has passed.
\<close>

fun subscribe_loop :: "radio \<Rightarrow> sub_attempt list \<Rightarrow> unit step" where
  "subscribe_loop rd [] s = (Fail ErrPairingTimeout, s)"
| "subscribe_loop rd (a # as) s =
     (case sa_result a of
        Returns _ \<Rightarrow> next_do (gatt_do (Subscribe True)) (\<lambda>_. watch_all (sa_notes a)) s
      | CallPanics \<Rightarrow> (Panicking, snd (gatt_do (Subscribe False) s))
      | Fails m \<Rightarrow>
          (let s = snd (gatt_do (Subscribe False) s) in
           if isAuthError (rd_lower rd) m then (Fail ErrBondLost, s)
           else (case sa_ctx a of Some c \<Rightarrow> (Fail (CtxEnded c), s)
             | None \<Rightarrow> if sa_late a then (Fail ErrPairingTimeout, s) else subscribe_loop rd as s)))"

text \<open>
  \<open>awaitTerminal\<close>: a pending terminal status is returned at once, otherwise the loop waits to be woken.
  The deadline wakes it in the end.
\<close>

fun awaitTerminal :: "wake list \<Rightarrow> Status step" where
  "awaitTerminal ws s =
     (case terminal s of Some st \<Rightarrow> (Go st, s)
      | None \<Rightarrow>
          (case ws of
             [] \<Rightarrow> (Fail NeverReported, s)
           | WakeCtx c # _ \<Rightarrow> (Fail (CtxEnded c), s)
           | WakeDeadline # _ \<Rightarrow> (Fail NeverReported, s)
           | WakeNote b # ws' \<Rightarrow> awaitTerminal ws' (watch_update b s)
           | WakePoll (Returns b) # ws' \<Rightarrow> awaitTerminal ws' (watch_update (take StatusLen b) s)
           | WakePoll (Fails _) # ws' \<Rightarrow> awaitTerminal ws' s
           | WakePoll CallPanics # _ \<Rightarrow> (Panicking, s)))"

declare awaitTerminal.simps [simp del]

subsection \<open>Provision\<close>

definition step_report :: "phase \<Rightarrow> string \<Rightarrow> nat \<Rightarrow> nat \<Rightarrow> Info option \<Rightarrow> Status option \<Rightarrow> unit step" where
  "step_report ph note sent tot info st =
     report \<lparr>pg_Phase = ph, pg_Note = note, pg_Sent = sent, pg_Total = tot, pg_Info = info, pg_Status = st\<rparr>"

definition in_chunk :: "nat \<Rightarrow> nat \<Rightarrow> unit step \<Rightarrow> unit step" where
  "in_chunk i n m s = (case m s of (Fail e, s') \<Rightarrow> (Fail (InChunk i n e), s') | r \<Rightarrow> r)"

definition ctx_check :: "ctx_error option \<Rightarrow> unit step" where
  "ctx_check c = (case c of None \<Rightarrow> give () | Some e \<Rightarrow> stop (CtxEnded e))"

text \<open>The loop over the chunks; \<open>i\<close> is the index of the next, \<open>sent\<close> the bytes of the stream sent.\<close>

fun send_chunks :: "radio \<Rightarrow> Info \<Rightarrow> nat \<Rightarrow> nat \<Rightarrow> nat \<Rightarrow> nat \<Rightarrow> bytes list \<Rightarrow> nat step" where
  "send_chunks rd info tot n i sent [] = give sent"
| "send_chunks rd info tot n i sent (c # cs) =
     next_do (ctx_check (rd_ctx rd i)) (\<lambda>_.
     next_do (in_chunk (i + 1) n (writeCharacteristic rd (i + 1) (WriteData c))) (\<lambda>_.
     next_do stop_if_failed (\<lambda>_.
     next_do (step_report PhaseSending ''Sending the settings.'' (sent + (length c - 1)) tot (Some info) None) (\<lambda>_.
       send_chunks rd info tot n (i + 1) (sent + (length c - 1)) cs))))"

text \<open>From BEGIN to the last status, once the device notifies.\<close>

definition transfer_record :: "radio \<Rightarrow> Info \<Rightarrow> bytes \<Rightarrow> bytes \<Rightarrow> int \<Rightarrow> prov_result step" where
  "transfer_record rd info stream bg chunkData =
     next_do (writeCharacteristic rd 0 (WriteControl bg)) (\<lambda>_.
     next_do stop_if_failed (\<lambda>_.
     next_do (of_wire (Chunks stream chunkData)) (\<lambda>chunks.
     next_do (send_chunks rd info (length stream) (length chunks) 0 0 chunks) (\<lambda>sent.
     next_do (step_report PhaseCommitting ''Checking the settings arrived intact.'' sent (length stream) (Some info) None) (\<lambda>_.
     next_do (writeCharacteristic rd (length chunks + 1) (WriteControl CommitCommand)) (\<lambda>_.
     next_do (step_report PhaseApplying ''The device is joining the Wi-Fi network.'' sent (length stream) (Some info) None) (\<lambda>_.
     next_do (awaitTerminal (rd_await rd)) (\<lambda>final.
     if Stat_State final \<noteq> StateApplied then stop (DeviceError (Stat_Error final) final)
     else next_do (step_report PhaseDone ''The device joined the network.'' sent (length stream) (Some info) (Some final)) (\<lambda>_.
       give \<lparr>pv_Info = info, pv_Status = final, pv_ChunkData = chunkData, pv_Chunks = length chunks,
             pv_Stream = length stream\<rparr>)))))))))"

text \<open>
  The deferred functions.  A failure after subscribing writes ABORT, whose own failure is only logged; a
  panic on the way does not set the named result \<open>err\<close>, so no ABORT is written then.  Disconnecting
  happens however the conversation ends, and its own panic is swallowed.
\<close>

definition with_abort :: "radio \<Rightarrow> 'a step \<Rightarrow> 'a step" where
  "with_abort rd m s =
     (case m s of
        (Fail e, s') \<Rightarrow>
          (let s' = snd (gatt_do (WriteControl AbortCommand) s') in
           case rd_abort rd of CallPanics \<Rightarrow> (Panicking, s') | _ \<Rightarrow> (Fail e, s'))
      | r \<Rightarrow> r)"

definition with_disconnect :: "'a step \<Rightarrow> 'a step" where
  "with_disconnect m s = (case m s of (r, s') \<Rightarrow> (r, snd (gatt_do Disconnect s')))"

definition pairing_note :: string where
  "pairing_note = ''Look at the device screen and type the six digits macOS is asking for.''"

definition chunk_data :: "radio \<Rightarrow> int step" where
  "chunk_data rd s = (case rd_mtu rd of
       Returns n \<Rightarrow> (Go (ChunkSize n), s) | Fails _ \<Rightarrow> (Go (ChunkSize 0), s) | CallPanics \<Rightarrow> (Panicking, s))"

definition conversation :: "radio \<Rightarrow> bytes \<Rightarrow> bytes \<Rightarrow> prov_result step" where
  "conversation rd stream bg =
     next_do (discover rd) (\<lambda>_.
     next_do (step_report PhaseIdentifying ''Identifying the device.'' 0 (length stream) None None) (\<lambda>_.
     next_do (readInfo rd) (\<lambda>info.
     if Info_Version info \<noteq> Version then stop (ErrDeviceVersion (Info_Version info))
     else if unat (Info_Capacity info) < length stream then stop (CapacityTooSmall (length stream) (Info_Capacity info))
     else
       next_do (step_report PhaseIdentifying ''Identifying the device.'' 0 (length stream) (Some info) None) (\<lambda>_.
       next_do (chunk_data rd) (\<lambda>chunkData.
       next_do (step_report PhasePairing pairing_note 0 (length stream) (Some info) None) (\<lambda>_.
       next_do (subscribe_loop rd (rd_subscribe rd)) (\<lambda>_.
         with_abort rd (transfer_record rd info stream bg chunkData))))))))"

definition enable_step :: "radio \<Rightarrow> bool \<Rightarrow> unit step" where
  "enable_step rd enabled = (if enabled then give () else call_or (rd_enable rd) ErrAdapterUnavailable)"

definition recovered :: "'a flow \<times> crun \<Rightarrow> (central_error + 'a) \<times> crun" where
  "recovered r = (case r of (Go x, s) \<Rightarrow> (Inr x, s) | (Fail e, s) \<Rightarrow> (Inl e, s) | (Panicking, s) \<Rightarrow> (Inl ErrPanicked, s))"

definition Provision :: "radio \<Rightarrow> bool \<Rightarrow> string \<Rightarrow> Record \<Rightarrow> (central_error + prov_result) \<times> crun" where
  "Provision rd enabled address rec =
     recovered (
       next_do (of_wire (Encode rec)) (\<lambda>stream.
       next_do (of_wire (BeginCommand (length stream))) (\<lambda>bg.
       if rd_busy rd then stop ErrBusy
       else
         next_do (enable_step rd enabled) (\<lambda>_.
         if rd_addr rd address \<noteq> address then stop (UnknownAddress address)
         else
           next_do (step_report PhaseConnecting ''Connecting to the device.'' 0 (length stream) None None) (\<lambda>_.
           next_do (call_or (rd_connect rd) ConnectFailed) (\<lambda>dev.
             if \<not> dev then stop ErrBondLost else with_disconnect (conversation rd stream bg)))))) no_run)"

subsection \<open>Scan\<close>

record peripheral =
  ph_Address :: string
  ph_Name :: string
  ph_RSSI :: int
  ph_Seen :: int

definition lessPeripheral :: "peripheral \<Rightarrow> peripheral \<Rightarrow> bool" where
  "lessPeripheral a b = (if ph_RSSI a \<noteq> ph_RSSI b then ph_RSSI a > ph_RSSI b else ph_Address a < ph_Address b)"

text \<open>The inner loop of \<open>sortPeripherals\<close> from index \<open>j\<close> down, and the outer one.\<close>

fun sift_down :: "nat \<Rightarrow> peripheral list \<Rightarrow> peripheral list" where
  "sift_down 0 v = v"
| "sift_down (Suc j) v =
     (if lessPeripheral (v ! Suc j) (v ! j) then sift_down j (v[Suc j := v ! j, j := v ! Suc j]) else v)"

definition sortPeripherals :: "peripheral list \<Rightarrow> peripheral list" where
  "sortPeripherals v = fold sift_down [1..<length v] v"

text \<open>
  The advertisements seen, each with whether it names the setup service; the last of an address counts.
  \<open>order\<close> is the order in which the map is ranged over.
\<close>

definition scan_found :: "(bool \<times> peripheral) list \<Rightarrow> (string \<times> peripheral) list" where
  "scan_found evs = fold (\<lambda>(has, p) m. if has then AList.update (ph_Address p) p m else m) evs []"

definition Central_Scan :: "radio \<Rightarrow> bool \<Rightarrow> string option \<Rightarrow> (peripheral list \<Rightarrow> peripheral list) \<Rightarrow> (bool \<times> peripheral) list \<Rightarrow>
    (central_error + peripheral list)" where
  "Central_Scan rd enabled scan_err order evs =
     (case fst (recovered (enable_step rd enabled no_run)) of
        Inl e \<Rightarrow> Inl e
      | Inr _ \<Rightarrow> (case scan_err of Some m \<Rightarrow> Inl (ScanFailed m)
          | None \<Rightarrow> Inr (sortPeripherals (order (map snd (scan_found evs))))))"

end
