(* ===== verification/Ble_Central_Facts.thy ===== *)
theory Ble_Central_Facts
  imports Ble_Central "HOL-Library.Sublist"
begin

text \<open>
  What a run of \<open>Provision\<close> does to the device, in which order and how it ends, and what the device's
  decoder then holds.
\<close>

subsection \<open>A step and its part of the protocol\<close>

text \<open>
  A step \<open>follows\<close> a list of actions when it does all of them if it goes on, and a prefix of them if it
  stops or panics.
\<close>

definition follows :: "'a step \<Rightarrow> gatt list \<Rightarrow> ('a \<Rightarrow> bool) \<Rightarrow> bool" where
  "follows m script P \<longleftrightarrow> (\<forall>s. \<exists>tr. cr_trace (snd (m s)) = cr_trace s @ tr \<and>
     (case fst (m s) of Go x \<Rightarrow> tr = script \<and> P x | _ \<Rightarrow> prefix tr script))"

named_theorems follow_rules

lemma follows_next:
  assumes "follows m a P" "\<And>x. P x \<Longrightarrow> follows (f x) b Q"
  shows "follows (next_do m f) (a @ b) Q"
  unfolding follows_def
proof
  fix s
  obtain r s' where m: "m s = (r, s')" by force
  obtain t where t: "cr_trace s' = cr_trace s @ t" "case r of Go x \<Rightarrow> t = a \<and> P x | _ \<Rightarrow> prefix t a"
    using assms(1) m unfolding follows_def by (metis fst_conv snd_conv)
  show "\<exists>tr. cr_trace (snd (next_do m f s)) = cr_trace s @ tr \<and>
      (case fst (next_do m f s) of Go x \<Rightarrow> tr = a @ b \<and> Q x | _ \<Rightarrow> prefix tr (a @ b))"
  proof (cases r)
    case (Go x)
    then have "follows (f x) b Q" "t = a" using t(2) assms(2) by auto
    then obtain t2 where "cr_trace (snd (f x s')) = cr_trace s' @ t2"
        "case fst (f x s') of Go x \<Rightarrow> t2 = b \<and> Q x | _ \<Rightarrow> prefix t2 b"
      unfolding follows_def by blast
    then show ?thesis using t(1) \<open>t = a\<close> m Go
      by (intro exI [of _ "t @ t2"]) (auto simp: next_do_def split: flow.splits)
  qed (use t m in \<open>auto simp: next_do_def prefix_append split: flow.splits\<close>)
qed

lemma follows_next_Nil:
  "follows m [] P \<Longrightarrow> (\<And>x. P x \<Longrightarrow> follows (f x) b Q) \<Longrightarrow> follows (next_do m f) b Q"
  by (metis append_Nil follows_next)

lemma follows_give [follow_rules]: "P x \<Longrightarrow> follows (give x) [] P"
  by (simp add: follows_def give_def)

lemma follows_stop [follow_rules]: "follows (stop e) b P"
  by (simp add: follows_def stop_def)

lemma follows_report [follow_rules]: "follows (step_report ph note sent tot info st) [] (\<lambda>_. True)"
  by (simp add: follows_def step_report_def report_def)

lemma watch_update_trace [simp]: "cr_trace (watch_update b s) = cr_trace s" "cr_trace (fold watch_update bs s) = cr_trace s"
proof -
  show a: "cr_trace (watch_update b s) = cr_trace s" for b s by (simp add: watch_update_def split: sum.split)
  show "cr_trace (fold watch_update bs s) = cr_trace s" by (induction bs arbitrary: s) (simp_all add: a)
qed

lemma follows_call [follow_rules]: "follows (call_or c err) [] (\<lambda>x. c = Returns x)"
  by (simp add: follows_def call_or_def split: call.split)

lemma follows_wire [follow_rules]: "follows (of_wire r) [] (\<lambda>x. r = Inr x)"
  by (simp add: follows_def of_wire_def split: sum.split)

lemma follows_stop_if_failed [follow_rules]: "follows stop_if_failed [] (\<lambda>_. True)"
  by (simp add: follows_def stop_if_failed_def split: option.split)

lemma follows_ctx [follow_rules]: "follows (ctx_check c) [] (\<lambda>_. c = None)"
  by (simp add: follows_def ctx_check_def give_def stop_def split: option.split)

lemma follows_write [follow_rules]: "follows (writeCharacteristic rd i g) [g] (\<lambda>_. True)"
  by (simp add: follows_def writeCharacteristic_def next_do_def gatt_do_def watch_all_def call_or_def split: call.split)

lemma follows_in_chunk [follow_rules]: "follows m b P \<Longrightarrow> follows (in_chunk i n m) b P"
proof -
  assume m: "follows m b P"
  show ?thesis unfolding follows_def
  proof
    fix s
    obtain r s' where r: "m s = (r, s')" by force
    with m [unfolded follows_def, rule_format, of s] show "\<exists>tr. cr_trace (snd (in_chunk i n m s)) = cr_trace s @ tr \<and>
        (case fst (in_chunk i n m s) of Go x \<Rightarrow> tr = b \<and> P x | _ \<Rightarrow> prefix tr b)"
      by (cases r) (simp_all add: in_chunk_def)
  qed
qed

lemma follows_chunks [follow_rules]: "follows (send_chunks rd info tot n i sent cs) (map WriteData cs) (\<lambda>_. True)"
proof (induction cs arbitrary: i sent)
  case Nil
  show ?case by (simp add: follows_give)
next
  case (Cons c cs)
  have "follows (next_do (in_chunk (i + 1) n (writeCharacteristic rd (i + 1) (WriteData c))) (\<lambda>_.
      next_do stop_if_failed (\<lambda>_.
      next_do (step_report PhaseSending ''Sending the settings.'' (sent + (length c - 1)) tot (Some info) None) (\<lambda>_.
        send_chunks rd info tot n (i + 1) (sent + (length c - 1)) cs)))) ([WriteData c] @ map WriteData cs) (\<lambda>_. True)"
    by (rule follows_next, rule follows_in_chunk, rule follows_write)
      (rule follows_next_Nil, rule follows_stop_if_failed, rule follows_next_Nil, rule follows_report, rule Cons.IH)
  then show ?case by (simp, intro follows_next_Nil [OF follows_ctx])
qed

lemma follows_await [follow_rules]: "follows (awaitTerminal ws) [] (\<lambda>st. Terminal (Stat_State st))"
proof -
  have "cr_trace (snd (awaitTerminal ws s)) = cr_trace s \<and>
      (case fst (awaitTerminal ws s) of Go st \<Rightarrow> Terminal (Stat_State st) | _ \<Rightarrow> True)" for s
  proof (induction ws arbitrary: s)
    case Nil
    show ?case by (subst (1 2) awaitTerminal.simps) (auto simp: terminal_def split: option.splits if_splits)
  next
    case (Cons w ws)
    show ?case
    proof (cases "terminal s")
      case (Some st)
      then show ?thesis by (subst (1 2) awaitTerminal.simps) (auto simp: terminal_def split: option.splits if_splits)
    next
      case None
      then show ?thesis
        using Cons.IH by (cases w) (auto simp: awaitTerminal.simps [of "_ # ws" s] split: call.split)
    qed
  qed
  note await = this
  show ?thesis unfolding follows_def
  proof
    fix s
    show "\<exists>tr. cr_trace (snd (awaitTerminal ws s)) = cr_trace s @ tr \<and>
        (case fst (awaitTerminal ws s) of Go x \<Rightarrow> tr = [] \<and> Terminal (Stat_State x) | _ \<Rightarrow> prefix tr [])"
      using await [of s] by (intro exI [of _ "[]"]) (simp split: flow.splits)
  qed
qed

text \<open>What the protocol writes: BEGIN, the chunks, COMMIT.\<close>

definition script_of :: "bytes \<Rightarrow> bytes list \<Rightarrow> gatt list" where
  "script_of bg cs = WriteControl bg # map WriteData cs @ [WriteControl CommitCommand]"

lemma follows_transfer:
  assumes "Chunks stream csize = Inr cs"
  shows "follows (transfer_record rd info stream bg csize) (script_of bg cs)
    (\<lambda>res. pv_Info res = info \<and> Stat_State (pv_Status res) = StateApplied \<and> pv_Stream res = length stream)"
proof -
  have e: "script_of bg cs = [WriteControl bg] @ map WriteData cs @ [WriteControl CommitCommand]"
    by (simp add: script_of_def)
  have c: "next_do (of_wire (Chunks stream csize)) f = f cs" for f :: "bytes list \<Rightarrow> prov_result step"
    by (rule ext) (simp add: assms next_do_def of_wire_def)
  have finish: "follows (if Stat_State final \<noteq> StateApplied then stop (DeviceError (Stat_Error final) final)
      else next_do (step_report PhaseDone nt sent tot (Some info) (Some final)) (\<lambda>_. give res)) []
      (\<lambda>res. pv_Info res = info \<and> Stat_State (pv_Status res) = StateApplied \<and> pv_Stream res = length stream)"
    if "pv_Info res = info" "pv_Status res = final" "pv_Stream res = length stream" for final nt sent tot res
    using that by (auto intro!: follows_stop follows_next_Nil [OF follows_report] follows_give)
  show ?thesis unfolding transfer_record_def e c
    by (rule follows_next [OF follows_write], rule follows_next_Nil [OF follows_stop_if_failed],
        rule follows_next [OF follows_chunks], rule follows_next_Nil [OF follows_report],
        subst append_Nil2 [symmetric], rule follows_next [OF follows_write], rule follows_next_Nil [OF follows_report],
        rule follows_next_Nil [OF follows_await], rule finish) simp_all
qed

subsection \<open>A session\<close>

definition runs :: "'a step \<Rightarrow> ('a flow \<Rightarrow> gatt list \<Rightarrow> bool) \<Rightarrow> bool" where
  "runs m R \<longleftrightarrow> (\<forall>s. \<exists>tr. cr_trace (snd (m s)) = cr_trace s @ tr \<and> R (fst (m s)) tr)"

lemma runs_next:
  assumes "follows m [] P" "\<And>x. P x \<Longrightarrow> runs (f x) R" "\<And>e. R (Fail e) []" "R Panicking []"
  shows "runs (next_do m f) R"
  unfolding runs_def
proof
  fix s
  obtain r s' where m: "m s = (r, s')" by force
  have t: "cr_trace s' = cr_trace s" "case r of Go x \<Rightarrow> P x | _ \<Rightarrow> True"
    using assms(1) [unfolded follows_def, rule_format, of s] m by (cases r; auto)+
  show "\<exists>tr. cr_trace (snd (next_do m f s)) = cr_trace s @ tr \<and> R (fst (next_do m f s)) tr"
  proof (cases r)
    case (Go x)
    then have "runs (f x) R" using t(2) assms(2) by simp
    then have "\<exists>tr. cr_trace (snd (f x s')) = cr_trace s' @ tr \<and> R (fst (f x s')) tr" unfolding runs_def by blast
    then show ?thesis using t(1) m Go by (simp add: next_do_def)
  qed (use t m assms(3,4) in \<open>auto simp: next_do_def\<close>)
qed

lemma runs_stop: "R (Fail e) [] \<Longrightarrow> runs (stop e) R"
  by (simp add: runs_def stop_def)

lemma subscribe_trace:
  "\<exists>k. cr_trace (snd (subscribe_loop rd as s)) = cr_trace s @ replicate k (Subscribe False) @
     (case fst (subscribe_loop rd as s) of Go _ \<Rightarrow> [Subscribe True] | _ \<Rightarrow> [])"
proof (induction as arbitrary: s)
  case Nil
  show ?case by simp
next
  case (Cons a as)
  show ?case
  proof (cases "sa_result a")
    case (Returns u)
    then show ?thesis by (intro exI [of _ 0]) (simp add: next_do_def gatt_do_def watch_all_def)
  next
    case CallPanics
    then show ?thesis by (intro exI [of _ 1]) (simp add: gatt_do_def)
  next
    case (Fails m)
    let ?s = "snd (gatt_do (Subscribe False) s)"
    have t: "cr_trace ?s = cr_trace s @ [Subscribe False]" by (simp add: gatt_do_def)
    show ?thesis
    proof (cases "isAuthError (rd_lower rd) m \<or> sa_ctx a \<noteq> None \<or> sa_late a")
      case True
      then show ?thesis using Fails t by (intro exI [of _ 1]) (auto simp: Let_def split: option.splits)
    next
      case False
      then have "subscribe_loop rd (a # as) s = subscribe_loop rd as ?s" using Fails by (simp add: Let_def)
      moreover obtain k where "cr_trace (snd (subscribe_loop rd as ?s)) = cr_trace ?s @ replicate k (Subscribe False) @
          (case fst (subscribe_loop rd as ?s) of Go _ \<Rightarrow> [Subscribe True] | _ \<Rightarrow> [])"
        using Cons.IH by blast
      ultimately show ?thesis using t by (intro exI [of _ "Suc k"]) simp
    qed
  qed
qed

definition applied :: "prov_result \<Rightarrow> bool" where
  "applied res \<longleftrightarrow> Stat_State (pv_Status res) = StateApplied"

text \<open>
  What a session with the device looks like: failed tries to subscribe and nothing else, or after a
  successful one a part of the protocol, which is all of it exactly when the run goes on to its result,
  and after a failure ABORT.
\<close>

definition session :: "bytes \<Rightarrow> bytes \<Rightarrow> prov_result flow \<Rightarrow> gatt list \<Rightarrow> bool" where
  "session stream bg r t \<longleftrightarrow>
     (\<exists>k. t = replicate k (Subscribe False) \<and> (\<forall>x. r \<noteq> Go x)) \<or>
     (\<exists>k csize tr ab. 1 \<le> csize \<and> t = replicate k (Subscribe False) @ Subscribe True # tr @ ab \<and>
        prefix tr (script_of bg (chunk_loop (nat csize) 0 stream)) \<and>
        (case r of
           Go res \<Rightarrow> tr = script_of bg (chunk_loop (nat csize) 0 stream) \<and> ab = [] \<and> applied res
         | Fail e \<Rightarrow> ab = [WriteControl AbortCommand]
         | Panicking \<Rightarrow> ab = [] \<or> ab = [WriteControl AbortCommand]))"

lemma session_silent: "(\<And>x. r \<noteq> Go x) \<Longrightarrow> session stream bg r []"
  unfolding session_def by (intro disjI1 exI [of _ 0]) simp

lemma transfer_session:
  assumes "stream \<noteq> []" "1 \<le> csize"
  shows "runs (next_do (subscribe_loop rd as) (\<lambda>_. with_abort rd (transfer_record rd info stream bg csize))) (session stream bg)"
  unfolding runs_def
proof
  fix s
  let ?m = "next_do (subscribe_loop rd as) (\<lambda>_. with_abort rd (transfer_record rd info stream bg csize))"
  let ?sc = "script_of bg (chunk_loop (nat csize) 0 stream)"
  obtain r s' where sub: "subscribe_loop rd as s = (r, s')" by force
  obtain k where k: "cr_trace s' = cr_trace s @ replicate k (Subscribe False) @ (case r of Go _ \<Rightarrow> [Subscribe True] | _ \<Rightarrow> [])"
    using subscribe_trace [of rd as s] sub by auto
  show "\<exists>tr. cr_trace (snd (?m s)) = cr_trace s @ tr \<and> session stream bg (fst (?m s)) tr"
  proof (cases r)
    case (Go u)
    have "Chunks stream csize = Inr (chunk_loop (nat csize) 0 stream)" using assms by (simp add: Chunks_def)
    note F = follows_transfer [OF this, of rd info bg, unfolded follows_def, rule_format, of s']
    obtain q s2 where tr: "transfer_record rd info stream bg csize s' = (q, s2)" by force
    obtain t where t1: "cr_trace s2 = cr_trace s' @ t"
        "case q of Go res \<Rightarrow> t = ?sc \<and> pv_Info res = info \<and> Stat_State (pv_Status res) = StateApplied \<and>
           pv_Stream res = length stream | _ \<Rightarrow> prefix t ?sc"
      using F unfolding tr fst_conv snd_conv by blast
    then have t: "cr_trace s2 = cr_trace s' @ t" "case q of Go res \<Rightarrow> t = ?sc \<and> applied res | _ \<Rightarrow> prefix t ?sc"
      by (cases q; simp add: applied_def)+
    obtain q' s3 ab where w: "?m s = (q', s3)" "cr_trace s3 = cr_trace s2 @ ab"
        "case q' of Go res \<Rightarrow> q = Go res \<and> ab = [] | Fail e \<Rightarrow> q = Fail e \<and> ab = [WriteControl AbortCommand]
          | Panicking \<Rightarrow> (\<forall>x. q \<noteq> Go x) \<and> (ab = [] \<or> ab = [WriteControl AbortCommand])"
    proof (cases q)
      case (Fail e)
      then show thesis
        using sub Go tr
          that [of "case rd_abort rd of CallPanics \<Rightarrow> Panicking | _ \<Rightarrow> Fail e" "snd (gatt_do (WriteControl AbortCommand) s2)"
            "[WriteControl AbortCommand]"]
        by (cases "rd_abort rd") (simp_all add: next_do_def with_abort_def gatt_do_def Let_def)
    qed (use sub Go tr that [of q s2 "[]"] in \<open>simp_all add: next_do_def with_abort_def\<close>)
    have "session stream bg q' (replicate k (Subscribe False) @ Subscribe True # t @ ab)"
      unfolding session_def using t(2) w(3) assms(2)
      by (intro disjI2 exI [of _ k] exI [of _ csize] exI [of _ t] exI [of _ ab]) (auto split: flow.splits)
    then show ?thesis using w k t(1) Go by auto
  next
    case (Fail e)
    then have "session stream bg (Fail e) (replicate k (Subscribe False))" unfolding session_def by blast
    then show ?thesis using sub k Fail by (auto simp: next_do_def)
  next
    case Panicking
    then have "session stream bg Panicking (replicate k (Subscribe False))" unfolding session_def by blast
    then show ?thesis using sub k Panicking by (auto simp: next_do_def)
  qed
qed

lemma ChunkSize_ge: "1 \<le> ChunkSize n"
  by (simp add: ChunkSize_def Let_def SafeChunkData_def)

lemma follows_discover: "follows (discover rd) [] (\<lambda>_. True)"
  unfolding discover_def
  by (auto intro!: follows_next_Nil [OF follows_call] follows_stop follows_give split: if_split)

lemma follows_readInfo: "follows (readInfo rd) [] (\<lambda>_. True)"
proof -
  have "follows (of_wire r) [] (\<lambda>_. True)" for r :: "wire_error + Info" by (simp add: follows_def of_wire_def split: sum.split)
  then show ?thesis unfolding readInfo_def by (rule follows_next_Nil [OF follows_call])
qed

lemma follows_chunk_data: "follows (chunk_data rd) [] (\<lambda>n. 1 \<le> n)"
  by (simp add: follows_def chunk_data_def ChunkSize_ge split: call.split)

lemma conversation_session:
  assumes "stream \<noteq> []"
  shows "runs (conversation rd stream bg) (session stream bg)"
proof -
  note silent = session_silent [of "Fail e" for e] session_silent [of Panicking]
  have end_session: "runs (next_do (step_report PhaseIdentifying n1 0 (length stream) (Some info) None) (\<lambda>_.
       next_do (chunk_data rd) (\<lambda>chunkData.
       next_do (step_report PhasePairing pairing_note 0 (length stream) (Some info) None) (\<lambda>_.
       next_do (subscribe_loop rd (rd_subscribe rd)) (\<lambda>_.
         with_abort rd (transfer_record rd info stream bg chunkData)))))) (session stream bg)" for n1 info
    by (intro runs_next [OF follows_report] runs_next [OF follows_chunk_data] transfer_session assms silent) simp_all
  show ?thesis unfolding conversation_def
    by (intro runs_next [OF follows_discover] runs_next [OF follows_report] runs_next [OF follows_readInfo] silent)
      (auto intro!: runs_stop silent end_session)
qed

text \<open>The bytes of the protocol for a record, with the chunk size that was negotiated.\<close>

lemma Encode_stream:
  assumes "Encode rec = Inr stream"
  shows "stream = stream_of rec" "record_ok rec" "stream \<noteq> []" "\<exists>bg. BeginCommand (length stream) = Inr bg"
proof -
  have "record_ok rec"
    using assms validate_record_iff [of rec] by (auto simp: Encode_def bind_result_Inr_iff)
  then have e: "Encode rec = Inr (stream_of rec)" by (simp add: Encode_iff)
  then show "stream = stream_of rec" "record_ok rec" using assms \<open>record_ok rec\<close> by simp_all
  moreover have "7 \<le> length (stream_of rec)" "length (stream_of rec) \<le> 306"
    using length_payload [OF \<open>record_ok rec\<close>] by (simp_all add: length_stream_of)
  ultimately show "stream \<noteq> []" "\<exists>bg. BeginCommand (length stream) = Inr bg"
    by (auto simp: BeginCommand_def wire_consts)
qed

definition whole_session :: "Record \<Rightarrow> central_error + prov_result \<Rightarrow> gatt list \<Rightarrow> bool" where
  "whole_session rec r t \<longleftrightarrow>
     (\<exists>e. r = Inl e \<and> (t = [] \<or> (\<exists>k. t = replicate k (Subscribe False) @ [Disconnect]))) \<or>
     (\<exists>k csize bg tr ab. 1 \<le> csize \<and> Encode rec = Inr (stream_of rec) \<and> BeginCommand (length (stream_of rec)) = Inr bg \<and>
        t = replicate k (Subscribe False) @ Subscribe True # tr @ ab @ [Disconnect] \<and>
        prefix tr (script_of bg (chunk_loop (nat csize) 0 (stream_of rec))) \<and>
        (case r of
           Inr res \<Rightarrow> tr = script_of bg (chunk_loop (nat csize) 0 (stream_of rec)) \<and> ab = [] \<and> applied res
         | Inl e \<Rightarrow> ab = [WriteControl AbortCommand] \<or> e = ErrPanicked \<and> ab = []))"

lemma whole_session_early: "whole_session rec (Inl e) []"
  by (simp add: whole_session_def)

definition flow_result :: "'a flow \<Rightarrow> central_error + 'a" where
  "flow_result r = (case r of Go x \<Rightarrow> Inr x | Fail e \<Rightarrow> Inl e | Panicking \<Rightarrow> Inl ErrPanicked)"

lemma flow_result_simps [simp]:
  "flow_result (Go x) = Inr x" "flow_result (Fail e) = Inl e" "flow_result Panicking = Inl ErrPanicked"
  by (simp_all add: flow_result_def)

lemma recovered_eq: "recovered (r, s) = (flow_result r, s)"
  by (simp add: recovered_def flow_result_def split: flow.split)

lemma disconnect_session:
  assumes enc: "Encode rec = Inr stream" and bg: "BeginCommand (length stream) = Inr bg"
    and m: "runs m (session stream bg)"
  shows "runs (with_disconnect m) (\<lambda>r. whole_session rec (flow_result r))"
  unfolding runs_def
proof
  fix s
  obtain r s' where r: "m s = (r, s')" by force
  obtain t where t: "cr_trace s' = cr_trace s @ t" "session stream bg r t"
    using m [unfolded runs_def, rule_format, of s] r by auto
  have e: "stream = stream_of rec" using Encode_stream(1) [OF enc] .
  have "whole_session rec (flow_result r) (t @ [Disconnect])"
    using t(2) unfolding session_def
  proof (elim disjE exE conjE)
    fix k assume "t = replicate k (Subscribe False)" "\<forall>x. r \<noteq> Go x"
    then show ?thesis unfolding whole_session_def by (cases r) auto
  next
    fix k csize tr ab
    assume a: "1 \<le> csize" "t = replicate k (Subscribe False) @ Subscribe True # tr @ ab"
      "prefix tr (script_of bg (chunk_loop (nat csize) 0 stream))"
      "case r of Go res \<Rightarrow> tr = script_of bg (chunk_loop (nat csize) 0 stream) \<and> ab = [] \<and> applied res
         | Fail e \<Rightarrow> ab = [WriteControl AbortCommand] | Panicking \<Rightarrow> ab = [] \<or> ab = [WriteControl AbortCommand]"
    show ?thesis
      unfolding whole_session_def using enc bg a unfolding e
      by (intro disjI2 exI [of _ k] exI [of _ csize] exI [of _ bg] exI [of _ tr] exI [of _ ab])
        (cases r, auto)
  qed
  then show "\<exists>tr. cr_trace (snd (with_disconnect m s)) = cr_trace s @ tr \<and> whole_session rec (flow_result (fst (with_disconnect m s))) tr"
    using r t(1) by (simp add: with_disconnect_def gatt_do_def)
qed

lemma follows_enable: "follows (enable_step rd enabled) [] (\<lambda>_. True)"
  by (simp add: follows_def enable_step_def give_def call_or_def split: call.split)

lemma whole_next:
  "follows m [] P \<Longrightarrow> (\<And>x. P x \<Longrightarrow> runs (f x) (\<lambda>r. whole_session rec (flow_result r))) \<Longrightarrow>
     runs (next_do m f) (\<lambda>r. whole_session rec (flow_result r))"
  by (rule runs_next [of m P]) (simp_all add: whole_session_early)

lemma whole_stop: "runs (stop e) (\<lambda>r. whole_session rec (flow_result r))"
  by (rule runs_stop) (simp add: whole_session_early)

lemma Provision_whole:
  "whole_session rec (fst (Provision rd enabled address rec)) (cr_trace (snd (Provision rd enabled address rec)))"
proof -
  let ?R = "\<lambda>r. whole_session rec (flow_result r)"
  have R: "whole_session rec (fst (recovered (m no_run))) (cr_trace (snd (recovered (m no_run))))" if "runs m ?R" for m
  proof -
    obtain r s where m: "m no_run = (r, s)" by force
    from that have "\<exists>tr. cr_trace (snd (m no_run)) = cr_trace no_run @ tr \<and> ?R (fst (m no_run)) tr"
      unfolding runs_def by blast
    moreover have "cr_trace no_run = []" by (simp add: no_run_def)
    ultimately have "?R r (cr_trace s)" by (simp add: m)
    then show ?thesis by (simp add: m recovered_eq)
  qed
  have connected: "runs (with_disconnect (conversation rd stream bg)) ?R"
    if "Encode rec = Inr stream" "BeginCommand (length stream) = Inr bg" for stream bg
    using disconnect_session [OF that conversation_session] Encode_stream(3) [OF that(1)] by simp
  show ?thesis unfolding Provision_def
    by (rule R, rule whole_next [OF follows_wire], rule whole_next [OF follows_wire])
      (auto intro!: whole_stop whole_next [OF follows_enable] whole_next [OF follows_report] whole_next [OF follows_call]
        connected simp del: flow_result_simps)
qed

subsection \<open>The device's side\<close>

text \<open>What the decoder of the device makes of the writes.\<close>

fun device_side :: "gatt list \<Rightarrow> decoder \<Rightarrow> decoder \<times> dev_error list" where
  "device_side [] d = (d, [])"
| "device_side (WriteControl b # t) d = (case onControl b d of (d1, e) \<Rightarrow> (case device_side t d1 of (d2, es) \<Rightarrow> (d2, e # es)))"
| "device_side (WriteData b # t) d = (case onChunk b d of (d1, e) \<Rightarrow> (case device_side t d1 of (d2, es) \<Rightarrow> (d2, e # es)))"
| "device_side (Subscribe ok # t) d = device_side t d"
| "device_side (Disconnect # t) d = device_side t d"

lemma device_side_append:
  "device_side (a @ b) d = (case device_side a d of (d1, e1) \<Rightarrow> (case device_side b d1 of (d2, e2) \<Rightarrow> (d2, e1 @ e2)))"
  by (induction a d rule: device_side.induct) (auto split: prod.splits)

lemma device_side_subscribe [simp]: "device_side (replicate k (Subscribe ok)) d = (d, [])"
  by (induction k) simp_all

lemma device_side_chunks: "device_side (map WriteData cs) d = writes onChunk cs d"
  by (induction cs arbitrary: d) (auto split: prod.splits)

lemma device_side_script:
  assumes "Encode rec = Inr (stream_of rec)" "BeginCommand (length (stream_of rec)) = Inr bg" "1 \<le> csize" "stream_of rec \<noteq> []"
  shows "provision_writes rec csize d = Inr (device_side (script_of bg (chunk_loop (nat csize) 0 (stream_of rec))) d)"
  using assms
  by (auto simp: provision_writes_def Chunks_def script_of_def device_side_append device_side_chunks split: prod.splits)

subsection \<open>How a run ends\<close>

text \<open>
  C4: nothing is written to a device that did not pair, and what is written is the protocol.  Whatever the
  radio does, a run tries to subscribe, writes nothing if it does not come to that, and after a successful
  try writes BEGIN, the chunks in order and COMMIT, or the beginning of that, and disconnects.  It succeeds
  only when all of it was written and the device reported \<open>Applied\<close>; a failure on the way is answered
  with ABORT, unless it was a panic.
\<close>

theorem provision_session:
  "whole_session rec (fst (Provision rd enabled address rec)) (cr_trace (snd (Provision rd enabled address rec)))"
  by (rule Provision_whole)

lemma Provision_delivers:
  assumes "Provision rd enabled address rec = (Inr res, run)"
  shows "\<exists>d' es. device_side (cr_trace run) d = (d', es) \<and> set es = {E_None} \<and> dec_state d' = S_Ready \<and>
    dec_rec d' = dev_view rec \<and> Stat_State (pv_Status res) = StateApplied"
proof -
  obtain k csize bg where s: "1 \<le> csize" "Encode rec = Inr (stream_of rec)" "BeginCommand (length (stream_of rec)) = Inr bg"
      "cr_trace run = replicate k (Subscribe False) @ Subscribe True # script_of bg (chunk_loop (nat csize) 0 (stream_of rec)) @ [Disconnect]"
      "applied res"
    using Provision_whole [of rec rd enabled address] assms by (auto simp: whole_session_def)
  have ok: "record_ok rec" "stream_of rec \<noteq> []" using Encode_stream(2,3) [OF s(2)] .
  obtain d' es where p: "provision_writes rec csize d = Inr (d', es)" "set es = {E_None}" "dec_state d' = S_Ready" "dec_rec d' = dev_view rec"
    using provision_delivers [OF ok(1) s(1), of d] by blast
  have "device_side (script_of bg (chunk_loop (nat csize) 0 (stream_of rec))) d = (d', es)"
    using p(1) device_side_script [OF s(2,3,1) ok(2), of d] by simp
  then show ?thesis
    using p(2-4) s(5) by (simp add: s(4) device_side_append applied_def)
qed

text \<open>
  C3: success means the device has it.  If \<open>Provision\<close> succeeds then the decoder of the device, whatever
  it was doing before, answers every write of the run without error and ends in \<open>Ready\<close> with the record
  that was to be sent.
\<close>

theorem provisioned_device_holds_record:
  assumes "Provision rd enabled address rec = (Inr res, run)"
  shows "\<exists>d' es. device_side (cr_trace run) d = (d', es) \<and> set es = {E_None} \<and> dec_state d' = S_Ready \<and>
    dec_rec d' = dev_view rec \<and> Stat_State (pv_Status res) = StateApplied"
  by (rule Provision_delivers [OF assms])

definition is_write :: "gatt \<Rightarrow> bool" where
  "is_write g = (case g of WriteControl _ \<Rightarrow> True | WriteData _ \<Rightarrow> True | _ \<Rightarrow> False)"


subsection \<open>A radio that works\<close>

text \<open>
  What it takes for a run to go through: every call of the library returns, the device speaks the version,
  has room for the stream, notifies nothing on the way and \<open>Applied\<close> in the end.
\<close>

definition working :: "radio \<Rightarrow> nat \<Rightarrow> bool" where
  "working rd n \<longleftrightarrow> \<not> rd_busy rd \<and> rd_enable rd = Returns () \<and> rd_connect rd = Returns True \<and>
     rd_services rd = Returns 1 \<and> rd_chars rd = Returns 4 \<and> rd_mtu rd \<noteq> CallPanics \<and>
     (case rd_info rd of Returns b \<Rightarrow> (case ParseInfo (take InfoLen b) of
        Inr info \<Rightarrow> Info_Version info = Version \<and> n \<le> unat (Info_Capacity info) | Inl _ \<Rightarrow> False) | _ \<Rightarrow> False) \<and>
     (case rd_subscribe rd of [] \<Rightarrow> False | a # _ \<Rightarrow> sa_result a = Returns () \<and> sa_notes a = []) \<and>
     (\<forall>i. rd_ctx rd i = None) \<and>
     (\<exists>b st. rd_await rd = [WakeNote b] \<and> ParseStatus b = Inr st \<and> Stat_State st = StateApplied)"

lemma next_do_go: "m s = (Go x, s') \<Longrightarrow> next_do m f s = f x s'"
  by (simp add: next_do_def)

lemma next_do_panic: "m s = (Panicking, s') \<Longrightarrow> next_do m f s = (Panicking, s')"
  by (simp add: next_do_def)

lemma write_ok:
  assumes "rd_write rd i = (Returns (), [])"
  shows "writeCharacteristic rd i g s = (Go (), s\<lparr>cr_trace := cr_trace s @ [g]\<rparr>)"
  using assms by (simp add: writeCharacteristic_def next_do_def gatt_do_def watch_all_def call_or_def)

lemma write_panics:
  assumes "rd_write rd i = (CallPanics, [])"
  shows "writeCharacteristic rd i g s = (Panicking, s\<lparr>cr_trace := cr_trace s @ [g]\<rparr>)"
  using assms by (simp add: writeCharacteristic_def next_do_def gatt_do_def watch_all_def call_or_def)

lemma quiet_go: "cr_last s = None \<Longrightarrow> stop_if_failed s = (Go (), s)"
  by (simp add: stop_if_failed_def deviceError_def)

text \<open>A step that goes on as long as no status has come, and does all of its part.\<close>

definition goes :: "'a step \<Rightarrow> gatt list \<Rightarrow> ('a \<Rightarrow> bool) \<Rightarrow> bool" where
  "goes m t P \<longleftrightarrow> (\<forall>s. cr_last s = None \<longrightarrow>
     (\<exists>x s'. m s = (Go x, s') \<and> P x \<and> cr_trace s' = cr_trace s @ t \<and> cr_last s' = None))"

lemma goes_next:
  assumes "goes m a P" "\<And>x. P x \<Longrightarrow> goes (f x) b Q"
  shows "goes (next_do m f) (a @ b) Q"
  unfolding goes_def
proof (intro allI impI)
  fix s :: crun assume "cr_last s = None"
  with assms(1) obtain x s' where m: "m s = (Go x, s')" "P x" "cr_trace s' = cr_trace s @ a" "cr_last s' = None"
    unfolding goes_def by blast
  with assms(2) obtain y s2 where "f x s' = (Go y, s2)" "Q y" "cr_trace s2 = cr_trace s' @ b" "cr_last s2 = None"
    unfolding goes_def by blast
  then show "\<exists>x s'. next_do m f s = (Go x, s') \<and> Q x \<and> cr_trace s' = cr_trace s @ a @ b \<and> cr_last s' = None"
    using m by (simp add: next_do_def)
qed

lemma goes_next_Nil: "goes m [] P \<Longrightarrow> (\<And>x. P x \<Longrightarrow> goes (f x) b Q) \<Longrightarrow> goes (next_do m f) b Q"
  by (metis append_Nil goes_next)

lemma goes_give: "P x \<Longrightarrow> goes (give x) [] P"
  by (simp add: goes_def give_def)

lemma goes_report: "goes (step_report ph nt sent tot info st) [] (\<lambda>_. True)"
  by (simp add: goes_def step_report_def report_def)

lemma goes_quiet: "goes stop_if_failed [] (\<lambda>_. True)"
  by (simp add: goes_def quiet_go)

lemma goes_write: "rd_write rd i = (Returns (), []) \<Longrightarrow> goes (writeCharacteristic rd i g) [g] (\<lambda>_. True)"
  by (simp add: goes_def write_ok)

lemma goes_in_chunk: "goes m t P \<Longrightarrow> goes (in_chunk j n m) t P"
proof -
  have "m s = (Go x, s') \<Longrightarrow> in_chunk j n m s = (Go x, s')" for s x s' by (simp add: in_chunk_def)
  then show "goes m t P \<Longrightarrow> goes (in_chunk j n m) t P" unfolding goes_def by blast
qed

lemma goes_ctx: "c = None \<Longrightarrow> goes (ctx_check c) [] (\<lambda>_. True)"
  by (simp add: goes_def ctx_check_def give_def)

lemma goes_wire: "r = Inr x \<Longrightarrow> goes (of_wire r) [] (\<lambda>y. y = x)"
  by (simp add: goes_def of_wire_def)

lemma goes_call: "c = Returns x \<Longrightarrow> goes (call_or c err) [] (\<lambda>y. y = x)"
  by (simp add: goes_def call_or_def)

lemmas goes_rules = goes_report goes_quiet goes_give goes_wire goes_call goes_ctx goes_write goes_in_chunk

lemma goes_chunks:
  assumes "\<And>i. rd_ctx rd i = None" "\<And>j. rd_write rd j = (Returns (), [])"
  shows "goes (send_chunks rd info tot n i sent cs) (map WriteData cs) (\<lambda>_. True)"
proof (induction cs arbitrary: i sent)
  case Nil
  show ?case by (simp add: goes_give)
next
  case (Cons c cs)
  have "goes (next_do (in_chunk (i + 1) n (writeCharacteristic rd (i + 1) (WriteData c))) (\<lambda>_.
      next_do stop_if_failed (\<lambda>_.
      next_do (step_report PhaseSending ''Sending the settings.'' (sent + (length c - 1)) tot (Some info) None) (\<lambda>_.
        send_chunks rd info tot n (i + 1) (sent + (length c - 1)) cs)))) ([WriteData c] @ map WriteData cs) (\<lambda>_. True)"
    by (rule goes_next [OF goes_in_chunk [OF goes_write [OF assms(2)]]])
      (rule goes_next_Nil [OF goes_quiet], rule goes_next_Nil [OF goes_report], rule Cons.IH)
  then show ?case by (simp, intro goes_next_Nil [OF goes_ctx [OF assms(1)]])
qed

definition arrives :: "'a step \<Rightarrow> ('a \<Rightarrow> bool) \<Rightarrow> bool" where
  "arrives m Q \<longleftrightarrow> (\<forall>s. cr_last s = None \<longrightarrow> (\<exists>y s'. m s = (Go y, s') \<and> Q y))"

lemma arrives_next: "goes m a P \<Longrightarrow> (\<And>x. P x \<Longrightarrow> arrives (f x) Q) \<Longrightarrow> arrives (next_do m f) Q"
  unfolding goes_def arrives_def by (metis next_do_go)

lemma arrives_wrapped: "arrives m Q \<Longrightarrow> arrives (with_abort rd m) Q" "arrives m Q \<Longrightarrow> arrives (with_disconnect m) Q"
proof -
  have "m s = (Go x, s') \<Longrightarrow> with_abort rd m s = (Go x, s')" for s x s' by (simp add: with_abort_def)
  then show "arrives m Q \<Longrightarrow> arrives (with_abort rd m) Q" unfolding arrives_def by blast
  have "m s = (Go x, s') \<Longrightarrow> with_disconnect m s = (Go x, snd (gatt_do Disconnect s'))" for s x s'
    by (simp add: with_disconnect_def)
  then show "arrives m Q \<Longrightarrow> arrives (with_disconnect m) Q" unfolding arrives_def by blast
qed

lemma arrives_applied:
  assumes "ParseStatus b = Inr st" "Stat_State st = StateApplied" "applied (res st)"
  shows "arrives (next_do (awaitTerminal [WakeNote b]) (\<lambda>final.
    if Stat_State final \<noteq> StateApplied then stop (DeviceError (Stat_Error final) final)
    else next_do (step_report ph nt sent tot info (Some final)) (\<lambda>_. give (res final)))) applied"
  unfolding arrives_def
proof (intro allI impI)
  fix s :: crun assume s: "cr_last s = None"
  let ?s = "s\<lparr>cr_last := Some st\<rparr>"
  have "awaitTerminal [] ?s = (Go st, ?s)"
    using assms(2) by (simp add: awaitTerminal.simps [of "[]" ?s] terminal_def Terminal_def StateApplied_def)
  then have "awaitTerminal [WakeNote b] s = (Go st, ?s)"
    using s assms(1) by (simp add: awaitTerminal.simps [of "[WakeNote b]" s] terminal_def watch_update_def)
  then show "\<exists>y s'. next_do (awaitTerminal [WakeNote b]) (\<lambda>final.
    if Stat_State final \<noteq> StateApplied then stop (DeviceError (Stat_Error final) final)
    else next_do (step_report ph nt sent tot info (Some final)) (\<lambda>_. give (res final))) s = (Go y, s') \<and> applied y"
    using assms(2,3) by (simp add: next_do_def step_report_def report_def give_def)
qed

lemma transfer_arrives:
  assumes "\<And>i. rd_ctx rd i = None" "\<And>j. rd_write rd j = (Returns (), [])" "rd_await rd = [WakeNote b]"
    "ParseStatus b = Inr st" "Stat_State st = StateApplied" "Chunks stream csize = Inr cs"
  shows "arrives (transfer_record rd info stream bg csize) applied"
  unfolding transfer_record_def assms(3)
  by (rule arrives_next [OF goes_write [OF assms(2)]], rule arrives_next [OF goes_quiet],
      rule arrives_next [OF goes_wire [OF assms(6)]], rule arrives_next [OF goes_chunks [OF assms(1,2)]],
      rule arrives_next [OF goes_report], rule arrives_next [OF goes_write [OF assms(2)]],
      rule arrives_next [OF goes_report], rule arrives_applied [OF assms(4,5)])
    (simp add: applied_def assms(5))

lemma goes_discover: "rd_services rd = Returns 1 \<Longrightarrow> rd_chars rd = Returns 4 \<Longrightarrow> goes (discover rd) [] (\<lambda>_. True)"
  unfolding discover_def by (auto intro!: goes_next_Nil [OF goes_call] goes_give)

lemma goes_readInfo:
  "rd_info rd = Returns b \<Longrightarrow> ParseInfo (take InfoLen b) = Inr info \<Longrightarrow> goes (readInfo rd) [] (\<lambda>x. x = info)"
  unfolding readInfo_def by (auto intro!: goes_next_Nil [OF goes_call] goes_wire)

lemma goes_chunk_data: "rd_mtu rd \<noteq> CallPanics \<Longrightarrow> goes (chunk_data rd) [] (\<lambda>n. 1 \<le> n)"
  by (auto simp: goes_def chunk_data_def ChunkSize_ge split: call.split)

lemma goes_subscribe:
  "rd_subscribe rd = a # as \<Longrightarrow> sa_result a = Returns () \<Longrightarrow> sa_notes a = [] \<Longrightarrow>
     goes (subscribe_loop rd (rd_subscribe rd)) [Subscribe True] (\<lambda>_. True)"
  by (simp add: goes_def next_do_def gatt_do_def watch_all_def)

lemma goes_enable: "rd_enable rd = Returns () \<Longrightarrow> goes (enable_step rd en) [] (\<lambda>_. True)"
  by (simp add: goes_def enable_step_def give_def call_or_def)

lemma conversation_arrives:
  assumes w: "working rd (length stream)" and writes: "\<And>j. rd_write rd j = (Returns (), [])" and ne: "stream \<noteq> []"
  shows "arrives (conversation rd stream bg) applied"
proof -
  obtain ib info where i: "rd_info rd = Returns ib" "ParseInfo (take InfoLen ib) = Inr info" "Info_Version info = Version"
      "length stream \<le> unat (Info_Capacity info)"
    using w by (auto simp: working_def split: call.splits sum.splits)
  obtain a as where a: "rd_subscribe rd = a # as" "sa_result a = Returns ()" "sa_notes a = []"
    using w by (auto simp: working_def split: list.splits)
  obtain b st where b: "rd_await rd = [WakeNote b]" "ParseStatus b = Inr st" "Stat_State st = StateApplied"
    using w unfolding working_def by blast
  have r: "rd_services rd = Returns 1" "rd_chars rd = Returns 4" "rd_mtu rd \<noteq> CallPanics" "\<And>i. rd_ctx rd i = None"
    using w by (auto simp: working_def)
  have t: "arrives (with_abort rd (transfer_record rd inf stream bg cd)) applied" if "1 \<le> cd" for inf cd
  proof -
    have "Chunks stream cd = Inr (chunk_loop (nat cd) 0 stream)" using ne that by (simp add: Chunks_def)
    then show ?thesis by (intro arrives_wrapped(1) transfer_arrives [OF r(4) writes b])
  qed
  have "arrives (next_do (step_report PhaseIdentifying ''Identifying the device.'' 0 (length stream) (Some info) None) (\<lambda>_.
       next_do (chunk_data rd) (\<lambda>chunkData.
       next_do (step_report PhasePairing pairing_note 0 (length stream) (Some info) None) (\<lambda>_.
       next_do (subscribe_loop rd (rd_subscribe rd)) (\<lambda>_.
         with_abort rd (transfer_record rd info stream bg chunkData)))))) applied"
    by (rule arrives_next [OF goes_report], rule arrives_next [OF goes_chunk_data [OF r(3)]],
        rule arrives_next [OF goes_report], rule arrives_next [OF goes_subscribe [OF a]], rule t)
  then show ?thesis
    unfolding conversation_def
    by (intro arrives_next [OF goes_discover [OF r(1,2)]] arrives_next [OF goes_report] arrives_next [OF goes_readInfo [OF i(1,2)]])
      (use i(3,4) in simp)
qed

lemma arrives_recovered: "arrives m Q \<Longrightarrow> \<exists>res run. recovered (m no_run) = (Inr res, run) \<and> Q res"
proof -
  assume "arrives m Q"
  moreover have "cr_last no_run = None" by (simp add: no_run_def)
  ultimately obtain y s where "m no_run = (Go y, s)" "Q y" unfolding arrives_def by blast
  then show ?thesis by (simp add: recovered_eq)
qed

lemma Provision_arrives:
  assumes "validate_record rec = Inr ()" "working rd (length (stream_of rec))" "\<And>j. rd_write rd j = (Returns (), [])"
    "rd_addr rd address = address"
  shows "\<exists>res run. Provision rd enabled address rec = (Inr res, run) \<and> applied res"
proof -
  have ok: "record_ok rec" using assms(1) by (simp add: validate_record_iff)
  then have enc: "Encode rec = Inr (stream_of rec)" by (simp add: Encode_iff)
  obtain bg where bg: "BeginCommand (length (stream_of rec)) = Inr bg" using Encode_stream(4) [OF enc] by blast
  have w: "\<not> rd_busy rd" "rd_enable rd = Returns ()" "rd_connect rd = Returns True" using assms(2) by (auto simp: working_def)
  have "arrives (next_do (of_wire (Encode rec)) (\<lambda>stream.
       next_do (of_wire (BeginCommand (length stream))) (\<lambda>bg.
       if rd_busy rd then stop ErrBusy
       else
         next_do (enable_step rd enabled) (\<lambda>_.
         if rd_addr rd address \<noteq> address then stop (UnknownAddress address)
         else
           next_do (step_report PhaseConnecting ''Connecting to the device.'' 0 (length stream) None None) (\<lambda>_.
           next_do (call_or (rd_connect rd) ConnectFailed) (\<lambda>dev.
             if \<not> dev then stop ErrBondLost else with_disconnect (conversation rd stream bg))))))) applied"
    by (rule arrives_next [OF goes_wire [OF enc]], simp, rule arrives_next [OF goes_wire [OF bg]],
        simp add: w(1) assms(4), rule arrives_next [OF goes_enable [OF w(2)]],
        rule arrives_next [OF goes_report], rule arrives_next [OF goes_call [OF w(3)]], simp,
        rule arrives_wrapped(2), rule conversation_arrives [OF assms(2,3) Encode_stream(3) [OF enc]])
  then show ?thesis unfolding Provision_def by (rule arrives_recovered)
qed


subsection \<open>A radio that breaks at the first chunk\<close>

text \<open>A step that stops with an error, or panics, after doing \<open>t\<close>.\<close>

definition halts :: "'a step \<Rightarrow> central_error option \<Rightarrow> gatt list \<Rightarrow> bool" where
  "halts m oe t \<longleftrightarrow> (\<forall>s. cr_last s = None \<longrightarrow>
     (\<exists>s'. m s = (case oe of None \<Rightarrow> Panicking | Some e \<Rightarrow> Fail e, s') \<and> cr_trace s' = cr_trace s @ t \<and> cr_last s' = None))"

lemma halts_next:
  assumes "goes m a P" "\<And>x. P x \<Longrightarrow> halts (f x) oe b"
  shows "halts (next_do m f) oe (a @ b)"
  unfolding halts_def
proof (intro allI impI)
  fix s :: crun assume "cr_last s = None"
  with assms(1) obtain x s' where m: "m s = (Go x, s')" "P x" "cr_trace s' = cr_trace s @ a" "cr_last s' = None"
    unfolding goes_def by blast
  with assms(2) obtain s2 where "f x s' = (case oe of None \<Rightarrow> Panicking | Some e \<Rightarrow> Fail e, s2)" "cr_trace s2 = cr_trace s' @ b" "cr_last s2 = None"
    unfolding halts_def by blast
  then show "\<exists>s'. next_do m f s = (case oe of None \<Rightarrow> Panicking | Some e \<Rightarrow> Fail e, s') \<and> cr_trace s' = cr_trace s @ a @ b \<and> cr_last s' = None"
    using m by (simp add: next_do_def)
qed

lemma halts_next_Nil: "goes m [] P \<Longrightarrow> (\<And>x. P x \<Longrightarrow> halts (f x) oe b) \<Longrightarrow> halts (next_do m f) oe b"
  by (metis append_Nil halts_next)

lemma halts_here: "halts m oe t \<Longrightarrow> halts (next_do m f) oe t"
proof -
  have "m s = (case oe of None \<Rightarrow> Panicking | Some e \<Rightarrow> Fail e, s') \<Longrightarrow>
      next_do m f s = (case oe of None \<Rightarrow> Panicking | Some e \<Rightarrow> Fail e, s')" for s s'
    by (cases oe) (simp_all add: next_do_def)
  then show "halts m oe t \<Longrightarrow> halts (next_do m f) oe t" unfolding halts_def by blast
qed

text \<open>BEGIN goes through, the first chunk does not.\<close>

definition breaking :: "radio \<Rightarrow> unit call \<Rightarrow> bool" where
  "breaking rd c \<longleftrightarrow> rd_write rd 0 = (Returns (), []) \<and> rd_write rd 1 = (c, []) \<and> rd_abort rd = Returns ()"

definition broken_with :: "radio \<Rightarrow> unit call \<Rightarrow> nat \<Rightarrow> central_error option" where
  "broken_with rd c n = (case c of Fails m \<Rightarrow> Some (InChunk 1 n (if isAuthError (rd_lower rd) m then ErrBondLost else WriteFailed m))
     | _ \<Rightarrow> None)"

lemma halts_first_chunk:
  assumes "breaking rd k" "k \<noteq> Returns ()" "\<And>i. rd_ctx rd i = None"
  shows "halts (send_chunks rd info tot n 0 0 (c # cs)) (broken_with rd k n) [WriteData c]"
proof -
  have w: "halts (in_chunk 1 n (writeCharacteristic rd 1 (WriteData c))) (broken_with rd k n) [WriteData c]"
    using assms(1,2) by (cases k) (simp_all add: halts_def breaking_def broken_with_def in_chunk_def writeCharacteristic_def
        next_do_def gatt_do_def watch_all_def call_or_def)
  show ?thesis using halts_here [OF w] by (simp, intro halts_next_Nil [OF goes_ctx [OF assms(3)]]) simp
qed

lemma halts_transfer:
  assumes "breaking rd k" "k \<noteq> Returns ()" "\<And>i. rd_ctx rd i = None" "Chunks stream csize = Inr (c # cs)"
  shows "halts (transfer_record rd info stream bg csize) (broken_with rd k (length (c # cs))) [WriteControl bg, WriteData c]"
proof -
  have "rd_write rd 0 = (Returns (), [])" using assms(1) by (simp add: breaking_def)
  from goes_write [OF this] have "halts (transfer_record rd info stream bg csize) (broken_with rd k (length (c # cs))) ([WriteControl bg] @ [WriteData c])"
    unfolding transfer_record_def
    by (rule halts_next, intro halts_next_Nil [OF goes_quiet] halts_next_Nil [OF goes_wire [OF assms(4)]])
      (auto intro!: halts_here halts_first_chunk assms(1-3) simp del: send_chunks.simps)
  then show ?thesis by simp
qed

lemma halts_abort_panic:
  assumes "halts m None t"
  shows "halts (with_abort rd m) None t"
proof -
  have "m s = (Panicking, s') \<Longrightarrow> with_abort rd m s = (Panicking, s')" for s s' by (simp add: with_abort_def)
  then show ?thesis using assms unfolding halts_def option.case by blast
qed

lemma halts_abort_fail:
  assumes "halts m (Some e) t" "rd_abort rd = Returns ()"
  shows "halts (with_abort rd m) (Some e) (t @ [WriteControl AbortCommand])"
  unfolding halts_def option.case
proof (intro allI impI)
  fix s :: crun assume "cr_last s = None"
  with assms(1) obtain s' where "m s = (Fail e, s')" "cr_trace s' = cr_trace s @ t" "cr_last s' = None"
    unfolding halts_def option.case by blast
  then show "\<exists>s'. with_abort rd m s = (Fail e, s') \<and> cr_trace s' = cr_trace s @ t @ [WriteControl AbortCommand] \<and> cr_last s' = None"
    using assms(2) by (simp add: with_abort_def gatt_do_def)
qed

lemma halts_disconnect:
  assumes "halts m oe t"
  shows "halts (with_disconnect m) oe (t @ [Disconnect])"
  unfolding halts_def
proof (intro allI impI)
  fix s :: crun assume "cr_last s = None"
  with assms obtain s' where "m s = (case oe of None \<Rightarrow> Panicking | Some e \<Rightarrow> Fail e, s')" "cr_trace s' = cr_trace s @ t" "cr_last s' = None"
    unfolding halts_def by blast
  then show "\<exists>s'. with_disconnect m s = (case oe of None \<Rightarrow> Panicking | Some e \<Rightarrow> Fail e, s') \<and>
      cr_trace s' = cr_trace s @ t @ [Disconnect] \<and> cr_last s' = None"
    by (simp add: with_disconnect_def gatt_do_def)
qed

lemma halts_conversation:
  assumes w: "working rd (length stream)" and b: "breaking rd k" "k \<noteq> Returns ()" and ne: "stream \<noteq> []"
  obtains csize n where "1 \<le> csize"
    "halts (conversation rd stream bg) (broken_with rd k n)
      (Subscribe True # WriteControl bg # WriteData (0 # take (nat csize) stream) #
        (case broken_with rd k n of None \<Rightarrow> [] | Some _ \<Rightarrow> [WriteControl AbortCommand]))"
proof -
  obtain ib info where i: "rd_info rd = Returns ib" "ParseInfo (take InfoLen ib) = Inr info" "Info_Version info = Version"
      "length stream \<le> unat (Info_Capacity info)"
    using w by (auto simp: working_def split: call.splits sum.splits)
  obtain a as where a: "rd_subscribe rd = a # as" "sa_result a = Returns ()" "sa_notes a = []"
    using w by (auto simp: working_def split: list.splits)
  have r: "rd_services rd = Returns 1" "rd_chars rd = Returns 4" "rd_mtu rd \<noteq> CallPanics" "\<And>i. rd_ctx rd i = None"
    using w by (auto simp: working_def)
  obtain cd where cd: "1 \<le> cd" "\<And>s. chunk_data rd s = (Go cd, s)"
    using r(3) ChunkSize_ge by (cases "rd_mtu rd") (auto simp: chunk_data_def intro: that)
  have g: "goes (chunk_data rd) [] (\<lambda>n. n = cd)" by (simp add: goes_def cd(2))
  let ?cs = "chunk_loop (nat cd) 1 (drop (nat cd) stream)"
  have c: "Chunks stream cd = Inr ((0 # take (nat cd) stream) # ?cs)"
    using ne cd(1) by (simp add: Chunks_def chunk_loop.simps [of "nat cd" 0 stream])
  let ?n = "Suc (length ?cs)"
  have t: "halts (with_abort rd (transfer_record rd inf stream bg cd)) (broken_with rd k ?n)
      ([WriteControl bg, WriteData (0 # take (nat cd) stream)] @
        (case broken_with rd k ?n of None \<Rightarrow> [] | Some _ \<Rightarrow> [WriteControl AbortCommand]))" for inf
  proof (cases "broken_with rd k ?n")
    case None
    then show ?thesis using halts_abort_panic [of "transfer_record rd inf stream bg cd"] halts_transfer [OF b r(4) c, of inf bg] by simp
  next
    case (Some e)
    then show ?thesis
      using halts_abort_fail [of "transfer_record rd inf stream bg cd" e "[WriteControl bg, WriteData (0 # take (nat cd) stream)]" rd]
        halts_transfer [OF b r(4) c, of inf bg] b(1)
      by (simp add: breaking_def)
  qed
  let ?W = "[WriteControl bg, WriteData (0 # take (nat cd) stream)] @
        (case broken_with rd k ?n of None \<Rightarrow> [] | Some _ \<Rightarrow> [WriteControl AbortCommand])"
  have "halts (next_do (step_report PhaseIdentifying ''Identifying the device.'' 0 (length stream) (Some info) None) (\<lambda>_.
       next_do (chunk_data rd) (\<lambda>chunkData.
       next_do (step_report PhasePairing pairing_note 0 (length stream) (Some info) None) (\<lambda>_.
       next_do (subscribe_loop rd (rd_subscribe rd)) (\<lambda>_.
         with_abort rd (transfer_record rd info stream bg chunkData)))))) (broken_with rd k ?n) ([Subscribe True] @ ?W)"
    by (rule halts_next_Nil [OF goes_report], rule halts_next_Nil [OF g], simp only:,
        rule halts_next_Nil [OF goes_report], rule halts_next [OF goes_subscribe [OF a]], rule t)
  then have "halts (conversation rd stream bg) (broken_with rd k ?n) ([Subscribe True] @ ?W)"
    unfolding conversation_def
    by (intro halts_next_Nil [OF goes_discover [OF r(1,2)]] halts_next_Nil [OF goes_report] halts_next_Nil [OF goes_readInfo [OF i(1,2)]])
      (use i(3,4) in simp)
  then show thesis using that [OF cd(1)] by simp
qed

lemma halts_recovered:
  assumes "halts m oe t"
  shows "\<exists>run. recovered (m no_run) = (Inl (case oe of None \<Rightarrow> ErrPanicked | Some e \<Rightarrow> e), run) \<and> cr_trace run = t"
proof -
  have "cr_last no_run = None" "cr_trace no_run = []" by (simp_all add: no_run_def)
  with assms obtain s where "m no_run = (case oe of None \<Rightarrow> Panicking | Some e \<Rightarrow> Fail e, s)" "cr_trace s = t"
    unfolding halts_def by (metis append_Nil)
  then show ?thesis by (cases oe) (simp_all add: recovered_eq)
qed

lemma Provision_breaks:
  assumes "record_ok rec" "working rd (length (stream_of rec))" "breaking rd k" "k \<noteq> Returns ()" "rd_addr rd address = address"
  obtains csize n bg run where "1 \<le> csize" "BeginCommand (length (stream_of rec)) = Inr bg"
    "Provision rd enabled address rec = (Inl (case broken_with rd k n of None \<Rightarrow> ErrPanicked | Some e \<Rightarrow> e), run)"
    "cr_trace run = Subscribe True # WriteControl bg # WriteData (0 # take (nat csize) (stream_of rec)) #
        (case broken_with rd k n of None \<Rightarrow> [] | Some _ \<Rightarrow> [WriteControl AbortCommand]) @ [Disconnect]"
proof -
  have enc: "Encode rec = Inr (stream_of rec)" using assms(1) by (simp add: Encode_iff)
  obtain bg where bg: "BeginCommand (length (stream_of rec)) = Inr bg" using Encode_stream(4) [OF enc] by blast
  have w: "\<not> rd_busy rd" "rd_enable rd = Returns ()" "rd_connect rd = Returns True" using assms(2) by (auto simp: working_def)
  obtain csize n where h: "1 \<le> csize" "halts (conversation rd (stream_of rec) bg) (broken_with rd k n)
      (Subscribe True # WriteControl bg # WriteData (0 # take (nat csize) (stream_of rec)) #
        (case broken_with rd k n of None \<Rightarrow> [] | Some _ \<Rightarrow> [WriteControl AbortCommand]))"
    by (rule halts_conversation [OF assms(2-4) Encode_stream(3) [OF enc]])
  let ?m = "next_do (of_wire (Encode rec)) (\<lambda>stream.
       next_do (of_wire (BeginCommand (length stream))) (\<lambda>bg.
       if rd_busy rd then stop ErrBusy
       else
         next_do (enable_step rd enabled) (\<lambda>_.
         if rd_addr rd address \<noteq> address then stop (UnknownAddress address)
         else
           next_do (step_report PhaseConnecting ''Connecting to the device.'' 0 (length stream) None None) (\<lambda>_.
           next_do (call_or (rd_connect rd) ConnectFailed) (\<lambda>dev.
             if \<not> dev then stop ErrBondLost else with_disconnect (conversation rd stream bg))))))"
  have "halts ?m (broken_with rd k n) ((Subscribe True # WriteControl bg # WriteData (0 # take (nat csize) (stream_of rec)) #
        (case broken_with rd k n of None \<Rightarrow> [] | Some _ \<Rightarrow> [WriteControl AbortCommand])) @ [Disconnect])"
    by (rule halts_next_Nil [OF goes_wire [OF enc]], simp only:, rule halts_next_Nil [OF goes_wire [OF bg]],
        simp only: w(1) assms(5) if_False not_True_eq_False simp_thms, rule halts_next_Nil [OF goes_enable [OF w(2)]],
        rule halts_next_Nil [OF goes_report], rule halts_next_Nil [OF goes_call [OF w(3)]], simp only: if_False not_True_eq_False simp_thms,
        rule halts_disconnect [OF h(2)])
  from halts_recovered [OF this] show thesis
    using that [OF h(1) bg] unfolding Provision_def by auto
qed

text \<open>A radio that works, for any chunk size, and what breaks it.\<close>

definition good_radio :: radio where
  "good_radio = \<lparr>rd_lower = id, rd_busy = False, rd_enable = Returns (), rd_addr = id, rd_connect = Returns True,
     rd_services = Returns 1, rd_chars = Returns 4, rd_info = Returns ([1, 0, 0, 2] @ replicate 8 0), rd_mtu = Returns 23,
     rd_subscribe = [\<lparr>sa_result = Returns (), sa_notes = [], sa_ctx = None, sa_late = False\<rparr>],
     rd_write = (\<lambda>_. (Returns (), [])), rd_ctx = (\<lambda>_. None), rd_await = [WakeNote [1, 4, 0, 0, 0, 0]],
     rd_abort = Returns ()\<rparr>"

definition break_radio :: "unit call \<Rightarrow> radio" where
  "break_radio k = good_radio\<lparr>rd_write := (\<lambda>i. (if i = 1 then k else Returns (), []))\<rparr>"

lemma ParseInfo_good: "ParseInfo (take InfoLen ([1, 0, 0, 2] @ replicate 8 0)) =
    Inr \<lparr>Info_Version = 1, Info_Provisioned = False, Info_Capacity = 512, Info_MAC = replicate 6 0\<rparr>"
  by (simp add: ParseInfo_def InfoLen_def rd16_def numeral_eq_Suc)

lemma working_good: "n \<le> 512 \<Longrightarrow> working good_radio n" "n \<le> 512 \<Longrightarrow> working (break_radio k) n"
  using ParseInfo_good
  by (auto simp: working_def good_radio_def break_radio_def ParseStatus_def StatusLen_def StateApplied_def Version_def)

lemma breaking_good: "breaking (break_radio k) k"
  by (simp add: breaking_def break_radio_def good_radio_def)

lemma stream_short: "record_ok rec \<Longrightarrow> length (stream_of rec) \<le> 512"
  using length_payload [of rec] by (simp add: length_stream_of)

text \<open>
  A panic leaves part of the record on the device.  The deferred ABORT looks at the named result
  \<open>err\<close>, which a panic of the Bluetooth library does not set: after a panic in the first chunk the run
  disconnects, reports a failed setup, and the device goes on holding what arrived, ready for more.
\<close>

theorem panic_leaves_bytes:
  "\<exists>rd run. Provision rd True address example_record = (Inl ErrPanicked, run) \<and> rd_addr rd address = address \<and>
     dec_state (fst (device_side (cr_trace run) d)) = S_Receiving \<and> 0 < dec_received (fst (device_side (cr_trace run) d))"
proof -
  let ?st = "stream_of example_record"
  have ok: "record_ok example_record" by (rule example_record_ok)
  have a: "rd_addr (break_radio CallPanics) address = address" by (simp add: break_radio_def good_radio_def)
  obtain csize n bg run where r: "1 \<le> csize" "BeginCommand (length ?st) = Inr bg"
      "Provision (break_radio CallPanics) True address example_record = (Inl ErrPanicked, run)"
      "cr_trace run = Subscribe True # WriteControl bg # WriteData (0 # take (nat csize) ?st) # [Disconnect]"
    using Provision_breaks [OF ok working_good(2) [OF stream_short [OF ok]] breaking_good [of CallPanics] _ a, of True]
    by (auto simp: broken_with_def)
  have len: "7 \<le> length ?st" "length ?st \<le> 512" using length_payload [OF ok] by (simp_all add: length_stream_of)
  have "bg = 1 # 1 # le16 (word_of_nat (length ?st))"
    using r(2) len by (simp add: BeginCommand_def wire_consts opBegin_def)
  then obtain d1 where d1: "onControl bg d = (d1, E_None)" "transfer d1 = Some (length ?st, [], 0)"
    using device_begins [OF len, of d] by auto
  have ne: "take (nat csize) ?st \<noteq> []" using r(1) len by auto
  obtain d2 where d2: "onChunk (0 # take (nat csize) ?st) d1 = (d2, E_None)" "transfer d2 = Some (length ?st, take (nat csize) ?st, 1)"
    using device_takes [OF d1(2) ne] by auto
  show ?thesis
    using r(3,4) a d1(1) d2 ne transferD [OF d2(2)]
    by (intro exI [of _ "break_radio CallPanics"] exI [of _ run]) (simp add: Let_def)
qed

lemma good_facts:
  "validate_record example_record = Inr ()" "working good_radio (length (stream_of example_record))"
  "rd_write good_radio j = (Returns (), [])" "rd_addr good_radio address = address"
  using working_good(1) [OF stream_short [OF example_record_ok]]
  by (simp_all add: validate_record_iff example_record_ok good_radio_def)


theorem provisioned_device_holds_record_witness:
  "\<exists>res run. Provision good_radio False ''aa'' example_record = (Inr res, run) \<and>
     dec_rec (fst (device_side (cr_trace run) reset_decoder)) = dev_view example_record"
proof -
  have "\<exists>res run. Provision good_radio False ''aa'' example_record = (Inr res, run) \<and> applied res"
    by (rule Provision_arrives [OF good_facts])
  then obtain res run where r: "Provision good_radio False ''aa'' example_record = (Inr res, run)"
    by (elim exE conjE) (rule that)
  from provisioned_device_holds_record [OF r, of reset_decoder]
  have "dec_rec (fst (device_side (cr_trace run) reset_decoder)) = dev_view example_record" by (elim exE conjE) simp
  with r show ?thesis by (intro exI conjI)
qed


end
