(* ===== verification/Ble_Scan.thy ===== *)
theory Ble_Scan
  imports Ble_Central_Facts
begin

text \<open>
  \<open>Scan\<close> of internal/bleprov/central.go: the in-place insertion sort of \<open>sortPeripherals\<close> gives the one
  arrangement by signal and address, so the list does not depend on the order of the map.
\<close>

subsection \<open>The list of a scan\<close>

interpretation by_signal: keyed_order lessPeripheral "\<lambda>p. (- ph_RSSI p, ph_Address p)"
  by unfold_locales (auto simp: lessPeripheral_def)

text \<open>The inner loop is an insertion from the right.\<close>

definition insert_right :: "peripheral list \<Rightarrow> peripheral \<Rightarrow> peripheral list" where
  "insert_right xs x = rev (stable_insert (\<lambda>a b. lessPeripheral b a) x (rev xs))"

lemma insert_right_snoc:
  "insert_right [] x = [x]"
  "insert_right (xs @ [y]) x = (if lessPeripheral x y then insert_right xs x @ [y] else xs @ [y, x])"
  by (simp_all add: insert_right_def)

lemma sift_down_insert:
  "j < length v \<Longrightarrow> sift_down j v = insert_right (take j v) (v ! j) @ drop (Suc j) v"
proof (induction j arbitrary: v)
  case 0
  then show ?case by (simp add: insert_right_snoc Cons_nth_drop_Suc)
next
  case (Suc j)
  have t: "take (Suc j) v = take j v @ [v ! j]" using Suc.prems by (simp add: take_Suc_conv_app_nth)
  show ?case
  proof (cases "lessPeripheral (v ! Suc j) (v ! j)")
    case True
    let ?v = "v[Suc j := v ! j, j := v ! Suc j]"
    have "sift_down (Suc j) v = insert_right (take j ?v) (?v ! j) @ drop (Suc j) ?v"
      using True Suc by simp
    also have "drop (Suc j) ?v = v ! j # drop (Suc (Suc j)) v"
      using Suc.prems Cons_nth_drop_Suc [of "Suc j" v, symmetric] by (simp add: drop_update_swap)
    finally show ?thesis using True Suc.prems t by (simp add: insert_right_snoc)
  next
    case False
    then show ?thesis using Suc.prems t
      by (simp add: insert_right_snoc Cons_nth_drop_Suc)
  qed
qed

lemma lesser_order: "strict_weak_order (\<lambda>a b. lessPeripheral b a)"
proof unfold_locales
  show "\<not> lessPeripheral x x" for x by (rule by_signal.irrefl)
  show "lessPeripheral y x \<Longrightarrow> lessPeripheral z y \<Longrightarrow> lessPeripheral z x" for x y z using by_signal.trans by blast
  show "\<not> lessPeripheral y x \<Longrightarrow> \<not> lessPeripheral z y \<Longrightarrow> \<not> lessPeripheral z x" for x y z
    using by_signal.neg_trans by blast
qed

interpretation by_signal_rev: strict_weak_order "\<lambda>a b. lessPeripheral b a"
  by (rule lesser_order)

lemma length_insert_right [simp]: "length (insert_right xs x) = Suc (length xs)"
proof -
  have "size (mset (insert_right xs x)) = Suc (length xs)" by (simp add: insert_right_def)
  then show ?thesis by simp
qed

lemma insert_right_order: "by_signal.in_order xs \<Longrightarrow> by_signal.in_order (insert_right xs x)"
  using by_signal_rev.in_order_insert [of "rev xs" x]
  by (simp add: insert_right_def by_signal.in_order_def by_signal_rev.in_order_def sorted_wrt_rev)

lemma sort_prefix:
  "k \<le> length v \<Longrightarrow> let w = fold sift_down [1..<k] v in
     mset w = mset v \<and> length w = length v \<and> by_signal.in_order (take k w) \<and> drop k w = drop k v"
proof (induction k)
  case 0
  then show ?case by (simp add: by_signal.in_order_def)
next
  case (Suc k)
  show ?case
  proof (cases "k = 0")
    case True
    then show ?thesis by (cases v) (simp_all add: by_signal.in_order_def)
  next
    case False
    let ?w = "fold sift_down [1..<k] v"
    have w: "mset ?w = mset v" "length ?w = length v" "by_signal.in_order (take k ?w)" "drop k ?w = drop k v"
      using Suc by (simp_all add: Let_def)
    have s: "fold sift_down [1..<Suc k] v = insert_right (take k ?w) (?w ! k) @ drop (Suc k) ?w"
      using False Suc.prems w(2) by (simp add: sift_down_insert)
    have len: "length (insert_right (take k ?w) (?w ! k)) = Suc k"
      using Suc.prems w(2) by simp
    have "mset (insert_right (take k ?w) (?w ! k)) = add_mset (?w ! k) (mset (take k ?w))"
      by (simp add: insert_right_def)
    then have "mset (insert_right (take k ?w) (?w ! k) @ drop (Suc k) ?w) = mset (take k ?w @ ?w ! k # drop (Suc k) ?w)"
      by simp
    also have "take k ?w @ ?w ! k # drop (Suc k) ?w = ?w" using Suc.prems w(2) by (simp add: Cons_nth_drop_Suc)
    finally have m: "mset (insert_right (take k ?w) (?w ! k) @ drop (Suc k) ?w) = mset v" using w(1) by simp
    have d: "drop (Suc k) ?w = drop (Suc k) v" using w(4) by (metis drop_Suc tl_drop)
    show ?thesis
      unfolding Let_def s using m d insert_right_order [OF w(3), of "?w ! k"] len Suc.prems w(2) by simp
  qed
qed

lemma sortPeripherals_sorts: "mset (sortPeripherals v) = mset v" "by_signal.in_order (sortPeripherals v)"
proof -
  let ?w = "fold sift_down [1..<length v] v"
  have "mset ?w = mset v" "length ?w = length v" "by_signal.in_order (take (length v) ?w)"
    using sort_prefix [of "length v" v] unfolding Let_def by blast+
  then show "mset (sortPeripherals v) = mset v" "by_signal.in_order (sortPeripherals v)"
    unfolding sortPeripherals_def by simp_all
qed

lemma scan_found_keys: "distinct (map fst (scan_found evs)) \<and> (\<forall>(k, p) \<in> set (scan_found evs). ph_Address p = k) \<and>
    fst ` set (scan_found evs) = {ph_Address p | p. (True, p) \<in> set evs}"
proof (induction evs rule: rev_induct)
  case Nil
  show ?case by (simp add: scan_found_def)
next
  case (snoc e evs)
  obtain has p where e: "e = (has, p)" by force
  have f: "scan_found (evs @ [e]) = (if has then AList.update (ph_Address p) p (scan_found evs) else scan_found evs)"
    by (simp add: scan_found_def e)
  show ?case
  proof (cases has)
    case True
    have sub: "set (AList.update (ph_Address p) p (scan_found evs)) \<subseteq> insert (ph_Address p, p) (set (scan_found evs))"
    proof -
      have "set (AList.update k v al) \<subseteq> insert (k, v) (set al)" for k v and al :: "(string \<times> peripheral) list"
        by (induction al) auto
      then show ?thesis .
    qed
    have "fst ` set (AList.update (ph_Address p) p (scan_found evs)) = insert (ph_Address p) (fst ` set (scan_found evs))"
      using dom_update [of "ph_Address p" p "scan_found evs"] by simp
    moreover have "scan_found (evs @ [e]) = AList.update (ph_Address p) p (scan_found evs)" using f True by simp
    moreover have "{ph_Address q | q. (True, q) \<in> set (evs @ [e])} = insert (ph_Address p) {ph_Address q | q. (True, q) \<in> set evs}"
      using e True by auto
    ultimately show ?thesis
      using snoc sub by (auto simp: distinct_update)
  next
    case False
    then have "scan_found (evs @ [e]) = scan_found evs" using f by simp
    moreover have "{ph_Address q | q. (True, q) \<in> set (evs @ [e])} = {ph_Address q | q. (True, q) \<in> set evs}"
      using e False by auto
    ultimately show ?thesis using snoc by simp
  qed
qed

lemma sorted_unique:
  assumes "mset xs = mset ys" "distinct (map ph_Address xs)"
  shows "sortPeripherals xs = sortPeripherals ys"
proof -
  let ?k = "\<lambda>p. (- ph_RSSI p, ph_Address p)"
  have "sortPeripherals xs = slice_stable lessPeripheral (sortPeripherals xs)"
    "sortPeripherals ys = slice_stable lessPeripheral (sortPeripherals ys)"
    using by_signal.slice_stable_id [OF sortPeripherals_sorts(2)] by simp_all
  moreover have "mset (sortPeripherals xs) = mset (sortPeripherals ys)" using assms(1) by (simp add: sortPeripherals_sorts)
  moreover have "distinct (map ?k (sortPeripherals xs))"
  proof -
    have "distinct (map ?k xs)" using assms(2) by (auto simp: distinct_map inj_on_def)
    then show ?thesis using distinct_map_mset_eq [of xs "sortPeripherals xs" ?k] sortPeripherals_sorts(1) [of xs] by simp
  qed
  ultimately show ?thesis using by_signal.input_order_irrelevant by metis
qed

text \<open>
  The list of devices does not shuffle.  A scan gives every address seen advertising the setup service
  once, the strongest signal first and ties by address, and the same list in whatever order the map of
  sightings is ranged over.
\<close>

theorem scan_list_determined:
  assumes "\<And>xs. mset (order xs) = mset xs" "\<And>xs. mset (order' xs) = mset xs" "Central_Scan rd enabled None order evs = Inr ps"
  shows "Central_Scan rd enabled None order' evs = Inr ps \<and> sorted_wrt lessPeripheral ps \<and> distinct (map ph_Address ps) \<and>
    ph_Address ` set ps = {ph_Address p | p. (True, p) \<in> set evs}"
proof -
  let ?f = "map snd (scan_found evs)"
  have k: "map ph_Address ?f = map fst (scan_found evs)" using scan_found_keys [of evs] by auto
  have dis: "distinct (map ph_Address ?f)" unfolding k using scan_found_keys by blast
  have ps: "ps = sortPeripherals (order ?f)" using assms(3) by (auto simp: Central_Scan_def split: sum.splits)
  have d1: "distinct (map ph_Address (order ?f))" using distinct_map_mset_eq [of ?f "order ?f"] assms(1) dis by simp
  have "sortPeripherals (order ?f) = sortPeripherals (order' ?f)"
    by (rule sorted_unique) (simp_all add: assms d1)
  then have "Central_Scan rd enabled None order' evs = Inr ps" using assms(3) by (auto simp: Central_Scan_def split: sum.splits)
  moreover have m: "mset ps = mset ?f" by (simp add: ps sortPeripherals_sorts assms(1))
  then have "distinct (map ph_Address ps)" using distinct_map_mset_eq [of ?f ps] dis by simp
  moreover have "ph_Address ` set ps = {ph_Address p | p. (True, p) \<in> set evs}"
  proof -
    have "ph_Address ` set ps = set (map ph_Address ?f)" using m by (metis set_map set_mset_mset)
    also have "\<dots> = fst ` set (scan_found evs)" unfolding k by simp
    also have "\<dots> = {ph_Address p | p. (True, p) \<in> set evs}" by (rule scan_found_keys [THEN conjunct2, THEN conjunct2])
    finally show ?thesis .
  qed
  moreover have "sorted_wrt lessPeripheral ps"
  proof -
    have "sorted_wrt (\<lambda>a b. \<not> lessPeripheral b a) ps"
      using sortPeripherals_sorts(2) by (simp add: ps by_signal.in_order_def)
    then have "sorted_wrt (\<lambda>a b. ph_Address a \<noteq> ph_Address b \<and> \<not> lessPeripheral b a) ps"
      using \<open>distinct (map ph_Address ps)\<close> by (induction ps) auto
    then show ?thesis by (rule sorted_wrt_mono_rel [rotated]) (auto simp: lessPeripheral_def split: if_splits)
  qed
  ultimately show ?thesis by blast
qed

theorem scan_list_determined_witness:
  "Central_Scan good_radio True None rev
     [(True, \<lparr>ph_Address = ''a'', ph_Name = ''n'', ph_RSSI = - 70, ph_Seen = 1\<rparr>),
      (False, \<lparr>ph_Address = ''x'', ph_Name = ''n'', ph_RSSI = - 10, ph_Seen = 1\<rparr>),
      (True, \<lparr>ph_Address = ''b'', ph_Name = ''n'', ph_RSSI = - 50, ph_Seen = 2\<rparr>)] =
   Inr [\<lparr>ph_Address = ''b'', ph_Name = ''n'', ph_RSSI = - 50, ph_Seen = 2\<rparr>,
      \<lparr>ph_Address = ''a'', ph_Name = ''n'', ph_RSSI = - 70, ph_Seen = 1\<rparr>]"
proof -
  let ?evs = "[(True, \<lparr>ph_Address = ''a'', ph_Name = ''n'', ph_RSSI = - 70, ph_Seen = 1\<rparr>),
      (False, \<lparr>ph_Address = ''x'', ph_Name = ''n'', ph_RSSI = - 10, ph_Seen = 1\<rparr>),
      (True, \<lparr>ph_Address = ''b'', ph_Name = ''n'', ph_RSSI = - 50, ph_Seen = 2\<rparr>)]"
  have "Central_Scan good_radio True None id ?evs =
      Inr [\<lparr>ph_Address = ''b'', ph_Name = ''n'', ph_RSSI = - 50, ph_Seen = 2\<rparr>,
        \<lparr>ph_Address = ''a'', ph_Name = ''n'', ph_RSSI = - 70, ph_Seen = 1\<rparr>]"
    by (simp add: Central_Scan_def enable_step_def give_def recovered_def scan_found_def sortPeripherals_def lessPeripheral_def)
  from scan_list_determined [of id rev, OF _ _ this] show ?thesis by simp
qed

end
