(* ===== verification/Ble_Creds.thy ===== *)
theory Ble_Creds
  imports Mdns_Responder Ble_Wire
begin

text \<open>
  internal/bleprov/creds.go and creds_darwin.go: what the Mac knows and hands to a device.  The commands of
  macOS are a parameter, a \<open>mac_runner\<close> from a command line to its output, as are the interfaces and the
  function that mints a token.  Logging is left out but for \<open>LogValue\<close>.
\<close>

subsection \<open>Sources, errors and credentials\<close>

definition SourceNetworkSetup :: string where "SourceNetworkSetup = ''networksetup''"
definition SourceIPConfig :: string where "SourceIPConfig = ''ipconfig''"
definition SourcePreferred :: string where "SourcePreferred = ''preferred-networks''"
definition SourceConfig :: string where "SourceConfig = ''config''"

datatype cred_error =
    ErrNoWiFiInterface
  | ErrNotOnWiFi
  | ErrSSIDRedacted
  | ErrKeychainNotFound
  | ErrKeychainDenied
  | ErrKeychainTimeout
  | ErrLoopbackOnly
  | ErrNoLANAddress
  | ErrBadListen
  | ErrBadPort
  | ErrListInterfaces
  | ErrMint

definition TokenBytes :: nat where "TokenBytes = 16"

text \<open>\<open>MintToken\<close> from what \<open>crypto/rand\<close> gives.\<close>

definition MintToken :: "bytes option \<Rightarrow> cred_error + string" where
  "MintToken random = (case random of None \<Rightarrow> Inl ErrMint | Some bs \<Rightarrow> Inr (concat (map hex_byte (take TokenBytes bs))))"

record credentials =
  cd_SSID :: string
  cd_SSIDSource :: string
  cd_SSIDConfident :: bool
  cd_Password :: string
  cd_Open :: bool
  cd_Host :: string
  cd_Port :: "16 word"
  cd_Token :: string
  cd_Interface :: string
  cd_Warnings :: "string list"

definition no_credentials :: credentials where
  "no_credentials = \<lparr>cd_SSID = [], cd_SSIDSource = [], cd_SSIDConfident = False, cd_Password = [], cd_Open = False,
     cd_Host = [], cd_Port = 0, cd_Token = [], cd_Interface = [], cd_Warnings = []\<rparr>"

datatype log_value = LogInt int | LogString string | LogBool bool

definition setOrUnset :: "string \<Rightarrow> string" where
  "setOrUnset v = (if v = [] then ''unset'' else ''set'')"

definition LogValue :: "credentials \<Rightarrow> (string \<times> log_value) list" where
  "LogValue c =
     [(''ssid_len'', LogInt (int (length (cd_SSID c)))),
      (''ssid_source'', LogString (cd_SSIDSource c)),
      (''ssid_confident'', LogBool (cd_SSIDConfident c)),
      (''pass_state'', LogString (setOrUnset (cd_Password c))),
      (''open'', LogBool (cd_Open c)),
      (''host'', LogString (cd_Host c)),
      (''port'', LogInt (uint (cd_Port c))),
      (''token_state'', LogString (setOrUnset (cd_Token c))),
      (''iface'', LogString (cd_Interface c)),
      (''warnings'', LogInt (int (length (cd_Warnings c))))]"

definition cred_record :: "credentials \<Rightarrow> Record" where
  "cred_record c = \<lparr>R_SSID = cd_SSID c, R_Password = cd_Password c, R_Host = cd_Host c, R_Port = cd_Port c,
     R_Token = cd_Token c, R_OTAPass = []\<rparr>"

definition wipe_credentials :: "credentials \<Rightarrow> credentials" where
  "wipe_credentials c = c\<lparr>cd_SSID := [], cd_Password := [], cd_Token := [], cd_Host := [], cd_Port := 0\<rparr>"

subsection \<open>Asking macOS\<close>

datatype run_error = ExitError int | RunFailed

text \<open>Output, error output, error, and whether the context had ended by then.\<close>

record run_result =
  rn_stdout :: string
  rn_stderr :: string
  rn_err :: "run_error option"
  rn_expired :: bool

type_synonym mac_runner = "string list \<Rightarrow> run_result"

definition cmdNetworkSetup :: string where "cmdNetworkSetup = ''networksetup''"
definition cmdIPConfig :: string where "cmdIPConfig = ''ipconfig''"
definition cmdSecurity :: string where "cmdSecurity = ''security''"
definition keychainDescription :: string where "keychainDescription = ''AirPort network password''"
definition keychainService :: string where "keychainService = ''AirPort''"
definition redactedMarker :: string where "redactedMarker = ''<redacted>''"
definition notAssociated :: string where "notAssociated = ''You are not associated with an AirPort network.''"
definition secItemNotFound :: int where "secItemNotFound = 44"
definition secUserCanceled :: int where "secUserCanceled = 128"
definition secInteractionNotAllowed :: int where "secInteractionNotAllowed = 51"

definition out_lines :: "string \<Rightarrow> string list" where
  "out_lines s = split_char (CHR 0x0A) s"

text \<open>\<open>strings.CutPrefix\<close> and \<open>strings.Cut\<close> at a colon.\<close>

definition CutPrefix :: "string \<Rightarrow> string \<Rightarrow> string option" where
  "CutPrefix s p = (if has_prefix s p then Some (drop (length p) s) else None)"

definition cut_colon :: "string \<Rightarrow> (string \<times> string) option" where
  "cut_colon s = (if CHR '':'' \<in> set s
     then Some (takeWhile (\<lambda>c. c \<noteq> CHR '':'') s, tl (dropWhile (\<lambda>c. c \<noteq> CHR '':'') s)) else None)"

fun wifi_device_from :: "case_tables \<Rightarrow> bool \<Rightarrow> string list \<Rightarrow> string" where
  "wifi_device_from u hit [] = []"
| "wifi_device_from u hit (l # ls) =
     (let line = trim_space l in
      case CutPrefix line ''Hardware Port:'' of
        Some rest \<Rightarrow> wifi_device_from u (EqualFold u (trim_space rest) ''Wi-Fi'') ls
      | None \<Rightarrow>
          if \<not> hit then wifi_device_from u hit ls
          else (case CutPrefix line ''Device:'' of
              Some rest \<Rightarrow> trim_space rest
            | None \<Rightarrow> wifi_device_from u hit ls))"

definition parseWiFiDevice :: "case_tables \<Rightarrow> string \<Rightarrow> string" where
  "parseWiFiDevice u out = wifi_device_from u False (out_lines out)"

definition WiFiInterface :: "case_tables \<Rightarrow> mac_runner \<Rightarrow> cred_error + string" where
  "WiFiInterface u run =
     (let r = run [cmdNetworkSetup, ''-listallhardwareports''] in
      if rn_err r \<noteq> None then Inl ErrNoWiFiInterface
      else (let dev = parseWiFiDevice u (rn_stdout r) in if dev \<noteq> [] then Inr dev else Inl ErrNoWiFiInterface))"

fun airport_from :: "string list \<Rightarrow> string option" where
  "airport_from [] = None"
| "airport_from (l # ls) =
     (let line = trim_space l in
      if line = [] \<or> line = notAssociated then airport_from ls
      else
        (case (case CutPrefix line ''Current Wi-Fi Network:'' of Some r \<Rightarrow> Some r
               | None \<Rightarrow> CutPrefix line ''Current AirPort Network:'') of
           None \<Rightarrow> airport_from ls
         | Some rest \<Rightarrow> (let ssid = trim_space rest in
             if ssid = [] \<or> ssid = redactedMarker then None else Some ssid)))"

definition parseAirportNetwork :: "string \<Rightarrow> string option" where
  "parseAirportNetwork out = airport_from (out_lines out)"

fun summary_from :: "string list \<Rightarrow> string option" where
  "summary_from [] = None"
| "summary_from (l # ls) =
     (case cut_colon l of
        None \<Rightarrow> summary_from ls
      | Some (key, v) \<Rightarrow>
          if trim_space key \<noteq> ''SSID'' then summary_from ls
          else (let ssid = trim_space v in if ssid = [] \<or> ssid = redactedMarker then None else Some ssid))"

definition parseSummarySSID :: "string \<Rightarrow> string option" where
  "parseSummarySSID out = summary_from (out_lines out)"

definition indented :: "string \<Rightarrow> bool" where
  "indented l \<longleftrightarrow> has_prefix l [CHR 0x09] \<or> has_prefix l '' ''"

definition network_names :: "string list \<Rightarrow> string list" where
  "network_names ls = filter (\<lambda>n. n \<noteq> []) (map trim_space (filter (\<lambda>l. l \<noteq> [] \<and> indented l) ls))"

definition parsePreferredNetworks :: "string \<Rightarrow> string list" where
  "parsePreferredNetworks out =
     (case out_lines out of
        [] \<Rightarrow> []
      | l # ls \<Rightarrow> if has_prefix (trim_space l) ''Preferred networks'' then network_names ls else network_names (l # ls))"

text \<open>The name, where it is from, and \<open>ErrSSIDRedacted\<close> beside it when it is the guess.\<close>

definition CurrentSSID :: "mac_runner \<Rightarrow> string \<Rightarrow> cred_error + (string \<times> string \<times> cred_error option)" where
  "CurrentSSID run dev =
     (if dev = [] then Inl ErrNoWiFiInterface
      else
        (let a = run [cmdNetworkSetup, ''-getairportnetwork'', dev];
             b = run [cmdIPConfig, ''getsummary'', dev];
             p = run [cmdNetworkSetup, ''-listpreferredwirelessnetworks'', dev] in
         case (if rn_err a = None then parseAirportNetwork (rn_stdout a) else None) of
           Some ssid \<Rightarrow> Inr (ssid, SourceNetworkSetup, None)
         | None \<Rightarrow>
             (case (if rn_err b = None then parseSummarySSID (rn_stdout b) else None) of
                Some ssid \<Rightarrow> Inr (ssid, SourceIPConfig, None)
              | None \<Rightarrow>
                  if rn_err p \<noteq> None then Inl ErrNotOnWiFi
                  else (case parsePreferredNetworks (rn_stdout p) of
                      [] \<Rightarrow> Inl ErrNotOnWiFi
                    | n # _ \<Rightarrow> Inr (n, SourcePreferred, Some ErrSSIDRedacted)))))"

definition PreferredNetworks :: "mac_runner \<Rightarrow> string \<Rightarrow> cred_error + string list" where
  "PreferredNetworks run dev =
     (if dev = [] then Inl ErrNoWiFiInterface
      else (let p = run [cmdNetworkSetup, ''-listpreferredwirelessnetworks'', dev] in
        if rn_err p \<noteq> None then Inl ErrNotOnWiFi else Inr (parsePreferredNetworks (rn_stdout p))))"

definition classifyKeychainError :: "run_error \<Rightarrow> string \<Rightarrow> cred_error" where
  "classifyKeychainError err errout =
     (if err = ExitError secItemNotFound then ErrKeychainNotFound
      else if err = ExitError secUserCanceled \<or> err = ExitError secInteractionNotAllowed then ErrKeychainDenied
      else if str_contains errout ''could not be found in the keychain'' then ErrKeychainNotFound
      else if str_contains errout ''User canceled'' \<or> str_contains errout ''User interaction is not allowed'' then ErrKeychainDenied
      else ErrKeychainDenied)"

definition trim_newlines :: "string \<Rightarrow> string" where
  "trim_newlines s = rev (dropWhile (\<lambda>c. c = CHR 0x0D \<or> c = CHR 0x0A) (rev s))"

definition Password :: "mac_runner \<Rightarrow> string \<Rightarrow> cred_error + string" where
  "Password run ssid =
     (if ssid = [] then Inl ErrKeychainNotFound
      else (let r = run [cmdSecurity, ''find-generic-password'', ''-w'', ''-D'', keychainDescription, ''-s'', keychainService, ''-a'', ssid] in
        case rn_err r of
          None \<Rightarrow> Inr (trim_newlines (rn_stdout r))
        | Some e \<Rightarrow> if rn_expired r then Inl ErrKeychainTimeout else Inl (classifyKeychainError e (rn_stderr r))))"

subsection \<open>The address of the agent\<close>

text \<open>\<open>IP.String\<close>: dotted IPv4, or the groups of an IPv6 address with its first longest run of zeros left out.\<close>

definition dotted_quad :: "bytes \<Rightarrow> string" where
  "dotted_quad ip = join_char (CHR ''.'') (map (\<lambda>b. show_nat (unat b)) ip)"

definition show_hex16 :: "nat \<Rightarrow> string" where
  "show_hex16 n = map hex_char (dropWhile (\<lambda>d. d = 0) [n div 4096 mod 16, n div 256 mod 16, n div 16 mod 16] @ [n mod 16])"

fun ip_groups :: "bytes \<Rightarrow> nat list" where
  "ip_groups (a # b # r) = (256 * unat a + unat b) # ip_groups r"
| "ip_groups _ = []"

definition zero_run :: "nat list \<Rightarrow> nat \<times> nat" where
  "zero_run gs = fold (\<lambda>i (a, b).
     let l = length (takeWhile (\<lambda>g. g = 0) (drop i gs)) in if 2 \<le> l \<and> b - a < l then (i, i + l) else (a, b)) [0..<8] (255, 255)"

definition colon_groups :: "nat list \<Rightarrow> string" where
  "colon_groups gs = join_char (CHR '':'') (map show_hex16 gs)"

definition ip_string :: "bytes \<Rightarrow> string" where
  "ip_string ip =
     (if ip = [] then ''<nil>''
      else (case To4 ip of
        Some ip4 \<Rightarrow> dotted_quad ip4
      | None \<Rightarrow>
          if length ip \<noteq> 16 then ''?'' @ concat (map hex_byte ip)
          else (let gs = ip_groups ip; (a, b) = zero_run gs in
            if a < 8 then colon_groups (take a gs) @ ''::'' @ colon_groups (drop b gs) else colon_groups gs)))"

definition ble_splitListen :: "string \<Rightarrow> cred_error + (string \<times> 16 word)" where
  "ble_splitListen listen =
     (case SplitHostPort (trim_space listen) of None \<Rightarrow> Inl ErrBadListen
      | Some (h, p) \<Rightarrow>
          (case atoi p of None \<Rightarrow> Inl ErrBadPort
           | Some n \<Rightarrow> if n \<le> 0 \<or> n > 65535 then Inl ErrBadPort else Inr (h, word_of_int n)))"

definition ble_usableIPv4 :: "net_addr \<Rightarrow> bytes option" where
  "ble_usableIPv4 a = (case a of
       OtherAddr \<Rightarrow> None
     | IPNet ip \<Rightarrow> (case To4 ip of None \<Rightarrow> None
         | Some ip4 \<Rightarrow> if ip_IsUnspecified ip4 \<or> ip_IsLoopback ip4 \<or> ip_IsLinkLocalUnicast ip4 then None else Some ip4)
     | IPAddr ip \<Rightarrow> (case To4 ip of None \<Rightarrow> None
         | Some ip4 \<Rightarrow> if ip_IsUnspecified ip4 \<or> ip_IsLoopback ip4 \<or> ip_IsLinkLocalUnicast ip4 then None else Some ip4))"

text \<open>One address per interface; the preferred interface ends the search, any other is kept as the fallback.\<close>

fun first_usable :: "net_addr list \<Rightarrow> bytes option" where
  "first_usable [] = None"
| "first_usable (a # as) = (case ble_usableIPv4 a of None \<Rightarrow> first_usable as | Some ip \<Rightarrow> Some ip)"

fun lan_address :: "string \<Rightarrow> string \<Rightarrow> net_iface list \<Rightarrow> string" where
  "lan_address pref fallback [] = fallback"
| "lan_address pref fallback (ifi # ifs) =
     (if \<not> if_up ifi \<or> if_loopback ifi then lan_address pref fallback ifs
      else (case if_addrs ifi of None \<Rightarrow> lan_address pref fallback ifs
         | Some addrs \<Rightarrow>
             (case first_usable addrs of None \<Rightarrow> lan_address pref fallback ifs
              | Some ip \<Rightarrow>
                  if pref \<noteq> [] \<and> if_name ifi = pref then ip_string ip
                  else lan_address pref (if fallback = [] then ip_string ip else fallback) ifs)))"

definition AgentAddress :: "string \<Rightarrow> string \<Rightarrow> net_iface list option \<Rightarrow> cred_error + (string \<times> 16 word)" where
  "AgentAddress pref listen ifs =
     bind_result (ble_splitListen listen) (\<lambda>(host, port).
       case (case parse_ip (trim_space host) of Some ip \<Rightarrow> if ip_IsUnspecified ip then None else Some ip | None \<Rightarrow> None) of
         Some ip \<Rightarrow> if ip_IsLoopback ip then Inl ErrLoopbackOnly else Inr (ip_string ip, port)
       | None \<Rightarrow>
           (case ifs of None \<Rightarrow> Inl ErrListInterfaces
            | Some l \<Rightarrow> (let h = lan_address pref [] l in if h = [] then Inl ErrNoLANAddress else Inr (h, port))))"

subsection \<open>Gather\<close>

record gather_options =
  go_SSID :: string
  go_SkipPassword :: bool
  go_SkipToken :: bool

definition keychainWarning :: "cred_error \<Rightarrow> string" where
  "keychainWarning e = (case e of
      ErrKeychainDenied \<Rightarrow> ''This Mac refused to release the Wi-Fi password from the keychain, so the device '' @
        ''was not given one. Allow the keychain prompt and set the device up again.''
    | ErrKeychainTimeout \<Rightarrow> ''The keychain prompt was not answered, so the device was not given a Wi-Fi password. '' @
        ''Set the device up again and click Allow when macOS asks.''
    | _ \<Rightarrow> ''The Wi-Fi password could not be read from the keychain, so the device was not given one.'')"

definition guess_warning :: string where
  "guess_warning = ''macOS did not tell this agent which Wi-Fi network the Mac is on, so the most '' @
     ''recently preferred network was used instead '' @ dash @ '' check the name before setting up the device.''"

definition open_warning :: string where
  "open_warning = ''There is no saved password for this network on this Mac, so it will be sent as an open network.''"

definition gather_ssid :: "mac_runner \<Rightarrow> string \<Rightarrow> string \<Rightarrow> cred_error + credentials" where
  "gather_ssid run dev wish =
     (let c = no_credentials\<lparr>cd_Interface := dev\<rparr> in
      if wish \<noteq> [] then Inr (c\<lparr>cd_SSID := wish, cd_SSIDSource := SourceConfig, cd_SSIDConfident := True\<rparr>)
      else if dev = [] then Inl ErrNoWiFiInterface
      else bind_result (CurrentSSID run dev) (\<lambda>(ssid, src, err).
        Inr (c\<lparr>cd_SSID := ssid, cd_SSIDSource := src, cd_SSIDConfident := (err = None),
               cd_Warnings := (if err \<noteq> None then [guess_warning] else [])\<rparr>)))"

definition gather_password :: "mac_runner \<Rightarrow> bool \<Rightarrow> credentials \<Rightarrow> credentials" where
  "gather_password run skip c =
     (if skip then c
      else (case Password run (cd_SSID c) of
          Inr pass \<Rightarrow> c\<lparr>cd_Password := pass, cd_Open := (pass = [])\<rparr>
        | Inl e \<Rightarrow>
            if e = ErrKeychainNotFound then c\<lparr>cd_Open := True, cd_Warnings := cd_Warnings c @ [open_warning]\<rparr>
            else c\<lparr>cd_Warnings := cd_Warnings c @ [keychainWarning e]\<rparr>))"

definition gather_with ::
  "mac_runner \<Rightarrow> net_iface list option \<Rightarrow> (cred_error + string) \<Rightarrow> string \<Rightarrow> gather_options \<Rightarrow> string \<Rightarrow> cred_error + credentials"
where
  "gather_with run ifs mint listen opts dev =
     bind_result (gather_ssid run dev (go_SSID opts)) (\<lambda>c.
     let c = gather_password run (go_SkipPassword opts) c in
     bind_result (AgentAddress dev listen ifs) (\<lambda>(host, port).
     let c = c\<lparr>cd_Host := host, cd_Port := port\<rparr> in
     if go_SkipToken opts then Inr c else bind_result mint (\<lambda>tok. Inr (c\<lparr>cd_Token := tok\<rparr>))))"

definition Gather ::
  "case_tables \<Rightarrow> mac_runner \<Rightarrow> net_iface list option \<Rightarrow> (cred_error + string) \<Rightarrow> string \<Rightarrow> gather_options \<Rightarrow> cred_error + credentials"
where
  "Gather u run ifs mint listen opts =
     (case WiFiInterface u run of
        Inl e \<Rightarrow> if e \<noteq> ErrNoWiFiInterface then Inl e else gather_with run ifs mint listen opts []
      | Inr dev \<Rightarrow> gather_with run ifs mint listen opts dev)"

end
