(* ===== verification/Ble_Creds_Facts.thy ===== *)
theory Ble_Creds_Facts
  imports Ble_Creds Providers
begin

text \<open>
  What \<open>Gather\<close> hands over: a name that was observed or is labelled a guess, an address and a port that
  the record rules accept, and the address that the mDNS responder advertises.
\<close>

subsection \<open>Printed addresses\<close>

lemma hex_char_graphic: "d < 16 \<Longrightarrow> graphic (hex_char d)"
  by (auto simp: hex_char_def graphic_def of_char_of)

lemma digit_char_graphic: "d < 10 \<Longrightarrow> graphic (digit_char d)"
  by (simp add: digit_char_def graphic_def of_char_of)

lemma list_all_join: "list_all P (join_char c ws) \<longleftrightarrow> list_all (list_all P) ws \<and> (1 < length ws \<longrightarrow> P c)"
  by (induction c ws rule: join_char.induct) auto

lemma length_join: "length (join_char c ws) = sum_list (map length ws) + (length ws - 1)"
  by (induction c ws rule: join_char.induct) auto

lemma show_nat_all_graphic: "list_all graphic (show_nat n)"
  by (auto simp: list_all_iff dest!: show_nat_digit_chars intro: digit_char_graphic)

lemma unat_byte_less: "unat (b :: byte) < 256"
  using unsigned_less [of b, where 'a = nat] by simp

lemma length_byte: "length (show_nat (unat (b :: byte))) \<le> 3"
  using length_show_nat [of "unat b" 3] unat_byte_less [of b] by simp

lemma dotted_quad_text:
  assumes "length ip = 4" shows "list_all graphic (dotted_quad ip) \<and> dotted_quad ip \<noteq> [] \<and> length (dotted_quad ip) \<le> 15"
proof -
  obtain a b c d where ip: "ip = [a, b, c, d]" using assms by (auto simp: length_Suc_conv numeral_eq_Suc)
  have "length (dotted_quad ip) \<le> 15"
    using length_byte [of a] length_byte [of b] length_byte [of c] length_byte [of d]
    by (simp add: ip dotted_quad_def)
  then show ?thesis
    by (auto simp: ip dotted_quad_def show_nat_all_graphic graphic_def)
qed

lemma show_hex16_text: "list_all graphic (show_hex16 n) \<and> show_hex16 n \<noteq> [] \<and> length (show_hex16 n) \<le> 4"
  by (auto simp: show_hex16_def hex_char_graphic)

lemma colon_groups_text: "list_all graphic (colon_groups gs)" "length (colon_groups gs) \<le> 5 * length gs - 1"
proof -
  show "list_all graphic (colon_groups gs)"
    unfolding colon_groups_def list_all_join using show_hex16_text by (auto simp: list_all_length) (simp_all add: graphic_def)
  have "sum_list (map (\<lambda>g. length (show_hex16 g)) gs) \<le> 4 * length gs"
    by (induction gs) (use show_hex16_text in \<open>auto simp: add_le_mono\<close>)
  then show "length (colon_groups gs) \<le> 5 * length gs - 1"
    by (cases gs) (auto simp: colon_groups_def length_join o_def)
qed

lemma length_ip_groups: "length (ip_groups ip) = length ip div 2"
  by (induction ip rule: ip_groups.induct) auto

lemma zero_run_bounds: "zero_run gs = (a, b) \<Longrightarrow> length gs = 8 \<Longrightarrow> (a, b) = (255, 255) \<or> a + 2 \<le> b \<and> b \<le> 8"
proof -
  have "\<forall>i \<in> set is. i < 8 \<Longrightarrow> length gs = 8 \<Longrightarrow> (x, y) = (255, 255) \<or> x + 2 \<le> y \<and> y \<le> 8 \<Longrightarrow>
     (case fold (\<lambda>i (a, b). let l = length (takeWhile (\<lambda>g. g = 0) (drop i gs)) in if 2 \<le> l \<and> b - a < l then (i, i + l) else (a, b)) is (x, y)
        of (a, b) \<Rightarrow> (a, b) = (255, 255) \<or> a + 2 \<le> b \<and> b \<le> 8)" for "is" x y
  proof (induction "is" arbitrary: x y)
    case (Cons i "is")
    have "length (takeWhile (\<lambda>g. g = 0) (drop i gs)) \<le> 8 - i"
      using length_takeWhile_le [of "\<lambda>g. g = 0" "drop i gs"] Cons.prems(2) by simp
    then have "2 \<le> length (takeWhile (\<lambda>g. g = 0) (drop i gs)) \<Longrightarrow> i + length (takeWhile (\<lambda>g. g = 0) (drop i gs)) \<le> 8"
      using Cons.prems(1) by simp
    then show ?case using Cons.IH Cons.prems by (simp add: Let_def)
  qed simp
  from this [of "[0..<8]" 255 255] show "zero_run gs = (a, b) \<Longrightarrow> length gs = 8 \<Longrightarrow> (a, b) = (255, 255) \<or> a + 2 \<le> b \<and> b \<le> 8"
    by (simp add: zero_run_def)
qed

lemma ip_string_not_Nil: "ip_string ip \<noteq> []"
proof (cases "To4 ip")
  case None
  have "colon_groups (ip_groups ip) \<noteq> []" if "length ip = 16"
    using that show_hex16_text [THEN conjunct2, THEN conjunct1] length_join [of "CHR '':''" "map show_hex16 (ip_groups ip)"]
    by (cases ip rule: ip_groups.cases) (auto simp: colon_groups_def)
  then show ?thesis using None by (auto simp: ip_string_def Let_def split: prod.splits)
next
  case (Some a)
  then have "length a = 4" by (auto simp: To4_def split: if_splits)
  then show ?thesis using Some dotted_quad_text by (auto simp: ip_string_def)
qed

lemma ip_string_text:
  assumes "length ip = 4 \<or> length ip = 16" shows "list_all graphic (ip_string ip) \<and> length (ip_string ip) \<le> 39"
proof (cases "To4 ip")
  case (Some a)
  then have "length a = 4" by (auto simp: To4_def split: if_splits)
  then show ?thesis using Some dotted_quad_text [of a] assms by (auto simp: ip_string_def)
next
  case None
  then have l: "length ip = 16" using assms by (auto simp: To4_def)
  then have g: "length (ip_groups ip) = 8" by (simp add: length_ip_groups)
  obtain a b where z: "zero_run (ip_groups ip) = (a, b)" by fastforce
  have "length (colon_groups (take a (ip_groups ip)) @ ''::'' @ colon_groups (drop b (ip_groups ip))) \<le> 39" if "a < 8"
    using that zero_run_bounds [OF z g] colon_groups_text(2) [of "take a (ip_groups ip)"] colon_groups_text(2) [of "drop b (ip_groups ip)"] g
    by auto
  then show ?thesis
    using None l z g colon_groups_text [of "ip_groups ip"]
    by (auto simp: ip_string_def Let_def colon_groups_text graphic_def)
qed

lemma graphic_no_control: "list_all graphic s \<Longrightarrow> \<not> hasControlChar s"
  by (fastforce simp: hasControlChar_def list_all_iff graphic_def)

text \<open>A dotted address reads back.\<close>

lemma digit_char_zero: "d < 10 \<Longrightarrow> digit_char d = CHR ''0'' \<Longrightarrow> d = 0"
  by (drule arg_cong [of _ _ "of_char :: char \<Rightarrow> nat"]) (simp add: digit_char_def of_char_of)

lemma show_nat_leading: "0 < n \<Longrightarrow> hd (show_nat n) \<noteq> CHR ''0''"
proof (induction n rule: show_nat.induct)
  case (1 n)
  then show ?case by (cases "n < 10") (auto simp: show_nat.simps [of n] dest: digit_char_zero)
qed

lemma ipv4_field_show: "n < 256 \<Longrightarrow> ipv4_field (show_nat n) = Some n"
proof -
  assume n: "n < 256"
  have "length (show_nat n) \<le> 3" using length_show_nat [of n 3] n by simp
  moreover have "\<not> (length (show_nat n) > 1 \<and> hd (show_nat n) = CHR ''0'')"
    using show_nat_leading [of n] by (cases "n = 0") (auto simp: show_nat.simps [of 0])
  ultimately show ?thesis using n by (simp add: ipv4_field_def)
qed

lemma show_nat_not_in: "of_char c < (48 :: nat) \<or> 57 < (of_char c :: nat) \<Longrightarrow> c \<notin> set (show_nat n)"
  using digit_char_neq show_nat_digit_chars by metis

lemma show_nat_no_sep: "CHR ''.'' \<notin> set (show_nat n)" "CHR '':'' \<notin> set (show_nat n)" "CHR ''%'' \<notin> set (show_nat n)"
  by (rule show_nat_not_in; simp)+

lemma parse_dotted_quad:
  assumes "length ip = 4" shows "parse_ip (dotted_quad ip) = Some (v4_prefix @ ip)"
proof -
  obtain a b c d where ip: "ip = [a, b, c, d]" using assms by (auto simp: length_Suc_conv numeral_eq_Suc)
  have split: "split_char (CHR ''.'') (dotted_quad ip) = map (\<lambda>b. show_nat (unat b)) ip"
    unfolding dotted_quad_def by (rule split_join_char) (auto simp: ip show_nat_no_sep)
  have f: "filter (\<lambda>c. c \<in> set ''.:%'') (show_nat n) = []" for n
    using show_nat_no_sep [of n] by (auto simp: filter_empty_conv)
  have "filter (\<lambda>c. c \<in> set ''.:%'') (dotted_quad ip) = ''...''"
    by (simp add: ip dotted_quad_def f [simplified])
  moreover have "parse_ipv4 (dotted_quad ip) = Some (map unat ip)"
    unfolding parse_ipv4_def split by (simp add: ip ipv4_field_show unat_byte_less)
  ultimately have "ParseIP (dotted_quad ip) = Some (replicate 10 0 @ [255, 255] @ map unat ip)"
    by (simp add: ParseIP_def)
  then show ?thesis by (simp add: parse_ip_def v4_prefix_def ip)
qed

subsection \<open>The address is the one mDNS advertises\<close>

lemma ble_usableIPv4_eq: "ble_usableIPv4 a = usableIPv4 a"
  by (cases a) (simp_all add: ble_usableIPv4_def usableIPv4_def addr_ip_def)

lemma first_usable_eq: "first_usable as = pick_addr None as"
  by (induction as) (simp_all add: ble_usableIPv4_eq split: option.splits)

lemma ble_splitListen_eq: "(ble_splitListen listen = Inr hp) = (splitListen listen = Inr hp)"
  by (auto simp: ble_splitListen_def splitListen_def split: option.splits if_splits)

lemma lan_address_cons:
  "lan_address pref fb (i # is) =
     (case if if_up i \<and> \<not> if_loopback i then Option.bind (if_addrs i) (pick_addr None) else None of
        None \<Rightarrow> lan_address pref fb is
      | Some ip \<Rightarrow> if pref \<noteq> [] \<and> if_name i = pref then ip_string ip
                  else lan_address pref (if fb = [] then ip_string ip else fb) is)"
  by (simp add: first_usable_eq split: option.splits)

text \<open>The target of the preferred interface if there is one, else the first.\<close>

definition chosen :: "string \<Rightarrow> (net_iface \<times> bytes) list \<Rightarrow> net_iface \<times> bytes" where
  "chosen pref ts = (case find (\<lambda>(i, _). pref \<noteq> [] \<and> if_name i = pref) ts of Some t \<Rightarrow> t | None \<Rightarrow> hd ts)"

lemma pick_targets_cons:
  "pick_targets w (i # is) = (case target_ip w i of None \<Rightarrow> pick_targets w is | Some ip \<Rightarrow> (i, ip) # pick_targets w is)"
  by (auto simp: target_ip_def split: option.splits)

lemma lan_address_targets:
  "list_all (\<lambda>i. if_up i \<and> \<not> if_loopback i \<longrightarrow> if_multicast i) l \<Longrightarrow>
   lan_address pref fb l = (case find (\<lambda>(i, _). pref \<noteq> [] \<and> if_name i = pref) (pick_targets None l) of
       Some t \<Rightarrow> ip_string (snd t)
     | None \<Rightarrow> if fb \<noteq> [] then fb else (case pick_targets None l of [] \<Rightarrow> [] | t # _ \<Rightarrow> ip_string (snd t)))"
proof (induction l arbitrary: fb)
  case (Cons i l)
  have t: "(if if_up i \<and> \<not> if_loopback i then Option.bind (if_addrs i) (pick_addr None) else None) = target_ip None i"
    using Cons.prems by (auto simp: target_ip_def)
  show ?case
    unfolding lan_address_cons pick_targets_cons t using Cons by (auto simp: ip_string_not_Nil split: option.splits)
qed simp

lemma unspecified_not_loopback: "ip_IsUnspecified ip \<Longrightarrow> \<not> ip_IsLoopback ip"
proof -
  assume "ip_IsUnspecified ip"
  then have "ip = v4_prefix @ [0, 0, 0, 0] \<or> ip = replicate 16 0 \<or> ip = [0, 0, 0, 0]"
    by (auto simp: ip_IsUnspecified_def ip_Equal_def v4_prefix_def numeral_eq_Suc split: if_splits)
  moreover have "\<not> ip_IsLoopback (v4_prefix @ [0, 0, 0, 0])" "\<not> ip_IsLoopback (replicate 16 0)" "\<not> ip_IsLoopback [0, 0, 0, 0]"
    by code_simp+
  ultimately show ?thesis by metis
qed

lemma AgentAddress_any:
  assumes "splitListen listen = Inr (host, port)" "bound_to host = None"
  shows "AgentAddress pref listen (Some l) =
    (let h = lan_address pref [] l in if h = [] then Inl ErrNoLANAddress else Inr (h, port))"
  using assms by (simp add: AgentAddress_def ble_splitListen_eq [symmetric] bound_to_def split: option.splits if_splits)

lemma targets_any:
  assumes "bound_to host = None"
  shows "targets host (Some l) = (if pick_targets None l = [] then Inl NoInterface else Inr (pick_targets None l))"
  using assms unspecified_not_loopback
  by (auto simp: targets_def bound_to_def Let_def split: option.splits if_splits)

lemma AgentAddress_targets:
  assumes "splitListen listen = Inr (host, port)" "bound_to host = None"
    "list_all (\<lambda>i. if_up i \<and> \<not> if_loopback i \<longrightarrow> if_multicast i) l"
  shows "AgentAddress pref listen (Some l) = (case targets host (Some l) of
      Inl _ \<Rightarrow> Inl ErrNoLANAddress | Inr ts \<Rightarrow> Inr (ip_string (snd (chosen pref ts)), port))"
proof -
  let ?ts = "pick_targets None l"
  have "find P ?ts = Some t \<Longrightarrow> ?ts \<noteq> []" for P t by auto
  then show ?thesis
    unfolding AgentAddress_any [OF assms(1,2)] targets_any [OF assms(2)] lan_address_targets [OF assms(3)]
    by (auto simp: chosen_def ip_string_not_Nil Let_def split: option.splits list.splits)
qed

text \<open>What it gives is a text the record takes, and for a server on every interface a dotted address.\<close>

lemma length_parse_ipv4: "parse_ipv4 s = Some b \<Longrightarrow> length b = 4"
  by (auto simp: parse_ipv4_def Let_def split: if_splits)

lemma length_parse_ip: "parse_ip s = Some ip \<Longrightarrow> length ip = 16"
  by (auto simp: parse_ip_def ParseIP_def parse_ipv6_def Let_def dest!: length_parse_ipv4
      split: list.splits if_splits option.splits prod.splits)

lemma usable_quad: "usableIPv4 a = Some ip \<Longrightarrow> length ip = 4 \<and> \<not> ip_IsUnspecified ip \<and> \<not> ip_IsLoopback ip \<and> \<not> ip_IsLinkLocalUnicast ip"
  by (auto simp: usableIPv4_def To4_def split: option.splits if_splits)

lemma pick_addr_quad: "pick_addr w as = Some ip \<Longrightarrow> length ip = 4 \<and> \<not> ip_IsUnspecified ip \<and> \<not> ip_IsLoopback ip \<and> \<not> ip_IsLinkLocalUnicast ip"
  by (drule pick_addr_sound) (auto simp: list_ex_iff dest: usable_quad)

lemma lan_address_quad:
  "lan_address pref fb l = fb \<or> (\<exists>ip. lan_address pref fb l = dotted_quad ip \<and> length ip = 4 \<and>
     \<not> ip_IsUnspecified ip \<and> \<not> ip_IsLoopback ip \<and> \<not> ip_IsLinkLocalUnicast ip)"
proof (induction l arbitrary: fb)
  case (Cons i l)
  show ?case
  proof (cases "if if_up i \<and> \<not> if_loopback i then Option.bind (if_addrs i) (pick_addr None) else None")
    case None
    then show ?thesis unfolding lan_address_cons using Cons by simp
  next
    case (Some ip)
    then have q: "length ip = 4" "\<not> ip_IsUnspecified ip" "\<not> ip_IsLoopback ip" "\<not> ip_IsLinkLocalUnicast ip"
      by (auto dest: pick_addr_quad split: if_splits Option.bind_splits)
    moreover have "ip_string ip = dotted_quad ip" using q(1) by (auto simp: ip_string_def To4_def)
    ultimately show ?thesis
      unfolding lan_address_cons Some using Cons [of "dotted_quad ip"] Cons [of fb] by (auto split: if_splits)
  qed
qed simp

lemma splitListen_port: "splitListen listen = Inr (h, p) \<Longrightarrow> p \<noteq> 0"
proof
  assume "splitListen listen = Inr (h, p)" "p = 0"
  then obtain n :: int where "\<not> n \<le> 0" "\<not> 65535 < n" "word_of_int n = (0 :: 16 word)"
    by (auto simp: splitListen_def split: option.splits if_splits)
  then show False by (simp add: word_of_int_eq_0_iff zdvd_not_zless)
qed

lemma AgentAddress_eq:
  "AgentAddress pref listen ifs = bind_result (ble_splitListen listen) (\<lambda>(host, port).
     case bound_to host of
       Some ip \<Rightarrow> if ip_IsLoopback ip then Inl ErrLoopbackOnly else Inr (ip_string ip, port)
     | None \<Rightarrow> (case ifs of None \<Rightarrow> Inl ErrListInterfaces
         | Some l \<Rightarrow> (let h = lan_address pref [] l in if h = [] then Inl ErrNoLANAddress else Inr (h, port))))"
proof -
  have "(case parse_ip s of Some ip \<Rightarrow> if ip_IsUnspecified ip then None else Some ip | None \<Rightarrow> None) =
    (case parse_ip s of None \<Rightarrow> None | Some w \<Rightarrow> if ip_IsUnspecified w then None else Some w)" for s
    by (simp split: option.splits)
  then show ?thesis by (simp add: AgentAddress_def bound_to_def)
qed

lemma length_bound_to: "bound_to host = Some ip \<Longrightarrow> length ip = 16"
  by (auto simp: bound_to_def dest: length_parse_ip split: option.splits if_splits)

lemma AgentAddress_text:
  assumes "AgentAddress pref listen ifs = Inr (h, p)"
  shows "h \<noteq> [] \<and> list_all graphic h \<and> length h \<le> 39 \<and> p \<noteq> 0"
proof -
  obtain host q where q: "splitListen listen = Inr (host, q)"
      "(case bound_to host of
         Some ip \<Rightarrow> if ip_IsLoopback ip then Inl ErrLoopbackOnly else Inr (ip_string ip, q)
       | None \<Rightarrow> (case ifs of None \<Rightarrow> Inl ErrListInterfaces
           | Some l \<Rightarrow> (let h = lan_address pref [] l in if h = [] then Inl ErrNoLANAddress else Inr (h, q)))) = Inr (h, p)"
    using assms unfolding AgentAddress_eq bind_result_Inr_iff ble_splitListen_eq by auto
  then have s: "splitListen listen = Inr (host, p)" by (auto simp: Let_def split: option.splits if_splits)
  have "(\<exists>ip. length ip = 16 \<and> h = ip_string ip) \<or> (\<exists>l. h = lan_address pref [] l \<and> h \<noteq> [])"
  proof (cases "bound_to host")
    case None
    then show ?thesis using q(2) by (auto simp: Let_def split: option.splits if_splits)
  next
    case (Some ip)
    then show ?thesis using q(2) length_bound_to [OF Some] by (auto split: if_splits)
  qed
  then show ?thesis
  proof (elim disjE exE conjE)
    fix ip assume "length ip = 16" "h = ip_string ip"
    then show ?thesis using ip_string_text ip_string_not_Nil splitListen_port [OF s] by simp
  next
    fix l assume "h = lan_address pref [] l" "h \<noteq> []"
    then show ?thesis using lan_address_quad [of pref "[]" l] dotted_quad_text splitListen_port [OF s] by fastforce
  qed
qed

text \<open>
  C29: one address for both ways of finding the agent.  With a server that is not bound to one address, on
  interfaces that all do multicast, the address given to a device over Bluetooth is one that mDNS
  advertises: that of the preferred interface if it has one, else the first; and there is none exactly when
  mDNS has nothing to advertise.
\<close>

theorem agent_address_agrees:
  assumes "splitListen listen = Inr (host, port)" "bound_to host = None"
    "list_all (\<lambda>i. if_up i \<and> \<not> if_loopback i \<longrightarrow> if_multicast i) l"
  shows "AgentAddress pref listen (Some l) = (case targets host (Some l) of
      Inl _ \<Rightarrow> Inl ErrNoLANAddress | Inr ts \<Rightarrow> Inr (ip_string (snd (chosen pref ts)), port))"
  by (rule AgentAddress_targets [OF assms])

theorem agent_address_agrees_witness:
  "targets ''localhost'' (Some home_ifaces) = Inr [(home_ifaces ! 1, [192, 168, 1, 20])] \<and>
   AgentAddress ''en0'' ''localhost:8765'' (Some home_ifaces) = Inr (''192.168.1.20'', 8765)"
proof -
  have h: "splitListen ''localhost:8765'' = Inr (''localhost'', 8765)" "bound_to ''localhost'' = None"
    "list_all (\<lambda>i. if_up i \<and> \<not> if_loopback i \<longrightarrow> if_multicast i) home_ifaces" by code_simp+
  have t: "targets ''localhost'' (Some home_ifaces) = Inr [(home_ifaces ! 1, [192, 168, 1, 20])]"
    "ip_string (snd (chosen ''en0'' [(home_ifaces ! 1, [192, 168, 1, 20])])) = ''192.168.1.20''" by code_simp+
  show ?thesis using agent_address_agrees [OF h, of "''en0''"] t by simp
qed

text \<open>
  The device can dial what it is given.  The address taken from the interfaces is dotted text that reads
  back as the address of an interface, neither unspecified nor loopback nor link-local, with a port.
\<close>

theorem agent_address_dialable:
  assumes "AgentAddress pref listen ifs = Inr (h, p)" "splitListen listen = Inr (host, port)" "bound_to host = None"
  shows "\<exists>ip. h = dotted_quad ip \<and> parse_ip h = Some (v4_prefix @ ip) \<and> length ip = 4 \<and> p = port \<and> p \<noteq> 0 \<and>
    \<not> ip_IsUnspecified ip \<and> \<not> ip_IsLoopback ip \<and> \<not> ip_IsLinkLocalUnicast ip"
proof -
  obtain l where l: "ifs = Some l" using assms by (cases ifs) (auto simp: AgentAddress_eq ble_splitListen_eq bind_result_Inr_iff)
  have "h = lan_address pref [] l" "h \<noteq> []" "p = port"
    using assms(1) unfolding l AgentAddress_any [OF assms(2,3)] by (auto simp: Let_def split: if_splits)
  then show ?thesis
    using lan_address_quad [of pref "[]" l] parse_dotted_quad splitListen_port [OF assms(2)] by fastforce
qed

theorem agent_address_dialable_witness:
  "\<exists>ip. ''192.168.1.20'' = dotted_quad ip \<and> parse_ip ''192.168.1.20'' = Some (v4_prefix @ ip) \<and> \<not> ip_IsLoopback ip"
proof -
  have "AgentAddress [] '':8765'' (Some home_ifaces) = Inr (''192.168.1.20'', 8765)" "splitListen '':8765'' = Inr ([], 8765)"
    "bound_to [] = None" by code_simp+
  from agent_address_dialable [OF this] show ?thesis by blast
qed

subsection \<open>The credentials\<close>

lemma airport_named: "airport_from ls = Some n \<Longrightarrow> n \<noteq> [] \<and> n \<noteq> redactedMarker"
  by (induction ls) (auto simp: Let_def split: if_splits option.splits)

lemma summary_named: "summary_from ls = Some n \<Longrightarrow> n \<noteq> [] \<and> n \<noteq> redactedMarker"
  by (induction ls) (auto simp: Let_def split: if_splits option.splits)

lemma preferred_named: "n \<in> set (parsePreferredNetworks out) \<Longrightarrow> n \<noteq> []"
  by (auto simp: parsePreferredNetworks_def network_names_def split: list.splits if_splits)

lemma CurrentSSID_named:
  assumes "CurrentSSID run dev = Inr (ssid, src, err)"
  shows "ssid \<noteq> [] \<and> (err = None \<longrightarrow> ssid \<noteq> redactedMarker \<and> src \<in> {SourceNetworkSetup, SourceIPConfig}) \<and>
    (err \<noteq> None \<longrightarrow> src = SourcePreferred)"
proof -
  have "parsePreferredNetworks out = n # ns \<Longrightarrow> n \<noteq> []" for out n ns using preferred_named [of n out] by simp
  then show ?thesis
    using assms by (auto simp: CurrentSSID_def Let_def parseAirportNetwork_def parseSummarySSID_def
        dest: airport_named summary_named split: if_splits option.splits list.splits)
qed

definition ssid_honest :: "string \<Rightarrow> credentials \<Rightarrow> bool" where
  "ssid_honest wish c \<longleftrightarrow> cd_SSID c \<noteq> [] \<and>
     (if wish \<noteq> [] then cd_SSID c = wish
      else if cd_SSIDConfident c then cd_SSID c \<noteq> redactedMarker \<and> cd_SSIDSource c \<in> {SourceNetworkSetup, SourceIPConfig}
      else cd_SSIDSource c = SourcePreferred \<and> guess_warning \<in> set (cd_Warnings c))"

lemma gather_ssid_honest:
  "gather_ssid run dev wish = Inr c \<Longrightarrow> ssid_honest wish c \<and> cd_Open c = False \<and> cd_Password c = [] \<and> cd_Token c = []"
  by (auto simp: gather_ssid_def ssid_honest_def Let_def bind_result_Inr_iff no_credentials_def
      dest: CurrentSSID_named split: if_splits)

lemma gather_password_keeps:
  "ssid_honest wish c \<Longrightarrow> cd_Open c = False \<Longrightarrow> ssid_honest wish (gather_password run skip c) \<and>
    (cd_Open (gather_password run skip c) \<longrightarrow> cd_Password (gather_password run skip c) = [] \<or> cd_Password (gather_password run skip c) = cd_Password c) \<and>
    cd_Token (gather_password run skip c) = cd_Token c"
  by (auto simp: gather_password_def ssid_honest_def split: sum.splits)

lemma Gather_with: "Gather u run ifs mint listen opts = Inr c \<Longrightarrow> \<exists>dev. gather_with run ifs mint listen opts dev = Inr c"
  by (auto simp: Gather_def split: sum.splits if_splits)

lemma gathered:
  assumes "Gather u run ifs mint listen opts = Inr c"
  obtains dev c0 where "gather_ssid run dev (go_SSID opts) = Inr c0"
    "AgentAddress dev listen ifs = Inr (cd_Host c, cd_Port c)"
    "c\<lparr>cd_Token := []\<rparr> = (gather_password run (go_SkipPassword opts) c0)\<lparr>cd_Host := cd_Host c, cd_Port := cd_Port c, cd_Token := []\<rparr>"
    "if go_SkipToken opts then cd_Token c = [] else mint = Inr (cd_Token c)"
proof -
  obtain dev where "gather_with run ifs mint listen opts dev = Inr c" using Gather_with [OF assms] ..
  then obtain c0 h p where g: "gather_ssid run dev (go_SSID opts) = Inr c0" "AgentAddress dev listen ifs = Inr (h, p)"
      "(let c = (gather_password run (go_SkipPassword opts) c0)\<lparr>cd_Host := h, cd_Port := p\<rparr> in
        if go_SkipToken opts then Inr c else bind_result mint (\<lambda>tok. Inr (c\<lparr>cd_Token := tok\<rparr>))) = Inr c"
    by (auto simp: gather_with_def bind_result_Inr_iff Let_def)
  have "cd_Token (gather_password run (go_SkipPassword opts) c0) = []"
    using gather_ssid_honest [OF g(1)] gather_password_keeps [of "go_SSID opts" c0] by metis
  then show thesis using that [OF g(1)] g(2,3) by (auto simp: Let_def bind_result_Inr_iff split: if_splits)
qed

text \<open>
  What is gathered is honest and sendable.  The name is the one asked for, or one that macOS reported
  and did not hide, or it is labelled a guess with a warning; an open network has no password; the address
  and the port are never what the record rules refuse; a token is there only if it was to be minted.
\<close>

theorem gathered_credentials:
  assumes "Gather u run ifs mint listen opts = Inr c"
  shows "ssid_honest (go_SSID opts) c \<and> (cd_Open c \<longrightarrow> cd_Password c = []) \<and> cd_Port c \<noteq> 0 \<and> cd_Host c \<noteq> [] \<and>
    validate_record (cred_record c) \<noteq> Inl (FieldError ''host'' e) \<and>
    (if go_SkipToken opts then cd_Token c = [] else mint = Inr (cd_Token c))"
proof -
  obtain dev c0 where g: "gather_ssid run dev (go_SSID opts) = Inr c0" "AgentAddress dev listen ifs = Inr (cd_Host c, cd_Port c)"
    "c\<lparr>cd_Token := []\<rparr> = (gather_password run (go_SkipPassword opts) c0)\<lparr>cd_Host := cd_Host c, cd_Port := cd_Port c, cd_Token := []\<rparr>"
    "if go_SkipToken opts then cd_Token c = [] else mint = Inr (cd_Token c)"
    by (rule gathered [OF assms])
  note c0 = gather_ssid_honest [OF g(1)]
  note k = gather_password_keeps [of "go_SSID opts" c0 run "go_SkipPassword opts", OF c0 [THEN conjunct1]]
  have "ssid_honest (go_SSID opts) (c\<lparr>cd_Token := []\<rparr>) \<and> (cd_Open (c\<lparr>cd_Token := []\<rparr>) \<longrightarrow> cd_Password (c\<lparr>cd_Token := []\<rparr>) = [])"
    unfolding g(3) using k c0 by (auto simp: ssid_honest_def split: if_splits)
  moreover note t = AgentAddress_text [OF g(2)]
  have "\<not> hasControlChar (cd_Host c)" "length (cd_Host c) \<le> MaxHost"
    using t graphic_no_control by (auto simp: MaxHost_def)
  then have "validate_record (cred_record c) \<noteq> Inl (FieldError ''host'' e)"
    by (simp add: validate_record_def cred_record_def)
  moreover have "ssid_honest (go_SSID opts) (c\<lparr>cd_Token := []\<rparr>) = ssid_honest (go_SSID opts) c" by (simp add: ssid_honest_def)
  ultimately show ?thesis using g(4) t by simp
qed

text \<open>A Mac on a network whose name macOS hides from the process.\<close>

definition home_mac :: mac_runner where
  "home_mac args =
     (let out = (if take 2 args = [cmdNetworkSetup, ''-listallhardwareports''] then ''Hardware Port: Wi-Fi'' @ [CHR 0x0A] @ ''Device: en0''
         else if take 2 args = [cmdNetworkSetup, ''-getairportnetwork''] then notAssociated
         else if take 1 args = [cmdIPConfig] then ''  SSID : <redacted>''
         else if take 2 args = [cmdNetworkSetup, ''-listpreferredwirelessnetworks''] then ''Preferred networks on en0:'' @ [CHR 0x0A, CHR 0x09] @ ''Home''
         else ''hunter2 hunter2'' @ [CHR 0x0A])
      in \<lparr>rn_stdout = out, rn_stderr = [], rn_err = None, rn_expired = False\<rparr>)"

definition home_options :: gather_options where
  "home_options = \<lparr>go_SSID = [], go_SkipPassword = False, go_SkipToken = True\<rparr>"

definition home_credentials :: credentials where
  "home_credentials = \<lparr>cd_SSID = ''Home'', cd_SSIDSource = SourcePreferred, cd_SSIDConfident = False, cd_Password = ''hunter2 hunter2'',
     cd_Open = False, cd_Host = ''192.168.1.20'', cd_Port = 8765, cd_Token = [], cd_Interface = ''en0'', cd_Warnings = [guess_warning]\<rparr>"

lemma Gather_home: "Gather plain_tables home_mac (Some home_ifaces) (Inl ErrMint) '':8765'' home_options = Inr home_credentials"
  by code_simp

theorem gathered_credentials_witness:
  "Gather plain_tables home_mac (Some home_ifaces) (Inl ErrMint) '':8765'' home_options = Inr home_credentials \<and>
   ssid_honest [] home_credentials \<and> validate_record (cred_record home_credentials) \<noteq> Inl (FieldError ''host'' ErrFieldTooLong)"
  using gathered_credentials [OF Gather_home, of ErrFieldTooLong] Gather_home by (simp add: home_options_def)

end
