(* ===== verification/Ble_Setup.thy ===== *)
theory Ble_Setup
  imports Ble_Creds_Facts Ble_Central_Facts Api_Setup
begin

text \<open>
  cmd/usaged/bleprov.go: the adapter between the setup routes and the radio.  \<open>ProvisionProgress\<close> gathers
  the credentials, has a token issued and recorded, and hands the record to the device.  The log and the
  wiping of the copies are left out.
\<close>

subsection \<open>The adapter\<close>

text \<open>The token issuer: what the random source, the file system and the clock give at the call.\<close>

record issuer =
  is_random :: "bytes option"
  is_outcome :: "devices Go_Files.outcome \<times> devices Go_Files.outcome \<times> devices Go_Files.outcome \<times> bool"
  is_now :: int

record bleProvisioner =
  bp_tables :: case_tables
  bp_run :: mac_runner
  bp_ifaces :: "net_iface list option"
  bp_listen :: string
  bp_otaPass :: string
  bp_names :: "(string \<times> string) list"
  bp_issue :: "issuer option"
  bp_radio :: radio
  bp_enabled :: bool

definition ble_otaPass :: "string \<Rightarrow> string" where
  "ble_otaPass pass = (if length pass > MaxOtaPass then [] else pass)"

definition newBLEProvisioner :: "string \<Rightarrow> string \<Rightarrow> case_tables \<Rightarrow> mac_runner \<Rightarrow> net_iface list option \<Rightarrow> radio \<Rightarrow> bleProvisioner" where
  "newBLEProvisioner listen pass u run ifs rd =
     \<lparr>bp_tables = u, bp_run = run, bp_ifaces = ifs, bp_listen = listen, bp_otaPass = ble_otaPass pass, bp_names = [],
      bp_issue = None, bp_radio = rd, bp_enabled = False\<rparr>"

definition SetTokenIssuer :: "issuer \<Rightarrow> bleProvisioner \<Rightarrow> bleProvisioner" where
  "SetTokenIssuer i bp = bp\<lparr>bp_issue := Some i\<rparr>"

text \<open>A scan gives the devices and remembers the names that were advertised.\<close>

definition found_device :: "peripheral \<Rightarrow> foundDevice" where
  "found_device p = \<lparr>fd_Addr = ph_Address p, fd_Name = ph_Name p, fd_RSSI = ph_RSSI p, fd_MAC = [], fd_Provisioned = False,
     fd_Version = 0, fd_Capacity = 0\<rparr>"

definition ble_Scan ::
  "central_error + peripheral list \<Rightarrow> bleProvisioner \<Rightarrow> (central_error + foundDevice list) \<times> bleProvisioner"
where
  "ble_Scan scanned bp =
     (case scanned of
        Inl e \<Rightarrow> (Inl e, bp)
      | Inr ps \<Rightarrow> (Inr (map found_device ps),
          bp\<lparr>bp_names := fold (\<lambda>p m. if ph_Name p \<noteq> [] then AList.update (ph_Address p) (ph_Name p) m else m) ps (bp_names bp)\<rparr>))"

definition deviceIdentity :: "bleProvisioner \<Rightarrow> string \<Rightarrow> string \<times> string" where
  "deviceIdentity bp addr = (addr, case map_of (bp_names bp) addr of None \<Rightarrow> [] | Some n \<Rightarrow> n)"

definition bleStepFor :: "Ble_Central.phase \<Rightarrow> string" where
  "bleStepFor ph = (case ph of
      PhaseConnecting \<Rightarrow> StepConnecting
    | PhaseIdentifying \<Rightarrow> StepReadingInfo
    | PhasePairing \<Rightarrow> StepPairing
    | PhaseSending \<Rightarrow> StepSending
    | PhaseCommitting \<Rightarrow> StepSending
    | PhaseApplying \<Rightarrow> StepApplying
    | PhaseDone \<Rightarrow> [])"

definition CurrentNetwork :: "bleProvisioner \<Rightarrow> string \<times> bool" where
  "CurrentNetwork bp =
     (case WiFiInterface (bp_tables bp) (bp_run bp) of
        Inl _ \<Rightarrow> ([], False)
      | Inr dev \<Rightarrow> (case CurrentSSID (bp_run bp) dev of
            Inl _ \<Rightarrow> ([], False)
          | Inr (ssid, _, err) \<Rightarrow> if ssid = [] then ([], False) else (ssid, err = None)))"

subsection \<open>Errors for the page\<close>

definition plain_error :: prov_error where
  "plain_error = \<lparr>er_failure = None, er_coded = None, er_canceled = False, er_deadline = False\<rparr>"

definition staged :: "string \<Rightarrow> prov_error" where
  "staged st = plain_error\<lparr>er_failure := Some \<lparr>pf_DeviceCode = 0, pf_Stage = st\<rparr>\<rparr>"

text \<open>What \<open>errors.Is\<close> and \<open>errors.As\<close> see through a chunk's wrapping.\<close>

fun unwrapped :: "central_error \<Rightarrow> central_error" where
  "unwrapped (InChunk _ _ e) = unwrapped e"
| "unwrapped e = e"

text \<open>An error that goes to the routes as it is.\<close>

definition raw_error :: "central_error \<Rightarrow> prov_error" where
  "raw_error e = (case unwrapped e of
      DeviceError c _ \<Rightarrow> plain_error\<lparr>er_coded := Some (uint c)\<rparr>
    | CtxEnded CtxCanceled \<Rightarrow> plain_error\<lparr>er_canceled := True\<rparr>
    | CtxEnded CtxDeadline \<Rightarrow> plain_error\<lparr>er_deadline := True\<rparr>
    | _ \<Rightarrow> plain_error)"

definition bleStageFor :: "central_error \<Rightarrow> prov_error" where
  "bleStageFor e = (case unwrapped e of
      ErrAdapterUnavailable _ \<Rightarrow> staged StageScan
    | ErrBondLost \<Rightarrow> staged StagePair
    | ErrPairingTimeout \<Rightarrow> staged StagePair
    | ErrPanicked \<Rightarrow> staged StageConnect
    | WireError (FieldError f code) \<Rightarrow> plain_error\<lparr>er_failure := Some \<lparr>pf_DeviceCode = uint code, pf_Stage = []\<rparr>\<rparr>
    | _ \<Rightarrow> raw_error e)"

subsection \<open>ProvisionProgress\<close>

text \<open>\<open>Died\<close>: the process ended while the store was written.\<close>

datatype ble_end = Ended "prov_error option" | Died

definition send_record :: "bleProvisioner \<Rightarrow> string \<Rightarrow> Record \<Rightarrow> ble_end \<times> string list \<times> crun" where
  "send_record bp addr rec =
     (let (r, run) = Provision (bp_radio bp) (bp_enabled bp) addr rec in
      (Ended (case r of Inl e \<Rightarrow> Some (bleStageFor e) | Inr _ \<Rightarrow> None),
       filter (\<lambda>st. st \<noteq> []) (map (\<lambda>p. bleStepFor (pg_Phase p)) (cr_progress run)), run))"

definition ProvisionProgress ::
  "bleProvisioner \<Rightarrow> string \<Rightarrow> pairing \<times> device_fs \<Rightarrow> (ble_end \<times> string list \<times> crun) \<times> (pairing \<times> device_fs)"
where
  "ProvisionProgress bp addr ps =
     (case Gather (bp_tables bp) (bp_run bp) (bp_ifaces bp) (Inl ErrMint) (bp_listen bp)
             \<lparr>go_SSID = [], go_SkipPassword = False, go_SkipToken = True\<rparr> of
        Inl _ \<Rightarrow> ((Ended (Some plain_error), [], no_run), ps)
      | Inr c \<Rightarrow>
          (let rec = \<lparr>R_SSID = cd_SSID c, R_Password = cd_Password c, R_Host = cd_Host c, R_Port = cd_Port c,
                      R_Token = [], R_OTAPass = bp_otaPass bp\<rparr> in
           if R_Host rec = [] then ((Ended (Some (staged StageTransfer)), [], no_run), ps)
           else
             (let (ident, name) = deviceIdentity bp addr in
              case bp_issue bp of
                None \<Rightarrow> (send_record bp addr rec, ps)
              | Some i \<Rightarrow>
                  (case issueDeviceToken (is_random i) (is_outcome i) (is_now i) ident name (fst ps) (snd ps) of
                     (ps', Issued token) \<Rightarrow> (send_record bp addr (rec\<lparr>R_Token := token\<rparr>), ps')
                   | (ps', IssueErr _) \<Rightarrow> ((Ended (Some plain_error), [], no_run), ps')
                   | (ps', IssueCrashed) \<Rightarrow> ((Died, [], no_run), ps')))))"

subsection \<open>A setup that succeeds\<close>

lemma progress_issued:
  assumes "ProvisionProgress bp addr (p, fs) = ((Ended None, steps, run), (p', fs'))" "bp_issue bp = Some i"
  obtains rec token res where "Provision (bp_radio bp) (bp_enabled bp) addr rec = (Inr res, run)"
    "R_Host rec \<noteq> []" "R_Token rec = token"
    "issueDeviceToken (is_random i) (is_outcome i) (is_now i) addr (snd (deviceIdentity bp addr)) p fs = ((p', fs'), Issued token)"
  using assms
  by (auto simp: ProvisionProgress_def send_record_def deviceIdentity_def Let_def
      split: sum.splits prod.splits issue_result.splits if_splits option.splits)

lemma issued_matches:
  assumes "issueDeviceToken rnd oc now i nm p fs = ((p', fs'), Issued token)" "length (the rnd) = pairTokenBytes"
  shows "matchToken (pair_devices p') token \<and> (pair_path p = [] \<or> pair_devices (newPairing (pair_path p) fs') = pair_devices p')"
proof -
  obtain d where t: "newDeviceToken rnd = Some token" "pd_Token d = token" "p' = p\<lparr>pair_devices := AList.update i d (pair_devices p)\<rparr>"
      "persistLocked oc p' fs = (fs', Saved)"
    using issue_cases [OF assms(1)] by (auto simp: Let_def)
  have "token \<noteq> []" using t(1) assms(2) by (auto simp: newDeviceToken_def pairTokenBytes_def dest!: arg_cong [of _ "[]" length])
  moreover have "d \<in> snd ` set (AList.update i d (pair_devices p))"
    using map_of_SomeD [of "AList.update i d (pair_devices p)" i d] by (force simp: update_conv)
  ultimately have "matchToken (pair_devices p') token" using t(2,3) by (auto simp: matchToken_iff)
  moreover have "pair_path p = [] \<or> pair_devices (newPairing (pair_path p) fs') = pair_devices p'"
    using persist_laws(1) [of p' oc fs fs'] t(3,4) by (auto simp: newPairing_def)
  ultimately show ?thesis by simp
qed

lemma stored_token_served:
  assumes "matchToken devs tok" "\<not> is_mutating (req_Method r) \<or> req_ContentLength r \<le> 0" "req_HeaderToken r = tok"
  shows "middleware configured (Some devs) r = Serve \<or> isLoopbackAddr (req_RemoteAddr r)"
  using assms unfolding middleware_Serve by (auto simp: validAnyToken_def Let_def matchToken_iff)


subsection \<open>A setup that fails\<close>

lemma Provision_unreached:
  assumes "record_ok rec" "\<not> rd_busy rd" "rd_addr rd addr = addr" "rd_connect rd = Fails m"
  shows "\<exists>run. Provision rd True addr rec = (Inl (ConnectFailed m), run) \<and> cr_trace run = [] \<and>
    map pg_Phase (cr_progress run) = [PhaseConnecting]"
proof -
  have enc: "Encode rec = Inr (stream_of rec)" using assms(1) by (simp add: Encode_iff)
  obtain bg where "BeginCommand (length (stream_of rec)) = Inr bg" using Encode_stream(4) [OF enc] by blast
  then show ?thesis
    using assms(2-4) enc by (simp add: Provision_def recovered_def next_do_def of_wire_def enable_step_def give_def step_report_def
        report_def call_or_def no_run_def)
qed

definition home_issuer :: issuer where
  "home_issuer = \<lparr>is_random = Some (replicate 16 7), is_outcome = (Done, Done, Done, False), is_now = 0\<rparr>"

definition home_provisioner :: "radio \<Rightarrow> bleProvisioner" where
  "home_provisioner rd = SetTokenIssuer home_issuer (newBLEProvisioner '':8765'' [] plain_tables home_mac (Some home_ifaces) rd)\<lparr>bp_enabled := True\<rparr>"

definition home_token :: string where
  "home_token = hex_bytes (replicate 16 7)"

definition home_record :: Record where
  "home_record = \<lparr>R_SSID = ''Home'', R_Password = ''hunter2 hunter2'', R_Host = ''192.168.1.20'', R_Port = 8765,
     R_Token = home_token, R_OTAPass = []\<rparr>"

lemma home_record_ok: "record_ok home_record"
  unfolding validate_record_iff [symmetric] by code_simp

lemma home_issues:
  "addr \<noteq> [] \<Longrightarrow> pair_path p = [] \<Longrightarrow> issueDeviceToken (is_random home_issuer) (is_outcome home_issuer) (is_now home_issuer) addr nm p fs =
     ((p\<lparr>pair_devices := AList.update addr \<lparr>pd_ID = addr, pd_Name = nm, pd_Token = home_token, pd_IssuedAt = to_unix 0, pd_Peer = ''ble''\<rparr>
        (pair_devices p)\<rparr>, fs), Issued home_token)"
  by (simp add: issueDeviceToken_def home_issuer_def newDeviceToken_def home_token_def persistLocked_def Let_def)

lemma home_progress:
  assumes "addr \<noteq> []" "pair_path p = []"
  shows "ProvisionProgress (home_provisioner rd) addr (p, fs) =
    (send_record (home_provisioner rd) addr home_record,
     (p\<lparr>pair_devices := AList.update addr \<lparr>pd_ID = addr, pd_Name = [], pd_Token = home_token, pd_IssuedAt = to_unix 0, pd_Peer = ''ble''\<rparr>
        (pair_devices p)\<rparr>, fs))"
  using Gather_home home_issues [OF assms, of "[]" fs]
  by (simp add: ProvisionProgress_def home_provisioner_def SetTokenIssuer_def newBLEProvisioner_def ble_otaPass_def deviceIdentity_def
      home_credentials_def home_record_def Let_def home_options_def)


definition paired_once :: pairing where
  "paired_once = \<lparr>pair_devices = [(''aa'', \<lparr>pd_ID = ''aa'', pd_Name = [], pd_Token = ''old token'', pd_IssuedAt = 0, pd_Peer = ''ble''\<rparr>)],
     pair_path = []\<rparr>"



end
