(* ===== verification/Once.thy ===== *)
theory Once
  imports Format Sched
begin

text \<open>
  cmd/usaged/once.go: the fetchers that a configuration gives, and \<open>usaged once\<close>, which polls with them
  and prints the snapshot.  The network, the commands, the key store, the files and the clock are the
  parameters of \<open>outside\<close>; the marshalling of the JSON output is left out.
\<close>

subsection \<open>What is outside\<close>

text \<open>
  A directory argument is the fixtures directory, empty in live mode; \<open>ot_run\<close> and \<open>ot_api\<close> are then the
  fixture runner and transport.  \<open>ot_file\<close> is content and modification time of the statusline file.
\<close>

record outside =
  ot_run :: "string \<Rightarrow> runner"
  ot_api :: "string \<Rightarrow> api"
  ot_env :: "string \<Rightarrow> string"
  ot_user :: "(string \<times> string) option"
  ot_clock :: int
  ot_loc :: location
  ot_keys :: "string \<Rightarrow> string option"
  ot_file :: "string \<Rightarrow> string option \<times> int option"
  ot_date :: "string \<Rightarrow> int option"
  ot_upper :: "string \<Rightarrow> string"
  ot_keychain :: "string \<Rightarrow> keychainJSON option"
  ot_claude :: "string \<Rightarrow> claudeUsageResponse option"
  ot_statusline :: "string \<Rightarrow> statuslineData option"
  ot_home :: "string option"
  ot_files :: "string \<Rightarrow> string option"
  ot_auth :: "string \<Rightarrow> codexAuthJSON option"
  ot_claims :: "string \<Rightarrow> codexClaims option"
  ot_codex :: "string \<Rightarrow> codexUsageResponse option"
  ot_float :: "string \<Rightarrow> rat option"
  ot_credits :: "string \<Rightarrow> openrouterCreditsResponse option"
  ot_orkey :: "string \<Rightarrow> openrouterKeyResponse option"
  ot_opencode :: "string \<Rightarrow> opencodeUsageResponse option"

subsection \<open>Fetchers\<close>

definition providerEnabled :: "config \<Rightarrow> string \<Rightarrow> bool" where
  "providerEnabled c i =
     (case map_of (rev (map (\<lambda>e. (ep_ID e, ep_Enabled e)) (EffectiveProviders c))) i of Some v \<Rightarrow> v | None \<Rightarrow> True)"

definition static_Fetch :: "string \<Rightarrow> string \<Rightarrow> string \<Rightarrow> int \<Rightarrow> provider \<times> fetch_outcome" where
  "static_Fetch i label msg now =
     (\<lparr>prov_ID = i, prov_Label = label, prov_Plan = [], prov_Kind = [], prov_Severity = [], prov_Status = ''off'',
       prov_Msg = msg, prov_FetchedAt = to_unix now, prov_Rows = []\<rparr>, no_cooldown)"

definition claudeUsername :: "outside \<Rightarrow> string" where
  "claudeUsername ot = (case ot_user ot of Some (name, _) \<Rightarrow> if name \<noteq> [] then name else ot_env ot ''USER'' | None \<Rightarrow> ot_env ot ''USER'')"

definition expandHomePath :: "string \<Rightarrow> string \<Rightarrow> string" where
  "expandHomePath home path =
     (if home \<noteq> [] then replace_all ''$HOME'' home (replace_all ''~'' home path) else path)"

definition claudeStatuslinePath :: "outside \<Rightarrow> string" where
  "claudeStatuslinePath ot =
     (if ot_env ot ''USAGED_FIXTURES'' \<noteq> [] \<or> ot_env ot ''FIXTURES'' \<noteq> [] then []
      else (let home = ot_env ot ''HOME'';
                home = (if home = [] then (case ot_user ot of Some (_, h) \<Rightarrow> h | None \<Rightarrow> []) else home) in
        expandHomePath home ''.local/state/ai-usage/claude-statusline.json''))"

text \<open>The key of the configuration, else the one of the key store.\<close>

definition key_or_stored :: "outside \<Rightarrow> string \<Rightarrow> string \<Rightarrow> string" where
  "key_or_stored ot key i = (if key = [] then (case ot_keys ot i of Some k \<Rightarrow> k | None \<Rightarrow> []) else key)"

definition once_alerts :: "config \<Rightarrow> Alerts" where
  "once_alerts c = \<lparr>Warn5hPct = cf_AlertQuotaWarn5hPct c, WarnWeeklyPct = cf_AlertQuotaWarnWeeklyPct c\<rparr>"

definition oauth_fetcher :: "outside \<Rightarrow> config \<Rightarrow> int \<Rightarrow> provider \<times> fetch_outcome" where
  "oauth_fetcher ot c now = fst (claude_Fetch
     \<lparr>cw_run = ot_run ot (cf_FixturesDir c), cw_clock = ot_clock ot, cw_keychain = ot_keychain ot, cw_api = ot_api ot (cf_FixturesDir c),
      cw_decode = ot_claude ot, cw_date = ot_date ot, cw_upper = ot_upper ot\<rparr>
     \<lparr>cp_username = claudeUsername ot, cp_loc = ot_loc ot, cp_ua = [], cp_uaSet = False, cp_alerts = once_alerts c\<rparr> now)"

definition statusline_fetcher :: "outside \<Rightarrow> config \<Rightarrow> bool \<Rightarrow> int \<Rightarrow> provider \<times> fetch_outcome" where
  "statusline_fetcher ot c oauth now =
     (let path = claudeStatuslinePath ot in
      statusline_Fetch path (if oauth then Some (oauth_fetcher ot c now) else None) (ot_loc ot) (once_alerts c)
        (fst (ot_file ot path)) (snd (ot_file ot path)) (ot_statusline ot) now)"

definition codex_fetcher :: "outside \<Rightarrow> config \<Rightarrow> int \<Rightarrow> provider \<times> fetch_outcome" where
  "codex_fetcher ot c now = codex_Fetch
     \<lparr>xw_home = ot_home ot, xw_files = ot_files ot, xw_clock = ot_clock ot, xw_auth = ot_auth ot, xw_claims = ot_claims ot,
      xw_api = ot_api ot (cf_FixturesDir c), xw_decode = ot_codex ot, xw_date = ot_date ot, xw_float = ot_float ot\<rparr>
     \<lparr>xp_authPath = (if cf_FixturesDir c \<noteq> [] then cf_FixturesDir c @ ''/codex_auth.json'' else []), xp_loc = ot_loc ot,
      xp_alerts = once_alerts c\<rparr> now"

definition claude_fetchers :: "outside \<Rightarrow> config \<Rightarrow> fetcher list" where
  "claude_fetchers ot c =
     (if \<not> providerEnabled c ProviderClaude then []
      else [(ProviderClaude,
        if cf_ClaudeSource c = ''statusline'' then statusline_fetcher ot c False
        else if cf_ClaudeSource c = ''oauth'' then oauth_fetcher ot c
        else statusline_fetcher ot c True)])"

definition openrouter_fetchers :: "outside \<Rightarrow> config \<Rightarrow> string \<Rightarrow> string \<Rightarrow> string \<Rightarrow> fetcher list" where
  "openrouter_fetchers ot c i label orKey =
     (if \<not> providerEnabled c i then []
      else (let key = key_or_stored ot (case map_of (cf_OpenRouterKeys c) orKey of Some k \<Rightarrow> k | None \<Rightarrow> []) i in
        [(i, if key \<noteq> []
             then openrouter_Fetch (ot_api ot (cf_FixturesDir c)) (ot_credits ot) (ot_orkey ot)
               \<lparr>or_id = i, or_label = label, or_key = key, or_alerts = once_alerts c, or_lowUSD = cf_AlertOpenRouterLowUSD c\<rparr>
             else static_Fetch i label ''no key'')]))"

definition groq_fetchers :: "outside \<Rightarrow> config \<Rightarrow> fetcher list" where
  "groq_fetchers ot c =
     (if \<not> providerEnabled c ProviderGroq then []
      else (let key = key_or_stored ot (cf_GroqKey c) ProviderGroq in
        [(ProviderGroq, if key \<noteq> []
             then groq_Fetch (ot_api ot (cf_FixturesDir c)) \<lparr>gp_key = key, gp_probe = GroqProbeEnabled c, gp_alerts = once_alerts c\<rparr>
             else static_Fetch ''groq'' ''Groq'' ''no key'')]))"

definition opencode_fetchers :: "outside \<Rightarrow> config \<Rightarrow> fetcher list" where
  "opencode_fetchers ot c =
     (if \<not> providerEnabled c ProviderOpenCodeGo then []
      else (let key = key_or_stored ot (cf_OpenCodeKey c) ProviderOpenCodeGo in
        [(ProviderOpenCodeGo, if key \<noteq> []
             then opencode_Fetch (ot_api ot (cf_FixturesDir c)) (ot_opencode ot) \<lparr>op_key = key, op_loc = ot_loc ot, op_alerts = once_alerts c\<rparr>
             else static_Fetch ''opencode:go'' ''OpenCode Go'' ''no key'')]))"

definition buildFetchers :: "outside \<Rightarrow> config \<Rightarrow> fetcher list" where
  "buildFetchers ot c =
     claude_fetchers ot c @
     (if providerEnabled c ProviderCodex then [(ProviderCodex, codex_fetcher ot c)] else []) @
     openrouter_fetchers ot c ProviderOpenRouterMain ''OpenRouter main'' ''main'' @
     openrouter_fetchers ot c ProviderOpenRouterFbk ''OpenRouter fallback'' ''fallback'' @
     groq_fetchers ot c @ opencode_fetchers ot c"

subsection \<open>The fixtures directory\<close>

text \<open>A directory as its files; copying a scenario over it stops at the first file that cannot be copied.\<close>

type_synonym dir_files = "(string \<times> string) list"

fun overwriteCopyDir :: "(string \<times> bool \<times> string option) list \<Rightarrow> dir_files \<Rightarrow> dir_files \<times> bool" where
  "overwriteCopyDir [] dst = (dst, True)"
| "overwriteCopyDir ((name, isdir, data) # es) dst =
     (if isdir then overwriteCopyDir es dst
      else (case data of None \<Rightarrow> (dst, False) | Some d \<Rightarrow> overwriteCopyDir es (AList.update name d dst)))"

text \<open>\<open>tmp\<close>: the fresh directory, if it could be made; \<open>base\<close>: the fixtures, if they could be copied; the scenario, if it is there.\<close>

definition resolveFixturesDir ::
  "string option \<Rightarrow> dir_files option \<Rightarrow> (string \<times> bool \<times> string option) list option \<Rightarrow> config \<Rightarrow> string \<times> dir_files option"
where
  "resolveFixturesDir tmp base scenario c =
     (if cf_FixturesDir c = [] \<or> cf_Scenario c = [] then (cf_FixturesDir c, None)
      else (case tmp of None \<Rightarrow> (cf_FixturesDir c, None)
         | Some dir \<Rightarrow>
             (case base of None \<Rightarrow> (cf_FixturesDir c, None)
              | Some files \<Rightarrow> (dir, Some (case scenario of None \<Rightarrow> files | Some es \<Rightarrow> fst (overwriteCopyDir es files))))))"

subsection \<open>usaged once\<close>

fun state_flag_given :: "string list \<Rightarrow> bool" where
  "state_flag_given [] = False"
| "state_flag_given (a # as) = (a = ''--state'' \<and> as \<noteq> [] \<or> has_prefix a ''--state='' \<or> state_flag_given as)"

definition statePathForOnce :: "outside \<Rightarrow> string option \<Rightarrow> config \<Rightarrow> string list \<Rightarrow> string" where
  "statePathForOnce ot tmp c args =
     (if ot_env ot ''USAGED_STATE'' \<noteq> [] then cf_StatePath c
      else if state_flag_given args then cf_StatePath c
      else (case tmp of None \<Rightarrow> cf_StatePath c | Some path \<Rightarrow> path))"

fun exit_code_of :: "provider list \<Rightarrow> int" where
  "exit_code_of [] = 0"
| "exit_code_of (p # ps) = (if prov_Status p = ''auth'' \<or> prov_Status p = ''error'' then 3 else exit_code_of ps)"

definition exitCode :: "snapshot \<Rightarrow> int" where
  "exitCode s = exit_code_of (snap_Providers s)"

text \<open>What goes to the standard output: a table, or the snapshot to be marshalled.\<close>

datatype once_output = ErrorText config_error | TableText string | JSONSnapshot snapshot

definition once_sched :: "outside \<Rightarrow> string \<Rightarrow> string option \<Rightarrow> config \<Rightarrow> string list \<Rightarrow> 'i \<Rightarrow> ('i, 'r) sched" where
  "once_sched ot dir tmp c args no_index =
     (NewScheduler no_index (buildFetchers ot (c\<lparr>cf_FixturesDir := dir\<rparr>)) (cf_Interval c) (statePathForOnce ot tmp c args))
       \<lparr>sch_PublishURL := cf_PublishURL c, sch_PublishToken := cf_PublishToken c, sch_StatsConfigured := (cf_ClaudeDir c \<noteq> [] \<or> cf_CodexDir c \<noteq> [])\<rparr>"

definition once_snapshot :: "outside \<Rightarrow> string \<Rightarrow> string option \<Rightarrow> config \<Rightarrow> string list \<Rightarrow> int \<Rightarrow> snapshot" where
  "once_snapshot ot dir tmp c args now =
     (Current (fst (pollOnce (ot_loc ot) (\<lambda>i. (i, None)) now (once_sched ot dir tmp c args () :: (unit, unit) sched))))
       \<lparr>snap_NextSec := interval_seconds (cf_Interval c)\<rparr>"

definition runOnce :: "outside \<Rightarrow> string \<Rightarrow> string option \<Rightarrow> config_error + config \<Rightarrow> string list \<Rightarrow> int \<Rightarrow> int \<times> once_output" where
  "runOnce ot dir tmp loaded args now =
     (case loaded of
        Inl e \<Rightarrow> (2, ErrorText e)
      | Inr c \<Rightarrow>
          (let snap = once_snapshot ot dir tmp c args now in
           if cf_JSONOutput c then (0, JSONSnapshot snap) else (exitCode snap, TableText (RenderTable snap (ot_loc ot)))))"

subsection \<open>The fetchers are the enabled providers\<close>

lemma ep_ID_effective: "ep_ID (effective d e) = yp_ID d"
  by (auto simp: effective_def Let_def split: option.splits)

lemma effective_ids: "map ep_ID (EffectiveProviders c) = DefaultProviderOrder"
  by (simp add: EffectiveProviders_def ep_ID_effective o_def DefaultProviders_def DefaultProviderOrder_def)

lemma distinct_order: "distinct DefaultProviderOrder"
  by code_simp

lemma enabled_effective: "e \<in> set (EffectiveProviders c) \<Longrightarrow> providerEnabled c (ep_ID e) = ep_Enabled e"
proof -
  let ?m = "rev (map (\<lambda>e. (ep_ID e, ep_Enabled e)) (EffectiveProviders c))"
  assume e: "e \<in> set (EffectiveProviders c)"
  have "distinct (map fst ?m)" using distinct_order effective_ids [of c] by (simp add: o_def rev_map [symmetric])
  moreover have "(ep_ID e, ep_Enabled e) \<in> set ?m" using e by simp
  ultimately have "map_of ?m (ep_ID e) = Some (ep_Enabled e)" by (rule map_of_is_SomeI)
  then show ?thesis by (simp add: providerEnabled_def)
qed

lemma fetcher_ids: "map fst (buildFetchers ot c) = filter (providerEnabled c) DefaultProviderOrder"
  by (simp add: buildFetchers_def claude_fetchers_def openrouter_fetchers_def groq_fetchers_def opencode_fetchers_def
      DefaultProviderOrder_def Let_def)

lemma distinct_fetchers: "distinct (map fst (buildFetchers ot c))"
  unfolding fetcher_ids by (simp add: distinct_order)

subsection \<open>The blocks of the fetchers\<close>

lemma claude_id: "prov_ID (fst (fst (claude_Fetch w p now))) = ProviderClaude"
  by (simp add: claude_Fetch_def claude_answer_def claudeBlock_def Let_def ProviderClaude_def split: prod.split option.split sum.split)

lemma statusline_id: "(\<And>r. fb = Some r \<Longrightarrow> prov_ID (fst r) = ProviderClaude) \<Longrightarrow>
    prov_ID (fst (statusline_Fetch src fb loc alerts data modified dec now)) = ProviderClaude"
  by (cases fb) (auto simp: statusline_Fetch_def claudeBlock_def Let_def ProviderClaude_def split: option.split)

lemma codex_id: "prov_ID (fst (codex_Fetch w p now)) = ProviderCodex"
  by (simp add: codex_Fetch_def codex_answer_def codexBlock_def Let_def ProviderCodex_def split: prod.split option.split sum.split)

lemma groq_id: "prov_ID (fst (groq_Fetch call p now)) = ProviderGroq"
  by (simp add: groq_Fetch_def groq_block_def Let_def ProviderGroq_def split: sum.split)

lemma opencode_id: "prov_ID (fst (opencode_Fetch call d p now)) = ProviderOpenCodeGo"
  by (simp add: opencode_Fetch_def opencode_block_def Let_def ProviderOpenCodeGo_def split: sum.split option.split)

lemma openrouter_id: "prov_ID (fst (openrouter_Fetch call dc dk p now)) = or_id p"
  by (auto simp: openrouter_Fetch_def openrouter_block_def low_balance_def Let_def split: sum.split option.split prod.split)

lemma static_id: "prov_ID (fst (static_Fetch i l m now)) = i"
  by (simp add: static_Fetch_def)

lemma static_not_ok: "\<not> provider_ok (fst (static_Fetch i l m now))"
  by (simp add: static_Fetch_def provider_ok_def validKinds_def)

text \<open>Figures of the services within the widths of the rows.\<close>

definition outside_fits :: "outside \<Rightarrow> config \<Rightarrow> bool" where
  "outside_fits ot c \<longleftrightarrow> three_digit (ot_api ot (cf_FixturesDir c)) \<and>
     (\<forall>s b. ot_codex ot s = Some b \<longrightarrow> codex_figures_fit (ot_float ot) b) \<and>
     (\<forall>m u hs b r. ot_api ot (cf_FixturesDir c) m u hs b = Inr r \<longrightarrow> groq_figures_fit (resp_Header r)) \<and>
     (\<forall>s cr. ot_credits ot s = Some cr \<longrightarrow> credits_fit cr) \<and> (\<forall>s kr. ot_orkey ot s = Some kr \<longrightarrow> key_fits kr)"

text \<open>The key that is used for a provider.\<close>

definition key_in_use :: "outside \<Rightarrow> config \<Rightarrow> string \<Rightarrow> string" where
  "key_in_use ot c i = key_or_stored ot
     (if i = ProviderOpenRouterMain then (case map_of (cf_OpenRouterKeys c) ''main'' of Some k \<Rightarrow> k | None \<Rightarrow> [])
      else if i = ProviderOpenRouterFbk then (case map_of (cf_OpenRouterKeys c) ''fallback'' of Some k \<Rightarrow> k | None \<Rightarrow> [])
      else if i = ProviderGroq then cf_GroqKey c else cf_OpenCodeKey c) i"

definition keyless :: "outside \<Rightarrow> config \<Rightarrow> string \<Rightarrow> bool" where
  "keyless ot c i \<longleftrightarrow> i \<in> set [ProviderOpenRouterMain, ProviderOpenRouterFbk, ProviderGroq, ProviderOpenCodeGo] \<and> key_in_use ot c i = []"

lemma statusline_fetcher_ok:
  assumes "outside_fits ot c"
  shows "provider_ok (fst (statusline_fetcher ot c b now)) \<and> prov_ID (fst (statusline_fetcher ot c b now)) = ProviderClaude"
    "provider_ok (fst (oauth_fetcher ot c now)) \<and> prov_ID (fst (oauth_fetcher ot c now)) = ProviderClaude"
proof -
  show o: "provider_ok (fst (oauth_fetcher ot c now)) \<and> prov_ID (fst (oauth_fetcher ot c now)) = ProviderClaude"
    using assms by (simp add: oauth_fetcher_def claude_id outside_fits_def claude_Fetch_ok)
  show "provider_ok (fst (statusline_fetcher ot c b now)) \<and> prov_ID (fst (statusline_fetcher ot c b now)) = ProviderClaude"
    unfolding statusline_fetcher_def Let_def using o
    by (auto intro!: statusline_Fetch_ok statusline_id split: if_splits)
qed

lemma fetcher_block:
  assumes "outside_fits ot c" "f \<in> set (buildFetchers ot c)"
  shows "prov_ID (fst (snd f now)) = fst f \<and> (if keyless ot c (fst f) then snd f now = static_Fetch (fst f) (prov_Label (fst (snd f now))) ''no key'' now
      else provider_ok (fst (snd f now)))"
proof -
  consider "f \<in> set (claude_fetchers ot c)" | "f = (ProviderCodex, codex_fetcher ot c)"
    | "f \<in> set (openrouter_fetchers ot c ProviderOpenRouterMain ''OpenRouter main'' ''main'')"
    | "f \<in> set (openrouter_fetchers ot c ProviderOpenRouterFbk ''OpenRouter fallback'' ''fallback'')"
    | "f \<in> set (groq_fetchers ot c)" | "f \<in> set (opencode_fetchers ot c)"
    using assms(2) by (auto simp: buildFetchers_def split: if_splits)
  then show ?thesis
  proof cases
    case 1
    then show ?thesis using statusline_fetcher_ok [OF assms(1)]
      by (auto simp: claude_fetchers_def keyless_def provider_id_defs split: if_splits)
  next
    case 2
    then show ?thesis using assms(1)
      by (auto simp: codex_fetcher_def codex_id keyless_def provider_id_defs outside_fits_def intro!: codex_Fetch_ok)
  next
    case 3
    then show ?thesis using assms(1)
      by (auto simp: openrouter_fetchers_def Let_def openrouter_id keyless_def key_in_use_def static_id static_Fetch_def outside_fits_def
          ProviderOpenRouterMain_def intro!: openrouter_Fetch_ok split: if_splits)
  next
    case 4
    then show ?thesis using assms(1)
      by (auto simp: openrouter_fetchers_def Let_def openrouter_id keyless_def key_in_use_def static_id static_Fetch_def outside_fits_def
          ProviderOpenRouterMain_def ProviderOpenRouterFbk_def intro!: openrouter_Fetch_ok split: if_splits)
  next
    case 5
    then show ?thesis using assms(1)
      by (auto simp: groq_fetchers_def Let_def groq_id keyless_def key_in_use_def static_Fetch_def outside_fits_def
          provider_id_defs intro!: groq_Fetch_ok split: if_splits)
  next
    case 6
    then show ?thesis using assms(1)
      by (auto simp: opencode_fetchers_def Let_def opencode_id keyless_def key_in_use_def static_Fetch_def outside_fits_def
          provider_id_defs intro!: opencode_Fetch_ok split: if_splits)
  qed
qed

subsection \<open>The snapshot\<close>

lemma first_result:
  assumes "0 \<le> to_unix now"
  shows "result_done loc interval now empty_state f = age_stale interval now (fst (snd f now))"
  using leD [OF assms] by (simp add: result_done_def decide_def cooldown_of_def empty_state_def Let_def split: prod.splits)

lemma poll_valid_iff:
  assumes "sch_State s = empty_state" "distinct (map fst (sch_Fetchers s))" "0 \<le> to_unix now"
    "\<And>f. f \<in> set (sch_Fetchers s) \<Longrightarrow> prov_ID (fst (snd f now)) = fst f \<and> prov_Status (fst (snd f now)) \<in> set validStatuses"
  shows "Validate (Current (fst (pollOnce loc scan now s))) = Inr () \<longleftrightarrow> (\<forall>f \<in> set (sch_Fetchers s). provider_ok (fst (snd f now)))"
    and "prov_ID ` set (snap_Providers (Current (fst (pollOnce loc scan now s)))) = fst ` set (sch_Fetchers s)"
    and "snap_V (Current (fst (pollOnce loc scan now s))) = 1"
proof -
  let ?b = "poll_blocks loc now s"
  have b: "?b = map (\<lambda>f. age_stale (sch_Interval s) now (fst (snd f now))) (sch_Fetchers s)"
    by (simp add: poll_blocks_def assms(1) first_result [OF assms(3)])
  have ids: "map prov_ID ?b = map fst (sch_Fetchers s)" using assms(4) by (simp add: b)
  have age: "provider_ok (age_stale interval now p) = provider_ok p" if "prov_Status p \<in> set validStatuses" for interval p
    using that by (auto simp: age_stale_def provider_ok_def validStatuses_def)
  show "prov_ID ` set (snap_Providers (Current (fst (pollOnce loc scan now s)))) = fst ` set (sch_Fetchers s)"
    using arg_cong [OF ids, of set] by (simp add: pollOnce_Current [OF assms(2)])
  have "distinct (map prov_ID ?b)" unfolding ids by (rule assms(2))
  then have "Validate (Current (fst (pollOnce loc scan now s))) = Inr () \<longleftrightarrow> (\<forall>p \<in> set ?b. provider_ok p)"
    by (simp add: Validate_iff snapshot_ok_def pollOnce_Current [OF assms(2)] distinct_ids_orderProviders)
  also have "\<dots> \<longleftrightarrow> (\<forall>f \<in> set (sch_Fetchers s). provider_ok (fst (snd f now)))"
    using assms(4) age by (simp add: b)
  finally show "Validate (Current (fst (pollOnce loc scan now s))) = Inr () \<longleftrightarrow> (\<forall>f \<in> set (sch_Fetchers s). provider_ok (fst (snd f now)))" .
  show "snap_V (Current (fst (pollOnce loc scan now s))) = 1" by (simp add: pollOnce_Current [OF assms(2)])
qed

lemma Validate_next_sec: "Validate (s\<lparr>snap_NextSec := n\<rparr>) = Inr () \<longleftrightarrow> Validate s = Inr ()"
  by (simp add: Validate_iff snapshot_ok_def)

lemma enabled_dir [simp]: "providerEnabled (c\<lparr>cf_FixturesDir := d\<rparr>) i = providerEnabled c i"
  by (simp add: providerEnabled_def EffectiveProviders_def)

lemma keyless_dir [simp]: "keyless ot (c\<lparr>cf_FixturesDir := d\<rparr>) i = keyless ot c i"
  by (simp add: keyless_def key_in_use_def)

lemma once_valid:
  assumes "outside_fits ot (c\<lparr>cf_FixturesDir := dir\<rparr>)" "0 \<le> to_unix now"
  shows "(Validate (once_snapshot ot dir tmp c args now) = Inr () \<longleftrightarrow>
      (\<forall>i \<in> set DefaultProviderOrder. providerEnabled c i \<longrightarrow> \<not> keyless ot c i)) \<and>
    prov_ID ` set (snap_Providers (once_snapshot ot dir tmp c args now)) = {i \<in> set DefaultProviderOrder. providerEnabled c i}"
proof -
  let ?c = "c\<lparr>cf_FixturesDir := dir\<rparr>"
  let ?s = "once_sched ot dir tmp c args () :: (unit, unit) sched"
  have s: "sch_State ?s = empty_state" "sch_Fetchers ?s = buildFetchers ot ?c" by (simp_all add: once_sched_def NewScheduler_def)
  note blk = fetcher_block [OF assms(1)]
  have f: "prov_ID (fst (snd f now)) = fst f \<and> prov_Status (fst (snd f now)) \<in> set validStatuses \<and>
      (provider_ok (fst (snd f now)) \<longleftrightarrow> \<not> keyless ot c (fst f))" if "f \<in> set (buildFetchers ot ?c)" for f
  proof (cases "keyless ot c (fst f)")
    case True
    then have st: "snd f now = static_Fetch (fst f) (prov_Label (fst (snd f now))) ''no key'' now" using blk [OF that, of now] by simp
    have "prov_Status (fst (snd f now)) \<in> set validStatuses" by (subst st) (simp add: static_Fetch_def validStatuses_def)
    moreover have "\<not> provider_ok (fst (snd f now))" by (subst st) (rule static_not_ok)
    ultimately show ?thesis using blk [OF that, of now] True by simp
  next
    case False
    then have "provider_ok (fst (snd f now))" "prov_ID (fst (snd f now)) = fst f" using blk [OF that, of now] by simp_all
    moreover have "prov_Status (fst (snd f now)) \<in> set validStatuses" using calculation(1) by (simp add: provider_ok_def)
    ultimately show ?thesis using False by simp
  qed
  note v = poll_valid_iff [of ?s now "ot_loc ot" "\<lambda>i. (i, None)", unfolded s, OF refl distinct_fetchers assms(2)]
  have ids: "fst ` set (buildFetchers ot ?c) = {i \<in> set DefaultProviderOrder. providerEnabled c i}"
    using arg_cong [OF fetcher_ids [of ot ?c], of set] by simp
  have "Validate (once_snapshot ot dir tmp c args now) = Inr () \<longleftrightarrow> (\<forall>g \<in> set (buildFetchers ot ?c). \<not> keyless ot c (fst g))"
    unfolding once_snapshot_def Validate_next_sec using v(1) f by simp
  also have "\<dots> \<longleftrightarrow> (\<forall>i \<in> fst ` set (buildFetchers ot ?c). \<not> keyless ot c i)" by blast
  finally have "Validate (once_snapshot ot dir tmp c args now) = Inr () \<longleftrightarrow>
      (\<forall>i \<in> set DefaultProviderOrder. providerEnabled c i \<longrightarrow> \<not> keyless ot c i)" unfolding ids by blast
  moreover have "prov_ID ` set (snap_Providers (once_snapshot ot dir tmp c args now)) = fst ` set (buildFetchers ot ?c)"
    using v(2) f by (simp add: once_snapshot_def)
  ultimately show ?thesis unfolding ids by blast
qed


text \<open>A Mac without network and without keys.\<close>

definition offline :: outside where
  "offline = \<lparr>ot_run = \<lambda>_ _ _. ([], [], Some ''x''), ot_api = \<lambda>_ _ _ _ _. Inl NetworkError, ot_env = \<lambda>_. [], ot_user = None,
     ot_clock = 0, ot_loc = \<lambda>_. 0, ot_keys = \<lambda>_. None, ot_file = \<lambda>_. (None, None), ot_date = \<lambda>_. None, ot_upper = id,
     ot_keychain = \<lambda>_. None, ot_claude = \<lambda>_. None, ot_statusline = \<lambda>_. None, ot_home = None, ot_files = \<lambda>_. None, ot_auth = \<lambda>_. None,
     ot_claims = \<lambda>_. None, ot_codex = \<lambda>_. None, ot_float = \<lambda>_. None, ot_credits = \<lambda>_. None, ot_orkey = \<lambda>_. None, ot_opencode = \<lambda>_. None\<rparr>"

lemma offline_fits: "outside_fits offline c"
  by (simp add: outside_fits_def offline_def three_digit_def)



subsection \<open>The statusline file\<close>

lemma expand_no_home: "\<not> str_contains path ''~'' \<Longrightarrow> \<not> str_contains path ''$HOME'' \<Longrightarrow> expandHomePath home path = path"
  by (simp add: expandHomePath_def replace_all_none)

lemma claudeStatuslinePath_relative:
  "claudeStatuslinePath ot \<in> {[], ''.local/state/ai-usage/claude-statusline.json''}"
proof -
  have "expandHomePath h ''.local/state/ai-usage/claude-statusline.json'' = ''.local/state/ai-usage/claude-statusline.json''" for h
    by (rule expand_no_home; code_simp)
  then show ?thesis by (simp add: claudeStatuslinePath_def Let_def)
qed

lemma file_irrelevant:
  "claudeStatuslinePath (ot\<lparr>ot_file := f\<rparr>) = claudeStatuslinePath ot" "claudeUsername (ot\<lparr>ot_file := f\<rparr>) = claudeUsername ot"
  by (simp_all add: claudeStatuslinePath_def claudeUsername_def Let_def cong: option.case_cong if_cong)

text \<open>
  The statusline source looks for its file relative to the working directory of the process: the path
  contains neither \<open>~\<close> nor \<open>$HOME\<close>, so the expansion that should make it absolute changes nothing, and no
  file with an absolute path, that of the home directory included, has an influence on the block.
\<close>

theorem statusline_needs_cwd:
  assumes "has_prefix p ''/''"
  shows "statusline_fetcher (ot\<lparr>ot_file := (ot_file ot)(p := x)\<rparr>) c fallback now = statusline_fetcher ot c fallback now"
proof -
  have "p \<noteq> claudeStatuslinePath ot"
    using assms claudeStatuslinePath_relative [of ot] by (auto simp: has_prefix_def)
  then show ?thesis
    by (simp add: statusline_fetcher_def oauth_fetcher_def Let_def file_irrelevant)
qed

text \<open>A good file in the home directory is not found.\<close>

theorem statusline_needs_cwd_witness:
  "prov_Status (fst (statusline_fetcher (offline\<lparr>ot_file := (ot_file offline)(''/Users/me/.local/state/ai-usage/claude-statusline.json'' := (Some ''{}'', Some 0))\<rparr>)
     (default_config (\<lambda>_. True)) False 0)) = ''error''"
  by (subst statusline_needs_cwd) code_simp+

end
