(* ===== verification/Go_Path.thy ===== *)
theory Go_Path
  imports Go_Net
begin

text \<open>
  The functions of the packages \<open>path\<close> and \<open>path/filepath\<close> that the sources call, on Unix paths, and the
  choice \<open>http.ServeMux\<close> makes among patterns without wildcards.
\<close>

subsection \<open>Paths\<close>

text \<open>The elements kept so far come in reverse order.\<close>

fun clean_elems :: "bool \<Rightarrow> string list \<Rightarrow> string list \<Rightarrow> string list" where
  "clean_elems rooted kept [] = rev kept"
| "clean_elems rooted kept (e # es) =
     (if e = [] \<or> e = ''.'' then clean_elems rooted kept es
      else if e = ''..'' then
        (if kept \<noteq> [] \<and> hd kept \<noteq> ''..'' then clean_elems rooted (tl kept) es
         else if rooted then clean_elems rooted kept es
         else clean_elems rooted (e # kept) es)
      else clean_elems rooted (e # kept) es)"

definition path_clean :: "string \<Rightarrow> string" where
  "path_clean p =
     (if p = [] then ''.''
      else (let rooted = hd p = CHR ''/''; body = join_char (CHR ''/'') (clean_elems rooted [] (split_char (CHR ''/'') p)) in
        if rooted then CHR ''/'' # body else if body = [] then ''.'' else body))"

definition path_dir :: "string \<Rightarrow> string" where
  "path_dir p = path_clean (case last_index (CHR ''/'') p of None \<Rightarrow> [] | Some i \<Rightarrow> take (Suc i) p)"

definition path_join :: "string list \<Rightarrow> string" where
  "path_join es = (let es = filter (\<lambda>e. e \<noteq> []) es in if es = [] then [] else path_clean (join_char (CHR ''/'') es))"

subsection \<open>The multiplexer\<close>

text \<open>\<open>ServeMux\<close> redirects a request to its clean path, which keeps a slash at the end.\<close>

definition mux_path :: "string \<Rightarrow> string" where
  "mux_path p =
     (if p = [] then ''/''
      else (let p = (if hd p = CHR ''/'' then p else CHR ''/'' # p); np = path_clean p in
        if last p = CHR ''/'' \<and> np \<noteq> ''/'' then np @ ''/'' else np))"

type_synonym 'r pattern = "string option \<times> string \<times> 'r"

definition method_matches :: "string option \<Rightarrow> string \<Rightarrow> bool" where
  "method_matches pm m = (case pm of None \<Rightarrow> True | Some g \<Rightarrow> g = m \<or> (g = ''GET'' \<and> m = ''HEAD''))"

definition pattern_matches :: "string \<Rightarrow> string \<Rightarrow> 'r pattern \<Rightarrow> bool" where
  "pattern_matches m p = (\<lambda>(pm, pp, _). method_matches pm m \<and>
     (p = pp \<or> pp \<noteq> [] \<and> last pp = CHR ''/'' \<and> has_prefix p pp))"

text \<open>The more specific pattern: a longer path, or the same path with a method.\<close>

definition more_specific :: "'r pattern \<Rightarrow> 'r pattern \<Rightarrow> bool" where
  "more_specific = (\<lambda>(am, ap, _) (bm, bp, _).
     length ap > length bp \<or> length ap = length bp \<and> am \<noteq> None \<and> bm = None)"

fun most_specific :: "'r pattern option \<Rightarrow> 'r pattern list \<Rightarrow> 'r pattern option" where
  "most_specific best [] = best"
| "most_specific best (q # qs) =
     most_specific (case best of None \<Rightarrow> Some q | Some b \<Rightarrow> if more_specific q b then Some q else best) qs"

definition mux_route :: "'r pattern list \<Rightarrow> string \<Rightarrow> string \<Rightarrow> 'r option" where
  "mux_route ps m p = map_option (\<lambda>(_, _, r). r) (most_specific None (filter (pattern_matches m p) ps))"

end
