(* ===== verification/Api_Server.thy ===== *)
theory Api_Server
  imports Api_Setup_Run Api_Tracker Advise Format Stats_Scan Go_Path
begin

text \<open>
  internal/api/server.go: the server as a whole.  \<open>agent\<close> is all that one request can read or change,
  \<open>ServeHTTP\<close> the handler \<open>New\<close> builds: the token check, the multiplexer and the handler of the route.
  The marshalling of the replies is left out; a request path is one that needs no percent escapes.
\<close>

subsection \<open>Routes\<close>

datatype route =
    Index | Healthz | AdviseRoute | UsageRoute | UsageTxt | DeviceRoute | StatsRoute | RefreshRoute
  | GetConfig | PutConfig | PutInterval | SetKey | DeleteKey
  | SetupStatus | SetupStop | SetupScan | SetupProvision | Otherwise

definition setup_routes :: "route pattern list" where
  "setup_routes =
     [(Some ''GET'', ''/v1/setup'', SetupStatus), (Some ''DELETE'', ''/v1/setup'', SetupStop),
      (Some ''POST'', ''/v1/setup/scan'', SetupScan), (Some ''POST'', ''/v1/setup/provision'', SetupProvision)]"

definition routes :: "route pattern list" where
  "routes =
     [(Some ''GET'', ''/'', Index), (Some ''GET'', ''/index.html'', Index), (Some ''GET'', ''/healthz'', Healthz),
      (Some ''GET'', ''/v1/advise'', AdviseRoute), (Some ''GET'', ''/v1/usage'', UsageRoute),
      (Some ''GET'', ''/v1/usage.txt'', UsageTxt), (Some ''GET'', ''/v1/device'', DeviceRoute),
      (Some ''GET'', ''/v1/stats'', StatsRoute), (Some ''POST'', ''/v1/refresh'', RefreshRoute),
      (Some ''GET'', ''/v1/config'', GetConfig), (Some ''PUT'', ''/v1/config'', PutConfig),
      (Some ''PUT'', ''/v1/config/interval'', PutInterval), (Some ''POST'', ''/v1/keys'', SetKey),
      (Some ''DELETE'', ''/v1/keys'', DeleteKey)] @ setup_routes @ [(None, ''/'', Otherwise)]"

definition route_of :: "string \<Rightarrow> string \<Rightarrow> route" where
  "route_of m p = (case mux_route routes m p of None \<Rightarrow> Otherwise | Some r \<Rightarrow> r)"

subsection \<open>The state\<close>

record ('i, 'k) agent =
  ag_server :: "('i, report) server"
  ag_configured :: string
  ag_limit :: rateLimiter
  ag_pairing :: pairing
  ag_setup :: setupState
  ag_jobs :: "job list"
  ag_tracker :: clientTracker
  ag_keys :: 'k
  ag_files :: "string fs"
  ag_effects :: "('i, report) effect list"
  ag_polls :: nat
  ag_version :: string
  ag_commit :: string
  ag_start :: int

definition pairedDevicesPath :: "string \<Rightarrow> string" where
  "pairedDevicesPath statePath = (if statePath = [] then [] else path_join [path_dir statePath, ''devices.json''])"

text \<open>\<open>New\<close>; the left result is the listen address \<open>refuseStartError\<close> quotes.\<close>

definition New ::
  "('i, report) sched \<Rightarrow> config \<Rightarrow> string \<Rightarrow> bool \<Rightarrow> 'k \<Rightarrow> string fs \<Rightarrow> device_fs \<Rightarrow> string \<Rightarrow> string \<Rightarrow> int \<Rightarrow> string + ('i, 'k) agent"
where
  "New s cfg configPath prov keys files devs version commit now =
     (if refuses_start (cf_Listen cfg) (cf_DeviceToken cfg) then Inl (cf_Listen cfg)
      else Inr \<lparr>ag_server = \<lparr>sv_cfg = cfg, sv_configPath = configPath, sv_sched = s\<rparr>, ag_configured = cf_DeviceToken cfg,
        ag_limit = newRateLimiter 5 Minute, ag_pairing = newPairing (pairedDevicesPath (cf_StatePath cfg)) devs,
        ag_setup = newSetup prov, ag_jobs = [], ag_tracker = [], ag_keys = keys, ag_files = files, ag_effects = [],
        ag_polls = 0, ag_version = version, ag_commit = commit, ag_start = now\<rparr>)"

text \<open>The request, and what is outside while it is served: the clock, the zones, whether a poll is
  running, the key store, the builder of the fetchers, the decoded bodies and the outcome of system calls.\<close>

record http_request =
  hr_head :: request
  hr_UserAgent :: string
  hr_IfNoneMatch :: string
  hr_otaArmed :: string
  hr_id :: string

text \<open>\<open>pt_read\<close>: the file could be read, or there is none; \<open>pt_left\<close>: what a failing write leaves.\<close>

record persist_outcome =
  pt_read :: bool
  pt_mkdir :: bool
  pt_left :: "string contents option option"

record ('i, 'k) moment =
  mo_now :: int
  mo_zone :: "string \<Rightarrow> location"
  mo_polling :: bool
  mo_scan :: "'i \<Rightarrow> 'i \<times> report option"
  mo_getenv :: "string \<Rightarrow> string"
  mo_get :: "'k \<Rightarrow> string \<Rightarrow> string option"
  mo_set :: "'k \<Rightarrow> string \<Rightarrow> string \<Rightarrow> 'k option"
  mo_del :: "'k \<Rightarrow> string \<Rightarrow> 'k option"
  mo_build :: "('k \<Rightarrow> config \<Rightarrow> fetcher list) option"
  mo_put :: put_env
  mo_interval :: "int option"
  mo_persist :: persist_outcome
  mo_keybody :: "(string \<times> string) option"
  mo_raw :: "string option"
  mo_decode :: "string \<Rightarrow> string option"
  mo_network :: "(string \<times> bool) option"
  mo_orders :: orders

subsection \<open>Replies\<close>

record health =
  he_Seq :: int
  he_Rev :: string
  he_CheckedAt :: int
  he_UptimeSec :: int
  he_Version :: string
  he_Commit :: string

datatype http_reply =
    Refused nat
  | Redirected string
  | Dashboard
  | Health health
  | Advice "Advise.outcome"
  | Usage usage_reply
  | Table string
  | DeviceInfo "deviceState option"
  | StatsNotReady
  | StatsNotModified string
  | StatsBody string report
  | Refreshed nat snapshot
  | ConfigView config_answer
  | Settings settings_reply
  | KeyAnswer nat
  | SetupView "status_view \<times> (string \<times> bool) option"
  | SetupAnswer setup_reply
  | NotFound

text \<open>The code of the multiplexer's redirect differs between versions of Go and is left open.\<close>

fun status_of :: "http_reply \<Rightarrow> nat option" where
  "status_of (Refused c) = Some c"
| "status_of (Redirected _) = None"
| "status_of (Usage u) = Some (rp_status u)"
| "status_of StatsNotReady = Some 503"
| "status_of (StatsNotModified _) = Some 304"
| "status_of (Refreshed c _) = Some c"
| "status_of (Settings r) = (if r = NoReply then None else Some (settings_status r))"
| "status_of (KeyAnswer c) = Some c"
| "status_of (SetupAnswer r) = Some (setup_status_code r)"
| "status_of NotFound = Some 404"
| "status_of _ = Some 200"

subsection \<open>The reading handlers\<close>

definition withNextSec :: "config \<Rightarrow> snapshot \<Rightarrow> snapshot" where
  "withNextSec cfg snap = snap\<lparr>snap_NextSec := interval_seconds (cf_Interval cfg)\<rparr>"

definition peerIP :: "string \<Rightarrow> string" where
  "peerIP addr = (case SplitHostPort addr of None \<Rightarrow> addr | Some (host, _) \<Rightarrow> host)"

definition handleHealthz :: "int \<Rightarrow> ('i, 'k) agent \<Rightarrow> health" where
  "handleHealthz now ag =
     (let snap = Current (sv_sched (ag_server ag)) in
      \<lparr>he_Seq = snap_Seq snap, he_Rev = snap_Rev snap, he_CheckedAt = snap_CheckedAt snap,
       he_UptimeSec = trunc (duration_seconds (time_sub now (ag_start ag))),
       he_Version = ag_version ag, he_Commit = ag_commit ag\<rparr>)"

definition handleAdvise :: "int \<Rightarrow> snapshot \<Rightarrow> Advise.outcome" where
  "handleAdvise now snap = Rank (snap_Providers snap) now DefaultHorizon"

definition handleUsageTxt :: "(string \<Rightarrow> location) \<Rightarrow> config \<Rightarrow> snapshot \<Rightarrow> string" where
  "handleUsageTxt zone cfg snap = RenderTable (withNextSec cfg snap) (zone (cf_TZ cfg))"

definition handleDevice :: "int \<Rightarrow> clientTracker \<Rightarrow> deviceState option" where
  "handleDevice now t = device_state now t"

text \<open>\<open>%x\<close> of an \<open>int64\<close>.\<close>

fun show_hex :: "nat \<Rightarrow> string" where
  "show_hex n = (if n < 16 then [hex_char n] else show_hex (n div 16) @ [hex_char (n mod 16)])"

declare show_hex.simps [simp del]

definition hex_int :: "int \<Rightarrow> string" where
  "hex_int i = (if i < 0 then CHR ''-'' # show_hex (nat (- i)) else show_hex (nat i))"

definition plan_params :: "planConfig \<Rightarrow> planParams" where
  "plan_params p =
     \<lparr>pp_Cost = pc_Cost p, pp_Currency = pc_Currency p, pp_CostUSD = pc_CostUSD p, pp_HasCostUSD = pc_HasCostUSD p,
      pp_Label = pc_Label p\<rparr>"

definition stats_name :: "string \<Rightarrow> string" where
  "stats_name i = (if i = ''claude'' then ''claude_code'' else i)"

definition planParamsMap :: "config \<Rightarrow> (string \<times> planParams) list" where
  "planParamsMap cfg = fold (\<lambda>e m. case ep_Plan e of None \<Rightarrow> m
     | Some p \<Rightarrow> AList.update (stats_name (ep_ID e)) (plan_params p) m) (EffectiveProviders cfg) []"

text \<open>
  \<open>CurrentStats\<close> copies the report but not the map of its sources, so the plan values are written into
  the report the scheduler holds; the sum of the plans goes into the copy only.
\<close>

definition handleStats ::
  "orders \<Rightarrow> string \<Rightarrow> config \<Rightarrow> ('i, report) sched \<Rightarrow> ('i, report) sched \<times> http_reply" where
  "handleStats od inm cfg s =
     (case CurrentStats s of
        None \<Rightarrow> (s, StatsNotReady)
      | Some report \<Rightarrow>
          (let plans = planParamsMap cfg;
               report = ApplyPlanValues plans report;
               s = s\<lparr>sch_StatsReport := Some report\<rparr>;
               report' = report\<lparr>rp_PlanCost := ComputePlanCost od (map snd plans)\<rparr>;
               tag = hex_int (rp_GeneratedAt report);
               etag = [CHR 0x22] @ tag @ [CHR 0x22] in
           if etagMatch inm tag then (s, StatsNotModified etag) else (s, StatsBody etag report')))"

subsection \<open>The writing handlers\<close>

definition handleRefresh ::
  "('i, 'k) moment \<Rightarrow> config \<Rightarrow> ('i, report) sched \<Rightarrow> ('i, report) sched \<times> ('i, report) effect list \<times> http_reply" where
  "handleRefresh mo cfg s =
     (case Refresh (mo_polling mo) (mo_zone mo (cf_TZ cfg)) (mo_scan mo) (mo_now mo) s of
        (polled, s, es) \<Rightarrow> (s, es, Refreshed (if polled then 200 else 202) (withNextSec cfg (Current s))))"

text \<open>\<open>persistInterval\<close> on the file: rewritten in place, so a failing write can leave it torn.\<close>

definition persist_interval_file :: "persist_outcome \<Rightarrow> string \<Rightarrow> (string \<Rightarrow> string) \<Rightarrow> string fs \<Rightarrow> string fs" where
  "persist_interval_file po path edit fs =
     (case fs path of
        Some (Whole text) \<Rightarrow>
          if pt_read po then fs(path := (case pt_left po of Some c \<Rightarrow> c | None \<Rightarrow> Some (Whole (edit text)))) else fs
      | Some Torn \<Rightarrow> if pt_read po then fs(path := Some Torn) else fs
      | None \<Rightarrow>
          if pt_read po \<and> pt_mkdir po then fs(path := (case pt_left po of Some c \<Rightarrow> c | None \<Rightarrow> Some (Whole (edit [])))) else fs)"

text \<open>\<open>rebuildFetchers\<close> also starts a poll in the background.\<close>

definition rebuild :: "('i, 'k) moment \<Rightarrow> ('i, 'k) agent \<Rightarrow> ('i, 'k) agent" where
  "rebuild mo ag =
     (case mo_build mo of
        None \<Rightarrow> ag
      | Some f \<Rightarrow> ag\<lparr>ag_server := rebuildFetchers (Some (f (ag_keys ag))) (ag_server ag), ag_polls := Suc (ag_polls ag)\<rparr>)"

definition put_config :: "('i, 'k) moment \<Rightarrow> ('i, 'k) agent \<Rightarrow> ('i, 'k) agent \<times> http_reply" where
  "put_config mo ag =
     (case handleSetConfig ((mo_put mo)\<lparr>pe_build := map_option (\<lambda>f. f (ag_keys ag)) (mo_build mo)\<rparr>) (ag_server ag) (ag_files ag) of
        (r, sv, fs) \<Rightarrow>
          (ag\<lparr>ag_server := sv, ag_files := fs,
              ag_polls := (if r = Accepted \<and> mo_build mo \<noteq> None then Suc (ag_polls ag) else ag_polls ag)\<rparr>, Settings r))"

definition put_interval :: "('i, 'k) moment \<Rightarrow> ('i, 'k) agent \<Rightarrow> ('i, 'k) agent \<times> http_reply" where
  "put_interval mo ag =
     (case handleSetInterval (mo_interval mo) (persistInterval (the (mo_interval mo))) (ag_server ag) of
        (r, sv, edit) \<Rightarrow>
          (ag\<lparr>ag_server := sv,
              ag_files := (if r = Accepted \<and> sv_configPath sv \<noteq> []
                then persist_interval_file (mo_persist mo) (sv_configPath sv) edit (ag_files ag) else ag_files ag)\<rparr>, Settings r))"

definition change_key ::
  "(rateLimiter \<Rightarrow> 'k \<Rightarrow> rateLimiter \<times> 'k \<times> nat \<times> bool) \<Rightarrow> ('i, 'k) moment \<Rightarrow> ('i, 'k) agent \<Rightarrow> ('i, 'k) agent \<times> http_reply" where
  "change_key h mo ag =
     (case h (ag_limit ag) (ag_keys ag) of
        (rl, ks, code, again) \<Rightarrow>
          (let ag = ag\<lparr>ag_limit := rl, ag_keys := ks\<rparr> in (if again then rebuild mo ag else ag, KeyAnswer code)))"

definition start_job :: "setupState \<times> setup_reply \<times> job option \<Rightarrow> ('i, 'k) agent \<Rightarrow> ('i, 'k) agent \<times> http_reply" where
  "start_job res ag = (case res of (s, r, j) \<Rightarrow> (ag\<lparr>ag_setup := s, ag_jobs := with_job j (ag_jobs ag)\<rparr>, SetupAnswer r))"

subsection \<open>One request\<close>

definition agent_ready :: "('i, 'k) agent \<Rightarrow> setupReadiness" where
  "agent_ready ag = providerReadiness (sv_cfg (ag_server ag)) (Current (sv_sched (ag_server ag)))"

definition usage_request_of :: "http_request \<Rightarrow> usage_request" where
  "usage_request_of r = \<lparr>ur_peer = peerIP (req_RemoteAddr (hr_head r)), ur_UserAgent = hr_UserAgent r,
     ur_IfNoneMatch = hr_IfNoneMatch r, ur_otaArmed = hr_otaArmed r\<rparr>"

definition serve_route :: "('i, 'k) moment \<Rightarrow> http_request \<Rightarrow> route \<Rightarrow> ('i, 'k) agent \<Rightarrow> ('i, 'k) agent \<times> http_reply" where
  "serve_route mo r rt ag =
     (let now = mo_now mo; sv = ag_server ag; cfg = sv_cfg sv; s = sv_sched sv; snap = Current s;
          addr = req_RemoteAddr (hr_head r) in
      case rt of
        Index \<Rightarrow> (ag, Dashboard)
      | Healthz \<Rightarrow> (ag, Health (handleHealthz now ag))
      | AdviseRoute \<Rightarrow> (ag, Advice (handleAdvise now snap))
      | UsageRoute \<Rightarrow>
          (case handleUsage (interval_seconds (cf_Interval cfg)) now snap (usage_request_of r) (ag_tracker ag) of
             (t, u) \<Rightarrow> (ag\<lparr>ag_tracker := t\<rparr>, Usage u))
      | UsageTxt \<Rightarrow> (ag, Table (handleUsageTxt (mo_zone mo) cfg snap))
      | DeviceRoute \<Rightarrow> (ag, DeviceInfo (handleDevice now (ag_tracker ag)))
      | StatsRoute \<Rightarrow>
          (case handleStats (mo_orders mo) (hr_IfNoneMatch r) cfg s of
             (s, reply) \<Rightarrow> (ag\<lparr>ag_server := sv\<lparr>sv_sched := s\<rparr>\<rparr>, reply))
      | RefreshRoute \<Rightarrow>
          (case handleRefresh mo cfg s of
             (s, es, reply) \<Rightarrow> (ag\<lparr>ag_server := sv\<lparr>sv_sched := s\<rparr>, ag_effects := ag_effects ag @ es\<rparr>, reply))
      | GetConfig \<Rightarrow> (ag, ConfigView (handleGetConfig (mo_getenv mo) (mo_get mo (ag_keys ag)) sv))
      | PutConfig \<Rightarrow> put_config mo ag
      | PutInterval \<Rightarrow> put_interval mo ag
      | SetKey \<Rightarrow> change_key (handleSetKey (mo_set mo) now addr (mo_keybody mo)) mo ag
      | DeleteKey \<Rightarrow> change_key (handleDeleteKey (mo_del mo) now addr (hr_id r)) mo ag
      | SetupStatus \<Rightarrow> (ag, SetupView (setup_status (agent_ready ag) (mo_network mo) now (ag_setup ag)))
      | SetupStop \<Rightarrow>
          (case handleStop (agent_ready ag) now (ag_setup ag) of (s, reply) \<Rightarrow> start_job (s, reply, None) ag)
      | SetupScan \<Rightarrow> start_job (handleScan (agent_ready ag) now (ag_setup ag)) ag
      | SetupProvision \<Rightarrow> start_job (handleProvision (mo_decode mo) (agent_ready ag) now (mo_raw mo) (ag_setup ag)) ag
      | Otherwise \<Rightarrow> (ag, NotFound))"

definition ServeHTTP :: "('i, 'k) moment \<Rightarrow> http_request \<Rightarrow> ('i, 'k) agent \<Rightarrow> ('i, 'k) agent \<times> http_reply" where
  "ServeHTTP mo r ag =
     (let m = req_Method (hr_head r); p = req_Path (hr_head r) in
      case middleware (ag_configured ag) (Some (pair_devices (ag_pairing ag))) (hr_head r) of
        Refuse c \<Rightarrow> (ag, Refused c)
      | Serve \<Rightarrow>
          if m \<noteq> ''CONNECT'' \<and> mux_path p \<noteq> p then (ag, Redirected (mux_path p))
          else serve_route mo r (route_of m p) ag)"

end
