(* ===== verification/Cli_Stats.thy ===== *)
theory Cli_Stats
  imports Stats_Facts Api_Server Once Go_Date
begin

text \<open>
  cmd/usaged/stats.go: \<open>usaged stats\<close>, which scans the transcripts and prints today, this month and the
  table of models.  The scan is \<open>Scan\<close> of \<open>Stats_Scan\<close>; what it read and the index files are arguments.
\<close>

subsection \<open>Plans\<close>

definition cli_plan :: "planConfig \<Rightarrow> planParams" where
  "cli_plan p = \<lparr>pp_Cost = pc_Cost p, pp_Currency = pc_Currency p, pp_CostUSD = pc_CostUSD p,
     pp_HasCostUSD = pc_HasCostUSD p, pp_Label = pc_Label p\<rparr>"

text \<open>The entries of the file only, in the order Go ranges over them; the defaults are not looked at.\<close>

definition planMap :: "config \<Rightarrow> (string \<times> planParams) list" where
  "planMap c = fold (\<lambda>(i, y) m. case yp_Plan y of None \<Rightarrow> m
     | Some p \<Rightarrow> AList.update (if i = ''claude'' then ''claude_code'' else i) (cli_plan p) m) (cf_ProviderConfigs c) []"

subsection \<open>Printing\<close>

definition long_dash :: string where
  "long_dash = [CHR 0xE2, CHR 0x80, CHR 0x94]"

definition truncModel :: "string \<Rightarrow> string" where
  "truncModel s = (if length s > 30 then take 27 s @ ''...'' else trim_space s)"

definition currencySymbol :: "string \<Rightarrow> string" where
  "currencySymbol c = (if c = ''USD'' then ''$'' else if c = ''BRL'' then ''R$'' else c @ '' '')"

definition show_int64 :: "64 word \<Rightarrow> string" where
  "show_int64 w = show_int (sint w)"

definition cost_suffix :: "source \<Rightarrow> string" where
  "cost_suffix src =
     (let s = (if sr_Partial src then '' (partial)'' else []) in
      case (sr_Billed src, sr_PlanValue src) of
        (False, Some pv) \<Rightarrow>
          '' API-equiv ('' @ pv_Label pv @ '', '' @ currencySymbol (pv_Currency pv) @ show_fixed 2 (pv_Cost pv) @ ''/mo'' @
          (if pv_HasRatio pv then '', '' @ show_fixed 1 (pv_Ratio pv) @ ''x'' else []) @ '')''
      | (False, None) \<Rightarrow> '' API-equiv ('' @ sr_Plan src @ '' plan)''
      | (True, _) \<Rightarrow> s)"

definition totals_line :: "string \<Rightarrow> totals \<Rightarrow> string \<Rightarrow> string" where
  "totals_line name t suffix =
     ''  '' @ name @ '': '' @ show_int64 (Total (tt_Tokens t)) @ '' tokens ('' @ show_int64 (tt_Requests t) @ '' reqs), $'' @
     show_fixed 6 (tt_Cost t) @ suffix @ newline"

definition cost_cell :: "source \<Rightarrow> model \<Rightarrow> string" where
  "cost_cell src m =
     (if \<not> sr_Partial src \<and> md_Model m \<in> set (sr_UnpricedModels src) then ''      '' @ long_dash @ '' $''
      else pad_left 12 (show_fixed 6 (md_Cost m)) @ '' $'')"

definition model_line :: "source \<Rightarrow> model \<Rightarrow> string" where
  "model_line src m =
     ''    '' @ pad_right 30 (truncModel (md_Model m)) @ '' '' @ pad_left 10 (show_int64 (tk_Input (md_Tokens m))) @ '' in  '' @
     pad_left 10 (show_int64 (tk_Output (md_Tokens m))) @ '' out  '' @ pad_left 10 (show_int64 (Total (md_Tokens m))) @ '' tot  '' @
     cost_cell src m @ ''  '' @ pad_left 6 (show_int64 (md_Requests m)) @ '' reqs'' @ newline"

fun join_names :: "string list \<Rightarrow> string" where
  "join_names [] = []"
| "join_names [n] = n"
| "join_names (n # m # ns) = n @ '', '' @ join_names (m # ns)"

definition unpriced_line :: "source \<Rightarrow> string" where
  "unpriced_line src =
     (if sr_UnpricedModels src = [] then []
      else ''  unpriced: '' @ join_names (map (\<lambda>m. if m = [] then ''unknown'' else m) (sr_UnpricedModels src)) @ newline)"

definition source_text :: "string \<Rightarrow> source \<Rightarrow> string" where
  "source_text label src =
     label @ '':'' @ newline @ totals_line ''Today'' (sr_Today src) (cost_suffix src) @
     totals_line ''Month'' (sr_Month src) (cost_suffix src) @
     ''  Active days: '' @ show_nat (sr_ActiveDays src) @ '', Peak: '' @ pk_Date (sr_Peak src) @ '' ('' @
     show_int64 (pk_Tokens (sr_Peak src)) @ '' tokens)'' @ newline @
     (if sr_Models src = [] then [] else ''  Models:'' @ newline @ concat (map (model_line src) (sr_Models src))) @
     unpriced_line src @ newline"

definition format_datetime :: "location \<Rightarrow> int \<Rightarrow> string" where
  "format_datetime loc t = format_date loc t @ '' '' @ format_hhmm loc t @ '':'' @ show_nat2 (nat (local_seconds loc t mod 60))"

definition printStatsReport :: "report \<Rightarrow> location \<Rightarrow> string" where
  "printStatsReport r tz =
     ''AI Usage '' @ long_dash @ '' Local Stats'' @ newline @
     ''Generated: '' @ format_datetime tz (of_unix (rp_GeneratedAt r)) @ newline @ newline @
     concat (map (\<lambda>(n, label). case map_of (rp_Sources r) n of None \<Rightarrow> [] | Some src \<Rightarrow> source_text label src)
       [(''claude_code'', ''Claude Code''), (''codex'', ''Codex'')])"

subsection \<open>The command\<close>

definition stats_dirs :: "config \<Rightarrow> string \<times> string" where
  "stats_dirs c =
     (if cf_FixturesDir c \<noteq> []
      then (path_join [cf_FixturesDir c, ''transcripts'', ''claude''], path_join [cf_FixturesDir c, ''transcripts'', ''codex''])
      else (cf_ClaudeDir c, cf_CodexDir c))"

text \<open>\<open>stored\<close> is what is at the index path; \<open>scan\<close> gives the report, the new index and whether it ended.
  The result is the exit code, the text, and the index to be saved.\<close>

definition runStats ::
  "config_error + config \<Rightarrow> location \<Rightarrow> index_file \<Rightarrow> (string \<times> string \<Rightarrow> index \<Rightarrow> report \<times> index \<times> bool) \<Rightarrow>
     int \<times> (config_error + string option) \<times> (string \<times> index) option" where
  "runStats loaded tz stored scan =
     (case loaded of
        Inl e \<Rightarrow> (2, Inl e, None)
      | Inr c \<Rightarrow>
          (case scan (stats_dirs c) (if cf_StatsIndexPath c \<noteq> [] then fst (LoadIndex stored) else []) of
             (report, idx, ok) \<Rightarrow>
               if \<not> ok then (1, Inr None, None)
               else (0, Inr (Some (printStatsReport (ApplyPlanValues (planMap c) report) tz)),
                     if cf_StatsIndexPath c \<noteq> [] then Some (cf_StatsIndexPath c, idx) else None)))"


subsection \<open>What the printed report tells of a gap\<close>

lemma source_of_fields [simp]:
  "sr_Billed (source_of pr tz now plan w) = False" "sr_PlanValue (source_of pr tz now plan w) = None"
  "sr_Plan (source_of pr tz now plan w) = plan"
  by (simp_all add: source_of_def Let_def)

lemma source_of_partial: "sr_UnpricedModels (source_of pr tz now plan w) \<noteq> [] \<Longrightarrow> sr_Partial (source_of pr tz now plan w)"
  by (auto simp: source_of_def Let_def)

lemma source_of_models:
  assumes "m \<in> set (sr_Models (source_of pr tz now plan w))"
  shows "pr (md_Model m) = None \<Longrightarrow> md_Cost m = 0 \<and> md_Model m \<in> set (sr_UnpricedModels (source_of pr tz now plan w))"
  using assms
  by (auto simp: source_of_def Let_def buildModelsList_def model_entry_def unpriced_def listed_models_def)

lemma zero_cell: "pad_left 12 (show_fixed 6 0) = ''    0.000000''"
  by code_simp


text \<open>A model of which the price is not known.\<close>

definition new_model_walk :: walk where
  "new_model_walk = no_walk\<lparr>wk_agg := no_aggregates\<lparr>ag_order := [''claude-next''], ag_model := [(''claude-next'', Tokens 10 20 0 0)],
     ag_reqs := [(''claude-next'', 1)]\<rparr>\<rparr>"


subsection \<open>The plans of the command and of the server\<close>

lemma map_of_fold_update:
  "map_of (fold (\<lambda>x m. case f x of None \<Rightarrow> m | Some p \<Rightarrow> AList.update (g x) p m) xs m0) =
   map_of (rev (List.map_filter (\<lambda>x. map_option (Pair (g x)) (f x)) xs) @ m0)"
proof (induction xs arbitrary: m0)
  case (Cons x xs)
  then show ?case by (cases "f x") (auto simp: List.map_filter_def update_conv' map_add_def split: option.split)
qed (simp add: List.map_filter_def)

text \<open>Two keys are not sent to one name.\<close>

lemma lookup_fold_update:
  assumes "distinct (map k xs)" "inj_on g (insert i (set (map k xs)))"
  shows "map_of (fold (\<lambda>x m. case f x of None \<Rightarrow> m | Some p \<Rightarrow> AList.update (g (k x)) p m) xs []) (g i) =
    Option.bind (List.find (\<lambda>x. k x = i) xs) f"
proof -
  have "map_of (rev (List.map_filter (\<lambda>x. map_option (Pair (g (k x))) (f x)) xs)) (g i) = Option.bind (List.find (\<lambda>x. k x = i) xs) f"
    using assms
  proof (induction xs)
    case (Cons x xs)
    then have IH: "map_of (rev (List.map_filter (\<lambda>x. map_option (Pair (g (k x))) (f x)) xs)) (g i) = Option.bind (List.find (\<lambda>x. k x = i) xs) f"
      by (auto intro: inj_on_subset)
    have "List.find (\<lambda>x. k x = i) xs = None" if "k x = i"
      using Cons.prems(1) that by (auto simp: find_None_iff image_iff)
    moreover have "g (k x) \<noteq> g i" if "k x \<noteq> i"
      using Cons.prems(2) that by (auto simp: inj_on_def)
    ultimately show ?case using IH
      by (cases "f x"; cases "k x = i") (simp_all add: List.map_filter_def map_add_def split: option.split)
  qed (simp add: List.map_filter_def)
  then show ?thesis using map_of_fold_update [where f = f and g = "\<lambda>x. g (k x)" and xs = xs and ?m0.0 = "[]"] by simp
qed

lemma stats_name_inj: "inj_on stats_name (set DefaultProviderOrder)"
  by (simp add: stats_name_def DefaultProviderOrder_def provider_id_defs)

lemma cli_plan_eq [simp]: "cli_plan = plan_params"
  by (simp add: fun_eq_iff cli_plan_def plan_params_def)

lemma find_assoc: "List.find (\<lambda>x. fst x = i) xs = map_option (Pair i) (map_of xs i)"
  by (induction xs) auto

text \<open>The entries of the file name providers the program knows, each once.\<close>

definition known_entries :: "config \<Rightarrow> bool" where
  "known_entries c \<longleftrightarrow> distinct (map fst (cf_ProviderConfigs c)) \<and> fst ` set (cf_ProviderConfigs c) \<subseteq> set DefaultProviderOrder"

lemma planMap_at:
  assumes "known_entries c" "i \<in> set DefaultProviderOrder"
  shows "map_of (planMap c) (stats_name i) = map_option plan_params (Option.bind (map_of (cf_ProviderConfigs c) i) yp_Plan)"
proof -
  have eq: "(\<lambda>(i, y) m. case yp_Plan y of None \<Rightarrow> m
       | Some p \<Rightarrow> AList.update (if i = ''claude'' then ''claude_code'' else i) (cli_plan p) m) =
     (\<lambda>x m. case map_option plan_params (yp_Plan (snd x)) of None \<Rightarrow> m | Some p \<Rightarrow> AList.update (stats_name (fst x)) p m)"
    by (auto simp: fun_eq_iff stats_name_def split: option.split)
  have "inj_on stats_name (insert i (set (map fst (cf_ProviderConfigs c))))"
    using assms by (intro inj_on_subset [OF stats_name_inj]) (auto simp: known_entries_def)
  then have "map_of (planMap c) (stats_name i) =
      Option.bind (List.find (\<lambda>x. fst x = i) (cf_ProviderConfigs c)) (\<lambda>x. map_option plan_params (yp_Plan (snd x)))"
    unfolding planMap_def eq using assms(1) by (intro lookup_fold_update) (simp_all add: known_entries_def)
  then show ?thesis by (cases "map_of (cf_ProviderConfigs c) i") (simp_all add: find_assoc)
qed

lemma find_effective:
  "List.find (\<lambda>e. ep_ID e = i) (EffectiveProviders c) =
   map_option (\<lambda>d. effective d (map_of (cf_ProviderConfigs c) i)) (defaultProviderByID i)"
proof -
  have "List.find (\<lambda>e. ep_ID e = i) (map (\<lambda>d. effective d (map_of m (yp_ID d))) ds) =
      map_option (\<lambda>d. effective d (map_of m i)) (List.find (\<lambda>d. yp_ID d = i) ds)" for m and ds :: "yamlProvider list"
    by (induction ds) (auto simp: ep_ID_effective)
  then show ?thesis by (simp add: EffectiveProviders_def defaultProviderByID_def)
qed

lemma planParamsMap_at:
  assumes "i \<in> set DefaultProviderOrder"
  shows "map_of (planParamsMap c) (stats_name i) = map_option plan_params
    (Option.bind (defaultProviderByID i) (\<lambda>d. ep_Plan (effective d (map_of (cf_ProviderConfigs c) i))))"
proof -
  have eq: "(\<lambda>e m. case ep_Plan e of None \<Rightarrow> m | Some p \<Rightarrow> AList.update (stats_name (ep_ID e)) (plan_params p) m) =
     (\<lambda>e m. case map_option plan_params (ep_Plan e) of None \<Rightarrow> m | Some p \<Rightarrow> AList.update (stats_name (ep_ID e)) p m)"
    by (auto simp: fun_eq_iff split: option.split)
  have "set (map ep_ID (EffectiveProviders c)) = set DefaultProviderOrder" by (simp only: effective_ids)
  then have "inj_on stats_name (insert i (set (map ep_ID (EffectiveProviders c))))"
    using assms stats_name_inj by (simp add: insert_absorb)
  then have "map_of (planParamsMap c) (stats_name i) =
      Option.bind (List.find (\<lambda>e. ep_ID e = i) (EffectiveProviders c)) (\<lambda>e. map_option plan_params (ep_Plan e))"
    unfolding planParamsMap_def eq using distinct_order by (intro lookup_fold_update) (simp_all add: effective_ids)
  then show ?thesis by (simp add: find_effective) (cases "defaultProviderByID i"; simp add: Option.bind_map_option)
qed

lemma ep_Plan_effective: "ep_Plan (effective d e) = (case Option.bind e yp_Plan of None \<Rightarrow> yp_Plan d | Some p \<Rightarrow> Some p)"
  by (cases e) (auto simp: effective_def Let_def split: option.split)



end
