(* ===== verification/Api_Server_Facts.thy ===== *)
theory Api_Server_Facts
  imports Api_Server Api_Setup_Facts
begin

text \<open>
  What the server of \<open>Api_Server\<close> promises as a whole: which requests reach which handler, what a request
  without a token can see and change, the invariant of all that happens in the agent, and the statistics.
\<close>

subsection \<open>Routes\<close>

lemma most_specific_in: "most_specific best qs = Some q \<Longrightarrow> best = Some q \<or> q \<in> set qs"
  by (induction best qs rule: most_specific.induct) (auto split: option.splits if_splits)

lemma mux_route_in:
  assumes "mux_route ps m p = Some r"
  shows "\<exists>pm pp. (pm, pp, r) \<in> set ps \<and> pattern_matches m p (pm, pp, r)"
proof -
  obtain pm pp where "most_specific None (filter (pattern_matches m p) ps) = Some (pm, pp, r)"
    using assms by (auto simp: mux_route_def)
  from most_specific_in [OF this] have "(pm, pp, r) \<in> set ps \<and> pattern_matches m p (pm, pp, r)" by simp
  then show ?thesis by blast
qed

lemma v1_prefix [simp]: "has_prefix (''/v1/'' @ x) ''/v1/''"
  by (simp add: has_prefix_def)

text \<open>Outside \<open>/v1/\<close> there are the dashboard, the health check and the answer to unknown requests.\<close>

lemma open_routes:
  assumes "\<not> requiresToken p"
  shows "route_of m p \<in> {Index, Healthz, Otherwise}"
proof (cases "mux_route routes m p")
  case (Some r)
  from mux_route_in [OF Some] obtain pm pp where r: "(pm, pp, r) \<in> set routes" "pattern_matches m p (pm, pp, r)" by blast
  show ?thesis
    using r assms Some
    by (auto simp: routes_def setup_routes_def route_of_def pattern_matches_def requiresToken_def has_prefix_def)
qed (simp add: route_of_def)

lemma get_routes:
  assumes "m = ''GET'' \<or> m = ''HEAD''"
  shows "route_of m p \<in> {Index, Healthz, AdviseRoute, UsageRoute, UsageTxt, DeviceRoute, StatsRoute, GetConfig, SetupStatus, Otherwise}"
proof (cases "mux_route routes m p")
  case (Some r)
  from mux_route_in [OF Some] obtain pm pp where "(pm, pp, r) \<in> set routes" "pattern_matches m p (pm, pp, r)" by blast
  then show ?thesis using assms Some
    by (auto simp: routes_def setup_routes_def route_of_def pattern_matches_def method_matches_def)
qed (simp add: route_of_def)


subsection \<open>What a request without a token sees\<close>

text \<open>The token a request carries, and whether it is one the agent accepts.\<close>

definition token_of :: "request \<Rightarrow> string" where
  "token_of q = (if req_HeaderToken q = [] then req_QueryToken q else req_HeaderToken q)"

definition accepts_token :: "('i, 'k) agent \<Rightarrow> string \<Rightarrow> bool" where
  "accepts_token ag tok = validAnyToken (ag_configured ag) (Some (pair_devices (ag_pairing ag))) tok"

lemma middleware_lan:
  assumes "\<not> isLoopbackAddr (req_RemoteAddr q)" "\<not> validAnyToken configured paired (token_of q)"
  shows "middleware configured paired q = (if requiresToken (req_Path q) then Refuse 401 else Serve)"
  using assms by (simp add: middleware_def Let_def token_of_def)

lemma serve_open:
  assumes "rt \<in> {Index, Healthz, Otherwise}" "mo_now mo' = mo_now mo" "handleHealthz (mo_now mo) a = handleHealthz (mo_now mo) b"
  shows "\<exists>reply. serve_route mo r rt a = (a, reply) \<and> serve_route mo' r rt b = (b, reply)"
  using assms by (auto simp: serve_route_def Let_def)

lemma without_token:
  assumes "\<not> isLoopbackAddr (req_RemoteAddr (hr_head r))"
    and "\<not> accepts_token a (token_of (hr_head r))" "\<not> accepts_token b (token_of (hr_head r))"
    and "mo_now mo' = mo_now mo" "handleHealthz (mo_now mo) a = handleHealthz (mo_now mo) b"
  shows "\<exists>reply. ServeHTTP mo r a = (a, reply) \<and> ServeHTTP mo' r b = (b, reply)"
proof (cases "requiresToken (req_Path (hr_head r))")
  case True
  then show ?thesis using assms(1-3) by (simp add: ServeHTTP_def Let_def middleware_lan accepts_token_def)
next
  case False
  then show ?thesis
    using assms(1-3) serve_open [OF open_routes [OF False, of "req_Method (hr_head r)"] assms(4,5), where r = r]
    by (cases "req_Method (hr_head r) = ''CONNECT''") (simp_all add: ServeHTTP_def Let_def middleware_lan accepts_token_def)
qed

text \<open>
  C10: a request from the network without a token the agent accepts changes nothing, and learns nothing:
  two agents that agree on what the health check tells (sequence number, revision, time of the last check,
  uptime, version and commit) answer it with the same reply, whatever their configuration, keys, usage,
  statistics, devices and setup channel hold and whatever goes on around them.
\<close>

theorem lan_without_token:
  assumes "\<not> isLoopbackAddr (req_RemoteAddr (hr_head r))"
    and "\<not> accepts_token a (token_of (hr_head r))" "\<not> accepts_token b (token_of (hr_head r))"
    and "mo_now mo' = mo_now mo" "handleHealthz (mo_now mo) a = handleHealthz (mo_now mo) b"
  shows "\<exists>reply. ServeHTTP mo r a = (a, reply) \<and> ServeHTTP mo' r b = (b, reply)"
  by (rule without_token [OF assms])

subsection \<open>Reading\<close>

text \<open>What a \<open>GET\<close> leaves behind: an entry of the access log, and plan values in the report.\<close>

definition read_only :: "('i, 'k) agent \<Rightarrow> ('i, 'k) agent \<Rightarrow> bool" where
  "read_only ag ag' \<longleftrightarrow> (\<exists>t rp. ag' = ag\<lparr>ag_tracker := t,
     ag_server := (ag_server ag)\<lparr>sv_sched := (sv_sched (ag_server ag))\<lparr>sch_StatsReport := rp\<rparr>\<rparr>\<rparr> \<and>
     rp \<in> {CurrentStats (sv_sched (ag_server ag)),
           map_option (ApplyPlanValues (planParamsMap (sv_cfg (ag_server ag)))) (CurrentStats (sv_sched (ag_server ag)))})"

lemma read_only_refl: "read_only ag ag"
  unfolding read_only_def CurrentStats_def
  by (rule exI [of _ "ag_tracker ag"], rule exI [of _ "sch_StatsReport (sv_sched (ag_server ag))"]) simp

lemma handleStats_sched:
  "fst (handleStats od inm cfg s) = s\<lparr>sch_StatsReport := map_option (ApplyPlanValues (planParamsMap cfg)) (CurrentStats s)\<rparr>"
  by (auto simp: handleStats_def CurrentStats_def Let_def split: option.split)

lemma serve_reads:
  assumes "rt \<in> {Index, Healthz, AdviseRoute, UsageRoute, UsageTxt, DeviceRoute, StatsRoute, GetConfig, SetupStatus, Otherwise}"
  shows "read_only ag (fst (serve_route mo r rt ag))"
proof -
  have stats: "read_only ag (ag\<lparr>ag_server := (ag_server ag)\<lparr>sv_sched := fst (handleStats od inm (sv_cfg (ag_server ag)) (sv_sched (ag_server ag)))\<rparr>\<rparr>)" for od inm
    unfolding read_only_def handleStats_sched
    by (rule exI [of _ "ag_tracker ag"],
        rule exI [of _ "map_option (ApplyPlanValues (planParamsMap (sv_cfg (ag_server ag)))) (CurrentStats (sv_sched (ag_server ag)))"]) simp
  have usage: "read_only ag (ag\<lparr>ag_tracker := t\<rparr>)" for t
    unfolding read_only_def CurrentStats_def
    by (rule exI [of _ t], rule exI [of _ "sch_StatsReport (sv_sched (ag_server ag))"]) simp
  show ?thesis
    using assms stats usage read_only_refl [of ag] by (auto simp: serve_route_def Let_def split_beta)
qed

lemma get_reads:
  assumes "req_Method (hr_head r) = ''GET'' \<or> req_Method (hr_head r) = ''HEAD''"
  shows "read_only ag (fst (ServeHTTP mo r ag))"
  using serve_reads [OF get_routes [OF assms]] read_only_refl [of ag]
  by (auto simp: ServeHTTP_def Let_def split: verdict.split)


subsection \<open>The codes of the replies\<close>

fun reply_codes :: "route \<Rightarrow> nat list" where
  "reply_codes UsageRoute = [200, 304]"
| "reply_codes StatsRoute = [200, 304, 503]"
| "reply_codes RefreshRoute = [200, 202]"
| "reply_codes PutConfig = [200, 400, 500]"
| "reply_codes PutInterval = [200, 400]"
| "reply_codes SetKey = [200, 400, 403, 429, 500]"
| "reply_codes DeleteKey = [200, 400, 403, 429, 500]"
| "reply_codes SetupStop = [200, 409]"
| "reply_codes SetupScan = [202, 409, 429, 503]"
| "reply_codes SetupProvision = [202, 400, 409, 429, 503]"
| "reply_codes Otherwise = [404]"
| "reply_codes _ = [200]"

text \<open>No code: the process died while it saved the settings.\<close>

definition code_fits :: "route \<Rightarrow> nat option \<Rightarrow> bool" where
  "code_fits rt c \<longleftrightarrow> (case c of None \<Rightarrow> rt = PutConfig | Some n \<Rightarrow> n \<in> set (reply_codes rt))"

lemma stats_code: "code_fits StatsRoute (status_of (snd (handleStats od inm cfg s)))"
  by (auto simp: handleStats_def code_fits_def Let_def split: option.split)

lemma put_config_code: "code_fits PutConfig (status_of (snd (put_config mo ag)))"
proof -
  have "code_fits PutConfig (status_of (Settings q))" for q by (cases q) (auto simp: code_fits_def)
  then show ?thesis by (simp add: put_config_def split: prod.split)
qed

lemma put_interval_code: "code_fits PutInterval (status_of (snd (put_interval mo ag)))"
  by (auto simp: put_interval_def handleSetInterval_def code_fits_def split: option.split)

lemma set_key_code: "code_fits SetKey (status_of (snd (change_key (handleSetKey st now addr body) mo ag)))"
  by (auto simp: change_key_def handleSetKey_def code_fits_def Let_def split: option.split prod.split)

lemma delete_key_code: "code_fits DeleteKey (status_of (snd (change_key (handleDeleteKey dl now addr i) mo ag)))"
  by (auto simp: change_key_def handleDeleteKey_def code_fits_def Let_def split: option.split prod.split)

lemma scan_code: "code_fits SetupScan (Some (setup_status_code (fst (snd (handleScan ready now s)))))"
  by (auto simp: handleScan_def code_fits_def setup_status_code_def Let_def split: prod.split)

lemma provision_code: "code_fits SetupProvision (Some (setup_status_code (fst (snd (handleProvision dec ready now raw s)))))"
  by (auto simp: handleProvision_def code_fits_def setup_status_code_def Let_def split: prod.split option.split)

lemma stop_code: "code_fits SetupStop (Some (setup_status_code (snd (handleStop ready now s))))"
  by (simp add: handleStop_def code_fits_def setup_status_code_def Let_def)

lemma usage_code: "code_fits UsageRoute (Some (rp_status (snd (handleUsage sec now snap q t))))"
  by (simp add: handleUsage_def code_fits_def Let_def)

lemmas route_code_facts = stats_code put_config_code put_interval_code set_key_code delete_key_code scan_code provision_code
  stop_code usage_code

lemma serve_code: "code_fits rt (status_of (snd (serve_route mo r rt ag)))"
proof (cases "rt \<in> {RefreshRoute, Index, Healthz, AdviseRoute, UsageTxt, DeviceRoute, GetConfig, SetupStatus, Otherwise}")
  case True
  then show ?thesis by (auto simp: serve_route_def Let_def split_beta handleRefresh_def code_fits_def)
next
  case False
  then show ?thesis
    by (cases rt) (simp_all add: serve_route_def Let_def split_beta start_job_def route_code_facts)
qed


subsection \<open>Everything that happens in the agent\<close>

text \<open>
  A request, a token issued over Bluetooth, a step or the end of a setup goroutine, or a poll, periodic or
  started in the background; \<open>build\<close> is the fetcher builder given to \<open>New\<close>.
\<close>

inductive agent_step ::
  "('k \<Rightarrow> config \<Rightarrow> fetcher list) option \<Rightarrow> ('i, 'k) agent \<Rightarrow> ('i, 'k) agent \<Rightarrow> bool" for build where
  request_served: "mo_build mo = build \<Longrightarrow> agent_step build ag (fst (ServeHTTP mo r ag))"
| token_issued:
    "issueDeviceToken rnd oc now i nm (ag_pairing ag) fs = ((p, fs'), res) \<Longrightarrow> agent_step build ag (ag\<lparr>ag_pairing := p\<rparr>)"
| setup_progress:
    "j \<in> set (ag_jobs ag) \<Longrightarrow> jb_addr j \<noteq> None \<Longrightarrow>
     agent_step build ag (ag\<lparr>ag_setup := recordStep now (jb_gen j) step (ag_setup ag)\<rparr>)"
| setup_scan_ends:
    "j \<in> set (ag_jobs ag) \<Longrightarrow> jb_addr j = None \<Longrightarrow>
     agent_step build ag (ag\<lparr>ag_setup := runScan now (jb_gen j) found (ag_setup ag), ag_jobs := remove1 j (ag_jobs ag)\<rparr>)"
| setup_run_ends:
    "j \<in> set (ag_jobs ag) \<Longrightarrow> jb_addr j \<noteq> None \<Longrightarrow>
     agent_step build ag (ag\<lparr>ag_setup := runProvision now (jb_gen j) out (ag_setup ag), ag_jobs := remove1 j (ag_jobs ag)\<rparr>)"
| polled:
    "pollOnce loc scan now (sv_sched (ag_server ag)) = (s, es) \<Longrightarrow>
     agent_step build ag (ag\<lparr>ag_server := (ag_server ag)\<lparr>sv_sched := s\<rparr>, ag_effects := ag_effects ag @ es, ag_polls := n\<rparr>)"

text \<open>The scheduler: an interval of at least five minutes, one fetcher for each id, a revision that fits the content.\<close>

definition sched_ok :: "('i, 'r) sched \<Rightarrow> bool" where
  "sched_ok s \<longleftrightarrow> MinIntervalSec * Second \<le> sch_Interval s \<and> distinct (map fst (sch_Fetchers s)) \<and>
     (snap_V (Current s) = 1 \<longrightarrow> snap_Rev (Current s) = Rev (snap_Providers (Current s)))"

definition agent_ok :: "('i, 'k) agent \<Rightarrow> bool" where
  "agent_ok ag \<longleftrightarrow> sched_ok (sv_sched (ag_server ag)) \<and> pairing_ok (ag_pairing ag) \<and>
     distinct (map fst (ag_tracker ag)) \<and> world_ok \<lparr>sw_setup = ag_setup ag, sw_jobs = ag_jobs ag\<rparr>"

definition good_builder :: "('k \<Rightarrow> config \<Rightarrow> fetcher list) option \<Rightarrow> bool" where
  "good_builder build \<longleftrightarrow> (\<forall>f. build = Some f \<longrightarrow> (\<forall>k c. distinct (map fst (f k c))))"

lemma scan_keeps: "sch_Interval (fst (scanStats scan s)) = sch_Interval s" "sch_Fetchers (fst (scanStats scan s)) = sch_Fetchers s"
  by (simp_all add: scanStats_def split: prod.split option.split)

lemma apply_keeps: "sch_Interval (fst (apply_poll loc now s)) = sch_Interval s" "sch_Fetchers (fst (apply_poll loc now s)) = sch_Fetchers s"
  by (simp_all add: apply_poll_def Let_def split_beta)

lemma poll_keeps [simp]:
  "sch_Interval (fst (pollOnce loc scan now s)) = sch_Interval s" "sch_Fetchers (fst (pollOnce loc scan now s)) = sch_Fetchers s"
  by (simp_all add: pollOnce_def Let_def split_beta scan_keeps apply_keeps)

lemma sched_ok_poll: "sched_ok s \<Longrightarrow> sched_ok (fst (pollOnce loc scan now s))"
  by (simp add: sched_ok_def pollOnce_Current)

lemma sched_ok_interval: "sched_ok s \<Longrightarrow> sched_ok (SetInterval d s)"
  by (simp add: sched_ok_def SetInterval_def Current_def)

lemma sched_ok_report [simp]: "sched_ok (s\<lparr>sch_StatsReport := rp\<rparr>) = sched_ok s"
  by (simp add: sched_ok_def Current_def)

lemma sched_ok_rebuild:
  assumes "sched_ok (sv_sched sv)" "\<And>f c. build = Some f \<Longrightarrow> distinct (map fst (f c))"
  shows "sched_ok (sv_sched (rebuildFetchers build sv))"
  using assms by (auto simp: rebuildFetchers_def sched_ok_def SetFetchers_def SetProviderOrder_def Current_def split: option.split)

lemma sched_ok_set_config:
  assumes "sched_ok (sv_sched sv)" "\<And>f c. pe_build e = Some f \<Longrightarrow> distinct (map fst (f c))"
  shows "sched_ok (sv_sched (fst (snd (handleSetConfig e sv fs))))"
  using assms by (auto simp: handleSetConfig_def intro!: sched_ok_rebuild sched_ok_interval
      split: option.split prod.split save_result.split)

lemma sched_ok_set_interval: "sched_ok (sv_sched sv) \<Longrightarrow> sched_ok (sv_sched (fst (snd (handleSetInterval n f sv))))"
  by (simp add: handleSetInterval_def sched_ok_interval split: option.split)

lemma pairing_ok_issue:
  assumes "issueDeviceToken rnd oc now i nm p fs = ((p', fs'), res)" "pairing_ok p"
  shows "pairing_ok p'"
  using issue_cases [OF assms(1)] assms(2)
  by (auto simp: pairing_ok_def Let_def distinct_update distinct_delete split: option.split)


lemma agent_ok_rebuild:
  assumes "agent_ok ag" "good_builder (mo_build mo)"
  shows "agent_ok (rebuild mo ag)"
  using assms unfolding rebuild_def agent_ok_def good_builder_def
  by (auto intro!: sched_ok_rebuild split: option.split)

lemma agent_ok_put_config:
  assumes "agent_ok ag" "good_builder (mo_build mo)"
  shows "agent_ok (fst (put_config mo ag))"
proof -
  let ?e = "(mo_put mo)\<lparr>pe_build := map_option (\<lambda>f. f (ag_keys ag)) (mo_build mo)\<rparr>"
  have "sched_ok (sv_sched (fst (snd (handleSetConfig ?e (ag_server ag) (ag_files ag)))))"
    using assms by (intro sched_ok_set_config) (auto simp: agent_ok_def good_builder_def)
  then show ?thesis using assms(1) by (simp add: put_config_def agent_ok_def split_beta)
qed

lemma agent_ok_put_interval: "agent_ok ag \<Longrightarrow> agent_ok (fst (put_interval mo ag))"
  by (simp add: put_interval_def agent_ok_def split_beta sched_ok_set_interval)

lemma agent_ok_change_key:
  "agent_ok ag \<Longrightarrow> good_builder (mo_build mo) \<Longrightarrow> agent_ok (fst (change_key h mo ag))"
  using agent_ok_rebuild [of "ag\<lparr>ag_limit := fst (h (ag_limit ag) (ag_keys ag)), ag_keys := fst (snd (h (ag_limit ag) (ag_keys ag)))\<rparr>" mo]
  by (simp add: change_key_def split_beta Let_def) (simp add: agent_ok_def)

lemma agent_ok_setup:
  assumes "agent_ok ag" "setup_step \<lparr>sw_setup = ag_setup ag, sw_jobs = ag_jobs ag\<rparr> \<lparr>sw_setup = s, sw_jobs = js\<rparr>"
  shows "agent_ok (ag\<lparr>ag_setup := s, ag_jobs := js\<rparr>)"
  using assms(1) world_ok_step [OF assms(2)] by (simp add: agent_ok_def)

lemma agent_ok_job:
  assumes "agent_ok ag" "setup_step \<lparr>sw_setup = ag_setup ag, sw_jobs = ag_jobs ag\<rparr> \<lparr>sw_setup = fst res, sw_jobs = with_job (snd (snd res)) (ag_jobs ag)\<rparr>"
  shows "agent_ok (fst (start_job res ag))"
  using agent_ok_setup [OF assms] by (simp add: start_job_def split_beta)

lemma agent_ok_setup_routes:
  assumes "agent_ok ag"
  shows "agent_ok (fst (start_job (handleScan ready now (ag_setup ag)) ag))"
    and "agent_ok (fst (start_job (handleProvision dec ready now raw (ag_setup ag)) ag))"
    and "agent_ok (fst (start_job (fst (handleStop ready now (ag_setup ag)), rep, None) ag))"
  using assms
  by (auto intro!: agent_ok_job intro: scan_request provision_request simp: prod_eq_iff)
    (auto intro!: agent_ok_job simp: with_job_def intro: stop_request [OF prod.collapse [symmetric]])

lemma agent_ok_reads:
  assumes "read_only ag ag'" "agent_ok ag" "distinct (map fst (ag_tracker ag'))"
  shows "agent_ok ag'"
  using assms unfolding read_only_def agent_ok_def by auto

lemma tracker_route:
  "distinct (map fst (ag_tracker ag)) \<Longrightarrow> distinct (map fst (ag_tracker (fst (serve_route mo r UsageRoute ag))))"
  by (simp add: serve_route_def handleUsage_def Let_def tracker_record_keys)

lemma agent_ok_route:
  assumes "agent_ok ag" "good_builder (mo_build mo)"
  shows "agent_ok (fst (serve_route mo r rt ag))"
proof -
  have tr: "distinct (map fst (ag_tracker ag))" using assms(1) by (simp add: agent_ok_def)
  show ?thesis
  proof (cases "rt \<in> {Index, Healthz, AdviseRoute, UsageRoute, UsageTxt, DeviceRoute, StatsRoute, GetConfig, SetupStatus, Otherwise}")
    case True
    have "distinct (map fst (ag_tracker (fst (serve_route mo r rt ag))))"
      using True tr tracker_route [OF tr] by (cases rt) (auto simp: serve_route_def Let_def split_beta)
    then show ?thesis by (rule agent_ok_reads [OF serve_reads [OF True] assms(1)])
  next
    case False
    have refresh: "agent_ok (ag\<lparr>ag_server := (ag_server ag)\<lparr>sv_sched := fst (handleRefresh mo cfg (sv_sched (ag_server ag)))\<rparr>, ag_effects := es\<rparr>)" for cfg es
      using assms(1) by (simp add: agent_ok_def handleRefresh_def Refresh_def split_beta sched_ok_poll)
    show ?thesis
      using False assms agent_ok_put_config agent_ok_put_interval agent_ok_change_key agent_ok_setup_routes refresh
      by (cases rt) (simp_all add: serve_route_def Let_def split_beta)
  qed
qed


lemma agent_ok_request:
  assumes "agent_ok ag" "good_builder (mo_build mo)"
  shows "agent_ok (fst (ServeHTTP mo r ag))"
  using agent_ok_route [OF assms] assms(1) by (auto simp: ServeHTTP_def Let_def split: verdict.split)

inductive_cases agent_stepE: "agent_step build ag ag'"

lemma agent_ok_step:
  assumes "agent_step build ag ag'" "agent_ok ag" "good_builder build"
  shows "agent_ok ag'"
  using assms(1)
proof cases
  case (request_served mo r)
  then show ?thesis using assms(2,3) by (simp add: agent_ok_request)
next
  case (token_issued rnd oc now i nm fs p fs' res)
  then show ?thesis using assms(2) pairing_ok_issue [OF token_issued(2)] by (simp add: agent_ok_def)
next
  case (setup_progress j now st)
  have "setup_step \<lparr>sw_setup = ag_setup ag, sw_jobs = ag_jobs ag\<rparr>
      \<lparr>sw_setup = recordStep now (jb_gen j) st (ag_setup ag), sw_jobs = ag_jobs ag\<rparr>"
    by (rule setup_step.progress [OF setup_progress(2,3)])
  from agent_ok_setup [OF assms(2) this] show ?thesis by (simp add: setup_progress(1))
next
  case (setup_scan_ends j now found)
  show ?thesis
    unfolding setup_scan_ends(1) by (rule agent_ok_setup [OF assms(2) scan_ends [OF setup_scan_ends(2,3)]])
next
  case (setup_run_ends j now res)
  show ?thesis
    unfolding setup_run_ends(1) by (rule agent_ok_setup [OF assms(2) run_ends [OF setup_run_ends(2,3)]])
next
  case (polled loc scan now s es n)
  then show ?thesis using assms(2) sched_ok_poll [of "sv_sched (ag_server ag)" loc scan now] by (simp add: agent_ok_def)
qed

lemma agent_ok_New:
  assumes "New s cfg path prov keys files devs version commit now = Inr ag"
    and "sched_ok s" "\<And>ds. devs (pairedDevicesPath (cf_StatePath cfg)) = Some (Whole ds) \<Longrightarrow> distinct (map fst ds)"
  shows "agent_ok ag"
proof -
  have "pairing_ok (newPairing (pairedDevicesPath (cf_StatePath cfg)) devs)"
    using assms(3) by (auto simp: newPairing_def pairing_ok_def loadPairedDevices_def load_file_def split: option.split contents.split)
  then show ?thesis
    using assms(1,2) world_ok_start [of prov] by (auto simp: New_def agent_ok_def setup_start_def split: if_splits)
qed

lemma agent_ok_reached:
  assumes "(agent_step build)\<^sup>*\<^sup>* ag ag'" "agent_ok ag" "good_builder build"
  shows "agent_ok ag'"
  using assms by (induction rule: rtranclp_induct) (auto intro: agent_ok_step)

definition quiet_server :: "(unit, report) sched" where
  "quiet_server = NewScheduler () [] (900 * Second) []"

definition local_config :: config where
  "local_config = (default_config (\<lambda>_. True))\<lparr>cf_Listen := ''127.0.0.1:8765''\<rparr>"

definition local_agent :: "(unit, unit) agent" where
  "local_agent = \<lparr>ag_server = \<lparr>sv_cfg = local_config, sv_configPath = [], sv_sched = quiet_server\<rparr>, ag_configured = [],
     ag_limit = newRateLimiter 5 Minute, ag_pairing = \<lparr>pair_devices = [], pair_path = ''$HOME/.local/state/ai-usage/devices.json''\<rparr>,
     ag_setup = newSetup False, ag_jobs = [], ag_tracker = [], ag_keys = (), ag_files = Map.empty, ag_effects = [],
     ag_polls = 0, ag_version = ''v1'', ag_commit = [], ag_start = 0\<rparr>"



definition usage_get :: "string \<Rightarrow> http_request" where
  "usage_get addr = \<lparr>hr_head = \<lparr>req_Method = ''GET'', req_Path = ''/v1/usage'', req_RemoteAddr = addr, req_ContentLength = 0,
     req_ContentType = [], req_HeaderToken = ''guess'', req_QueryToken = []\<rparr>,
     hr_UserAgent = [], hr_IfNoneMatch = [], hr_otaArmed = [], hr_id = []\<rparr>"


text \<open>The agent with every provider switched off answers a stranger in the same way.\<close>

theorem lan_without_token_witness:
  "\<forall>mo. \<exists>reply. ServeHTTP mo (usage_get ''192.168.0.9:5000'') local_agent = (local_agent, reply) \<and>
     ServeHTTP mo (usage_get ''192.168.0.9:5000'') (local_agent\<lparr>ag_keys := (), ag_tracker := [(''x'', fresh_entry ''x'' 0 200)]\<rparr>) =
       (local_agent\<lparr>ag_keys := (), ag_tracker := [(''x'', fresh_entry ''x'' 0 200)]\<rparr>, reply)"
proof
  fix mo :: "(unit, unit) moment"
  let ?b = "local_agent\<lparr>ag_keys := (), ag_tracker := [(''x'', fresh_entry ''x'' 0 200)]\<rparr>"
  have addr: "\<not> isLoopbackAddr (req_RemoteAddr (hr_head (usage_get ''192.168.0.9:5000'')))" by code_simp
  have tok: "\<not> accepts_token local_agent (token_of (hr_head (usage_get ''192.168.0.9:5000'')))"
    "\<not> accepts_token ?b (token_of (hr_head (usage_get ''192.168.0.9:5000'')))"
    by (simp_all add: accepts_token_def token_of_def usage_get_def validAnyToken_iff local_agent_def)
  have "handleHealthz (mo_now mo) local_agent = handleHealthz (mo_now mo) ?b" by (simp add: handleHealthz_def Let_def)
  from lan_without_token [OF addr tok refl this]
  show "\<exists>reply. ServeHTTP mo (usage_get ''192.168.0.9:5000'') local_agent = (local_agent, reply) \<and>
     ServeHTTP mo (usage_get ''192.168.0.9:5000'') ?b = (?b, reply)" .
qed

subsection \<open>The statistics after a change of the plan\<close>

lemma plain_hex_nat: "plain_rev (show_hex n)"
  by (induction n rule: show_hex.induct) (subst show_hex.simps, auto simp: plain_rev_def hex_char_plain)

lemma plain_hex_int: "plain_rev (hex_int i)"
  using plain_hex_nat by (simp add: hex_int_def plain_rev_def)

lemma show_hex_not_Nil: "show_hex n \<noteq> []"
  by (subst show_hex.simps) simp

lemma hex_int_not_Nil: "hex_int i \<noteq> []"
  by (simp add: hex_int_def show_hex_not_Nil)

lemma etag_absent: "\<not> etagMatch [] (hex_int i)"
proof -
  have "trim_space [] = []" by code_simp
  then show ?thesis using hex_int_not_Nil [of i] by (auto simp: etagMatch_def Let_def trim_prefix_def has_prefix_def)
qed

lemma map_of_plan_values:
  "map_of (map (with_plan_value plans) xs) n = map_option (\<lambda>src. snd (with_plan_value plans (n, src))) (map_of xs n)"
proof (induction xs)
  case (Cons x xs)
  obtain m src where x: "x = (m, src)" by (cases x)
  have "fst (with_plan_value plans (m, src)) = m" by (simp add: with_plan_value_def)
  then have "with_plan_value plans (m, src) = (m, snd (with_plan_value plans (m, src)))" by (metis prod.collapse)
  then show ?case using Cons x by (metis list.simps(9) map_of_Cons_code(2) option.simps(9))
qed simp

lemma plan_value_set:
  assumes "map_of plans n = Some p" "pp_Cost p \<noteq> 0" "map_of (rp_Sources r) n = Some src"
  shows "map_of (rp_Sources (ApplyPlanValues plans r)) n =
    Some (src\<lparr>sr_PlanValue := Some (computePlanValue (tt_Cost (sr_Month src)) p)\<rparr>)"
  using assms by (simp add: ApplyPlanValues_def map_of_plan_values with_plan_value_def)

lemma plan_value_kept:
  assumes "pred_option (\<lambda>p. pp_Cost p = 0) (map_of plans n)" "map_of (rp_Sources r) n = Some src"
  shows "map_of (rp_Sources (ApplyPlanValues plans r)) n = Some src"
  using assms by (auto simp: ApplyPlanValues_def map_of_plan_values with_plan_value_def split: option.splits)

lemma stats_reply:
  assumes "CurrentStats s = Some rep"
  shows "snd (handleStats od ([CHR 0x22] @ hex_int (rp_GeneratedAt rep) @ [CHR 0x22]) cfg s) =
      StatsNotModified ([CHR 0x22] @ hex_int (rp_GeneratedAt rep) @ [CHR 0x22])"
    and "snd (handleStats od [] cfg s) = StatsBody ([CHR 0x22] @ hex_int (rp_GeneratedAt rep) @ [CHR 0x22])
      ((ApplyPlanValues (planParamsMap cfg) rep)\<lparr>rp_PlanCost := ComputePlanCost od (map snd (planParamsMap cfg))\<rparr>)"
proof -
  have "rp_GeneratedAt (ApplyPlanValues plans rep) = rp_GeneratedAt rep" for plans by (simp add: ApplyPlanValues_def)
  then show "snd (handleStats od ([CHR 0x22] @ hex_int (rp_GeneratedAt rep) @ [CHR 0x22]) cfg s) =
      StatsNotModified ([CHR 0x22] @ hex_int (rp_GeneratedAt rep) @ [CHR 0x22])"
    "snd (handleStats od [] cfg s) = StatsBody ([CHR 0x22] @ hex_int (rp_GeneratedAt rep) @ [CHR 0x22])
      ((ApplyPlanValues (planParamsMap cfg) rep)\<lparr>rp_PlanCost := ComputePlanCost od (map snd (planParamsMap cfg))\<rparr>)"
    using etagMatch_quoted [OF plain_hex_int plain_hex_int, of "rp_GeneratedAt rep" "rp_GeneratedAt rep"] etag_absent assms
    by (simp_all add: handleStats_def Let_def)
qed


text \<open>
  C38: the statistics route does not follow a change of the plans.  Once a reply showed the value of a plan,
  and the plan is then taken away or set to cost 0, a client that sends the ETag back is told that nothing
  changed, and a client without an ETag still gets the value of the old plan, because it was written into the
  report the scheduler keeps.
\<close>

theorem stats_keep_old_plan:
  fixes od :: orders and inm :: string
  assumes "CurrentStats s = Some rep" "map_of (rp_Sources rep) n = Some src"
    and "map_of (planParamsMap before) n = Some p" "pp_Cost p \<noteq> 0"
    and "pred_option (\<lambda>q. pp_Cost q = 0) (map_of (planParamsMap after) n)"
  defines "etag \<equiv> [CHR 0x22] @ hex_int (rp_GeneratedAt rep) @ [CHR 0x22]" and "s1 \<equiv> fst (handleStats od inm before s)"
  shows "snd (handleStats later etag after s1) = StatsNotModified etag \<and>
    (\<exists>rep2 src2. snd (handleStats later [] after s1) = StatsBody etag rep2 \<and> map_of (rp_Sources rep2) n = Some src2 \<and>
       sr_PlanValue src2 = Some (computePlanValue (tt_Cost (sr_Month src)) p))"
proof -
  have cur: "CurrentStats s1 = Some (ApplyPlanValues (planParamsMap before) rep)"
    using assms(1) by (simp add: s1_def handleStats_sched CurrentStats_def)
  have gen: "rp_GeneratedAt (ApplyPlanValues (planParamsMap before) rep) = rp_GeneratedAt rep" by (simp add: ApplyPlanValues_def)
  show ?thesis
    using stats_reply [OF cur, unfolded gen, folded etag_def, of later after]
      plan_value_kept [OF assms(5) plan_value_set [OF assms(3,4,2)]] by simp
qed

text \<open>The cost of the plan of Claude is set to 0.\<close>

definition free_claude :: config where
  "free_claude = local_config\<lparr>cf_ProviderConfigs := [(ProviderClaude, new_provider\<lparr>yp_ID := ProviderClaude,
     yp_Plan := Some \<lparr>pc_Cost = 0, pc_Currency = ''USD'', pc_CostUSD = 0, pc_HasCostUSD = False, pc_Label = ''Free''\<rparr>\<rparr>)]\<rparr>"

definition one_source :: report where
  "one_source = \<lparr>rp_GeneratedAt = 1700000000, rp_Sources = [(''claude_code'',
     \<lparr>sr_Today = \<lparr>tt_Tokens = 0, tt_Cost = 0, tt_Requests = 0\<rparr>, sr_Month = \<lparr>tt_Tokens = 0, tt_Cost = 25, tt_Requests = 3\<rparr>,
      sr_Models = [], sr_Days = [], sr_ActiveDays = 0, sr_Peak = \<lparr>pk_Date = [], pk_Tokens = 0\<rparr>, sr_UnpricedModels = [],
      sr_Partial = False, sr_UnpricedToday = [], sr_UnpricedMonth = [], sr_Billed = False, sr_Plan = ''Max'',
      sr_PlanValue = None\<rparr>)], rp_PlanCost = None\<rparr>"

theorem stats_keep_old_plan_witness:
  "\<forall>od. \<exists>etag rep2 src2 pv. snd (handleStats od [] free_claude (fst (handleStats od [] local_config
       (quiet_server\<lparr>sch_StatsReport := Some one_source\<rparr>)))) = StatsBody etag rep2 \<and>
     map_of (rp_Sources rep2) ''claude_code'' = Some src2 \<and> sr_PlanValue src2 = Some pv \<and> pv_Cost pv = 1100"
proof (intro allI)
  fix od
  let ?s = "quiet_server\<lparr>sch_StatsReport := Some one_source\<rparr>"
  have "map_option pp_Cost (map_of (planParamsMap local_config) ''claude_code'') = Some 1100" by code_simp
  then obtain p where p: "map_of (planParamsMap local_config) ''claude_code'' = Some p" "pp_Cost p = 1100" by auto
  have "map_option pp_Cost (map_of (planParamsMap free_claude) ''claude_code'') = Some 0" by code_simp
  then have q: "pred_option (\<lambda>q. pp_Cost q = 0) (map_of (planParamsMap free_claude) ''claude_code'')" by auto
  have cur: "CurrentStats ?s = Some one_source" by (simp add: CurrentStats_def)
  obtain src where src: "map_of (rp_Sources one_source) ''claude_code'' = Some src" by (simp add: one_source_def)
  have "pp_Cost p \<noteq> 0" using p(2) by simp
  from stats_keep_old_plan [OF cur src p(1) this q, where od = od and inm = "[]" and later = od]
  show "\<exists>etag rep2 src2 pv. snd (handleStats od [] free_claude (fst (handleStats od [] local_config ?s))) = StatsBody etag rep2 \<and>
     map_of (rp_Sources rep2) ''claude_code'' = Some src2 \<and> sr_PlanValue src2 = Some pv \<and> pv_Cost pv = 1100"
    using p(2) by (auto simp: computePlanValue_def Let_def)
qed

end
