(* ===== verification/Cli_Serve.thy ===== *)
theory Cli_Serve
  imports Once Api_Server_Facts
begin

text \<open>
  cmd/usaged, main.go, serve.go and config.go, with creds/keystore.go and web/web.go: which command runs, how
  \<open>usaged serve\<close> puts the scheduler and the server together and ends, the key store of macOS and the page.
\<close>

subsection \<open>main.go and config.go\<close>

datatype command = VersionCmd | ServeCmd | OnceCmd | StatsCmd | ConfigCmd | UnknownCmd string

definition run_command :: "string list \<Rightarrow> command \<times> string list" where
  "run_command args =
     (let (name, rest) = (case args of [] \<Rightarrow> (''serve'', []) | a # as \<Rightarrow> (a, as)) in
      (if name = ''version'' then VersionCmd else if name = ''serve'' then ServeCmd else if name = ''once'' then OnceCmd
       else if name = ''stats'' then StatsCmd else if name = ''config'' then ConfigCmd else UnknownCmd name, rest))"

text \<open>The flag set of \<open>version\<close> is empty: parsing fails at the first argument that looks like a flag.\<close>

definition no_flags_parse :: "string list \<Rightarrow> bool" where
  "no_flags_parse args = (case args of [] \<Rightarrow> True
     | a # _ \<Rightarrow> length a < 2 \<or> hd a \<noteq> CHR ''-'' \<or> a = ''--'')"

definition run_version :: "string \<Rightarrow> string \<Rightarrow> string list \<Rightarrow> int \<times> string option" where
  "run_version version commit rest =
     (if no_flags_parse rest then (0, Some (''ai-usage '' @ version @ '' ('' @ commit @ '')'' @ newline)) else (2, None))"

definition runConfig :: "config_error + config \<Rightarrow> int \<times> (config_error + (string \<times> setting) list)" where
  "runConfig loaded = (case loaded of Inl e \<Rightarrow> (2, Inl e) | Inr c \<Rightarrow> (0, Inr (Redacted c)))"

subsection \<open>serve.go\<close>

text \<open>\<open>dir\<close> is the directory \<open>resolveFixturesDir\<close> gave.\<close>

definition serve_config :: "string \<Rightarrow> config \<Rightarrow> config" where
  "serve_config dir c =
     (let c = c\<lparr>cf_FixturesDir := dir\<rparr> in
      if dir \<noteq> [] then c\<lparr>cf_StatsPath := [], cf_StatsIndexPath := [], cf_ClaudeDir := [], cf_CodexDir := []\<rparr> else c)"

text \<open>What the files hold: the state (left for a corrupt one), the index, the report, and the report among the
  fixtures; \<open>None\<close> where nothing was loaded.\<close>

record ('i, 'r) stored =
  sd_state :: "load_error + state"
  sd_index :: "'i option"
  sd_report :: "'r option"
  sd_fixture :: "'r option"

definition serve_sched :: "outside \<Rightarrow> string \<Rightarrow> ('i, 'r) stored \<Rightarrow> 'i \<Rightarrow> config \<Rightarrow> ('i, 'r) sched" where
  "serve_sched ot dir sd no_index c =
     (let s = (NewScheduler no_index (buildFetchers ot c) (cf_Interval c) (cf_StatePath c))
            \<lparr>sch_PublishURL := cf_PublishURL c, sch_PublishToken := cf_PublishToken c, sch_ProviderOrder := cf_ProviderOrder c,
             sch_StatsConfigured := (cf_ClaudeDir c \<noteq> [] \<or> cf_CodexDir c \<noteq> []), sch_StatsScanPath := cf_StatsIndexPath c,
             sch_StatsPath := cf_StatsPath c\<rparr>;
          s = (if cf_StatePath c \<noteq> [] then (case sd_state sd of Inl _ \<Rightarrow> s | Inr st \<Rightarrow> LoadState st s) else s);
          s = (if cf_StatsIndexPath c \<noteq> [] then LoadStatsIndex (sd_index sd) s else s);
          s = (if cf_StatsPath c \<noteq> [] then LoadStatsReport (sd_report sd) s else s) in
      if dir \<noteq> [] then LoadStatsReport (sd_fixture sd) s else s)"

text \<open>How the wait in \<open>runServe\<close> ends: the listener returns, or a signal arrives.\<close>

datatype server_end = ListenerEnded | SignalArrived

definition runServe ::
  "outside \<Rightarrow> string \<Rightarrow> ('i, report) stored \<Rightarrow> 'i \<Rightarrow> bool \<Rightarrow> 'k \<Rightarrow> string fs \<Rightarrow> device_fs \<Rightarrow> string \<Rightarrow> string \<Rightarrow> int \<Rightarrow>
     config_error + config \<Rightarrow> server_end \<Rightarrow> int \<times> ('i, 'k) agent option" where
  "runServe ot dir sd no_index ble keys files devs version commit now loaded ending =
     (case loaded of
        Inl e \<Rightarrow> (2, None)
      | Inr c \<Rightarrow>
          (let c = serve_config dir c in
           case New (serve_sched ot dir sd no_index c) c (cf_ConfigPath c) ble keys files devs version commit now of
             Inl _ \<Rightarrow> (2, None)
           | Inr ag \<Rightarrow> (case ending of ListenerEnded \<Rightarrow> 1 | SignalArrived \<Rightarrow> 0, Some ag)))"

subsection \<open>creds/keystore.go\<close>

text \<open>The command \<open>security\<close>: what it prints, the text of its error, and the keychain afterwards.\<close>

record cmd_result =
  cr_out :: string
  cr_err :: "string option"

type_synonym 's security = "string list \<Rightarrow> 's \<Rightarrow> 's \<times> cmd_result"

definition item_missing :: "string \<Rightarrow> bool" where
  "item_missing msg \<longleftrightarrow> str_contains msg ''could not be found'' \<or> str_contains msg ''exit status 44''"

definition mac_Get :: "'s security \<Rightarrow> 's \<Rightarrow> string \<Rightarrow> string + string option" where
  "mac_Get sec s i =
     (let r = snd (sec [''find-generic-password'', ''-s'', ''usaged'', ''-a'', i, ''-w''] s) in
      case cr_err r of
        None \<Rightarrow> Inr (Some (trim_space (cr_out r)))
      | Some msg \<Rightarrow> if item_missing msg then Inr None else Inl msg)"

definition mac_Set :: "'s security \<Rightarrow> 's \<Rightarrow> string \<Rightarrow> string \<Rightarrow> 's option" where
  "mac_Set sec s i key =
     (case sec [''add-generic-password'', ''-U'', ''-s'', ''usaged'', ''-a'', i, ''-w'', key] s of
        (s', r) \<Rightarrow> (case cr_err r of None \<Rightarrow> Some s' | Some _ \<Rightarrow> None))"

definition mac_Delete :: "'s security \<Rightarrow> 's \<Rightarrow> string \<Rightarrow> 's option" where
  "mac_Delete sec s i =
     (case sec [''delete-generic-password'', ''-s'', ''usaged'', ''-a'', i] s of
        (s', r) \<Rightarrow> (case cr_err r of None \<Rightarrow> Some s'
          | Some msg \<Rightarrow> if item_missing (msg @ '' '' @ cr_out r) then Some s' else None))"

text \<open>\<open>buildFetchers\<close> and the handlers use the key and drop the error.\<close>

definition mac_key :: "'s security \<Rightarrow> 's \<Rightarrow> string \<Rightarrow> string option" where
  "mac_key sec s i = (case mac_Get sec s i of Inl _ \<Rightarrow> None | Inr k \<Rightarrow> k)"

subsection \<open>web.go\<close>

fun replace_first :: "string \<Rightarrow> string \<Rightarrow> string \<Rightarrow> string" where
  "replace_first a b [] = (if a = [] then b else [])"
| "replace_first a b (c # cs) =
     (if has_prefix (c # cs) a then b @ drop (length a) (c # cs) else c # replace_first a b cs)"

definition assemble :: "(string \<Rightarrow> string) \<Rightarrow> string" where
  "assemble read =
     (let styles = read ''base.css'' @ newline @ read ''views.css'';
          scripts = join_char (CHR 0x0A) (map read [''core.js'', ''settings.js'', ''device.js'', ''render.js'', ''app.js'']);
          html = replace_first ''/* {{styles}} */'' styles (read ''index.html'') in
      replace_first ''/* {{scripts}} */'' scripts html)"


subsection \<open>Serving fixtures\<close>

fun polls :: "location \<Rightarrow> ('i \<Rightarrow> 'i \<times> 'r option) \<Rightarrow> int list \<Rightarrow> ('i, 'r) sched \<Rightarrow> ('i, 'r) sched \<times> ('i, 'r) effect list" where
  "polls loc scan [] s = (s, [])"
| "polls loc scan (now # nows) s =
     (let (s1, e1) = pollOnce loc scan now s; (s2, e2) = polls loc scan nows s1 in (s2, e1 @ e2))"

text \<open>A scheduler that has nothing to scan, and the place of its state.\<close>

definition no_scan :: "('i, 'r) sched \<Rightarrow> string \<Rightarrow> string \<Rightarrow> string \<Rightarrow> bool" where
  "no_scan s path url tok \<longleftrightarrow> \<not> sch_StatsConfigured s \<and> sch_StatePath s = path \<and> sch_PublishURL s = url \<and> sch_PublishToken s = tok"

definition state_or_publish :: "string \<Rightarrow> string \<Rightarrow> string \<Rightarrow> ('i, 'r) effect \<Rightarrow> bool" where
  "state_or_publish path url tok e =
     (case e of SaveState p _ \<Rightarrow> p = path | Publish u t _ \<Rightarrow> u = url \<and> t = tok \<and> url \<noteq> [] | _ \<Rightarrow> False)"

lemma poll_no_scan:
  assumes "no_scan s path url tok"
  shows "no_scan (fst (pollOnce loc scan now s)) path url tok"
    and "CurrentStats (fst (pollOnce loc scan now s)) = CurrentStats s"
    and "list_all (state_or_publish path url tok) (snd (pollOnce loc scan now s))"
    and "path \<noteq> [] \<Longrightarrow> \<exists>st. SaveState path st \<in> set (snd (pollOnce loc scan now s))"
  using assms
  by (simp_all add: no_scan_def pollOnce_def apply_poll_def Let_def split_beta CurrentStats_def publish_def state_or_publish_def)

lemma polls_no_scan:
  assumes "no_scan s path url tok"
  shows "CurrentStats (fst (polls loc scan nows s)) = CurrentStats s \<and>
    list_all (state_or_publish path url tok) (snd (polls loc scan nows s)) \<and>
    (path \<noteq> [] \<longrightarrow> nows \<noteq> [] \<longrightarrow> (\<exists>st. SaveState path st \<in> set (snd (polls loc scan nows s))))"
  using assms
proof (induction nows arbitrary: s)
  case (Cons now nows)
  note p = poll_no_scan [OF Cons.prems, of loc scan now]
  show ?case using Cons.IH [OF p(1)] p(2,3,4) by (auto simp: split_beta)
qed simp

lemma serve_sched_fields:
  "sch_StatsConfigured (serve_sched ot dir sd ni c) = (cf_ClaudeDir c \<noteq> [] \<or> cf_CodexDir c \<noteq> [])"
  "sch_StatePath (serve_sched ot dir sd ni c) = cf_StatePath c"
  "sch_PublishURL (serve_sched ot dir sd ni c) = cf_PublishURL c"
  "sch_PublishToken (serve_sched ot dir sd ni c) = cf_PublishToken c"
  by (auto simp: serve_sched_def Let_def NewScheduler_def LoadState_def LoadStatsIndex_def LoadStatsReport_def
      split: option.split sum.split)

lemma serve_sched_report:
  "CurrentStats (serve_sched ot dir sd ni (serve_config dir c)) = sd_fixture sd" if "dir \<noteq> []"
  using that by (auto simp: serve_sched_def serve_config_def Let_def NewScheduler_def LoadState_def LoadStatsIndex_def
      LoadStatsReport_def CurrentStats_def split: option.split sum.split)

text \<open>
  What \<open>usaged serve\<close> writes when it serves fixtures.  However often it polls, no transcript is scanned,
  no statistics file is written and the report stays the one of the fixtures; but the state of the invented
  accounts is written to the configured state path at every poll, over the state of the real ones, and is
  published where the configuration says.
\<close>

theorem fixture_serve_effects:
  assumes "dir \<noteq> []" "cf_StatePath c \<noteq> []" "nows \<noteq> []"
    and "polls loc scan nows (serve_sched ot dir sd ni (serve_config dir c)) = (s', es)"
  shows "CurrentStats s' = sd_fixture sd \<and>
    list_all (state_or_publish (cf_StatePath c) (cf_PublishURL c) (cf_PublishToken c)) es \<and>
    (\<exists>st. SaveState (cf_StatePath c) st \<in> set es)"
proof -
  let ?s = "serve_sched ot dir sd ni (serve_config dir c)"
  have "no_scan ?s (cf_StatePath c) (cf_PublishURL c) (cf_PublishToken c)"
    using assms(1) by (simp add: no_scan_def serve_sched_fields serve_config_def Let_def)
  from polls_no_scan [OF this, of loc scan nows] show ?thesis
    using assms(2-4) serve_sched_report [OF assms(1), of ot sd ni c] by simp
qed

definition nothing_stored :: "(unit, unit) stored" where
  "nothing_stored = \<lparr>sd_state = Inr empty_state, sd_index = None, sd_report = None, sd_fixture = Some ()\<rparr>"

theorem fixture_serve_effects_witness:
  "\<exists>st. SaveState DefaultStatePath st \<in> set (snd (polls (\<lambda>_. 0) (\<lambda>i. (i, None)) [0]
     (serve_sched offline ''fixtures'' nothing_stored () (serve_config ''fixtures'' (default_config (\<lambda>_. True))))))"
proof -
  have "cf_StatePath (default_config (\<lambda>_. True)) = DefaultStatePath" "DefaultStatePath \<noteq> []"
    by (simp_all add: default_config_def DefaultStatePath_def)
  then show ?thesis
    using fixture_serve_effects [of "''fixtures''" "default_config (\<lambda>_. True)" "[0]" "\<lambda>_. 0" "\<lambda>i. (i, None)" offline nothing_stored "()"]
    by (auto simp: prod_eq_iff)
qed


subsection \<open>The key store of macOS\<close>

lemma trim_end_newline:
  assumes "v \<noteq> []" "graphic (hd v)" "graphic (last v)"
  shows "trim_space (v @ newline) = v"
proof -
  have nl: "trim_left_by (map rev space_seqs) (CHR 0x0A # s) = trim_left_by (map rev space_seqs) s" for s
  proof -
    have "filter (\<lambda>q. take (length q) (map of_char (CHR 0x0A # s)) = q) (map rev space_seqs) = [[10]]"
      by (simp add: space_seqs_def upt_conv_Cons)
    then show ?thesis by (subst trim_left_by.simps) (simp add: space_len_def)
  qed
  have "trim_left_by space_seqs (v @ newline) = v @ newline" using assms by (intro trim_left_graphic) simp
  moreover have "trim_left_by (map rev space_seqs) (rev v) = rev v" using assms by (intro trim_left_graphic) (simp add: hd_rev)
  ultimately show ?thesis by (simp add: trim_space_def newline_def nl)
qed

text \<open>
  What the manual page of \<open>security\<close> says, on the items of the service \<open>usaged\<close>: finding prints the password
  and a newline or fails with status 44; adding with \<open>-U\<close> replaces; a failing command changes nothing, and
  deleting fails with status 44 only if there is nothing to delete.
\<close>

definition security_laws :: "'s security \<Rightarrow> ('s \<Rightarrow> string \<Rightarrow> string option) \<Rightarrow> bool" where
  "security_laws sec items \<longleftrightarrow>
     (\<forall>s i. case items s i of
        Some v \<Rightarrow> snd (sec [''find-generic-password'', ''-s'', ''usaged'', ''-a'', i, ''-w''] s) = \<lparr>cr_out = v @ newline, cr_err = None\<rparr>
      | None \<Rightarrow> cr_err (snd (sec [''find-generic-password'', ''-s'', ''usaged'', ''-a'', i, ''-w''] s)) = Some ''exit status 44'') \<and>
     (\<forall>s i v. items (fst (sec [''add-generic-password'', ''-U'', ''-s'', ''usaged'', ''-a'', i, ''-w'', v] s)) =
        (if cr_err (snd (sec [''add-generic-password'', ''-U'', ''-s'', ''usaged'', ''-a'', i, ''-w'', v] s)) = None
         then (items s)(i \<mapsto> v) else items s)) \<and>
     (\<forall>s i. case sec [''delete-generic-password'', ''-s'', ''usaged'', ''-a'', i] s of (s', r) \<Rightarrow>
        (case cr_err r of None \<Rightarrow> items s' = (items s)(i := None)
         | Some msg \<Rightarrow> items s' = items s \<and> (item_missing (msg @ '' '' @ cr_out r) \<longrightarrow> items s i = None)))"

lemma mac_key_items:
  assumes "security_laws sec items"
  shows "mac_key sec s i = map_option (\<lambda>v. trim_space (v @ newline)) (items s i)"
proof -
  have "item_missing ''exit status 44''" by code_simp
  moreover have "case items s i of
        Some v \<Rightarrow> snd (sec [''find-generic-password'', ''-s'', ''usaged'', ''-a'', i, ''-w''] s) = \<lparr>cr_out = v @ newline, cr_err = None\<rparr>
      | None \<Rightarrow> cr_err (snd (sec [''find-generic-password'', ''-s'', ''usaged'', ''-a'', i, ''-w''] s)) = Some ''exit status 44''"
    using assms unfolding security_laws_def by blast
  ultimately show ?thesis by (cases "items s i") (simp_all add: mac_key_def mac_Get_def Let_def)
qed

lemma mac_Set_items:
  assumes "security_laws sec items" "mac_Set sec s i v = Some s'"
  shows "items s' = (items s)(i \<mapsto> v)"
proof -
  let ?a = "sec [''add-generic-password'', ''-U'', ''-s'', ''usaged'', ''-a'', i, ''-w'', v] s"
  have "items (fst ?a) = (if cr_err (snd ?a) = None then (items s)(i \<mapsto> v) else items s)"
    using assms(1) unfolding security_laws_def by blast
  then show ?thesis using assms(2) by (auto simp: mac_Set_def split_beta split: option.splits)
qed

lemma mac_Delete_items:
  assumes "security_laws sec items" "mac_Delete sec s i = Some s'"
  shows "items s' = (items s)(i := None)"
proof -
  obtain t r where c: "sec [''delete-generic-password'', ''-s'', ''usaged'', ''-a'', i] s = (t, r)" by fastforce
  note assms(1) [unfolded security_laws_def, THEN conjunct2, THEN conjunct2, THEN spec [of _ s], THEN spec [of _ i], unfolded c prod.case]
  then show ?thesis using assms(2) c by (auto simp: mac_Delete_def split: option.splits if_splits)
qed

lemma mac_key_store:
  assumes "security_laws sec items"
  shows "key_store (\<lambda>v. trim_space (v @ newline)) (mac_key sec) (mac_Set sec) (mac_Delete sec)"
  using mac_Set_items [OF assms] mac_Delete_items [OF assms]
  by unfold_locales (simp_all add: mac_key_items [OF assms])

text \<open>
  A key stored through the dashboard is the key the fetchers get.  With the keychain tool as its manual
  page describes it, an accepted \<open>POST /v1/keys\<close> of a key that starts and ends with a visible character is
  read back byte for byte, an accepted \<open>DELETE\<close> leaves none, and no other provider's key changes.
\<close>

theorem mac_key_roundtrip:
  assumes "security_laws sec items"
  shows "(handleSetKey (mac_Set sec) now addr (Some (i, v)) rl s = (rl', s', 200, again) \<longrightarrow>
      graphic (hd v) \<and> graphic (last v) \<longrightarrow> mac_key sec s' = (mac_key sec s)(i \<mapsto> v)) \<and>
    (handleDeleteKey (mac_Delete sec) now addr i rl s = (rl', s', 200, again) \<longrightarrow>
      mac_key sec s' = (mac_key sec s)(i := None))"
proof (intro conjI impI)
  assume h: "handleSetKey (mac_Set sec) now addr (Some (i, v)) rl s = (rl', s', 200, again)" and g: "graphic (hd v) \<and> graphic (last v)"
  note e = key_store.set_key_effect [OF mac_key_store [OF assms] h]
  moreover have "trim_space [] = []" by code_simp
  ultimately have "trim_space (v @ newline) = v" using g by (intro trim_end_newline) auto
  then show "mac_key sec s' = (mac_key sec s)(i \<mapsto> v)" using e by (auto simp: fun_eq_iff)
next
  assume "handleDeleteKey (mac_Delete sec) now addr i rl s = (rl', s', 200, again)"
  from key_store.delete_key_effect [OF mac_key_store [OF assms] this]
  show "mac_key sec s' = (mac_key sec s)(i := None)" by (simp add: fun_eq_iff)
qed

text \<open>A keychain as an association list.\<close>

definition small_security :: "(string \<times> string) list security" where
  "small_security args s =
     (if hd args = ''find-generic-password'' then
        (s, case map_of s (args ! 4) of Some v \<Rightarrow> \<lparr>cr_out = v @ newline, cr_err = None\<rparr>
            | None \<Rightarrow> \<lparr>cr_out = [], cr_err = Some ''exit status 44''\<rparr>)
      else if hd args = ''add-generic-password'' then (AList.update (args ! 5) (args ! 7) s, \<lparr>cr_out = [], cr_err = None\<rparr>)
      else if map_of s (args ! 4) = None then (s, \<lparr>cr_out = [], cr_err = Some ''exit status 44''\<rparr>)
      else (AList.delete (args ! 4) s, \<lparr>cr_out = [], cr_err = None\<rparr>))"

lemma small_security_laws: "security_laws small_security map_of"
  by (auto simp: security_laws_def small_security_def update_conv' delete_conv' split: option.split)

interpretation small: key_store "\<lambda>v. trim_space (v @ newline)" "mac_key small_security" "mac_Set small_security" "mac_Delete small_security"
  by (rule mac_key_store [OF small_security_laws])

theorem mac_key_roundtrip_witness:
  "mac_key small_security (fst (snd (handleSetKey (mac_Set small_security) 1 ''127.0.0.1:5000'' (Some (''groq'', ''gsk_1'')) (newRateLimiter 5 Minute) []))) ''groq'' =
     Some ''gsk_1''"
proof -
  have lo: "isLoopbackAddr ''127.0.0.1:5000''" "trim_space ''gsk_1'' \<noteq> []" by code_simp+
  have al: "allow 1 (newRateLimiter 5 Minute) = (\<lparr>rl_max = 5, rl_window = Minute, rl_count = 1, rl_start = 1\<rparr>, True)"
    by (simp add: allow_def newRateLimiter_def is_zero_def)
  let ?h = "handleSetKey (mac_Set small_security) 1 ''127.0.0.1:5000'' (Some (''groq'', ''gsk_1'')) (newRateLimiter 5 Minute) []"
  have h: "?h = (fst ?h, fst (snd ?h), 200, True)"
    using lo al by (simp add: handleSetKey_def mac_Set_def small_security_def validKeyProviderIDs_def)
  have "mac_key small_security (fst (snd ?h)) = (mac_key small_security [])(''groq'' \<mapsto> ''gsk_1'')"
    using mac_key_roundtrip [OF small_security_laws, of 1 "''127.0.0.1:5000''" "''groq''" "''gsk_1''" "newRateLimiter 5 Minute" "[]" "fst ?h" "fst (snd ?h)" True] h
    by (simp add: graphic_def)
  then show ?thesis by simp
qed


subsection \<open>The served agent\<close>

lemma serve_sched_ok:
  assumes "MinIntervalSec * Second \<le> cf_Interval c"
    and "\<And>st. sd_state sd = Inr st \<Longrightarrow> snap_V (st_Snapshot st) = 1 \<Longrightarrow> snap_Rev (st_Snapshot st) = Rev (snap_Providers (st_Snapshot st))"
  shows "sched_ok (serve_sched ot dir sd ni c)"
proof -
  have e: "snap_V (st_Snapshot empty_state) \<noteq> 1" by (simp add: empty_state_def empty_snapshot_def)
  have i: "sch_Interval (serve_sched ot dir sd ni c) = cf_Interval c" "sch_Fetchers (serve_sched ot dir sd ni c) = buildFetchers ot c"
    "Current (serve_sched ot dir sd ni c) = st_Snapshot (if cf_StatePath c = [] then empty_state else case sd_state sd of Inl _ \<Rightarrow> empty_state | Inr st \<Rightarrow> st)"
    by (auto simp: serve_sched_def Let_def NewScheduler_def LoadState_def LoadStatsIndex_def LoadStatsReport_def Current_def
        split: option.split sum.split)
  show ?thesis
    using assms e by (auto simp: sched_ok_def i distinct_fetchers split: sum.split)
qed

lemma serve_config_fields [simp]:
  "cf_Interval (serve_config dir c) = cf_Interval c" "cf_StatePath (serve_config dir c) = cf_StatePath c"
  "cf_Listen (serve_config dir c) = cf_Listen c" "cf_DeviceToken (serve_config dir c) = cf_DeviceToken c"
  by (simp_all add: serve_config_def Let_def)

lemma good_fetcher_builder: "good_builder (Some (\<lambda>k. buildFetchers (out k)))"
  by (simp add: good_builder_def distinct_fetchers)



end
