(* ===== verification/Receiver.thy ===== *)
theory Receiver
  imports Sched Go_Net
begin

text \<open>
  contrib/receiver/main.go: the receiver a copy of the snapshot is published to, and the two programs
  together.  The marshalling of a snapshot and the decoder that finds its revision are parameters.
\<close>

subsection \<open>The program\<close>

text \<open>The body that was received, and its revision.\<close>

record rcv_store =
  rs_body :: "string option"
  rs_rev :: string

definition empty_store :: rcv_store where
  "empty_store = \<lparr>rs_body = None, rs_rev = []\<rparr>"

text \<open>\<open>main\<close>: the flag, else the environment; without a token the program ends with code 2.\<close>

definition receiver_token :: "string option \<Rightarrow> string \<Rightarrow> int + string" where
  "receiver_token flag env = (let token = (case flag of Some t \<Rightarrow> t | None \<Rightarrow> env) in if token = [] then Inl 2 else Inr token)"

definition bearer :: "string \<Rightarrow> string \<Rightarrow> bool" where
  "bearer auth token \<longleftrightarrow> has_prefix auth ''Bearer '' \<and> drop 7 auth = token"

datatype rcv_reply =
    Unauthorized
  | InvalidSnapshot
  | Stored string
  | NoSnapshot
  | Unchanged string
  | Body string string

definition rcv_status :: "rcv_reply \<Rightarrow> nat" where
  "rcv_status r = (case r of Unauthorized \<Rightarrow> 401 | InvalidSnapshot \<Rightarrow> 400 | Stored _ \<Rightarrow> 204 | NoSnapshot \<Rightarrow> 404
     | Unchanged _ \<Rightarrow> 304 | Body _ _ \<Rightarrow> 200)"

definition rcv_limit :: nat where
  "rcv_limit = 2 ^ 20"

text \<open>\<open>dec\<close> gives the revision of a JSON object, empty if it has none; the request is what arrived of its body.\<close>

definition handlePut :: "(string \<Rightarrow> string option) \<Rightarrow> string \<Rightarrow> string \<Rightarrow> string \<Rightarrow> rcv_store \<Rightarrow> rcv_store \<times> rcv_reply" where
  "handlePut dec token auth raw st =
     (if \<not> bearer auth token then (st, Unauthorized)
      else (let body = take rcv_limit raw in
        case dec body of
          None \<Rightarrow> (st, InvalidSnapshot)
        | Some r \<Rightarrow> (\<lparr>rs_body = Some body, rs_rev = r\<rparr>, Stored r)))"

definition trim_quotes :: "string \<Rightarrow> string" where
  "trim_quotes s = trim_right_char (CHR 0x22) (trim_left_char (CHR 0x22) s)"

definition rcv_etagMatch :: "string \<Rightarrow> string \<Rightarrow> bool" where
  "rcv_etagMatch inm r = list_ex (\<lambda>p. trim_quotes (trim_prefix (trim_space p) ''W/'') = r) (split_char (CHR 0x2C) inm)"

definition handleGet :: "string \<Rightarrow> string \<Rightarrow> string \<Rightarrow> rcv_store \<Rightarrow> rcv_reply" where
  "handleGet token auth inm st =
     (if \<not> bearer auth token then Unauthorized
      else (case rs_body st of
        None \<Rightarrow> NoSnapshot
      | Some body \<Rightarrow> (let etag = [CHR 0x22] @ rs_rev st @ [CHR 0x22] in
          if rcv_etagMatch inm (rs_rev st) then Unchanged etag else Body etag body)))"

subsection \<open>Agent and receiver\<close>

text \<open>
  What happens: a poll, whose \<open>PUT\<close> arrives or is lost; the agent is given other fetchers, another display
  order or another interval; the receiver is started anew.
\<close>

datatype ('i, 'r) mirror_event =
    Polled location "'i \<Rightarrow> 'i \<times> 'r option" int bool
  | Reconfigured "fetcher list" "string list" int
  | ReceiverRestarted

text \<open>\<open>publish\<close> sends the snapshot with the token of the agent.\<close>

definition authorization :: "string \<Rightarrow> string" where
  "authorization token = ''Bearer '' @ token"

definition put_of :: "(snapshot \<Rightarrow> string) \<Rightarrow> (string \<Rightarrow> string option) \<Rightarrow> string \<Rightarrow> bool \<Rightarrow> ('i, 'r) effect \<Rightarrow> rcv_store \<Rightarrow> rcv_store" where
  "put_of marshal dec token arrives e st =
     (case e of Publish url tok snap \<Rightarrow>
        if arrives then fst (handlePut dec token (authorization tok) (marshal snap) st) else st
      | _ \<Rightarrow> st)"

fun mirror :: "(snapshot \<Rightarrow> string) \<Rightarrow> (string \<Rightarrow> string option) \<Rightarrow> string \<Rightarrow> ('i, 'r) mirror_event \<Rightarrow>
    ('i, 'r) sched \<times> rcv_store \<Rightarrow> ('i, 'r) sched \<times> rcv_store" where
  "mirror marshal dec token (Polled loc scan now arrives) (s, st) =
     (case pollOnce loc scan now s of (s', es) \<Rightarrow> (s', fold (put_of marshal dec token arrives) es st))"
| "mirror marshal dec token (Reconfigured fs order d) (s, st) =
     (SetInterval d (SetProviderOrder order (SetFetchers fs s)), st)"
| "mirror marshal dec token ReceiverRestarted (s, st) = (s, empty_store)"

definition mirror_run :: "(snapshot \<Rightarrow> string) \<Rightarrow> (string \<Rightarrow> string option) \<Rightarrow> string \<Rightarrow> ('i, 'r) mirror_event list \<Rightarrow>
    ('i, 'r) sched \<times> rcv_store \<Rightarrow> ('i, 'r) sched \<times> rcv_store" where
  "mirror_run marshal dec token es w = fold (mirror marshal dec token) es w"


subsection \<open>One poll\<close>

lemma store_snapshot [simp]: "st_Snapshot (store_last i q st) = st_Snapshot st" "st_Snapshot (store_cooldown i u st) = st_Snapshot st"
  by (simp_all add: store_last_def store_cooldown_def split: option.split)

lemma run_fetcher_snapshot: "st_Snapshot (fst (run_fetcher loc interval now f w)) = st_Snapshot (fst w)"
  by (cases w) (simp add: run_fetcher_def Let_def split: prod.split)

lemma poll_results_snapshot: "st_Snapshot (fst (poll_results loc interval now fs st)) = st_Snapshot st"
proof -
  have "st_Snapshot (fst (fold (run_fetcher loc interval now) fs w)) = st_Snapshot (fst w)" for w
    by (induction fs arbitrary: w) (simp_all add: run_fetcher_snapshot)
  then show ?thesis by (simp add: poll_results_def)
qed

text \<open>A poll publishes the new snapshot exactly when its sequence number grew, that is, when the revision changed.\<close>

definition sent :: "('i, 'r) effect \<Rightarrow> (string \<times> snapshot) option" where
  "sent e = (case e of Publish url tok snap \<Rightarrow> Some (tok, snap) | _ \<Rightarrow> None)"

lemma sends_append: "List.map_filter sent (a @ b) = List.map_filter sent a @ List.map_filter sent b"
  by (simp add: List.map_filter_def)

lemma scan_sends_nothing: "List.map_filter sent (snd (scanStats scan s)) = []"
  by (simp add: scanStats_def sent_def List.map_filter_def split: prod.split option.split)

lemma scan_keeps_public [simp]:
  "Current (fst (scanStats scan s)) = Current s" "sch_PublishURL (fst (scanStats scan s)) = sch_PublishURL s"
  "sch_PublishToken (fst (scanStats scan s)) = sch_PublishToken s"
  by (simp_all add: Current_def scanStats_def split: prod.split option.split)

lemma apply_poll_public:
  obtains ps where "Current (fst (apply_poll loc now s)) = Apply ps (to_unix now) (Current s)"
    and "sch_PublishURL (fst (apply_poll loc now s)) = sch_PublishURL s"
    and "sch_PublishToken (fst (apply_poll loc now s)) = sch_PublishToken s"
    and "List.map_filter sent (snd (apply_poll loc now s)) =
      (if Rev ps \<noteq> snap_Rev (Current s) \<and> sch_PublishURL s \<noteq> [] then [(sch_PublishToken s, Apply ps (to_unix now) (Current s))] else [])"
proof -
  obtain st R where r: "poll_results loc (sch_Interval s) now (sch_Fetchers s) (sch_State s) = (st, R)" by fastforce
  let ?ps = "orderProviders (List.map_filter (\<lambda>f. R (fst f)) (sch_Fetchers s)) (sch_ProviderOrder s) now"
  have st: "st_Snapshot st = Current s"
    using poll_results_snapshot [of loc "sch_Interval s" now "sch_Fetchers s" "sch_State s"] by (simp add: r Current_def)
  show ?thesis
    by (rule that [of ?ps])
       (simp_all add: apply_poll_def r Let_def Current_def st [unfolded Current_def] publish_def sent_def List.map_filter_def)
qed

lemma poll_public:
  obtains ps where "Current (fst (pollOnce loc scan now s)) = Apply ps (to_unix now) (Current s)"
    and "sch_PublishURL (fst (pollOnce loc scan now s)) = sch_PublishURL s"
    and "sch_PublishToken (fst (pollOnce loc scan now s)) = sch_PublishToken s"
    and "List.map_filter sent (snd (pollOnce loc scan now s)) =
      (if Rev ps \<noteq> snap_Rev (Current s) \<and> sch_PublishURL s \<noteq> [] then [(sch_PublishToken s, Apply ps (to_unix now) (Current s))] else [])"
  using apply_poll_public [of loc now s thesis]
  by (auto simp: pollOnce_def Let_def split_beta scan_sends_nothing sends_append)


lemma put_of_sent: "put_of marshal dec token arrives e st =
    (case sent e of None \<Rightarrow> st | Some (tok, snap) \<Rightarrow>
       if arrives then fst (handlePut dec token (authorization tok) (marshal snap) st) else st)"
  by (cases e) (simp_all add: put_of_def sent_def)

lemma fold_put_of: "fold (put_of marshal dec token arrives) es st =
    fold (\<lambda>(tok, snap) st. if arrives then fst (handlePut dec token (authorization tok) (marshal snap) st) else st)
      (List.map_filter sent es) st"
  by (induction es arbitrary: st) (auto simp: put_of_sent List.map_filter_def split: option.split)

lemma bearer_own [simp]: "bearer (authorization token) token"
  by (simp add: authorization_def bearer_def has_prefix_def)

lemma put_stores:
  assumes "length (marshal snap) \<le> rcv_limit" "dec (marshal snap) = Some r"
  shows "fst (handlePut dec token (authorization token) (marshal snap) st) = \<lparr>rs_body = Some (marshal snap), rs_rev = r\<rparr>"
  using assms by (simp add: handlePut_def)

subsection \<open>The receiver follows the agent\<close>

text \<open>A snapshot the receiver can take, and events by which nothing is lost.\<close>

definition takes :: "(snapshot \<Rightarrow> string) \<Rightarrow> (string \<Rightarrow> string option) \<Rightarrow> snapshot \<Rightarrow> bool" where
  "takes marshal dec sn \<longleftrightarrow> length (marshal sn) \<le> rcv_limit \<and> dec (marshal sn) = Some (snap_Rev sn)"

definition lossless :: "('i, 'r) mirror_event \<Rightarrow> bool" where
  "lossless e = (case e of Polled _ _ _ arrives \<Rightarrow> arrives | Reconfigured _ _ _ \<Rightarrow> True | ReceiverRestarted \<Rightarrow> False)"

definition same_version :: "snapshot \<Rightarrow> snapshot \<Rightarrow> bool" where
  "same_version a b \<longleftrightarrow> snap_Rev a = snap_Rev b \<and> snap_Seq a = snap_Seq b \<and> snap_GeneratedAt a = snap_GeneratedAt b"

text \<open>What the receiver holds while the agent, which started at \<open>seq\<close>, is at \<open>cur\<close>.\<close>

definition mirrored :: "(snapshot \<Rightarrow> string) \<Rightarrow> int \<Rightarrow> snapshot \<Rightarrow> rcv_store \<Rightarrow> bool" where
  "mirrored marshal seq cur st \<longleftrightarrow>
     (if snap_Seq cur = seq then st = empty_store
      else seq < snap_Seq cur \<and> (\<exists>sn. same_version sn cur \<and> st = \<lparr>rs_body = Some (marshal sn), rs_rev = snap_Rev sn\<rparr>))"

definition publishes_to :: "string \<Rightarrow> ('i, 'r) sched \<Rightarrow> bool" where
  "publishes_to token s \<longleftrightarrow> sch_PublishURL s \<noteq> [] \<and> sch_PublishToken s = token"

lemma reconfigured_public [simp]:
  "Current (SetInterval d (SetProviderOrder order (SetFetchers fs s))) = Current s"
  "publishes_to token (SetInterval d (SetProviderOrder order (SetFetchers fs s))) = publishes_to token s"
  by (simp_all add: SetInterval_def SetProviderOrder_def SetFetchers_def Current_def publishes_to_def)

lemma mirror_step:
  assumes "mirrored marshal seq (Current s) st" "publishes_to token s" "lossless e"
    and "mirror marshal dec token e (s, st) = (s', st')" "takes marshal dec (Current s')"
  shows "mirrored marshal seq (Current s') st' \<and> publishes_to token s'"
proof (cases e)
  case (Polled loc scan now arrives)
  obtain ps where p: "Current (fst (pollOnce loc scan now s)) = Apply ps (to_unix now) (Current s)"
    "sch_PublishURL (fst (pollOnce loc scan now s)) = sch_PublishURL s"
    "sch_PublishToken (fst (pollOnce loc scan now s)) = sch_PublishToken s"
    "List.map_filter sent (snd (pollOnce loc scan now s)) =
      (if Rev ps \<noteq> snap_Rev (Current s) \<and> sch_PublishURL s \<noteq> [] then [(sch_PublishToken s, Apply ps (to_unix now) (Current s))] else [])"
    by (rule poll_public)
  have s': "s' = fst (pollOnce loc scan now s)" "st' = fold (put_of marshal dec token arrives) (snd (pollOnce loc scan now s)) st" "arrives"
    using assms(3,4) Polled by (auto simp: lossless_def split_beta)
  show ?thesis
  proof (cases "Rev ps = snap_Rev (Current s)")
    case True
    have "same_version sn (Current s') = same_version sn (Current s)" for sn using True p(1) s'(1) by (simp add: same_version_def)
    moreover have "snap_Seq (Current s') = snap_Seq (Current s)" "st' = st" using True p(1,4) s' by (simp_all add: fold_put_of)
    ultimately show ?thesis using assms(1,2) p(2,3) s'(1) by (simp add: mirrored_def publishes_to_def)
  next
    case False
    have "takes marshal dec (Apply ps (to_unix now) (Current s))" using assms(5) p(1) s'(1) by simp
    then have "st' = \<lparr>rs_body = Some (marshal (Current s')), rs_rev = snap_Rev (Current s')\<rparr>"
      using p s' False assms(2) by (simp add: fold_put_of publishes_to_def takes_def put_stores)
    moreover have "seq < snap_Seq (Current s')" using assms(1) p(1) s'(1) False by (auto simp: mirrored_def split: if_splits)
    ultimately show ?thesis using p(2,3) s'(1) assms(2) by (auto simp: mirrored_def same_version_def publishes_to_def)
  qed
next
  case (Reconfigured fs order d)
  then show ?thesis using assms by auto
next
  case ReceiverRestarted
  then show ?thesis using assms(3) by (simp add: lossless_def)
qed

lemma mirror_run_Cons: "mirror_run marshal dec token (e # es) w = mirror_run marshal dec token es (mirror marshal dec token e w)"
  by (simp add: mirror_run_def)

lemma mirrored_run:
  assumes "mirrored marshal seq (Current s) st" "publishes_to token s" "list_all lossless es"
    and "\<And>k. k \<le> length es \<Longrightarrow> takes marshal dec (Current (fst (mirror_run marshal dec token (take k es) (s, st))))"
    and "mirror_run marshal dec token es (s, st) = (s', st')"
  shows "mirrored marshal seq (Current s') st'"
  using assms
proof (induction es arbitrary: s st)
  case Nil
  then show ?case by (simp add: mirror_run_def)
next
  case (Cons e es)
  obtain s1 st1 where m: "mirror marshal dec token e (s, st) = (s1, st1)" by fastforce
  have t: "takes marshal dec (Current (fst (mirror_run marshal dec token (take k es) (s1, st1))))" if "k \<le> length es" for k
    using Cons.prems(4) [of "Suc k"] that by (simp add: mirror_run_Cons m)
  have "takes marshal dec (Current s1)" using t [of 0] by (simp add: mirror_run_def)
  then have "mirrored marshal seq (Current s1) st1 \<and> publishes_to token s1"
    using Cons.prems(3) by (intro mirror_step [OF Cons.prems(1,2) _ m]) simp_all
  then show ?case using Cons.IH [OF _ _ _ t] Cons.prems(3,5) by (simp add: mirror_run_Cons m)
qed


lemma mirrored_get:
  assumes "mirrored marshal seq cur st"
  shows "if snap_Seq cur = seq then handleGet token (authorization token) inm st = NoSnapshot
    else \<exists>sn. same_version sn cur \<and>
      handleGet token (authorization token) inm st =
        (let etag = [CHR 0x22] @ snap_Rev cur @ [CHR 0x22] in
         if rcv_etagMatch inm (snap_Rev cur) then Unchanged etag else Body etag (marshal sn))"
  using assms
  by (auto simp: mirrored_def handleGet_def empty_store_def same_version_def Let_def split: if_splits)

text \<open>
  C17: as long as no \<open>PUT\<close> is lost, the receiver serves what the agent serves.  Through any sequence of polls
  and of changes of fetchers, order and interval, a reader with the token gets 404 if the agent has not
  changed since the receiver was started, and otherwise the revision of the agent as ETag, a 304 exactly if it
  sent that revision, and else a snapshot with the sequence number, the revision and the time of the last
  change of the agent's own.
\<close>

theorem receiver_follows_agent:
  assumes "sch_PublishURL s \<noteq> []" "sch_PublishToken s = token" "list_all lossless es"
    and "\<And>k. k \<le> length es \<Longrightarrow> takes marshal dec (Current (fst (mirror_run marshal dec token (take k es) (s, empty_store))))"
    and "mirror_run marshal dec token es (s, empty_store) = (s', st')"
  shows "if snap_Seq (Current s') = snap_Seq (Current s) then handleGet token (authorization token) inm st' = NoSnapshot
    else \<exists>sn. same_version sn (Current s') \<and>
      handleGet token (authorization token) inm st' =
        (let etag = [CHR 0x22] @ snap_Rev (Current s') @ [CHR 0x22] in
         if rcv_etagMatch inm (snap_Rev (Current s')) then Unchanged etag else Body etag (marshal sn))"
proof -
  have "mirrored marshal (snap_Seq (Current s)) (Current s) empty_store" by (simp add: mirrored_def)
  moreover have "publishes_to token s" using assms(1,2) by (simp add: publishes_to_def)
  ultimately show ?thesis using mirrored_run [OF _ _ assms(3-5)] by (intro mirrored_get) simp
qed

text \<open>A revision that hashes nothing, marshalled as itself, polled twice.\<close>

definition mirror_sched :: "(unit, unit) sched" where
  "mirror_sched = (NewScheduler () [] (900 * Second) [])\<lparr>sch_PublishURL := ''http://box:8766/v1/usage'', sch_PublishToken := ''t''\<rparr>"

theorem receiver_follows_agent_witness:
  "handleGet ''t'' (authorization ''t'') [] (snd (mirror_run snap_Rev Some ''t'' [Polled (\<lambda>_. 0) (\<lambda>i. (i, None)) 0 True] (mirror_sched, empty_store)))
     \<notin> {Unauthorized, InvalidSnapshot}"
proof -
  let ?es = "[Polled (\<lambda>_. 0) (\<lambda>i :: unit. (i, None :: unit option)) 0 True]"
  obtain ps where ps: "Current (fst (pollOnce (\<lambda>_. 0) (\<lambda>i. (i, None)) 0 mirror_sched)) = Apply ps (to_unix 0) (Current mirror_sched)"
    by (rule poll_public)
  have start: "snap_Rev (Current mirror_sched) = []" by (simp add: mirror_sched_def NewScheduler_def Current_def empty_state_def empty_snapshot_def)
  have len: "length (Rev ps) \<le> rcv_limit" by (simp add: Rev_def rcv_limit_def)
  have "takes snap_Rev Some (Current (fst (mirror_run snap_Rev Some ''t'' (take k ?es) (mirror_sched, empty_store))))" if "k \<le> length ?es" for k
    using that ps start len by (cases k) (simp_all add: takes_def mirror_run_def split_beta)
  moreover have "sch_PublishURL mirror_sched \<noteq> []" "sch_PublishToken mirror_sched = ''t''" "list_all lossless ?es"
    by (simp_all add: mirror_sched_def lossless_def)
  ultimately show ?thesis
    using receiver_follows_agent [where s = mirror_sched and token = "''t''" and es = ?es and marshal = snap_Rev and dec = Some
      and inm = "[]" and s' = "fst (mirror_run snap_Rev Some ''t'' ?es (mirror_sched, empty_store))"
      and st' = "snd (mirror_run snap_Rev Some ''t'' ?es (mirror_sched, empty_store))"]
    by (auto simp: Let_def split: if_splits)
qed

subsection \<open>What is lost stays lost\<close>

lemma mirror_seq:
  assumes "mirror marshal dec token e (s, st) = (s', st')"
  shows "snap_Seq (Current s) \<le> snap_Seq (Current s') \<and>
    (snap_Seq (Current s') = snap_Seq (Current s) \<longrightarrow> e \<noteq> ReceiverRestarted \<longrightarrow> st' = st)"
proof (cases e)
  case (Polled loc scan now arrives)
  obtain ps where p: "Current (fst (pollOnce loc scan now s)) = Apply ps (to_unix now) (Current s)"
    "List.map_filter sent (snd (pollOnce loc scan now s)) =
      (if Rev ps \<noteq> snap_Rev (Current s) \<and> sch_PublishURL s \<noteq> [] then [(sch_PublishToken s, Apply ps (to_unix now) (Current s))] else [])"
    by (rule poll_public)
  then show ?thesis using assms Polled by (auto simp: split_beta fold_put_of)
qed (use assms in auto)

lemma mirror_run_seq:
  assumes "mirror_run marshal dec token es (s, st) = (s', st')"
  shows "snap_Seq (Current s) \<le> snap_Seq (Current s') \<and>
    (snap_Seq (Current s') = snap_Seq (Current s) \<longrightarrow> ReceiverRestarted \<notin> set es \<longrightarrow> st' = st)"
  using assms
proof (induction es arbitrary: s st)
  case Nil
  then show ?case by (simp add: mirror_run_def)
next
  case (Cons e es)
  obtain s1 st1 where m: "mirror marshal dec token e (s, st) = (s1, st1)" by fastforce
  have "mirror_run marshal dec token es (s1, st1) = (s', st')" using Cons.prems by (simp add: mirror_run_Cons m)
  from Cons.IH [OF this] mirror_seq [OF m] show ?case by auto
qed

text \<open>
  What the receiver did not get or forgot is not sent again.  The agent publishes only when the revision
  changes, whether the last \<open>PUT\<close> arrived or not, and the receiver keeps the snapshot in memory only: after
  a restart of the receiver, however often the agent polls, a reader gets 404 as long as the agent does not
  change, and after a lost \<open>PUT\<close> it gets what was stored before.
\<close>

theorem lost_snapshot_stays_lost:
  assumes "mirror_run marshal dec token es (s, st) = (s', st')" "ReceiverRestarted \<notin> set es"
    and "snap_Seq (Current s') = snap_Seq (Current s)"
  shows "st' = st \<and> (st = empty_store \<longrightarrow> handleGet token (authorization token) inm st' = NoSnapshot)"
  using mirror_run_seq [OF assms(1)] assms(2,3) by (simp add: handleGet_def empty_store_def)

text \<open>The agent is polled twice with nothing new after the restart.\<close>

theorem lost_snapshot_stays_lost_witness:
  "\<exists>s. snd (mirror_run snap_Rev Some ''t'' [Polled (\<lambda>_. 0) (\<lambda>i. (i, None)) 0 True, Polled (\<lambda>_. 0) (\<lambda>i. (i, None)) 1 True]
     (s :: (unit, unit) sched, empty_store)) = empty_store \<and> sch_PublishURL s \<noteq> []"
proof -
  define s :: "(unit, unit) sched" where "s = mirror_sched\<lparr>sch_State := empty_state\<lparr>st_Snapshot := empty_snapshot\<lparr>snap_Rev := Rev []\<rparr>\<rparr>\<rparr>"
  let ?es = "[Polled (\<lambda>_. 0) (\<lambda>i :: unit. (i, None :: unit option)) 0 True, Polled (\<lambda>_. 0) (\<lambda>i. (i, None)) 1 True]"
  have none: "sch_Fetchers t = [] \<Longrightarrow> snap_Rev (Current t) = Rev [] \<Longrightarrow>
      snap_Rev (Current (fst (pollOnce loc scan now t))) = Rev [] \<and> snap_Seq (Current (fst (pollOnce loc scan now t))) = snap_Seq (Current t) \<and>
      sch_Fetchers (fst (pollOnce loc scan now t)) = []" for loc scan now and t :: "(unit, unit) sched"
    by (simp add: pollOnce_def apply_poll_def poll_results_def Let_def split_beta scanStats_def Current_def List.map_filter_def orderProviders_def split: option.split)
  have s: "sch_Fetchers s = []" "snap_Rev (Current s) = Rev []" by (simp_all add: s_def mirror_sched_def NewScheduler_def Current_def)
  have "snap_Seq (Current (fst (mirror_run snap_Rev Some ''t'' ?es (s, empty_store)))) = snap_Seq (Current s)"
    using none [OF s] none by (simp add: mirror_run_def split_beta)
  then have "snd (mirror_run snap_Rev Some ''t'' ?es (s, empty_store)) = empty_store"
    using lost_snapshot_stays_lost [of snap_Rev Some "''t''" ?es s empty_store] by (cases "mirror_run snap_Rev Some ''t'' ?es (s, empty_store)") auto
  moreover have "sch_PublishURL s \<noteq> []" by (simp add: s_def mirror_sched_def)
  ultimately show ?thesis by blast
qed

text \<open>A stored object without a revision is answered with 304 even to a reader that has nothing.\<close>

lemma empty_rev_is_not_sent:
  "handlePut (\<lambda>_. Some []) token (authorization token) ''{}'' st = (st', r) \<Longrightarrow>
   handleGet token (authorization token) [] st' = Unchanged [CHR 0x22, CHR 0x22]"
proof -
  assume "handlePut (\<lambda>_. Some []) token (authorization token) ''{}'' st = (st', r)"
  then have "st' = \<lparr>rs_body = Some (take rcv_limit ''{}''), rs_rev = []\<rparr>" by (simp add: handlePut_def Let_def)
  moreover have "rcv_etagMatch [] []" by code_simp
  ultimately show ?thesis by (simp add: handleGet_def)
qed

end
