(* ===== verification/Stats_Race.thy ===== *)
theory Stats_Race
  imports Api_Server
begin

text \<open>
  Several \<open>GET /v1/stats\<close> at once.  \<open>http.Server\<close> runs every request in a goroutine of its own, and the copy
  \<open>CurrentStats\<close> makes of the report shares the map of the sources, so the loops of \<open>ApplyPlanValues\<close> range
  over one map and write to it with no lock.  The Go runtime ends the whole process when it sees a map
  written or ranged over while another goroutine is writing to it.
\<close>

subsection \<open>The loops\<close>

text \<open>A loop is at the sources it still has to visit, or in the middle of the write of one of them.\<close>

datatype loop = Ranging "string list" | Writing string "string list"

record race =
  ra_loops :: "nat \<Rightarrow> loop"
  ra_sources :: "(string \<times> source) list"
  ra_fatal :: bool

definition plan_applies :: "(string \<times> planParams) list \<Rightarrow> string \<Rightarrow> bool" where
  "plan_applies plans n = (case map_of plans n of None \<Rightarrow> False | Some p \<Rightarrow> pp_Cost p \<noteq> 0)"

definition is_writing :: "loop \<Rightarrow> bool" where
  "is_writing l = (case l of Writing _ _ \<Rightarrow> True | Ranging _ \<Rightarrow> False)"

definition other_writes :: "nat \<Rightarrow> nat \<Rightarrow> race \<Rightarrow> bool" where
  "other_writes requests k w \<longleftrightarrow> list_ex (\<lambda>j. j \<noteq> k \<and> is_writing (ra_loops w j)) [0..<requests]"

definition write_source :: "(string \<times> planParams) list \<Rightarrow> string \<Rightarrow> (string \<times> source) list \<Rightarrow> (string \<times> source) list" where
  "write_source plans n m = (case map_of m n of None \<Rightarrow> m
     | Some src \<Rightarrow> AList.update n (snd (with_plan_value plans (n, src))) m)"

inductive race_step :: "(string \<times> planParams) list \<Rightarrow> nat \<Rightarrow> race \<Rightarrow> race \<Rightarrow> bool" for plans :: "(string \<times> planParams) list" and requests :: nat where
  next_source:
    "k < requests \<Longrightarrow> \<not> ra_fatal w \<Longrightarrow> \<not> other_writes requests k w \<Longrightarrow> ra_loops w k = Ranging (n # ns) \<Longrightarrow> \<not> plan_applies plans n \<Longrightarrow>
     race_step plans requests w (w\<lparr>ra_loops := (ra_loops w)(k := Ranging ns)\<rparr>)"
| begin_write:
    "k < requests \<Longrightarrow> \<not> ra_fatal w \<Longrightarrow> \<not> other_writes requests k w \<Longrightarrow> ra_loops w k = Ranging (n # ns) \<Longrightarrow> plan_applies plans n \<Longrightarrow>
     race_step plans requests w (w\<lparr>ra_loops := (ra_loops w)(k := Writing n ns)\<rparr>)"
| end_write:
    "k < requests \<Longrightarrow> \<not> ra_fatal w \<Longrightarrow> ra_loops w k = Writing n ns \<Longrightarrow>
     race_step plans requests w (w\<lparr>ra_loops := (ra_loops w)(k := Ranging ns), ra_sources := write_source plans n (ra_sources w)\<rparr>)"
| caught:
    "k < requests \<Longrightarrow> \<not> ra_fatal w \<Longrightarrow> other_writes requests k w \<Longrightarrow> ra_loops w k = Ranging (n # ns) \<Longrightarrow>
     race_step plans requests w (w\<lparr>ra_fatal := True\<rparr>)"

inductive_cases race_stepE: "race_step plans requests v w"

text \<open>The order in which each loop ranges over the sources is free.\<close>

definition race_start :: "(nat \<Rightarrow> string list) \<Rightarrow> (string \<times> source) list \<Rightarrow> race" where
  "race_start order m = \<lparr>ra_loops = (\<lambda>k. Ranging (order k)), ra_sources = m, ra_fatal = False\<rparr>"

abbreviation race_reaches :: "(string \<times> planParams) list \<Rightarrow> nat \<Rightarrow> race \<Rightarrow> race \<Rightarrow> bool" where
  "race_reaches plans requests \<equiv> (race_step plans requests)\<^sup>*\<^sup>*"

subsection \<open>When the process ends\<close>

lemma other_writes_iff: "other_writes requests k w \<longleftrightarrow> (\<exists>j < requests. j \<noteq> k \<and> is_writing (ra_loops w j))"
  by (auto simp: other_writes_def list_ex_iff)

definition sources_in :: "string set \<Rightarrow> loop \<Rightarrow> bool" where
  "sources_in A l = (case l of Ranging ns \<Rightarrow> set ns \<subseteq> A | Writing n ns \<Rightarrow> n \<in> A \<and> set ns \<subseteq> A)"

definition race_inv :: "(string \<times> planParams) list \<Rightarrow> nat \<Rightarrow> string set \<Rightarrow> race \<Rightarrow> bool" where
  "race_inv plans requests A w \<longleftrightarrow>
     (\<forall>k < requests. sources_in A (ra_loops w k) \<and>
        (is_writing (ra_loops w k) \<longrightarrow> (\<exists>n \<in> A. plan_applies plans n))) \<and>
     (ra_fatal w \<longrightarrow> 2 \<le> requests \<and> (\<exists>n \<in> A. plan_applies plans n))"

lemma race_inv_step: "race_step plans requests v w \<Longrightarrow> race_inv plans requests A v \<Longrightarrow> race_inv plans requests A w"
proof (induction rule: race_step.induct)
  case (next_source k w n ns)
  then have "sources_in A (ra_loops w k)" unfolding race_inv_def by blast
  then have "set ns \<subseteq> A" using next_source(4) by (simp add: sources_in_def)
  then show ?case using next_source by (auto simp: race_inv_def sources_in_def is_writing_def)
next
  case (begin_write k w n ns)
  then have "sources_in A (ra_loops w k)" unfolding race_inv_def by blast
  then have "n \<in> A" "set ns \<subseteq> A" using begin_write(4) by (simp_all add: sources_in_def)
  then show ?case using begin_write by (auto simp: race_inv_def sources_in_def)
next
  case (end_write k w n ns)
  then have "sources_in A (ra_loops w k)" unfolding race_inv_def by blast
  then have "set ns \<subseteq> A" using end_write(3) by (simp add: sources_in_def)
  then show ?case using end_write by (auto simp: race_inv_def sources_in_def is_writing_def)
next
  case (caught k w n ns)
  then obtain j where j: "j < requests" "j \<noteq> k" "is_writing (ra_loops w j)" by (auto simp: other_writes_iff)
  then have "2 \<le> requests" using caught(1) by linarith
  then show ?case using caught(5) j by (auto simp: race_inv_def)
qed

lemma race_inv_reached: "race_reaches plans requests v w \<Longrightarrow> race_inv plans requests A v \<Longrightarrow> race_inv plans requests A w"
  by (induction rule: rtranclp_induct) (auto intro: race_inv_step)

text \<open>The first loop alone comes to the write of a source whose plan applies.\<close>

lemma reaches_write:
  assumes "0 < requests" "\<not> ra_fatal w" "\<not> other_writes requests 0 w" "ra_loops w 0 = Ranging ns" "\<exists>n \<in> set ns. plan_applies plans n"
  shows "\<exists>v n rest. race_reaches plans requests w v \<and> \<not> ra_fatal v \<and> ra_loops v 0 = Writing n rest \<and>
    (\<forall>j. j \<noteq> 0 \<longrightarrow> ra_loops v j = ra_loops w j)"
  using assms
proof (induction ns arbitrary: w)
  case (Cons n ns)
  show ?case
  proof (cases "plan_applies plans n")
    case True
    let ?v = "w\<lparr>ra_loops := (ra_loops w)(0 := Writing n ns)\<rparr>"
    have "race_step plans requests w ?v" using Cons.prems True by (intro begin_write) simp_all
    then show ?thesis using Cons.prems(2) by (intro exI [of _ ?v] exI [of _ n] exI [of _ ns]) auto
  next
    case False
    let ?v = "w\<lparr>ra_loops := (ra_loops w)(0 := Ranging ns)\<rparr>"
    have s: "race_step plans requests w ?v" using Cons.prems False by (intro next_source) simp_all
    have "\<not> other_writes requests 0 ?v" using Cons.prems(3) by (auto simp: other_writes_iff)
    then obtain u m rest where u: "race_reaches plans requests ?v u" "\<not> ra_fatal u" "ra_loops u 0 = Writing m rest"
        "\<forall>j. j \<noteq> 0 \<longrightarrow> ra_loops u j = ra_loops ?v j"
      using Cons.IH [of ?v] Cons.prems False by auto
    have "race_reaches plans requests w u" using s u(1) by (rule converse_rtranclp_into_rtranclp)
    then show ?thesis using u by auto
  qed
qed simp

lemma race_reached:
  assumes "2 \<le> requests" "\<exists>n \<in> A. plan_applies plans n" "\<And>k. set (order k) = A"
  shows "\<exists>w. race_reaches plans requests (race_start order m) w \<and> ra_fatal w"
proof -
  let ?s = "race_start order m"
  have "\<exists>v n rest. race_reaches plans requests ?s v \<and> \<not> ra_fatal v \<and> ra_loops v 0 = Writing n rest \<and>
      (\<forall>j. j \<noteq> 0 \<longrightarrow> ra_loops v j = ra_loops ?s j)"
    using assms by (intro reaches_write) (auto simp: race_start_def other_writes_iff is_writing_def)
  then obtain v n rest where v: "race_reaches plans requests ?s v" "\<not> ra_fatal v" "ra_loops v 0 = Writing n rest"
      "ra_loops v 1 = Ranging (order 1)" by (auto simp: race_start_def)
  obtain x xs where x: "order 1 = x # xs" using assms(2,3) by (metis all_not_in_conv list.exhaust set_empty)
  have "other_writes requests 1 v" unfolding other_writes_iff using assms(1) v(3) by (intro exI [of _ 0]) (simp add: is_writing_def)
  then have "race_step plans requests v (v\<lparr>ra_fatal := True\<rparr>)"
    using assms(1) v x by (intro caught [of 1]) simp_all
  then have "race_reaches plans requests ?s (v\<lparr>ra_fatal := True\<rparr>)" using v(1) by simp
  then show ?thesis by (intro exI [of _ "v\<lparr>ra_fatal := True\<rparr>"]) simp
qed

text \<open>
  C19: concurrent requests for the statistics can end the daemon.  The Go runtime's fatal error is reachable
  exactly when at least two requests are in their loops together and some scanned source has a plan that
  costs something, which the built-in plans of Claude and Codex do; one request alone never meets it.
\<close>

theorem stats_race_iff:
  assumes "\<And>k. set (order k) = fst ` set m"
  shows "(\<exists>w. race_reaches plans requests (race_start order m) w \<and> ra_fatal w) \<longleftrightarrow>
    2 \<le> requests \<and> (\<exists>n \<in> fst ` set m. plan_applies plans n)"
proof
  assume "\<exists>w. race_reaches plans requests (race_start order m) w \<and> ra_fatal w"
  then obtain w where w: "race_reaches plans requests (race_start order m) w" "ra_fatal w" by blast
  have "race_inv plans requests (fst ` set m) (race_start order m)"
    using assms by (simp add: race_inv_def race_start_def sources_in_def is_writing_def)
  from race_inv_reached [OF w(1) this] show "2 \<le> requests \<and> (\<exists>n \<in> fst ` set m. plan_applies plans n)"
    using w(2) by (simp add: race_inv_def)
next
  assume "2 \<le> requests \<and> (\<exists>n \<in> fst ` set m. plan_applies plans n)"
  then show "\<exists>w. race_reaches plans requests (race_start order m) w \<and> ra_fatal w"
    using race_reached [of requests "fst ` set m" plans order m] assms by blast
qed

text \<open>The default configuration and one source, Claude Code.\<close>

theorem stats_race_iff_witness:
  "\<forall>src. \<exists>w. race_reaches (planParamsMap (default_config (\<lambda>_. True))) 2
     (race_start (\<lambda>_. [''claude_code'']) [(''claude_code'', src)]) w \<and> ra_fatal w"
proof
  fix src
  have "plan_applies (planParamsMap (default_config (\<lambda>_. True))) ''claude_code''" by code_simp
  then show "\<exists>w. race_reaches (planParamsMap (default_config (\<lambda>_. True))) 2
     (race_start (\<lambda>_. [''claude_code'']) [(''claude_code'', src)]) w \<and> ra_fatal w"
    using stats_race_iff [of "\<lambda>_. [''claude_code'']" "[(''claude_code'', src)]" "planParamsMap (default_config (\<lambda>_. True))" 2] by simp
qed

end
