(* ===== verification/Spec2Isabelle.thy ===== *)
theory Spec2Isabelle
  imports Snapshot Advise Ble_Wire Api_Auth Api_Tracker Providers Sched Api_Settings Stats_Facts Api_Setup_Facts Mdns_Life Ble_Scan Ble_Setup Once Cli_Stats Cli_Serve
    Receiver Stats_Race
begin

text \<open>
  \<^bold>\<open>The program.\<close>  usaged polls the providers of AI subscriptions on a Mac, keeps one versioned snapshot
  of their usage and serves it over HTTP: to a dashboard in the browser of the same machine, and to small
  devices on the local network, which poll it with a token.  \<open>usaged serve\<close> loads the configuration
  (internal/config), builds one fetcher per provider (internal/providers over internal/httpx and
  internal/creds), starts the scheduler (internal/sched), the HTTP server (internal/api) and the mDNS
  responder that lets a device find the Mac (internal/mdns).  The scheduler polls on a timer, applies the
  blocks to the snapshot (internal/snapshot), asks internal/advise which plan to use next, orders the
  blocks and, now and then, scans the transcripts of the coding agents for tokens and costs
  (internal/stats).  Over Bluetooth the page sets up a device: internal/bleprov gathers the network name,
  the passphrase and the address of this Mac, has the server issue a token, and writes one record to the
  device, which decodes it in firmware/src/usage/bleprov.cpp.  \<open>usaged once\<close>, \<open>usaged stats\<close> and \<open>usaged
  config\<close> are the commands that run without a server, and contrib/receiver is a second program that
  serves the snapshots pushed to it.

  \<^bold>\<open>Conventions.\<close>  Every definition that stands for code has the name of the code it is a translation of,
  with a suffix or a prefix where HOL or another package has that name already.  A struct is a \<open>record\<close>
  whose fields have a short prefix, an enum a \<open>datatype\<close>.  A Go string is a \<open>string\<close> of bytes; the bytes on a wire
  are \<open>8 word\<close>.  \<open>uint8\<close>, \<open>uint16\<close> and \<open>uint32\<close> are words; \<open>int\<close>, \<open>int64\<close> and \<open>time.Duration\<close> are \<open>int\<close>,
  with \<open>wrap64\<close> where an overflow can be reached, and \<open>64 word\<close> in the token counts of the statistics.  A
  \<open>float64\<close> is the rational it denotes, rounded by \<open>fl\<close> after every operation.  A time is a number of
  nanoseconds.  An error is a value of a datatype on the left of a sum, and \<open>bind_result\<close> is the early
  return.  A Go map is a function, or an association list where the code ranges over it; the order of
  such a range is the order of the list, or an argument, and a result that does not depend on it is
  proved not to.  A method is a function from the state of its receiver to a result and the new state.
  Goroutines are \<open>inductive\<close> step relations in which a section under a mutex is one step.  What a system
  call, a remote host, a random source, the clock or a decoder of JSON gives back is an argument, so a
  theorem holds for all of it unless it names an assumption.

  \<^bold>\<open>What the standard library does\<close> is in the theories \<open>Go_*\<close>.  \<open>Go_Prelude\<close>: results, bytes, prefixes,
  trimming, the case tables of Unicode as a parameter.  \<open>Go_Sort\<close>: stable sorting by a \<open>less\<close> function, the
  locale \<open>keyed_order\<close> and the insertion sort.  \<open>Go_Sha256\<close>: the hash of the snapshot's revision.
  \<open>Go_Files\<close>: a file written beside its target and renamed over it, every system call with its outcome,
  a crash among them.  \<open>Go_Float\<close>, \<open>Go_Time\<close>, \<open>Go_Date\<close>: floats, durations, calendar dates and
  \<open>time.Parse\<close>.  \<open>Go_Net\<close>: \<open>SplitHostPort\<close>, \<open>ParseIP\<close>, loopback.  \<open>Go_Path\<close>: cleaning and joining paths, and
  the choice of \<open>http.ServeMux\<close>.

  \<^bold>\<open>The components.\<close>
  \<^item> \<open>Snapshot\<close> (internal/snapshot): the document, its state with revision and sequence number, \<open>Apply\<close>,
    \<open>Validate\<close>, the hash.  \<open>Apply\<close> keeps the revision exactly when no hashed field changed.
  \<^item> \<open>Advise\<close> (internal/advise): scores, paces and \<open>Rank\<close>.  The winner is described without the algorithm, and
    the figures stay in their ranges in spite of rounding.
  \<^item> \<open>Format\<close> (internal/format): tiers, severities, texts, and the table of \<open>usaged once\<close>.
  \<^item> \<open>Httpx\<close>, \<open>Creds\<close> (internal/httpx, internal/creds): retries, the statuses, the fixture transport, and
    where the two plan providers find their tokens.  \<open>Providers\<close> (internal/providers): the six fetchers.
  \<^item> \<open>Sched\<close> (internal/sched): \<open>pollOnce\<close> with cooldowns, stale blocks, advice, ordering and statistics.  The
    concurrent fetches are a step relation; every schedule ends, and every one ends as the sequential poll
    does.  A poll keeps the snapshot valid.
  \<^item> \<open>Config\<close>, \<open>Config_Yaml\<close>, \<open>Config_Text\<close> (internal/config): flags over environment over file over
    defaults; the restricted YAML and its printer.  \<open>Config_Text\<close> proves that a saved file loads.
  \<^item> \<open>Stats_Model\<close>, \<open>Stats_Scan\<close>, \<open>Stats_Facts\<close>, \<open>Stats_Race\<close> (internal/stats and \<open>/v1/stats\<close>): prices, plan
    values, the incremental scan of transcripts with its index.  The sums of the report agree, a Codex
    rollout that grew is counted exactly, a Claude transcript that grew loses its first part on the third
    scan, and two concurrent requests can write the same Go map.
  \<^item> \<open>Api_Auth\<close> (auth.go, pairing.go, key routes and limiter of server.go), \<open>Api_Tracker\<close> (accesslog.go and
    \<open>/v1/usage\<close>), \<open>Api_Settings\<close> (\<open>/v1/config\<close>), \<open>Api_Setup\<close>, \<open>Api_Setup_Run\<close>, \<open>Api_Setup_Facts\<close> (setup.go) and
    \<open>Api_Server\<close>, \<open>Api_Server_Facts\<close> (the server as a whole, \<open>New\<close> and \<open>ServeHTTP\<close> with every handler).  Who is
    served, what is written on every outcome of every system call, what a request without a token can
    see, the codes of each route, the invariant of the setup channel and that it becomes idle again.
  \<^item> \<open>Ble_Device\<close> (firmware/src/usage/bleprov.cpp), \<open>Ble_Wire\<close> (wire.go), \<open>Ble_Central\<close>, \<open>Ble_Central_Facts\<close>,
    \<open>Ble_Scan\<close> (central.go), \<open>Ble_Creds\<close>, \<open>Ble_Creds_Facts\<close> (creds.go, creds_darwin.go), \<open>Ble_Setup\<close> (cmd/usaged/bleprov.go).
    The record arrives as it was sent; Mac and device agree on what a valid record is; the device's
    buffer is never overrun; a run writes in the order of the protocol whatever the radio does and leaves
    nothing behind if it fails; and a device that was set up is served.
  \<^item> \<open>Mdns_Wire\<close>, \<open>Mdns_Codec\<close>, \<open>Mdns_Service\<close>, \<open>Mdns_Responder\<close>, \<open>Mdns_Life\<close> (internal/mdns): messages and
    their compression, the service's records, the read loop, and the life of the goroutines until \<open>Close\<close>.
  \<^item> \<open>Once\<close>, \<open>Cli_Stats\<close>, \<open>Cli_Serve\<close> (cmd/usaged, keystore.go): the commands.  \<open>Cli_Serve\<close> puts the scheduler and
    the server together; its invariant covers all that happens until the signal to stop.
  \<^item> \<open>Receiver\<close> (contrib/receiver): the receiver and the agent that pushes to it, composed.

  \<^bold>\<open>Interfaces.\<close>  A locale states what one part relies on in another and is interpreted where that part is
  defined.  \<open>strict_weak_order\<close> and \<open>keyed_order\<close> say what makes a sorted list unique, for each order the
  code sorts with.  \<open>durable_store\<close> is what a caller may expect of a saved file, crashes included, and is
  given by \<open>atomic_save\<close> and by the save of the configuration.  \<open>wire_codec\<close> gives the round trip of a list of questions or of
  records from that of one.  \<open>chunk_receiver\<close> is what the sender of a record relies on and the decoder of the
  device gives.  \<open>key_store\<close> is what the key routes rely on, given by \<open>FakeKeyStore\<close> and by the keychain of
  macOS.

  \<^bold>\<open>Bounds and fuel.\<close>  Recursion is structural or has a \<open>termination\<close> proof by a measure; no function is
  partial.  The only fuel is that of \<open>ipv6_groups\<close>, one unit per group of two bytes, of which an address has
  eight.  The limits in the definitions, such as the sixteen pointers of a compressed mDNS name and the 512
  bytes of the device's buffer, are those of the code.
  Loops that wait for a notification or a timer run over the finite list of events before their deadline;
  the loop that reads packets runs over the packets it gets.

  \<^bold>\<open>Not modelled.\<close>  The text of JSON documents (a decoder is a parameter, a reply is the value that is
  marshalled); the HTTP protocol below a request and a reply, and percent escapes in paths; sockets, their
  options and network timeouts; the text of log lines; the signal handler; the HTML and JavaScript of
  the page, of which only the choice of file is modelled; the Bluetooth library and the commands of
  macOS, which are parameters; central_other.go and creds_other.go, which refuse everything on other
  systems; jwttest.go, a helper of the tests; and the firmware apart from the decoder, which draws screens.
\<close>

end
